(* ===== verification/Prelude.thy ===== *)
theory Prelude
  imports Complex_Main "HOL-Library.AList" "HOL-Library.Sublist"
    "HOL-Library.Char_ord" "HOL-Library.List_Lexorder"
begin

text \<open>
  What every component shares: the Python values that arrive as JSON, the
  exceptions the sources raise, ordered dictionaries, deques, the string
  operations the sources use, and the lemmas about them.

  Python's \<open>int\<close> is \<open>int\<close>; a \<open>float\<close> is a \<open>real\<close> (exact arithmetic, no
  rounding; the places where the sources use \<open>math.nan\<close> carry an \<open>option\<close>);
  a \<open>str\<close> is a \<open>string\<close>; a \<open>dict\<close> with string keys is an association list in
  insertion order, read by \<open>map_of\<close> and written by \<open>AList.update\<close>, which
  keeps the position of a key it overwrites and appends a new one, as CPython does.
\<close>

named_theorems model_defs \<open>definitions that proofs of a component unfold\<close>
named_theorems inv_intros \<open>preservation of the components' invariants\<close>

section \<open>Exceptions\<close>

datatype py_error =
    ValueError string
  | TypeError string
  | LookupError string
  | KeyError string
  | IndexError
  | AttributeError string
  | NameError string
  | NotImplementedError string
  | RuntimeError string
  | StructuredOutputError string
  | ReError string
  | FileNotFoundError string

type_synonym 'a res = "py_error + 'a"

fun res_bind :: "'a res \<Rightarrow> ('a \<Rightarrow> 'b res) \<Rightarrow> 'b res" where
  "res_bind (Inl e) f = Inl e"
| "res_bind (Inr a) f = f a"

lemma res_bind_eq_Inr [simp]: "res_bind r f = Inr b \<longleftrightarrow> (\<exists>a. r = Inr a \<and> f a = Inr b)"
  by (cases r) auto

lemma res_bind_eq_Inl: "res_bind r f = Inl e \<longleftrightarrow> r = Inl e \<or> (\<exists>a. r = Inr a \<and> f a = Inl e)"
  by (cases r) auto

section \<open>JSON values\<close>

datatype pyval =
    PNone
  | PBool bool
  | PInt int
  | PFloat real
  | PStr string
  | PList "pyval list"
  | PDict "(string \<times> pyval) list"

type_synonym dict = "(string \<times> pyval) list"

text \<open>\<open>float(v) if isinstance(v, (int, float)) else None\<close>; a \<open>bool\<close> is an \<open>int\<close> in Python.\<close>

fun num_of :: "pyval \<Rightarrow> real option" where
  "num_of (PBool b) = Some (if b then 1 else 0)"
| "num_of (PInt i) = Some (of_int i)"
| "num_of (PFloat r) = Some r"
| "num_of _ = None"

fun str_of :: "pyval \<Rightarrow> string option" where
  "str_of (PStr s) = Some s"
| "str_of _ = None"

fun truthy :: "pyval \<Rightarrow> bool" where
  "truthy PNone = False"
| "truthy (PBool b) = b"
| "truthy (PInt i) = (i \<noteq> 0)"
| "truthy (PFloat r) = (r \<noteq> 0)"
| "truthy (PStr s) = (s \<noteq> [])"
| "truthy (PList xs) = (xs \<noteq> [])"
| "truthy (PDict d) = (d \<noteq> [])"

text \<open>\<open>d.get(k)\<close> is \<open>map_of d k\<close>; these read it at a type.\<close>

definition get_str :: "dict \<Rightarrow> string \<Rightarrow> string option" where
  "get_str d k = Option.bind (map_of d k) str_of"

definition get_num :: "dict \<Rightarrow> string \<Rightarrow> real option" where
  "get_num d k = Option.bind (map_of d k) num_of"

definition get_def :: "('k \<times> 'v) list \<Rightarrow> 'k \<Rightarrow> 'v \<Rightarrow> 'v" where
  "get_def d k v = (case map_of d k of None \<Rightarrow> v | Some x \<Rightarrow> x)"

lemma get_str_Some [simp]: "get_str d k = Some s \<longleftrightarrow> map_of d k = Some (PStr s)"
proof -
  have "str_of v = Some s \<longleftrightarrow> v = PStr s" for v by (cases v) auto
  then show ?thesis by (cases "map_of d k") (auto simp: get_str_def)
qed

lemma get_def_Nil [simp]: "get_def [] k v = v"
  by (simp add: get_def_def)

lemma get_def_Cons [simp]: "get_def ((k', x) # d) k v = (if k' = k then x else get_def d k v)"
  by (simp add: get_def_def)

lemma update_fresh: "k \<notin> fst ` set d \<Longrightarrow> AList.update k v d = d @ [(k, v)]"
  by (induction d) auto

section \<open>Lists, deques and maxima\<close>

lemma map_filter_append [simp]:
  "List.map_filter f (xs @ ys) = List.map_filter f xs @ List.map_filter f ys"
  by (simp add: map_filter_def)

lemma in_map_filter: "y \<in> set (List.map_filter f xs) \<longleftrightarrow> (\<exists>x \<in> set xs. f x = Some y)"
  by (induction xs) (auto simp: List.map_filter_simps split: option.splits)


definition last_n :: "nat \<Rightarrow> 'a list \<Rightarrow> 'a list" where
  "last_n n xs = drop (length xs - n) xs"

text \<open>\<open>collections.deque(maxlen=m)\<close>: an append to a full deque drops the oldest entry.\<close>

definition dq_append :: "nat \<Rightarrow> 'a \<Rightarrow> 'a list \<Rightarrow> 'a list" where
  "dq_append m x xs = last_n m (xs @ [x])"

lemma length_last_n [simp]: "length (last_n n xs) = min n (length xs)"
  by (auto simp: last_n_def)

lemma last_n_all: "length xs \<le> n \<Longrightarrow> last_n n xs = xs"
  by (simp add: last_n_def)

lemma last_n_Nil [simp]: "last_n n [] = []"
  by (simp add: last_n_def)

lemma set_last_n_subset: "set (last_n n xs) \<subseteq> set xs"
  by (simp add: last_n_def set_drop_subset)

lemma suffix_last_n: "suffix (last_n n xs) xs"
  by (simp add: last_n_def suffix_drop)

lemma last_n_last_n: "last_n n (last_n n xs @ ys) = last_n n (xs @ ys)"
proof -
  have e: "last_n n xs = drop (length xs - n) xs" by (simp add: last_n_def)
  show ?thesis
  proof (cases "length xs \<le> n")
    case True
    then show ?thesis by (simp add: last_n_all)
  next
    case False
    then show ?thesis by (simp add: last_n_def add.commute)
  qed
qed

lemma foldl_dq_append: "foldl (\<lambda>b x. dq_append m x b) (last_n m xs) ys = last_n m (xs @ ys)"
proof (induction ys rule: rev_induct)
  case Nil
  then show ?case by simp
next
  case (snoc y ys)
  have "dq_append m y (last_n m (xs @ ys)) = last_n m ((xs @ ys) @ [y])"
    unfolding dq_append_def by (rule last_n_last_n)
  with snoc show ?case by simp
qed

lemma length_dq_append: "length (dq_append m x xs) \<le> m"
  by (simp add: dq_append_def)

lemma distinct_subseq: "subseq xs ys \<Longrightarrow> distinct ys \<Longrightarrow> distinct xs"
  unfolding subseq_conv_nths by auto

text \<open>\<open>max(xs, key=f)\<close> returns the first element whose key is largest.\<close>

fun first_max :: "('a \<Rightarrow> 'b::linorder) \<Rightarrow> 'a \<Rightarrow> 'a list \<Rightarrow> 'a" where
  "first_max f b [] = b"
| "first_max f b (x # xs) = (if f b < f x then first_max f x xs else first_max f b xs)"

fun max_by :: "('a \<Rightarrow> 'b::linorder) \<Rightarrow> 'a list \<Rightarrow> 'a option" where
  "max_by f [] = None"
| "max_by f (x # xs) = Some (first_max f x xs)"

lemma first_max_in: "first_max f b xs \<in> insert b (set xs)"
  by (induction xs arbitrary: b) auto

lemma first_max_ge: "y \<in> insert b (set xs) \<Longrightarrow> f y \<le> f (first_max f b xs)"
proof (induction xs arbitrary: b y)
  case Nil
  then show ?case by simp
next
  case (Cons x xs)
  show ?case
  proof (cases "f b < f x")
    case True
    from Cons.prems consider "y = b" | "y \<in> insert x (set xs)" by auto
    then show ?thesis
    proof cases
      case 1
      with True Cons.IH [of x x] show ?thesis by simp
    next
      case 2
      with True Cons.IH show ?thesis by simp
    qed
  next
    case False
    from Cons.prems consider "y = x" | "y \<in> insert b (set xs)" by auto
    then show ?thesis
    proof cases
      case 1
      with False Cons.IH [of b b] show ?thesis by simp
    next
      case 2
      with False Cons.IH show ?thesis by simp
    qed
  qed
qed

lemma max_by_SomeD: "max_by f xs = Some m \<Longrightarrow> m \<in> set xs \<and> (\<forall>y \<in> set xs. f y \<le> f m)"
  using first_max_in [of f] first_max_ge [of _ _ _ f] by (cases xs) fastforce+

lemma max_by_None [simp]: "max_by f xs = None \<longleftrightarrow> xs = []"
  by (cases xs) auto

text \<open>\<open>sorted(set(xs))\<close> on strings: code point order, as the lexicographic order of \<open>char list\<close>.\<close>

definition sorted_set :: "'a::linorder list \<Rightarrow> 'a list" where
  "sorted_set xs = sort (remdups xs)"

lemma set_sorted_set [simp]: "set (sorted_set xs) = set xs"
  by (simp add: sorted_set_def)

lemma distinct_sorted_set [simp]: "distinct (sorted_set xs)"
  by (simp add: sorted_set_def)

lemma sorted_sorted_set [simp]: "sorted (sorted_set xs)"
  by (simp add: sorted_set_def)

lemma sorted_set_cong: "set xs = set ys \<Longrightarrow> sorted_set xs = sorted_set ys"
  by (rule sorted_distinct_set_unique) simp_all

section \<open>Strings\<close>

text \<open>\<open>s.split(c)\<close> for a one-character separator: never empty, the empty string splits into one
  empty part.\<close>

fun split_on :: "char \<Rightarrow> string \<Rightarrow> string list" where
  "split_on c [] = [[]]"
| "split_on c (x # xs) =
     (if x = c then [] # split_on c xs
      else case split_on c xs of [] \<Rightarrow> [[x]] | w # ws \<Rightarrow> (x # w) # ws)"

fun join_with :: "string \<Rightarrow> string list \<Rightarrow> string" where
  "join_with sep [] = []"
| "join_with sep [w] = w"
| "join_with sep (w # ws) = w @ sep @ join_with sep ws"

lemma split_on_not_Nil [simp]: "split_on c s \<noteq> []"
  by (induction s) (auto split: list.splits)

lemma join_split_on: "join_with [c] (split_on c s) = s"
proof (induction s)
  case Nil
  then show ?case by simp
next
  case (Cons x s)
  obtain w ws where w: "split_on c s = w # ws" by (cases "split_on c s") auto
  with Cons show ?case by (cases ws) auto
qed

lemma split_on_no_sep: "c \<notin> set w \<Longrightarrow> split_on c w = [w]"
  by (induction w) auto

lemma split_on_append:
  "c \<notin> set w \<Longrightarrow> split_on c (w @ c # s) = w # split_on c s"
  by (induction w) auto

text \<open>\<open>s.removeprefix(p)\<close>; \<open>startswith\<close> and \<open>endswith\<close> are the library's \<open>prefix\<close> and
  \<open>suffix\<close>, \<open>p in s\<close> its \<open>sublist\<close>.\<close>

definition remove_prefix :: "string \<Rightarrow> string \<Rightarrow> string" where
  "remove_prefix p s = (if prefix p s then drop (length p) s else s)"

lemma remove_prefix_append [simp]: "remove_prefix p (p @ s) = s"
  by (simp add: remove_prefix_def)

definition is_space :: "char \<Rightarrow> bool" where
  "is_space c = (let n = of_char c :: nat in
     (9 \<le> n \<and> n \<le> 13) \<or> (28 \<le> n \<and> n \<le> 32) \<or> n = 133 \<or> n = 160)"

definition lstrip :: "string \<Rightarrow> string" where
  "lstrip s = dropWhile is_space s"

definition rstrip :: "string \<Rightarrow> string" where
  "rstrip s = rev (dropWhile is_space (rev s))"

definition strip :: "string \<Rightarrow> string" where
  "strip s = rstrip (lstrip s)"

text \<open>Case mapping on ASCII letters; the strings it is applied to (SQL, verdicts, tags) are compared
  with ASCII words only.\<close>

definition upper_char :: "char \<Rightarrow> char" where
  "upper_char c = (let n = of_char c :: nat in if 97 \<le> n \<and> n \<le> 122 then char_of (n - 32) else c)"

definition lower_char :: "char \<Rightarrow> char" where
  "lower_char c = (let n = of_char c :: nat in if 65 \<le> n \<and> n \<le> 90 then char_of (n + 32) else c)"

definition upper :: "string \<Rightarrow> string" where
  "upper s = map upper_char s"

definition lower :: "string \<Rightarrow> string" where
  "lower s = map lower_char s"

text \<open>Upper case on the bits of a character, which evaluates without arithmetic.\<close>

lemma upper_char_bits [code]:
  "upper_char (Char b0 b1 b2 b3 b4 b5 b6 b7) =
     (if \<not> b7 \<and> b6 \<and> b5 \<and> (b0 \<or> b1 \<or> b2 \<or> b3 \<or> b4) \<and> \<not> (b4 \<and> b3 \<and> (b2 \<or> b1 \<and> b0))
      then Char b0 b1 b2 b3 b4 False b6 b7 else Char b0 b1 b2 b3 b4 b5 b6 b7)"
  by (cases b0; cases b1; cases b2; cases b3; cases b4; cases b5; cases b6; cases b7;
      simp add: upper_char_def of_char_def char_of_def bit_iff_odd Let_def)

lemma upper_append [simp]: "upper (s @ t) = upper s @ upper t"
  by (simp add: upper_def)

lemma length_upper [simp]: "length (upper s) = length s"
  by (simp add: upper_def)

text \<open>\<open>str(n)\<close> and the format \<open>{n:02d}\<close>.\<close>

definition digit :: "nat \<Rightarrow> char" where
  "digit d = char_of (48 + d)"

fun str_of_nat :: "nat \<Rightarrow> string" where
  "str_of_nat n = (if n < 10 then [digit n] else str_of_nat (n div 10) @ [digit (n mod 10)])"

declare str_of_nat.simps [simp del]

definition str_of_int :: "int \<Rightarrow> string" where
  "str_of_int i = (if i < 0 then CHR ''-'' # str_of_nat (nat (- i)) else str_of_nat (nat i))"

definition two_digits :: "nat \<Rightarrow> string" where
  "two_digits n = (if n < 10 then CHR ''0'' # str_of_nat n else str_of_nat n)"

text \<open>Decimal digits and the number they spell.\<close>

definition is_digit :: "char \<Rightarrow> bool" where
  "is_digit c = (let n = of_char c :: nat in 48 \<le> n \<and> n \<le> 57)"

lemma digit_plain: "n < 10 \<Longrightarrow> is_digit (digit n)"
  by (simp add: is_digit_def digit_def Let_def)

lemma str_of_nat_digits: "c \<in> set (str_of_nat n) \<Longrightarrow> is_digit c"
proof (induction n rule: str_of_nat.induct)
  case (1 n)
  then show ?case
    by (cases "n < 10") (auto simp: str_of_nat.simps [of n] digit_plain)
qed

definition nat_of_digits :: "string \<Rightarrow> nat" where
  "nat_of_digits s = foldl (\<lambda>n c. 10 * n + (of_char c - 48)) 0 s"

section \<open>Numbers\<close>

text \<open>\<open>int(x)\<close> on a float truncates towards zero; \<open>round(x)\<close> rounds to the nearest integer, ties to
  the even one.\<close>

definition py_trunc :: "real \<Rightarrow> int" where
  "py_trunc x = (if x < 0 then \<lceil>x\<rceil> else \<lfloor>x\<rfloor>)"

definition py_round :: "real \<Rightarrow> int" where
  "py_round x =
     (let f = \<lfloor>x\<rfloor>; d = x - of_int f
      in if d < 1 / 2 then f else if 1 / 2 < d then f + 1 else if even f then f else f + 1)"

lemma py_trunc_of_int [simp]: "py_trunc (of_int i) = i"
  by (simp add: py_trunc_def)

lemma py_trunc_nonneg: "0 \<le> x \<Longrightarrow> 0 \<le> py_trunc x \<and> of_int (py_trunc x) \<le> x \<and> x < of_int (py_trunc x) + 1"
  by (simp add: py_trunc_def)

text \<open>\<open>float(v)\<close>; \<open>fos\<close> stands for the conversion of a text, \<open>None\<close> where it raises.\<close>

fun py_float :: "(string \<Rightarrow> real option) \<Rightarrow> pyval \<Rightarrow> real res" where
  "py_float fos (PBool b) = Inr (if b then 1 else 0)"
| "py_float fos (PInt i) = Inr (of_int i)"
| "py_float fos (PFloat r) = Inr r"
| "py_float fos (PStr s) =
     (case fos s of None \<Rightarrow> Inl (ValueError ''could not convert string to float'') | Some r \<Rightarrow> Inr r)"
| "py_float fos _ = Inl (TypeError ''float() argument must be a string or a real number'')"

text \<open>\<open>int(v)\<close> of a JSON value; a text is a decimal literal with single underscores between digits.\<close>

definition int_of_str :: "string \<Rightarrow> int option" where
  "int_of_str s0 =
     (let s = strip s0;
          (sign, body) = (case s of
             [] \<Rightarrow> (1, [])
           | c # cs \<Rightarrow> if c = CHR ''-'' then (- 1, cs) else if c = CHR ''+'' then (1, cs) else (1, s));
          groups = split_on CHR ''_'' body
      in if list_all (\<lambda>g. g \<noteq> [] \<and> list_all is_digit g) groups
         then Some (sign * int (nat_of_digits (concat groups))) else None)"

fun py_int :: "pyval \<Rightarrow> int res" where
  "py_int (PBool b) = Inr (if b then 1 else 0)"
| "py_int (PInt i) = Inr i"
| "py_int (PFloat r) = Inr (py_trunc r)"
| "py_int (PStr s) =
     (case int_of_str s of None \<Rightarrow> Inl (ValueError ''invalid literal for int()'') | Some i \<Rightarrow> Inr i)"
| "py_int _ = Inl (TypeError ''int() argument must be a string or a real number'')"

text \<open>The format \<open>{x:.2f}\<close>.\<close>

definition fixed2 :: "real \<Rightarrow> string" where
  "fixed2 x =
     (let n = nat (py_round (100 * \<bar>x\<bar>))
      in (if x < 0 then ''-'' else []) @ str_of_nat (n div 100) @ ''.'' @ two_digits (n mod 100))"

text \<open>\<open>str(u)\<close> of a UUID: 32 hexadecimal digits in groups of 8, 4, 4, 4 and 12.\<close>

definition hex_digit :: "nat \<Rightarrow> char" where
  "hex_digit d = (if d < 10 then char_of (48 + d) else char_of (87 + d))"

definition uuid_str :: "nat \<Rightarrow> string" where
  "uuid_str u =
     (let h = map (\<lambda>i. hex_digit (u div 16 ^ (31 - i) mod 16)) [0..<32]
      in take 8 h @ ''-'' @ take 4 (drop 8 h) @ ''-'' @ take 4 (drop 12 h) @ ''-''
         @ take 4 (drop 16 h) @ ''-'' @ drop 20 h)"

end
