(* ===== verification/Interfaces.thy ===== *)
theory Interfaces
  imports Prelude
begin

text \<open>
  The interfaces between components, as locales, and the effects a handler emits.

  A handler of an agent is a function from its state and an event to a new state and a list of
  \<open>effect\<close>s, the commands it sends to Redis and the HTTP posts it makes, in order. A command may fail; the sources wrap each
  group of commands in a \<open>try\<close> whose handler only logs, so the rest of the group is skipped
  (\<open>attempt\<close>) and the handler goes on.

  \<open>cooldown_gate\<close> is what Sentinel's duplicate suppression and the correlator's propagation
  cooldown have in common; \<open>redis_lists\<close> states the documented behaviour of the Redis commands
  behind the capped \<open>recent\<close> lists, and \<open>capped_log\<close> what a client gets from them.
\<close>

section \<open>Effects\<close>

datatype 'v effect =
    Publish string 'v
  | PublishStream string 'v
  | LPush string 'v
  | LTrim string int int
  | SetEx string 'v int
  | HttpPost string dict

text \<open>The commands sent inside one \<open>try\<close>: the first that fails ends the group.\<close>

fun attempt :: "('e \<Rightarrow> bool) \<Rightarrow> 'e list \<Rightarrow> 'e list" where
  "attempt ok [] = []"
| "attempt ok (e # es) = e # (if ok e then attempt ok es else [])"

lemma prefix_attempt: "prefix (attempt ok es) es"
  by (induction es) auto

lemma set_attempt: "set (attempt ok es) \<subseteq> set es"
  using prefix_attempt by (rule set_mono_prefix)

lemma attempt_all: "(\<forall>e \<in> set es. ok e) \<Longrightarrow> attempt ok es = es"
  by (induction es) auto

section \<open>Cooldown gates\<close>

text \<open>The attempts \<open>(time, key)\<close> made in order, those not blocked fire and are returned.\<close>

fun gate_run :: "(real \<Rightarrow> 'k \<Rightarrow> 's \<Rightarrow> bool) \<Rightarrow> (real \<Rightarrow> 'k \<Rightarrow> 's \<Rightarrow> 's) \<Rightarrow> 's \<Rightarrow>
    (real \<times> 'k) list \<Rightarrow> (real \<times> 'k) list \<times> 's" where
  "gate_run blocked fire s [] = ([], s)"
| "gate_run blocked fire s ((t, k) # as) =
     (if blocked t k s then gate_run blocked fire s as
      else let (out, s') = gate_run blocked fire (fire t k s) as in ((t, k) # out, s'))"

lemma gate_run_append:
  "gate_run b f s (xs @ ys) =
     (let (o1, s1) = gate_run b f s xs; (o2, s2) = gate_run b f s1 ys in (o1 @ o2, s2))"
  by (induction b f s xs rule: gate_run.induct) (auto split: prod.splits)

definition spaced :: "real \<Rightarrow> (real \<times> 'k) list \<Rightarrow> bool" where
  "spaced w xs = sorted_wrt (\<lambda>a b. snd a = snd b \<longrightarrow> w \<le> fst b - fst a) xs"

locale cooldown_gate =
  fixes stamp :: "'s \<Rightarrow> 'k \<Rightarrow> real option"
    and blocked :: "real \<Rightarrow> 'k \<Rightarrow> 's \<Rightarrow> bool"
    and fire :: "real \<Rightarrow> 'k \<Rightarrow> 's \<Rightarrow> 's"
    and window :: real
  assumes blocked_None: "stamp s k = None \<Longrightarrow> \<not> blocked t k s"
    and blocked_Some: "stamp s k = Some t0 \<Longrightarrow> blocked t k s \<longleftrightarrow> t - t0 < window"
    and stamp_fire: "stamp (fire t k s) = (stamp s)(k \<mapsto> t)"
begin

lemma fires_after_stamp:
  assumes "0 \<le> window" and "x \<in> set (fst (gate_run blocked fire s as))"
    and "stamp s (snd x) = Some t0"
  shows "window \<le> fst x - t0"
  using assms(2,3)
proof (induction as arbitrary: s t0)
  case Nil
  then show ?case by simp
next
  case (Cons a as)
  obtain t k where a: "a = (t, k)" by (cases a)
  show ?case
  proof (cases "blocked t k s")
    case True
    with Cons a show ?thesis by simp
  next
    case False
    with Cons.prems a consider "x = (t, k)"
      | "x \<in> set (fst (gate_run blocked fire (fire t k s) as))"
      by (auto split: prod.splits)
    then show ?thesis
    proof cases
      case 1
      with False Cons.prems blocked_Some [of s k t0 t] show ?thesis by simp
    next
      case 2
      show ?thesis
      proof (cases "snd x = k")
        case True
        with 2 have "window \<le> fst x - t"
          using Cons.IH [of "fire t k s" t] by (simp add: stamp_fire)
        moreover have "window \<le> t - t0"
          using False True Cons.prems blocked_Some [of s k t0 t] by simp
        ultimately show ?thesis using assms(1) by linarith
      next
        case False
        with 2 Cons.prems show ?thesis
          using Cons.IH [of "fire t k s" t0] by (simp add: stamp_fire)
      qed
    qed
  qed
qed

lemma gate_run_spaced:
  assumes "0 \<le> window"
  shows "spaced window (fst (gate_run blocked fire s as))"
proof (induction as arbitrary: s)
  case Nil
  then show ?case by (simp add: spaced_def)
next
  case (Cons a as)
  obtain t k where a: "a = (t, k)" by (cases a)
  show ?case
  proof (cases "blocked t k s")
    case True
    with Cons a show ?thesis by simp
  next
    case False
    let ?out = "fst (gate_run blocked fire (fire t k s) as)"
    have "window \<le> fst x - t" if "x \<in> set ?out" "snd x = k" for x
      using that fires_after_stamp [OF assms that(1), of t] by (simp add: stamp_fire)
    with False Cons [of "fire t k s"] a show ?thesis
      by (auto simp: spaced_def split: prod.splits)
  qed
qed

lemma suppressed_recently_fired:
  assumes "(t, k) \<in> set as" "stamp s k = None"
  shows "\<exists>t'. (t', k) \<in> set (fst (gate_run blocked fire s as)) \<and> (t' = t \<or> t - t' < window)"
proof -
  have "(\<exists>t'. (t', k) \<in> set (fst (gate_run blocked fire s as)) \<and> (t' = t \<or> t - t' < window))
      \<or> (\<exists>t0. stamp s k = Some t0 \<and> t - t0 < window)"
    using assms(1)
  proof (induction as arbitrary: s)
    case Nil
    then show ?case by simp
  next
    case (Cons a as)
    obtain t1 k1 where a: "a = (t1, k1)" by (cases a)
    show ?case
    proof (cases "blocked t1 k1 s")
      case True
      show ?thesis
      proof (cases "(t, k) \<in> set as")
        case True
        with Cons.IH [of s] a \<open>blocked t1 k1 s\<close> show ?thesis by simp
      next
        case False
        with Cons.prems a have tk: "t1 = t" "k1 = k" by auto
        then obtain t0 where "stamp s k = Some t0"
          using True blocked_None by (cases "stamp s k") auto
        with True tk blocked_Some show ?thesis by blast
      qed
    next
      case False
      then have out: "set (fst (gate_run blocked fire s (a # as))) =
          insert (t1, k1) (set (fst (gate_run blocked fire (fire t1 k1 s) as)))"
        by (auto simp: a split: prod.splits)
      show ?thesis
      proof (cases "(t, k) \<in> set as")
        case True
        from Cons.IH [OF this, of "fire t1 k1 s"] show ?thesis
          unfolding out by (auto simp: stamp_fire split: if_splits)
      next
        case False
        with Cons.prems a show ?thesis unfolding out by auto
      qed
    qed
  qed
  with assms(2) show ?thesis by simp
qed

end

section \<open>Capped logs\<close>

locale capped_log =
  fixes push :: "'a \<Rightarrow> 's \<Rightarrow> 's" and view :: "'s \<Rightarrow> 'a list" and cap :: nat
  assumes view_push: "view (push x s) = take cap (x # view s)"
begin

lemma view_pushes:
  "length (view s) \<le> cap \<Longrightarrow> view (fold push xs s) = take cap (rev xs @ view s)"
proof (induction xs arbitrary: s)
  case Nil
  then show ?case by simp
next
  case (Cons x xs)
  have "view (fold push xs (push x s)) = take cap (rev xs @ take cap (x # view s))"
    by (subst Cons.IH) (simp_all add: view_push)
  then show ?case by (simp add: min_def)
qed

lemma length_view_pushes: "length (view s) \<le> cap \<Longrightarrow> length (view (fold push xs s)) \<le> cap"
  by (simp add: view_pushes)

lemma newest_first: "0 < cap \<Longrightarrow> \<exists>ys. view (push x s) = x # ys"
  by (cases cap) (simp_all add: view_push)

end

text \<open>
  Documented behaviour of Redis lists: LPUSH puts a value at the head of the list at a key; LTRIM
  with bounds 0 and a non-negative \<open>stop\<close> keeps the first \<open>stop + 1\<close> values; neither touches
  another key.
\<close>

locale redis_lists =
  fixes lpush :: "string \<Rightarrow> 'v \<Rightarrow> 's \<Rightarrow> 's"
    and ltrim :: "string \<Rightarrow> int \<Rightarrow> int \<Rightarrow> 's \<Rightarrow> 's"
    and lview :: "'s \<Rightarrow> string \<Rightarrow> 'v list"
  assumes lpush_law: "lview (lpush k v s) = (lview s)(k := v # lview s k)"
    and ltrim_law: "0 \<le> stop \<Longrightarrow>
      lview (ltrim k 0 stop s) = (lview s)(k := take (nat (stop + 1)) (lview s k))"

text \<open>What a list of effects does to the lists of a store; the other effects do not touch them.\<close>

fun run_lists :: "(string \<Rightarrow> 'v \<Rightarrow> 's \<Rightarrow> 's) \<Rightarrow> (string \<Rightarrow> int \<Rightarrow> int \<Rightarrow> 's \<Rightarrow> 's) \<Rightarrow>
    'v effect list \<Rightarrow> 's \<Rightarrow> 's" where
  "run_lists lpush ltrim [] s = s"
| "run_lists lpush ltrim (LPush k v # es) s = run_lists lpush ltrim es (lpush k v s)"
| "run_lists lpush ltrim (LTrim k a b # es) s = run_lists lpush ltrim es (ltrim k a b s)"
| "run_lists lpush ltrim (_ # es) s = run_lists lpush ltrim es s"

lemma run_lists_append:
  "run_lists lpush ltrim (xs @ ys) s = run_lists lpush ltrim ys (run_lists lpush ltrim xs s)"
  by (induction lpush ltrim xs s rule: run_lists.induct) auto

locale capped_redis_list = redis_lists lpush ltrim lview
  for lpush :: "string \<Rightarrow> 'v \<Rightarrow> 's \<Rightarrow> 's"
    and ltrim :: "string \<Rightarrow> int \<Rightarrow> int \<Rightarrow> 's \<Rightarrow> 's"
    and lview :: "'s \<Rightarrow> string \<Rightarrow> 'v list" +
  fixes key :: string and keep :: nat
  assumes keep_pos: "0 < keep"

sublocale capped_redis_list \<subseteq> clog: capped_log
  "\<lambda>v s. ltrim key 0 (int keep - 1) (lpush key v s)" "\<lambda>s. lview s key" keep
  using keep_pos by unfold_locales (simp add: lpush_law ltrim_law)

text \<open>The in-memory store the unit tests run against (one list per key).\<close>

definition mem_lpush :: "string \<Rightarrow> 'v \<Rightarrow> (string \<Rightarrow> 'v list) \<Rightarrow> (string \<Rightarrow> 'v list)" where
  "mem_lpush k v s = s(k := v # s k)"

definition mem_ltrim :: "string \<Rightarrow> int \<Rightarrow> int \<Rightarrow> (string \<Rightarrow> 'v list) \<Rightarrow> (string \<Rightarrow> 'v list)" where
  "mem_ltrim k start stop s =
     (let n = int (length (s k));
          a = (if start < 0 then max 0 (n + start) else start);
          b = (if stop < 0 then n + stop else stop)
      in s(k := take (nat (b + 1 - a)) (drop (nat a) (s k))))"

interpretation memory: redis_lists mem_lpush mem_ltrim "\<lambda>s. s"
  by unfold_locales (auto simp: mem_lpush_def mem_ltrim_def Let_def)

interpretation memory_log: capped_redis_list mem_lpush mem_ltrim "\<lambda>s. s" "''recent''" 50
  by unfold_locales simp

end
