(* ===== verification/Schema.thy ===== *)
theory Schema
  imports Interfaces
begin

text \<open>
  The universal telemetry payload (\<open>apps/ingestion/schema.py\<close>) and the events of the bus
  (\<open>apps/agents/shared/events.py\<close>).

  The enumerations are datatypes with the sources' constructors; \<open>metric_value\<close> and its kin are
  their \<open>value\<close>, \<open>metric_of\<close> the call of the enumeration's class, which raises on an unknown name
  (here \<open>None\<close>). A Pydantic model is a record; the constraints its \<open>Field\<close>s declare are a
  predicate, and building a value that breaks them is the \<open>ValueError\<close> Pydantic raises. Events
  share the envelope \<open>bus_event\<close> by record extension, as the classes share their base. A UUID is a
  number, an instant the seconds since the epoch.
\<close>

section \<open>Telemetry\<close>

datatype device_type = SERVER | GPU | SWITCH | PDU | CRAC | SENSOR

fun device_type_value :: "device_type \<Rightarrow> string" where
  "device_type_value SERVER = ''server''"
| "device_type_value GPU = ''gpu''"
| "device_type_value SWITCH = ''switch''"
| "device_type_value PDU = ''pdu''"
| "device_type_value CRAC = ''crac''"
| "device_type_value SENSOR = ''sensor''"

definition device_type_of :: "string \<Rightarrow> device_type option" where
  "device_type_of s =
     find (\<lambda>d. device_type_value d = s) [SERVER, GPU, SWITCH, PDU, CRAC, SENSOR]"

datatype severity = INFO | WARN | ERROR | CRITICAL

fun severity_value :: "severity \<Rightarrow> string" where
  "severity_value INFO = ''info''"
| "severity_value WARN = ''warn''"
| "severity_value ERROR = ''error''"
| "severity_value CRITICAL = ''critical''"

datatype canonical_metric =
    CPU_TEMP_CELSIUS | CPU_UTIL_PERCENT | MEM_USED_BYTES | MEM_ECC_CORRECTABLE
  | MEM_ECC_UNCORRECTABLE
  | GPU_TEMP_CELSIUS | GPU_UTIL_PERCENT | GPU_MEM_USED_BYTES | GPU_POWER_WATTS
  | GPU_ECC_CORRECTABLE | GPU_ECC_UNCORRECTABLE | GPU_XID_CODE
  | POWER_DRAW_WATTS | PSU_EFFICIENCY_PERCENT | PDU_LOAD_PERCENT
  | FAN_RPM | ENV_INLET_CELSIUS | ENV_OUTLET_CELSIUS | ENV_HUMIDITY_PERCENT
  | CRAC_SUPPLY_CELSIUS | CRAC_RETURN_CELSIUS | CRAC_FAN_PERCENT
  | DISK_REALLOCATED_SECTORS | DISK_PENDING_SECTORS | DISK_TEMP_CELSIUS
  | NET_BPS_IN | NET_BPS_OUT | NET_ERR_IN | NET_PORT_UP

fun metric_value :: "canonical_metric \<Rightarrow> string" where
  "metric_value CPU_TEMP_CELSIUS = ''cpu.temp.celsius''"
| "metric_value CPU_UTIL_PERCENT = ''cpu.util.percent''"
| "metric_value MEM_USED_BYTES = ''mem.used.bytes''"
| "metric_value MEM_ECC_CORRECTABLE = ''mem.ecc.correctable''"
| "metric_value MEM_ECC_UNCORRECTABLE = ''mem.ecc.uncorrectable''"
| "metric_value GPU_TEMP_CELSIUS = ''gpu.temp.celsius''"
| "metric_value GPU_UTIL_PERCENT = ''gpu.util.percent''"
| "metric_value GPU_MEM_USED_BYTES = ''gpu.mem.used.bytes''"
| "metric_value GPU_POWER_WATTS = ''gpu.power.watts''"
| "metric_value GPU_ECC_CORRECTABLE = ''gpu.ecc.correctable''"
| "metric_value GPU_ECC_UNCORRECTABLE = ''gpu.ecc.uncorrectable''"
| "metric_value GPU_XID_CODE = ''gpu.xid.code''"
| "metric_value POWER_DRAW_WATTS = ''power.draw.watts''"
| "metric_value PSU_EFFICIENCY_PERCENT = ''psu.efficiency.percent''"
| "metric_value PDU_LOAD_PERCENT = ''pdu.load.percent''"
| "metric_value FAN_RPM = ''fan.rpm''"
| "metric_value ENV_INLET_CELSIUS = ''env.inlet.celsius''"
| "metric_value ENV_OUTLET_CELSIUS = ''env.outlet.celsius''"
| "metric_value ENV_HUMIDITY_PERCENT = ''env.humidity.percent''"
| "metric_value CRAC_SUPPLY_CELSIUS = ''crac.supply.celsius''"
| "metric_value CRAC_RETURN_CELSIUS = ''crac.return.celsius''"
| "metric_value CRAC_FAN_PERCENT = ''crac.fan.percent''"
| "metric_value DISK_REALLOCATED_SECTORS = ''disk.reallocated.sectors''"
| "metric_value DISK_PENDING_SECTORS = ''disk.pending.sectors''"
| "metric_value DISK_TEMP_CELSIUS = ''disk.temp.celsius''"
| "metric_value NET_BPS_IN = ''net.bps.in''"
| "metric_value NET_BPS_OUT = ''net.bps.out''"
| "metric_value NET_ERR_IN = ''net.err.in''"
| "metric_value NET_PORT_UP = ''net.port.up''"

definition all_metrics :: "canonical_metric list" where
  "all_metrics =
    [CPU_TEMP_CELSIUS, CPU_UTIL_PERCENT, MEM_USED_BYTES, MEM_ECC_CORRECTABLE,
     MEM_ECC_UNCORRECTABLE, GPU_TEMP_CELSIUS, GPU_UTIL_PERCENT, GPU_MEM_USED_BYTES,
     GPU_POWER_WATTS, GPU_ECC_CORRECTABLE, GPU_ECC_UNCORRECTABLE, GPU_XID_CODE,
     POWER_DRAW_WATTS, PSU_EFFICIENCY_PERCENT, PDU_LOAD_PERCENT, FAN_RPM, ENV_INLET_CELSIUS,
     ENV_OUTLET_CELSIUS, ENV_HUMIDITY_PERCENT, CRAC_SUPPLY_CELSIUS, CRAC_RETURN_CELSIUS,
     CRAC_FAN_PERCENT, DISK_REALLOCATED_SECTORS, DISK_PENDING_SECTORS, DISK_TEMP_CELSIUS,
     NET_BPS_IN, NET_BPS_OUT, NET_ERR_IN, NET_PORT_UP]"

text \<open>\<open>CanonicalMetric(s)\<close>.\<close>

definition metric_of :: "string \<Rightarrow> canonical_metric option" where
  "metric_of s = find (\<lambda>m. metric_value m = s) all_metrics"

lemma all_metrics_complete [simp]: "m \<in> set all_metrics"
  by (cases m) (simp_all add: all_metrics_def)

lemma distinct_metric_values: "distinct (map metric_value all_metrics)"
  by (simp add: all_metrics_def)

lemma inj_metric_value: "inj metric_value"
proof
  fix a b
  assume "metric_value a = metric_value b"
  moreover have "inj_on metric_value (set all_metrics)"
    using distinct_metric_values by (simp add: distinct_map)
  ultimately show "a = b" by (auto dest: inj_onD)
qed

lemma metric_value_eq [simp]: "metric_value a = metric_value b \<longleftrightarrow> a = b"
  using inj_metric_value by (auto dest: injD)

lemma metric_of_eq_Some: "metric_of s = Some m \<longleftrightarrow> s = metric_value m"
proof
  assume "metric_of s = Some m"
  then show "s = metric_value m"
    by (auto simp: metric_of_def find_Some_iff)
next
  assume s: "s = metric_value m"
  have "\<exists>m'. metric_of s = Some m'"
    using s by (cases "metric_of s") (auto simp: metric_of_def find_None_iff)
  with s show "metric_of s = Some m"
    by (auto simp: metric_of_def find_Some_iff)
qed

lemma metric_of_eq_None: "metric_of s = None \<longleftrightarrow> s \<notin> set (map metric_value all_metrics)"
  by (auto simp: metric_of_def find_None_iff)

datatype pydatetime = Aware real | Naive real

record telemetry_event =
  te_timestamp :: pydatetime
  te_site_id :: string
  te_hall_id :: string
  te_rack_id :: string
  te_device_id :: string
  te_device_type :: device_type
  te_metric :: canonical_metric
  te_value :: pyval
  te_unit :: "string option"
  te_severity :: severity
  te_metadata :: dict

text \<open>\<open>_require_tz\<close>: a naive timestamp is refused, an aware one is the same instant in UTC.\<close>

fun require_tz :: "pydatetime \<Rightarrow> pydatetime res" where
  "require_tz (Naive t) = Inl (ValueError ''timestamp must be timezone-aware (UTC).'')"
| "require_tz (Aware t) = Inr (Aware t)"

fun scalar_value :: "pyval \<Rightarrow> bool" where
  "scalar_value (PInt i) = True"
| "scalar_value (PFloat r) = True"
| "scalar_value (PStr s) = True"
| "scalar_value _ = False"

text \<open>\<open>TelemetryEvent(...)\<close>: the four identifiers are non-empty, the value is a float, an int or a
  string, the timestamp is aware.\<close>

definition mk_telemetry_event :: "telemetry_event \<Rightarrow> telemetry_event res" where
  "mk_telemetry_event e =
     (if te_site_id e = [] \<or> te_hall_id e = [] \<or> te_rack_id e = [] \<or> te_device_id e = []
      then Inl (ValueError ''string_too_short'')
      else if \<not> scalar_value (te_value e) then Inl (ValueError ''union_error'')
      else res_bind (require_tz (te_timestamp e)) (\<lambda>t. Inr (e\<lparr>te_timestamp := t\<rparr>)))"

definition telemetry_ok :: "telemetry_event \<Rightarrow> bool" where
  "telemetry_ok e \<longleftrightarrow> te_site_id e \<noteq> [] \<and> te_hall_id e \<noteq> [] \<and> te_rack_id e \<noteq> [] \<and>
     te_device_id e \<noteq> [] \<and> scalar_value (te_value e) \<and> (\<exists>t. te_timestamp e = Aware t)"

lemma mk_telemetry_event_Inr: "mk_telemetry_event e = Inr e' \<longleftrightarrow> e' = e \<and> telemetry_ok e"
  by (cases "te_timestamp e") (auto simp: mk_telemetry_event_def telemetry_ok_def)

text \<open>What a subscriber without a model receives: the JSON object of the event as a \<open>dict\<close>
  (\<open>fmt\<close> prints the instant).\<close>

definition telemetry_dict :: "(real \<Rightarrow> string) \<Rightarrow> telemetry_event \<Rightarrow> dict" where
  "telemetry_dict fmt e =
    [(''timestamp'', PStr (fmt (case te_timestamp e of Aware t \<Rightarrow> t | Naive t \<Rightarrow> t))),
     (''site_id'', PStr (te_site_id e)), (''hall_id'', PStr (te_hall_id e)),
     (''rack_id'', PStr (te_rack_id e)), (''device_id'', PStr (te_device_id e)),
     (''device_type'', PStr (device_type_value (te_device_type e))),
     (''metric'', PStr (metric_value (te_metric e))), (''value'', te_value e),
     (''unit'', (case te_unit e of None \<Rightarrow> PNone | Some u \<Rightarrow> PStr u)),
     (''severity'', PStr (severity_value (te_severity e))),
     (''metadata'', PDict (te_metadata e))]"

section \<open>Bus events\<close>

datatype topic =
    TELEMETRY_ALL | PREDICTIONS_FAILURE | ALERTS_ALL | INCIDENTS_REPORT | RECOMMENDATIONS_ALL
  | ACTIONS_EXECUTED | ACTIONS_ROLLED_BACK | FORECASTS_ALL | QUERY_RESULT | AUDIT_EVENTS

fun topic_value :: "topic \<Rightarrow> string" where
  "topic_value TELEMETRY_ALL = ''telemetry.*''"
| "topic_value PREDICTIONS_FAILURE = ''predictions.failure''"
| "topic_value ALERTS_ALL = ''alerts.*''"
| "topic_value INCIDENTS_REPORT = ''incidents.report''"
| "topic_value RECOMMENDATIONS_ALL = ''recommendations.*''"
| "topic_value ACTIONS_EXECUTED = ''actions.executed''"
| "topic_value ACTIONS_ROLLED_BACK = ''actions.rolled_back''"
| "topic_value FORECASTS_ALL = ''forecasts.*''"
| "topic_value QUERY_RESULT = ''query.result''"
| "topic_value AUDIT_EVENTS = ''audit.events''"

type_synonym uuid = nat

record bus_event =
  ev_id :: uuid
  ev_timestamp :: real
  ev_site_id :: string
  ev_trace_id :: "uuid option"
  ev_parent_event_id :: "uuid option"
  ev_metadata :: dict

record predicted_failure = bus_event +
  pf_device_id :: string
  pf_device_type :: string
  pf_failure_kind :: string
  pf_probability :: real
  pf_horizon_hours :: real
  pf_evidence :: dict

record incident_report = bus_event +
  ir_incident_id :: uuid
  ir_affected_device_ids :: "string list"
  ir_top_hypotheses :: "dict list"
  ir_similar_past_incidents :: "uuid list"
  ir_confidence :: real
  ir_llm_cost_usd :: real
  ir_llm_model_used :: "string option"

record recommendation = bus_event +
  rec_id :: uuid
  rec_kind :: string
  rec_target_device_ids :: "string list"
  rec_parameters :: dict
  rec_estimated_impact :: "(string \<times> real) list"
  rec_confidence :: real
  rec_requires_human_approval :: bool

record action_executed = bus_event +
  ae_recommendation_id :: uuid
  ae_action_id :: uuid
  ae_success :: bool
  ae_response_payload :: dict
  ae_pre_action_kpis :: "(string \<times> real) list"

record action_rolled_back = bus_event +
  arb_action_id :: uuid
  arb_reason :: string
  arb_pre_action_kpis :: "(string \<times> real) list"
  arb_post_action_kpis :: "(string \<times> real) list"

record capacity_forecast = bus_event +
  cf_horizon_days :: int
  cf_series :: "(string \<times> real list) list"
  cf_confidence_intervals :: "(string \<times> (real \<times> real) list) list"

record budget_exceeded = bus_event +
  bx_agent :: string
  bx_spent_usd :: real
  bx_budget_usd :: real
  bx_backend :: string

record query_result = bus_event +
  qr_request_id :: uuid
  qr_question :: string
  qr_answer_text :: string
  qr_sql_executed :: "string option"
  qr_chart_spec :: "dict option"
  qr_sources :: "dict list"
  qr_llm_cost_usd :: real

record incident_vision_addendum = bus_event +
  va_incident_id :: "uuid option"
  va_finding_summary :: string
  va_affected_device_ids :: "string list"
  va_severity :: string
  va_confidence :: real
  va_evidence_observations :: "string list"

record rule_candidate = bus_event +
  rc_rule_id :: string
  rc_origin_site_id :: string
  rc_target_site_id :: string
  rc_failure_kind :: string
  rc_origin_confidence :: real
  rc_shadow_until :: real
  rc_occurrence_count :: int
  rc_sample_device_ids :: "string list"

text \<open>The constraints the models declare (\<open>ge=0.0, le=1.0\<close>).\<close>

definition unit_interval :: "real \<Rightarrow> bool" where
  "unit_interval x \<longleftrightarrow> 0 \<le> x \<and> x \<le> 1"

definition predicted_failure_ok :: "predicted_failure \<Rightarrow> bool" where
  "predicted_failure_ok e \<longleftrightarrow> unit_interval (pf_probability e) \<and> 0 \<le> pf_horizon_hours e"

definition incident_report_ok :: "incident_report \<Rightarrow> bool" where
  "incident_report_ok e \<longleftrightarrow> unit_interval (ir_confidence e)"

definition recommendation_ok :: "recommendation \<Rightarrow> bool" where
  "recommendation_ok e \<longleftrightarrow> unit_interval (rec_confidence e)"

definition rule_candidate_ok :: "rule_candidate \<Rightarrow> bool" where
  "rule_candidate_ok e \<longleftrightarrow> unit_interval (rc_origin_confidence e)"

lemma unit_interval_clamp: "unit_interval (min 1 (max 0 x))"
  by (simp add: unit_interval_def)

text \<open>One type for what travels on the bus.\<close>

datatype bus_msg =
    MTelemetry telemetry_event
  | MPredicted predicted_failure
  | MIncident incident_report
  | MRecommendation recommendation
  | MExecuted action_executed
  | MRolledBack action_rolled_back
  | MForecast capacity_forecast
  | MBudget budget_exceeded
  | MQueryResult query_result
  | MVision incident_vision_addendum
  | MRuleCandidate rule_candidate

text \<open>The envelope an agent fills: what the event's base class takes from its defaults (a fresh id,
  the clock) and from the call.\<close>

definition envelope :: "uuid \<Rightarrow> real \<Rightarrow> string \<Rightarrow> uuid option \<Rightarrow> uuid option \<Rightarrow> dict \<Rightarrow> bus_event" where
  "envelope eid now site trace parent md =
     \<lparr>ev_id = eid, ev_timestamp = now, ev_site_id = site, ev_trace_id = trace,
      ev_parent_event_id = parent, ev_metadata = md\<rparr>"

section \<open>The catalogue\<close>

text \<open>The metric catalogue is a bijection between the enumeration and its 29 names: parsing a
  printed metric gives it back, a name that parses is the printed form of its metric, and every
  other string is refused.\<close>

lemma metric_catalogue_roundtrip:
  "metric_of (metric_value m) = Some m \<and>
   (metric_of s = Some m' \<longleftrightarrow> s = metric_value m') \<and>
   (metric_of s = None \<longleftrightarrow> s \<notin> metric_value ` UNIV) \<and>
   card (range metric_value) = 29"
proof -
  have U: "(UNIV :: canonical_metric set) = set all_metrics" by auto
  have "card (range metric_value) = card (set (map metric_value all_metrics))"
    by (simp add: U)
  also have "\<dots> = length (map metric_value all_metrics)"
    by (rule distinct_card [OF distinct_metric_values])
  also have "\<dots> = 29" by (simp add: all_metrics_def)
  finally show ?thesis
    by (simp add: metric_of_eq_Some metric_of_eq_None U del: set_map) (simp add: U)
qed

end
