(* ===== verification/Window.thy ===== *)
theory Window
  imports Schema
begin

text \<open>
  The per-device telemetry windows of the Sentinel agent (\<open>apps/agents/sentinel/window.py\<close>).

  A window is a deque of at most \<open>maxlen\<close> events, a \<open>WindowStore\<close> a dictionary of windows by
  device. Every read (\<open>recent\<close>, \<open>__len__\<close>) first evicts from the head, so it returns the new
  window beside its result. The clock is an argument, and so is \<open>fromiso\<close>, which stands for
  \<open>datetime.fromisoformat\<close> (\<open>None\<close> where it raises \<open>ValueError\<close>); the lemmas hold for every such
  function. A window holds what the bus yields, dictionaries decoded from JSON, so a timestamp
  is never a \<open>datetime\<close> object.
\<close>

type_synonym iso_parser = "string \<Rightarrow> pydatetime option"

definition DEFAULT_MAXLEN :: nat where "DEFAULT_MAXLEN = 128"
definition DEFAULT_MAX_AGE_S :: real where "DEFAULT_MAX_AGE_S = 300"

definition replace_Z :: "string \<Rightarrow> string" where
  "replace_Z s = concat (map (\<lambda>c. if c = CHR ''Z'' then ''+00:00'' else [c]) s)"

text \<open>A naive datetime is read as UTC.\<close>

fun parse_ts :: "iso_parser \<Rightarrow> pyval \<Rightarrow> real option" where
  "parse_ts fromiso (PStr s) =
     (case fromiso (replace_Z s) of
        None \<Rightarrow> None
      | Some (Aware t) \<Rightarrow> Some t
      | Some (Naive t) \<Rightarrow> Some t)"
| "parse_ts fromiso _ = None"

record device_window =
  dw_device_id :: string
  dw_buf :: "dict list"
  dw_maxlen :: nat
  dw_max_age_s :: real

definition new_window :: "string \<Rightarrow> nat \<Rightarrow> real \<Rightarrow> device_window" where
  "new_window device_id maxlen max_age_s =
     \<lparr>dw_device_id = device_id, dw_buf = [], dw_maxlen = maxlen, dw_max_age_s = max_age_s\<rparr>"

definition add :: "dict \<Rightarrow> device_window \<Rightarrow> device_window" where
  "add event w = w\<lparr>dw_buf := dq_append (dw_maxlen w) event (dw_buf w)\<rparr>"

text \<open>The \<open>while\<close> loop of \<open>_evict_stale\<close>: it stops at the first event that is fresh.\<close>

fun evict_loop :: "iso_parser \<Rightarrow> real \<Rightarrow> dict list \<Rightarrow> dict list" where
  "evict_loop fromiso cutoff [] = []"
| "evict_loop fromiso cutoff (e # es) =
     (case parse_ts fromiso (get_def e ''timestamp'' PNone) of
        None \<Rightarrow> evict_loop fromiso cutoff es
      | Some t \<Rightarrow> if cutoff \<le> t then e # es else evict_loop fromiso cutoff es)"

definition evict_stale :: "iso_parser \<Rightarrow> real \<Rightarrow> device_window \<Rightarrow> device_window" where
  "evict_stale fromiso now w =
     w\<lparr>dw_buf := evict_loop fromiso (now - dw_max_age_s w) (dw_buf w)\<rparr>"

definition recent :: "iso_parser \<Rightarrow> real \<Rightarrow> device_window \<Rightarrow> dict list \<times> device_window" where
  "recent fromiso now w = (let w' = evict_stale fromiso now w in (dw_buf w', w'))"

definition recent_for_metric ::
    "iso_parser \<Rightarrow> real \<Rightarrow> string \<Rightarrow> device_window \<Rightarrow> dict list \<times> device_window" where
  "recent_for_metric fromiso now metric w =
     (let (es, w') = recent fromiso now w
      in (filter (\<lambda>e. map_of e ''metric'' = Some (PStr metric)) es, w'))"

definition window_len :: "iso_parser \<Rightarrow> real \<Rightarrow> device_window \<Rightarrow> nat \<times> device_window" where
  "window_len fromiso now w = (let w' = evict_stale fromiso now w in (length (dw_buf w'), w'))"

record window_store =
  ws_maxlen :: nat
  ws_max_age_s :: real
  ws_windows :: "(string \<times> device_window) list"

definition new_store :: "nat \<Rightarrow> real \<Rightarrow> window_store" where
  "new_store maxlen max_age_s = \<lparr>ws_maxlen = maxlen, ws_max_age_s = max_age_s, ws_windows = []\<rparr>"

lemma new_store_fields [simp]:
  "ws_maxlen (new_store m age) = m" "ws_max_age_s (new_store m age) = age"
  by (simp_all add: new_store_def)

definition store_get :: "string \<Rightarrow> window_store \<Rightarrow> device_window option" where
  "store_get device_id st = map_of (ws_windows st) device_id"

definition store_put :: "string \<Rightarrow> device_window \<Rightarrow> window_store \<Rightarrow> window_store" where
  "store_put device_id w st = st\<lparr>ws_windows := AList.update device_id w (ws_windows st)\<rparr>"

definition ingest :: "dict \<Rightarrow> window_store \<Rightarrow> string option \<times> window_store" where
  "ingest event st =
     (case map_of event ''device_id'' of
        Some (PStr device_id) \<Rightarrow>
          let w = (case store_get device_id st of
                     None \<Rightarrow> new_window device_id (ws_maxlen st) (ws_max_age_s st)
                   | Some w \<Rightarrow> w)
          in (Some device_id, store_put device_id (add event w) st)
      | _ \<Rightarrow> (None, st))"

definition device_ids :: "window_store \<Rightarrow> string list" where
  "device_ids st = map fst (ws_windows st)"

definition total_events :: "iso_parser \<Rightarrow> real \<Rightarrow> window_store \<Rightarrow> nat \<times> window_store" where
  "total_events fromiso now st =
     (let ws = map (\<lambda>(k, w). (k, window_len fromiso now w)) (ws_windows st)
      in (sum_list (map (\<lambda>(k, n, w). n) ws),
          st\<lparr>ws_windows := map (\<lambda>(k, n, w). (k, w)) ws\<rparr>))"

definition store_len :: "window_store \<Rightarrow> nat" where
  "store_len st = length (ws_windows st)"

section \<open>Eviction\<close>

definition stale :: "iso_parser \<Rightarrow> real \<Rightarrow> dict \<Rightarrow> bool" where
  "stale fromiso cutoff e =
     (case parse_ts fromiso (get_def e ''timestamp'' PNone) of
        None \<Rightarrow> True | Some t \<Rightarrow> t < cutoff)"

lemma evict_loop_dropWhile: "evict_loop fromiso cutoff es = dropWhile (stale fromiso cutoff) es"
  by (induction es) (auto simp: stale_def split: option.splits)

lemma stale_mono: "c \<le> c' \<Longrightarrow> stale fromiso c e \<Longrightarrow> stale fromiso c' e"
  by (auto simp: stale_def split: option.splits)

lemma recent_simps [simp]:
  "fst (recent fromiso now w) = evict_loop fromiso (now - dw_max_age_s w) (dw_buf w)"
  "snd (recent fromiso now w) = evict_stale fromiso now w"
  by (simp_all add: recent_def evict_stale_def Let_def)

lemma recent_for_metric_simps [simp]:
  "fst (recent_for_metric fromiso now m w) =
     filter (\<lambda>e. map_of e ''metric'' = Some (PStr m)) (fst (recent fromiso now w))"
  "snd (recent_for_metric fromiso now m w) = evict_stale fromiso now w"
  by (simp_all add: recent_for_metric_def recent_def Let_def)

lemma evict_stale_fields [simp]:
  "dw_maxlen (evict_stale fromiso now w) = dw_maxlen w"
  "dw_max_age_s (evict_stale fromiso now w) = dw_max_age_s w"
  "dw_device_id (evict_stale fromiso now w) = dw_device_id w"
  by (simp_all add: evict_stale_def)

lemma evict_idem [simp]:
  "evict_stale fromiso now (evict_stale fromiso now w) = evict_stale fromiso now w"
  by (simp add: evict_stale_def evict_loop_dropWhile dropWhile_idem)

lemma length_evict_loop: "length (evict_loop fromiso c es) \<le> length es"
  by (simp add: evict_loop_dropWhile length_dropWhile_le)

text \<open>A head evicted by an earlier read would be evicted by a later one: dropping it early, and
  then letting the deque overflow, leaves the same events for the later read.\<close>

lemma dropWhile_last_n:
  assumes QP: "\<And>x. Q x \<Longrightarrow> P x"
  shows "dropWhile P (last_n m (dropWhile Q xs @ ys)) = dropWhile P (last_n m (xs @ ys))"
proof -
  let ?t = "takeWhile Q xs" and ?d = "dropWhile Q xs @ ys"
  have t: "\<forall>x \<in> set ?t. P x" using QP by (auto dest: set_takeWhileD)
  have xs: "xs @ ys = ?t @ ?d" by simp
  show ?thesis
  proof (cases "length ?d \<le> m")
    case True
    have "last_n m (?t @ ?d) = drop (length ?t + length ?d - m) ?t @ ?d"
      using True by (simp add: last_n_def)
    moreover have "\<forall>x \<in> set (drop (length ?t + length ?d - m) ?t). P x"
      using t by (meson in_set_dropD)
    ultimately have "dropWhile P (last_n m (?t @ ?d)) = dropWhile P ?d"
      by (simp add: dropWhile_append2)
    with True show ?thesis by (simp add: last_n_all flip: xs)
  next
    case False
    then have "last_n m (?t @ ?d) = last_n m ?d"
      by (simp add: last_n_def)
    then show ?thesis by (simp flip: xs)
  qed
qed

section \<open>Histories of a window\<close>

datatype window_op = Add dict | Read real

fun window_step :: "iso_parser \<Rightarrow> device_window \<Rightarrow> window_op \<Rightarrow> device_window" where
  "window_step fromiso w (Add e) = add e w"
| "window_step fromiso w (Read now) = snd (recent fromiso now w)"

definition window_run :: "iso_parser \<Rightarrow> device_window \<Rightarrow> window_op list \<Rightarrow> device_window" where
  "window_run fromiso = foldl (window_step fromiso)"

fun added :: "window_op list \<Rightarrow> dict list" where
  "added [] = []"
| "added (Add e # ops) = e # added ops"
| "added (Read t # ops) = added ops"

lemma added_append [simp]: "added (xs @ ys) = added xs @ added ys"
  by (induction xs rule: added.induct) auto

lemma window_run_fields [simp]:
  "dw_maxlen (window_run fromiso w ops) = dw_maxlen w"
  "dw_max_age_s (window_run fromiso w ops) = dw_max_age_s w"
  "dw_device_id (window_run fromiso w ops) = dw_device_id w"
proof (induction ops rule: rev_induct)
  case (snoc x xs)
  { case 1 with snoc show ?case by (cases x) (simp_all add: window_run_def add_def)
  next case 2 with snoc show ?case by (cases x) (simp_all add: window_run_def add_def)
  next case 3 with snoc show ?case by (cases x) (simp_all add: window_run_def add_def) }
qed (simp_all add: window_run_def)

lemma window_run_bounded:
  "length (dw_buf w) \<le> dw_maxlen w \<Longrightarrow>
   length (dw_buf (window_run fromiso w ops)) \<le> dw_maxlen w"
proof (induction ops rule: rev_induct)
  case Nil
  then show ?case by (simp add: window_run_def)
next
  case (snoc x xs)
  have f: "dw_maxlen (window_run fromiso w xs) = dw_maxlen w" by simp
  show ?case
  proof (cases x)
    case (Add e)
    with f length_dq_append show ?thesis
      by (simp add: window_run_def add_def)
  next
    case (Read now)
    with snoc length_evict_loop show ?thesis
      by (simp add: window_run_def evict_stale_def) (meson le_trans)
  qed
qed

lemma window_run_read:
  assumes "\<forall>t. Read t \<in> set ops \<longrightarrow> t \<le> now"
  shows "fst (recent fromiso now (window_run fromiso (new_window d m age) ops)) =
         evict_loop fromiso (now - age) (last_n m (added ops))"
  using assms
proof (induction ops arbitrary: now rule: rev_induct)
  case Nil
  then show ?case by (simp add: window_run_def new_window_def)
next
  case (snoc x xs)
  let ?w = "window_run fromiso (new_window d m age) xs"
  have w: "dw_maxlen ?w = m" "dw_max_age_s ?w = age" by (simp_all add: new_window_def)
  have IH: "dropWhile (stale fromiso (now - age)) (dw_buf ?w) =
            dropWhile (stale fromiso (now - age)) (last_n m (added xs))"
    using snoc.IH [of now] snoc.prems w by (simp add: evict_loop_dropWhile)
  show ?case
  proof (cases x)
    case (Add e)
    let ?P = "stale fromiso (now - age)"
    have "dropWhile ?P (last_n m (dw_buf ?w @ [e])) =
          dropWhile ?P (last_n m (dropWhile ?P (dw_buf ?w) @ [e]))"
      by (rule dropWhile_last_n [symmetric])
    also have "\<dots> = dropWhile ?P (last_n m (last_n m (added xs) @ [e]))"
      unfolding IH by (rule dropWhile_last_n)
    also have "\<dots> = dropWhile ?P (last_n m (added xs @ [e]))"
      by (simp add: last_n_last_n)
    finally show ?thesis
      using Add w by (simp add: window_run_def add_def dq_append_def evict_loop_dropWhile)
  next
    case (Read t)
    with snoc.prems have t: "t \<le> now" by simp
    have "dropWhile (stale fromiso (now - age)) (dropWhile (stale fromiso (t - age)) (dw_buf ?w)) =
          dropWhile (stale fromiso (now - age)) (dw_buf ?w)"
      using stale_mono [of "t - age" "now - age" fromiso] t
        dropWhile_last_n [of "stale fromiso (t - age)" "stale fromiso (now - age)"
          "length (dw_buf ?w)" "dw_buf ?w" "[]"]
      by (simp add: last_n_all length_dropWhile_le)
    with Read w IH show ?thesis
      by (simp add: window_run_def evict_stale_def evict_loop_dropWhile)
  qed
qed

text \<open>With timestamps in order, the read returns every buffered event that is fresh.\<close>

definition ts_of :: "iso_parser \<Rightarrow> dict \<Rightarrow> real option" where
  "ts_of fromiso e = parse_ts fromiso (get_def e ''timestamp'' PNone)"

lemma evict_sorted:
  "sorted_wrt (\<lambda>a b. \<exists>s t. ts_of fromiso a = Some s \<and> ts_of fromiso b = Some t \<and> s \<le> t) es \<Longrightarrow>
   evict_loop fromiso c es = filter (\<lambda>e. \<not> stale fromiso c e) es"
proof (induction es)
  case Nil
  then show ?case by simp
next
  case (Cons e es)
  show ?case
  proof (cases "stale fromiso c e")
    case True
    with Cons show ?thesis by (simp add: evict_loop_dropWhile)
  next
    case False
    have "\<not> stale fromiso c x" if "x \<in> set es" for x
      using Cons.prems that False by (fastforce simp: stale_def ts_of_def)
    then have "filter (\<lambda>e. \<not> stale fromiso c e) es = es" by (simp add: filter_id_conv)
    with False show ?thesis by (simp add: evict_loop_dropWhile)
  qed
qed

section \<open>The store\<close>

definition events_of :: "string \<Rightarrow> dict list \<Rightarrow> dict list" where
  "events_of d es = filter (\<lambda>e. map_of e ''device_id'' = Some (PStr d)) es"

definition store_run :: "window_store \<Rightarrow> dict list \<Rightarrow> window_store" where
  "store_run = foldl (\<lambda>st e. snd (ingest e st))"

lemma ingest_simps:
  "map_of e ''device_id'' = Some (PStr d) \<Longrightarrow> fst (ingest e st) = Some d"
  "\<nexists>d. map_of e ''device_id'' = Some (PStr d) \<Longrightarrow> ingest e st = (None, st)"
  by (auto simp: ingest_def Let_def split: option.splits pyval.splits)

lemma store_get_put [simp]:
  "store_get d (store_put d' w st) = (if d = d' then Some w else store_get d st)"
  by (simp add: store_get_def store_put_def update_conv')

lemma ingest_fields [simp]:
  "ws_maxlen (snd (ingest e st)) = ws_maxlen st"
  "ws_max_age_s (snd (ingest e st)) = ws_max_age_s st"
  by (auto simp: ingest_def store_put_def Let_def split: option.splits pyval.splits)

lemma store_run_fields [simp]:
  "ws_maxlen (store_run st es) = ws_maxlen st"
  "ws_max_age_s (store_run st es) = ws_max_age_s st"
  by (induction es rule: rev_induct) (simp_all add: store_run_def)

lemma store_get_ingest:
  "store_get d (snd (ingest e st)) =
     (if map_of e ''device_id'' = Some (PStr d)
      then Some (add e (case store_get d st of
                          None \<Rightarrow> new_window d (ws_maxlen st) (ws_max_age_s st)
                        | Some w \<Rightarrow> w))
      else store_get d st)"
  by (auto simp: ingest_def Let_def split: option.splits pyval.splits)

lemma store_get_run:
  "store_get d (store_run (new_store m age) es) =
     (if events_of d es = [] then None
      else Some \<lparr>dw_device_id = d, dw_buf = last_n m (events_of d es), dw_maxlen = m,
                 dw_max_age_s = age\<rparr>)"
proof (induction es rule: rev_induct)
  case Nil
  then show ?case by (simp add: store_run_def new_store_def store_get_def events_of_def)
next
  case (snoc e es)
  have run: "store_run (new_store m age) (es @ [e]) = snd (ingest e (store_run (new_store m age) es))"
    by (simp add: store_run_def)
  have fields: "ws_maxlen (store_run (new_store m age) es) = m"
    "ws_max_age_s (store_run (new_store m age) es) = age"
    by (simp_all add: new_store_def)
  show ?case
  proof (cases "map_of e ''device_id'' = Some (PStr d)")
    case True
    then have "events_of d (es @ [e]) = events_of d es @ [e]" by (simp add: events_of_def)
    with True show ?thesis
      by (cases "events_of d es = []")
        (simp_all add: run store_get_ingest fields snoc.IH add_def new_window_def dq_append_def
          last_n_last_n)
  next
    case False
    then have "events_of d (es @ [e]) = events_of d es" by (simp add: events_of_def)
    with False show ?thesis by (simp add: run store_get_ingest snoc.IH)
  qed
qed

section \<open>Properties\<close>

text \<open>A device window never holds more than \<open>maxlen\<close> events, and its evictions are invisible: a
  read at a time no earlier than the reads before it returns what evicting once, from the last
  \<open>maxlen\<close> events ever added, gives, whatever reads were interleaved.\<close>

lemma window_reads_unobservable:
  assumes "\<forall>t. Read t \<in> set ops \<longrightarrow> t \<le> now"
  shows "fst (recent fromiso now (window_run fromiso (new_window d m age) ops)) =
           dropWhile (stale fromiso (now - age)) (last_n m (added ops)) \<and>
         length (dw_buf (window_run fromiso (new_window d m age) ops)) \<le> m"
  using window_run_read [OF assms] window_run_bounded [of "new_window d m age" fromiso ops]
  by (simp add: evict_loop_dropWhile new_window_def)

definition sample_iso :: iso_parser where
  "sample_iso s = (if s = [] then None else Some (Aware (real (length s))))"

definition sample_event :: "string \<Rightarrow> dict" where
  "sample_event s = [(''device_id'', PStr ''d1''), (''timestamp'', PStr s)]"

lemma window_reads_unobservable_witness:
  "fst (recent sample_iso 10 (window_run sample_iso (new_window ''d1'' 2 8)
     [Add (sample_event ''a''), Read 9, Add (sample_event ''b''), Add (sample_event ''cde''), Read 10]))
   = [sample_event ''cde'']"
proof -
  let ?ops = "[Add (sample_event ''a''), Read 9, Add (sample_event ''b''),
    Add (sample_event ''cde''), Read 10]"
  have "\<forall>t. Read t \<in> set ?ops \<longrightarrow> t \<le> 10" by simp
  from window_reads_unobservable [OF this, of sample_iso "''d1''" 2 8] show ?thesis
    by (simp add: last_n_def stale_def sample_event_def sample_iso_def replace_Z_def)
qed

text \<open>The store keeps devices apart: after any stream of events, the window of a device exists
  iff the stream holds an event of that device, and it holds exactly the last \<open>maxlen\<close> of them
  in arrival order; events without a string \<open>device_id\<close> leave no trace.\<close>

lemma store_isolates_devices:
  "store_get d (store_run (new_store m age) es) =
     (if events_of d es = [] then None
      else Some \<lparr>dw_device_id = d, dw_buf = last_n m (events_of d es), dw_maxlen = m,
                 dw_max_age_s = age\<rparr>)"
  by (rule store_get_run)

text \<open>C10: when a window's timestamps parse and are in order, a read returns every event that is at
  most \<open>max_age\<close> old, in order, and nothing else.\<close>

theorem recent_exactly_fresh:
  assumes "sorted_wrt (\<lambda>a b. \<exists>s t. ts_of fromiso a = Some s \<and> ts_of fromiso b = Some t \<and> s \<le> t)
             (dw_buf w)"
    and "\<forall>e \<in> set (dw_buf w). ts_of fromiso e \<noteq> None"
  shows "fst (recent fromiso now w) =
         filter (\<lambda>e. \<exists>t. ts_of fromiso e = Some t \<and> now - dw_max_age_s w \<le> t) (dw_buf w)"
proof -
  have "filter (\<lambda>e. \<not> stale fromiso (now - dw_max_age_s w) e) (dw_buf w) =
        filter (\<lambda>e. \<exists>t. ts_of fromiso e = Some t \<and> now - dw_max_age_s w \<le> t) (dw_buf w)"
    using assms(2) by (intro filter_cong) (auto simp: stale_def ts_of_def)
  with evict_sorted [OF assms(1), of "now - dw_max_age_s w"] show ?thesis by simp
qed

theorem recent_exactly_fresh_witness:
  "fst (recent sample_iso 10 \<lparr>dw_device_id = ''d1'',
      dw_buf = [sample_event ''a'', sample_event ''bc'', sample_event ''def''],
      dw_maxlen = 3, dw_max_age_s = 8\<rparr>) = [sample_event ''bc'', sample_event ''def'']"
proof -
  let ?w = "\<lparr>dw_device_id = ''d1'',
      dw_buf = [sample_event ''a'', sample_event ''bc'', sample_event ''def''],
      dw_maxlen = 3, dw_max_age_s = 8\<rparr>"
  have ts: "ts_of sample_iso (sample_event ''a'') = Some 1"
    "ts_of sample_iso (sample_event ''bc'') = Some 2"
    "ts_of sample_iso (sample_event ''def'') = Some 3"
    by (simp_all add: ts_of_def sample_event_def sample_iso_def replace_Z_def)
  show ?thesis
    using recent_exactly_fresh [of sample_iso ?w 10] by (simp add: ts)
qed

end
