(* ===== verification/Rules.thy ===== *)
theory Rules
  imports Window
begin

text \<open>
  The deterministic detection rules (\<open>apps/agents/sentinel/rules.py\<close>): seven functions from a
  device window to at most one \<open>rule_hit\<close>, and \<open>evaluate\<close>, which runs them in order. Each reads the
  window at the instant \<open>now\<close>; reading evicts, and evicting again at the same instant changes
  nothing (\<open>evict_idem\<close>), so the rules see the same events.
\<close>

record rule_hit =
  rh_rule_id :: string
  rh_failure_kind :: string
  rh_probability :: real
  rh_horizon_hours :: real
  rh_evidence :: dict

definition FATAL_XID_CODES :: "int list" where
  "FATAL_XID_CODES = [43, 44, 45, 48, 63, 64, 79, 92]"

text \<open>The rows of one metric, and their numeric values.\<close>

definition rows_of :: "iso_parser \<Rightarrow> real \<Rightarrow> device_window \<Rightarrow> canonical_metric \<Rightarrow> dict list" where
  "rows_of fromiso now w m = fst (recent_for_metric fromiso now (metric_value m) w)"

definition nums_of :: "dict list \<Rightarrow> real list" where
  "nums_of rows = List.map_filter (\<lambda>r. get_num r ''value'') rows"

definition vals_of :: "iso_parser \<Rightarrow> real \<Rightarrow> device_window \<Rightarrow> canonical_metric \<Rightarrow> real list" where
  "vals_of fromiso now w m = nums_of (rows_of fromiso now w m)"

definition last_value :: "iso_parser \<Rightarrow> real \<Rightarrow> device_window \<Rightarrow> canonical_metric \<Rightarrow> real option" where
  "last_value fromiso now w m =
     (let rows = rows_of fromiso now w m
      in if rows = [] then None else get_num (last rows) ''value'')"

definition max_value :: "iso_parser \<Rightarrow> real \<Rightarrow> device_window \<Rightarrow> canonical_metric \<Rightarrow> real option" where
  "max_value fromiso now w m =
     (let nums = nums_of (rows_of fromiso now w m)
      in if nums = [] then None else Some (Max (set nums)))"

definition sum_value :: "iso_parser \<Rightarrow> real \<Rightarrow> device_window \<Rightarrow> canonical_metric \<Rightarrow> real" where
  "sum_value fromiso now w m = sum_list (nums_of (rows_of fromiso now w m))"

type_synonym rule = "iso_parser \<Rightarrow> real \<Rightarrow> device_window \<Rightarrow> rule_hit option"

definition rule_fatal_xid :: rule where
  "rule_fatal_xid fromiso now w =
     (case last_value fromiso now w GPU_XID_CODE of
        None \<Rightarrow> None
      | Some xid \<Rightarrow>
          let code = py_trunc xid
          in if code \<in> set FATAL_XID_CODES
             then Some \<lparr>rh_rule_id = ''gpu_fatal_xid'', rh_failure_kind = ''gpu_fatal_xid'',
                        rh_probability = 98 / 100, rh_horizon_hours = 1,
                        rh_evidence = [(''xid_code'', PInt code)]\<rparr>
             else None)"

definition rule_uncorrectable_ecc :: rule where
  "rule_uncorrectable_ecc fromiso now w =
     (case max_value fromiso now w GPU_ECC_UNCORRECTABLE of
        None \<Rightarrow> None
      | Some uncorr \<Rightarrow>
          if uncorr \<le> 0 then None
          else Some \<lparr>rh_rule_id = ''gpu_uncorrectable_ecc'', rh_failure_kind = ''gpu_ecc_runaway'',
                     rh_probability = 9 / 10, rh_horizon_hours = 6,
                     rh_evidence = [(''max_uncorrectable_ecc'', PFloat uncorr)]\<rparr>)"

definition rule_correctable_ecc_storm :: rule where
  "rule_correctable_ecc_storm fromiso now w =
     (let total = sum_value fromiso now w GPU_ECC_CORRECTABLE
      in if total < 10000 then None
         else Some \<lparr>rh_rule_id = ''gpu_correctable_ecc_storm'', rh_failure_kind = ''gpu_ecc_drift'',
                    rh_probability = 75 / 100, rh_horizon_hours = 24,
                    rh_evidence = [(''correctable_ecc_window_total'', PFloat total)]\<rparr>)"

definition rule_gpu_thermal_runaway :: rule where
  "rule_gpu_thermal_runaway fromiso now w =
     (case max_value fromiso now w GPU_TEMP_CELSIUS of
        None \<Rightarrow> None
      | Some peak \<Rightarrow>
          if peak < 90 then None
          else Some \<lparr>rh_rule_id = ''gpu_thermal_runaway'', rh_failure_kind = ''gpu_thermal'',
                     rh_probability = 7 / 10, rh_horizon_hours = 2,
                     rh_evidence = [(''max_gpu_temp_c'', PFloat peak)]\<rparr>)"

definition rule_fan_stuck_hot_cpu :: rule where
  "rule_fan_stuck_hot_cpu fromiso now w =
     (case (last_value fromiso now w FAN_RPM, max_value fromiso now w CPU_TEMP_CELSIUS) of
        (Some fan, Some cpu) \<Rightarrow>
          if fan \<le> 1 \<and> 80 \<le> cpu
          then Some \<lparr>rh_rule_id = ''fan_stuck_hot_cpu'', rh_failure_kind = ''thermal_cascade'',
                     rh_probability = 85 / 100, rh_horizon_hours = 1,
                     rh_evidence = [(''fan_rpm'', PFloat fan), (''max_cpu_temp_c'', PFloat cpu)]\<rparr>
          else None
      | _ \<Rightarrow> None)"

definition rule_disk_reallocated_burst :: rule where
  "rule_disk_reallocated_burst fromiso now w =
     (let rows = rows_of fromiso now w DISK_REALLOCATED_SECTORS
      in if length rows < 2 then None
         else let nums = nums_of rows
              in if length nums < 2 then None
                 else let delta = last nums - hd nums
                      in if delta < 50 then None
                         else Some \<lparr>rh_rule_id = ''disk_reallocated_burst'',
                                    rh_failure_kind = ''disk_smart_drift'',
                                    rh_probability = 65 / 100, rh_horizon_hours = 48,
                                    rh_evidence = [(''reallocated_delta'', PFloat delta),
                                                   (''current'', PFloat (last nums))]\<rparr>)"

definition rule_psu_efficiency_drop :: rule where
  "rule_psu_efficiency_drop fromiso now w =
     (let rows = rows_of fromiso now w PSU_EFFICIENCY_PERCENT
      in if length rows < 5 then None
         else let nums = nums_of rows
              in if nums = [] then None
                 else let recent_avg = sum_list (last_n 5 nums) / real (min 5 (length nums))
                      in if 85 \<le> recent_avg then None
                         else Some \<lparr>rh_rule_id = ''psu_efficiency_drop'',
                                    rh_failure_kind = ''psu_efficiency_drift'',
                                    rh_probability = 6 / 10, rh_horizon_hours = 72,
                                    rh_evidence = [(''recent_avg_efficiency_pct'', PFloat recent_avg)]\<rparr>)"

definition ALL_RULES :: "rule list" where
  "ALL_RULES =
     [rule_fatal_xid, rule_uncorrectable_ecc, rule_correctable_ecc_storm, rule_gpu_thermal_runaway,
      rule_fan_stuck_hot_cpu, rule_disk_reallocated_burst, rule_psu_efficiency_drop]"

definition evaluate :: "iso_parser \<Rightarrow> real \<Rightarrow> device_window \<Rightarrow> rule_hit list" where
  "evaluate fromiso now w = List.map_filter (\<lambda>rule. rule fromiso now w) ALL_RULES"

lemmas rule_defs = rule_fatal_xid_def rule_uncorrectable_ecc_def rule_correctable_ecc_storm_def
  rule_gpu_thermal_runaway_def rule_fan_stuck_hot_cpu_def rule_disk_reallocated_burst_def
  rule_psu_efficiency_drop_def

section \<open>What a hit says\<close>

text \<open>The fixed part of each rule's hits: \<open>(rule id, failure kind, probability, horizon)\<close>.\<close>

definition rule_table :: "(string \<times> string \<times> real \<times> real) list" where
  "rule_table =
    [(''gpu_fatal_xid'', ''gpu_fatal_xid'', 98 / 100, 1),
     (''gpu_uncorrectable_ecc'', ''gpu_ecc_runaway'', 9 / 10, 6),
     (''gpu_correctable_ecc_storm'', ''gpu_ecc_drift'', 75 / 100, 24),
     (''gpu_thermal_runaway'', ''gpu_thermal'', 7 / 10, 2),
     (''fan_stuck_hot_cpu'', ''thermal_cascade'', 85 / 100, 1),
     (''disk_reallocated_burst'', ''disk_smart_drift'', 65 / 100, 48),
     (''psu_efficiency_drop'', ''psu_efficiency_drift'', 6 / 10, 72)]"

definition hit_entry :: "rule_hit \<Rightarrow> string \<times> string \<times> real \<times> real" where
  "hit_entry h = (rh_rule_id h, rh_failure_kind h, rh_probability h, rh_horizon_hours h)"

lemma hit_entries:
  "rule_fatal_xid i n w = Some h \<Longrightarrow> hit_entry h = rule_table ! 0"
  "rule_uncorrectable_ecc i n w = Some h \<Longrightarrow> hit_entry h = rule_table ! 1"
  "rule_correctable_ecc_storm i n w = Some h \<Longrightarrow> hit_entry h = rule_table ! 2"
  "rule_gpu_thermal_runaway i n w = Some h \<Longrightarrow> hit_entry h = rule_table ! 3"
  "rule_fan_stuck_hot_cpu i n w = Some h \<Longrightarrow> hit_entry h = rule_table ! 4"
  "rule_disk_reallocated_burst i n w = Some h \<Longrightarrow> hit_entry h = rule_table ! 5"
  "rule_psu_efficiency_drop i n w = Some h \<Longrightarrow> hit_entry h = rule_table ! 6"
  by (auto simp: rule_defs Let_def hit_entry_def rule_table_def split: option.splits if_splits)

lemma subseq_map_filter:
  "length rs = length ts \<Longrightarrow> (\<And>i h. i < length rs \<Longrightarrow> (rs ! i) = Some h \<Longrightarrow> f h = ts ! i) \<Longrightarrow>
   subseq (map f (List.map_filter (\<lambda>x. x) rs)) ts"
proof (induction rs ts rule: list_induct2)
  case Nil
  then show ?case by (simp add: List.map_filter_def)
next
  case (Cons r rs t ts)
  have tl: "\<And>i h. i < length rs \<Longrightarrow> rs ! i = Some h \<Longrightarrow> f h = ts ! i"
    using Cons.prems [of "Suc _"] by simp
  show ?case
  proof (cases r)
    case None
    with Cons.IH [OF tl] show ?thesis by (simp add: List.map_filter_simps list_emb_Cons)
  next
    case (Some h)
    with Cons.prems [of 0 h] have "f h = t" by simp
    with Some Cons.IH [OF tl] show ?thesis by (simp add: List.map_filter_simps)
  qed
qed

lemma map_filter_comp: "List.map_filter f xs = List.map_filter (\<lambda>x. x) (map f xs)"
  by (induction xs) (auto simp: List.map_filter_simps split: option.splits)

lemma subseq_hit_entries: "subseq (map hit_entry (evaluate fromiso now w)) rule_table"
proof -
  let ?rs = "map (\<lambda>rule. rule fromiso now w) ALL_RULES"
  have "f = rule_table ! i" if "i < length ?rs" "?rs ! i = Some h" "f = hit_entry h" for i h f
  proof -
    from that(1) consider "i = 0" | "i = 1" | "i = 2" | "i = 3" | "i = 4" | "i = 5" | "i = 6"
      by (fastforce simp: ALL_RULES_def)
    then show ?thesis
      by cases (use that in \<open>simp_all add: ALL_RULES_def hit_entries\<close>)
  qed
  then have "subseq (map hit_entry (List.map_filter (\<lambda>x. x) ?rs)) rule_table"
    by (intro subseq_map_filter) (simp_all add: ALL_RULES_def rule_table_def)
  then show ?thesis
    unfolding evaluate_def by (subst map_filter_comp)
qed

lemma hit_in_table: "h \<in> set (evaluate fromiso now w) \<Longrightarrow> hit_entry h \<in> set rule_table"
  by (rule list_emb_set [OF subseq_hit_entries, of "hit_entry h"]) auto

lemma hit_bounds:
  assumes "h \<in> set (evaluate fromiso now w)"
  shows "6 / 10 \<le> rh_probability h \<and> rh_probability h \<le> 98 / 100 \<and>
    1 \<le> rh_horizon_hours h \<and> rh_horizon_hours h \<le> 72"
  using hit_in_table [OF assms] by (auto simp: rule_table_def hit_entry_def)

lemma set_evaluate: "h \<in> set (evaluate fromiso now w) \<longleftrightarrow> (\<exists>r \<in> set ALL_RULES. r fromiso now w = Some h)"
  by (simp add: evaluate_def in_map_filter)

definition hit_ids :: "iso_parser \<Rightarrow> real \<Rightarrow> device_window \<Rightarrow> string set" where
  "hit_ids fromiso now w = rh_rule_id ` set (evaluate fromiso now w)"

lemma rule_id_entry: "hit_entry h = (i, k, p, t) \<Longrightarrow> rh_rule_id h = i"
  by (simp add: hit_entry_def)

lemma in_hit_ids:
  "''gpu_fatal_xid'' \<in> hit_ids i n w \<longleftrightarrow> rule_fatal_xid i n w \<noteq> None"
  "''gpu_uncorrectable_ecc'' \<in> hit_ids i n w \<longleftrightarrow> rule_uncorrectable_ecc i n w \<noteq> None"
  "''gpu_correctable_ecc_storm'' \<in> hit_ids i n w \<longleftrightarrow> rule_correctable_ecc_storm i n w \<noteq> None"
  "''gpu_thermal_runaway'' \<in> hit_ids i n w \<longleftrightarrow> rule_gpu_thermal_runaway i n w \<noteq> None"
  "''fan_stuck_hot_cpu'' \<in> hit_ids i n w \<longleftrightarrow> rule_fan_stuck_hot_cpu i n w \<noteq> None"
proof -
  have ids: "rh_rule_id h = fst (rule_table ! k)" if "hit_entry h = rule_table ! k" for h k
    using that by (cases "rule_table ! k") (simp add: hit_entry_def)
  note e = hit_entries [THEN ids]
  have "x \<in> hit_ids i n w \<longleftrightarrow> (\<exists>r \<in> set ALL_RULES. \<exists>h. r i n w = Some h \<and> rh_rule_id h = x)" for x
    unfolding hit_ids_def image_iff Bex_def set_evaluate by metis
  note m = this
  show "''gpu_fatal_xid'' \<in> hit_ids i n w \<longleftrightarrow> rule_fatal_xid i n w \<noteq> None"
    "''gpu_uncorrectable_ecc'' \<in> hit_ids i n w \<longleftrightarrow> rule_uncorrectable_ecc i n w \<noteq> None"
    "''gpu_correctable_ecc_storm'' \<in> hit_ids i n w \<longleftrightarrow> rule_correctable_ecc_storm i n w \<noteq> None"
    "''gpu_thermal_runaway'' \<in> hit_ids i n w \<longleftrightarrow> rule_gpu_thermal_runaway i n w \<noteq> None"
    "''fan_stuck_hot_cpu'' \<in> hit_ids i n w \<longleftrightarrow> rule_fan_stuck_hot_cpu i n w \<noteq> None"
    unfolding m by (auto simp: ALL_RULES_def e rule_table_def dest: e)
qed

section \<open>Properties\<close>

text \<open>The hits of one evaluation are a subsequence of a fixed table of seven entries, one per rule
  and in the rules' order; so no rule fires twice, every failure kind is one of seven, and every
  probability lies between 0.6 and 0.98 with a horizon between 1 and 72 hours.\<close>

lemma evaluate_hits_from_table:
  "subseq (map hit_entry (evaluate fromiso now w)) rule_table \<and>
   distinct (map rh_rule_id (evaluate fromiso now w)) \<and>
   length (evaluate fromiso now w) \<le> 7 \<and>
   list_all
     (\<lambda>h. 6 / 10 \<le> rh_probability h \<and> rh_probability h \<le> 98 / 100 \<and>
          1 \<le> rh_horizon_hours h \<and> rh_horizon_hours h \<le> 72)
     (evaluate fromiso now w)"
proof -
  have s: "subseq (map hit_entry (evaluate fromiso now w)) rule_table"
    by (rule subseq_hit_entries)
  then have "subseq (map fst (map hit_entry (evaluate fromiso now w))) (map fst rule_table)"
    by (rule subseq_map)
  moreover have "map fst (map hit_entry hs) = map rh_rule_id hs" for hs
    by (simp add: hit_entry_def)
  moreover have "distinct (map fst rule_table)" by (simp add: rule_table_def)
  ultimately have "distinct (map rh_rule_id (evaluate fromiso now w))"
    by (metis distinct_subseq)
  moreover have "length (evaluate fromiso now w) \<le> 7"
    using list_emb_length [OF s] by (simp add: rule_table_def)
  ultimately show ?thesis using s hit_bounds unfolding list_all_iff by blast
qed


end
