(* ===== verification/Features.thy ===== *)
theory Features
  imports Window
begin

text \<open>
  Feature extraction over a device's window (\<open>apps/agents/sentinel/features.py\<close>): one column per
  pair of a metric and a statistic, in a fixed order.

  A feature is a \<open>real option\<close>: \<open>None\<close> is \<open>math.nan\<close>, the value of a metric without samples. The
  events are the dictionaries of a window, so a timestamp is text or a value the code skips.
\<close>

definition FEATURE_METRICS :: "canonical_metric list" where
  "FEATURE_METRICS =
     [CPU_TEMP_CELSIUS, GPU_TEMP_CELSIUS, GPU_POWER_WATTS, GPU_UTIL_PERCENT, GPU_ECC_CORRECTABLE,
      GPU_ECC_UNCORRECTABLE, GPU_XID_CODE, FAN_RPM, POWER_DRAW_WATTS, PSU_EFFICIENCY_PERCENT,
      DISK_REALLOCATED_SECTORS, DISK_PENDING_SECTORS, NET_ERR_IN]"

definition STATS :: "string list" where
  "STATS = [''mean'', ''max'', ''slope_per_min'', ''count'']"

definition feature_columns :: "string list" where
  "feature_columns =
     concat (map (\<lambda>m. map (\<lambda>stat. metric_value m @ ''__'' @ stat) STATS) FEATURE_METRICS)"

text \<open>The loop of \<open>_numeric_values\<close>, with \<open>base_ts\<close> as an accumulator.\<close>

fun numeric_values :: "iso_parser \<Rightarrow> real option \<Rightarrow> dict list \<Rightarrow> (real \<times> real) list" where
  "numeric_values fromiso base_ts [] = []"
| "numeric_values fromiso base_ts (e # es) =
     (case get_num e ''value'' of
        None \<Rightarrow> numeric_values fromiso base_ts es
      | Some value \<Rightarrow>
          (case parse_ts fromiso (get_def e ''timestamp'' PNone) of
             None \<Rightarrow> numeric_values fromiso base_ts es
           | Some ts \<Rightarrow>
               let base = (case base_ts of None \<Rightarrow> ts | Some b \<Rightarrow> b)
               in (ts - base, value) # numeric_values fromiso (Some base) es))"

definition mean :: "real list \<Rightarrow> real" where
  "mean xs = sum_list xs / real (length xs)"

definition slope_per_min :: "(real \<times> real) list \<Rightarrow> real option" where
  "slope_per_min pairs =
     (if length pairs < 2 then None
      else let mean_x = mean (map fst pairs);
               mean_y = mean (map snd pairs);
               num = sum_list (map (\<lambda>(x, y). (x - mean_x) * (y - mean_y)) pairs);
               den = sum_list (map (\<lambda>(x, y). (x - mean_x)\<^sup>2) pairs)
           in if den \<le> 0 then Some 0 else Some (num / den * 60))"

type_synonym features = "(string \<times> real option) list"

definition metric_features :: "iso_parser \<Rightarrow> dict list \<Rightarrow> canonical_metric \<Rightarrow> features" where
  "metric_features fromiso window_events metric =
     (let subset = filter (\<lambda>e. map_of e ''metric'' = Some (PStr (metric_value metric))) window_events;
          pairs = numeric_values fromiso None subset;
          col = (\<lambda>stat. metric_value metric @ ''__'' @ stat)
      in if pairs = []
         then [(col ''mean'', None), (col ''max'', None), (col ''slope_per_min'', None),
               (col ''count'', Some 0)]
         else let values = map snd pairs
              in [(col ''mean'', Some (mean values)), (col ''max'', Some (Max (set values))),
                  (col ''slope_per_min'', slope_per_min pairs),
                  (col ''count'', Some (real (length values)))])"

text \<open>\<open>dict.update\<close>, one key at a time.\<close>

definition extract_features :: "iso_parser \<Rightarrow> dict list \<Rightarrow> features" where
  "extract_features fromiso window_events =
     foldl (\<lambda>feats metric.
              foldl (\<lambda>f (k, v). AList.update k v f) feats (metric_features fromiso window_events metric))
       [] FEATURE_METRICS"

definition feature_vector :: "features \<Rightarrow> real option list" where
  "feature_vector feats = map (\<lambda>c. get_def feats c None) feature_columns"

section \<open>The shape of a feature row\<close>

lemma keys_metric_features:
  "map fst (metric_features fromiso es m) = map (\<lambda>stat. metric_value m @ ''__'' @ stat) STATS"
  by (simp add: metric_features_def STATS_def Let_def)

lemma foldl_update_fresh:
  "distinct (map fst kvs) \<Longrightarrow> set (map fst kvs) \<inter> fst ` set d = {} \<Longrightarrow>
   foldl (\<lambda>f (k, v). AList.update k v f) d kvs = d @ kvs"
proof (induction kvs arbitrary: d)
  case Nil
  then show ?case by simp
next
  case (Cons kv kvs)
  obtain k v where kv: "kv = (k, v)" by (cases kv)
  have "AList.update k v d = d @ [(k, v)]"
    using Cons.prems kv by (intro update_fresh) auto
  with Cons kv show ?case by auto
qed

lemma foldl_updates_fresh:
  "distinct (map fst (concat kvss)) \<Longrightarrow> set (map fst (concat kvss)) \<inter> fst ` set d = {} \<Longrightarrow>
   foldl (\<lambda>f kvs. foldl (\<lambda>f (k, v). AList.update k v f) f kvs) d kvss = d @ concat kvss"
proof (induction kvss arbitrary: d)
  case Nil
  then show ?case by simp
next
  case (Cons kvs kvss)
  let ?L = "set (map fst (concat kvss))" and ?K = "set (map fst kvs)"
  have all: "distinct (map fst kvs @ map fst (concat kvss))" "(?K \<union> ?L) \<inter> fst ` set d = {}"
    using Cons.prems by (simp_all only: concat.simps map_append set_append)
  then have d: "distinct (map fst kvs)" "distinct (map fst (concat kvss))" "?K \<inter> ?L = {}"
    by (simp_all only: distinct_append)
  have "fst ` set (d @ kvs) = fst ` set d \<union> ?K" by (simp add: image_Un)
  with all(2) d(3) have l: "?L \<inter> fst ` set (d @ kvs) = {}" by blast
  have "foldl (\<lambda>f (k, v). AList.update k v f) d kvs = d @ kvs"
    by (rule foldl_update_fresh [OF d(1)]) (use all(2) in blast)
  with Cons.IH [OF d(2) l] show ?case by simp
qed

lemma distinct_feature_columns: "distinct feature_columns"
  by (simp add: feature_columns_def FEATURE_METRICS_def STATS_def)

lemma extract_features_concat:
  "extract_features fromiso es = concat (map (metric_features fromiso es) FEATURE_METRICS)"
proof -
  let ?kvss = "map (metric_features fromiso es) FEATURE_METRICS"
  have cols: "map fst (concat ?kvss) = feature_columns"
    by (simp add: map_concat feature_columns_def keys_metric_features comp_def)
  have "extract_features fromiso es =
      foldl (\<lambda>f kvs. foldl (\<lambda>f (k, v). AList.update k v f) f kvs) [] ?kvss"
    by (simp add: extract_features_def foldl_map)
  also have "\<dots> = [] @ concat ?kvss"
    by (rule foldl_updates_fresh) (unfold cols, simp_all add: distinct_feature_columns)
  finally show ?thesis by simp
qed

lemma keys_extract_features: "map fst (extract_features fromiso es) = feature_columns"
  by (simp add: extract_features_concat map_concat feature_columns_def keys_metric_features comp_def)

lemma map_get_def_keys: "distinct (map fst d) \<Longrightarrow> map (\<lambda>k. get_def d k v) (map fst d) = map snd d"
  by (auto simp: get_def_def)

section \<open>Least squares\<close>

lemma sum_list_centred: "pairs \<noteq> [] \<Longrightarrow> sum_list (map (\<lambda>p. f p - mean (map f pairs)) pairs) = 0"
  by (simp add: mean_def sum_list_subtractf sum_list_triv)

definition squared_error :: "(real \<times> real) list \<Rightarrow> real \<Rightarrow> real \<Rightarrow> real" where
  "squared_error pairs a b = sum_list (map (\<lambda>(x, y). (y - (a + b * x))\<^sup>2) pairs)"

lemma squared_error_centred:
  assumes "pairs \<noteq> []"
  defines "u \<equiv> \<lambda>p. fst p - mean (map fst pairs)" and "v \<equiv> \<lambda>p. snd p - mean (map snd pairs)"
  shows "squared_error pairs a b =
    sum_list (map (\<lambda>p. (v p)\<^sup>2) pairs) - 2 * b * sum_list (map (\<lambda>p. u p * v p) pairs)
    + b\<^sup>2 * sum_list (map (\<lambda>p. (u p)\<^sup>2) pairs)
    + real (length pairs) * (mean (map snd pairs) - a - b * mean (map fst pairs))\<^sup>2"
proof -
  let ?c = "mean (map snd pairs) - a - b * mean (map fst pairs)"
  have e: "(case p of (x, y) \<Rightarrow> (y - (a + b * x))\<^sup>2) =
      (v p)\<^sup>2 - (2 * b) * (u p * v p) + b\<^sup>2 * (u p)\<^sup>2 + (?c\<^sup>2 + (2 * ?c) * v p - (2 * ?c * b) * u p)" for p
  proof -
    have "(case p of (x, y) \<Rightarrow> (y - (a + b * x))\<^sup>2) = (v p - b * u p + ?c)\<^sup>2"
      unfolding u_def v_def by (simp add: case_prod_beta algebra_simps)
    also have "\<dots> = (v p)\<^sup>2 - (2 * b) * (u p * v p) + b\<^sup>2 * (u p)\<^sup>2
        + (?c\<^sup>2 + (2 * ?c) * v p - (2 * ?c * b) * u p)" by algebra
    finally show ?thesis .
  qed
  have u0: "sum_list (map u pairs) = 0" and v0: "sum_list (map v pairs) = 0"
    unfolding u_def v_def by (rule sum_list_centred [OF assms(1)])+
  show ?thesis
    unfolding squared_error_def e
    by (simp add: sum_list_addf sum_list_subtractf sum_list_const_mult sum_list_triv u0 v0)
qed

lemma squared_error_ge:
  assumes "slope_per_min pairs = Some s"
  defines "b0 \<equiv> s / 60" and "a0 \<equiv> mean (map snd pairs) - s / 60 * mean (map fst pairs)"
  shows "squared_error pairs a0 b0 \<le> squared_error pairs a b"
proof -
  let ?u = "\<lambda>p. fst p - mean (map fst pairs)" and ?v = "\<lambda>p. snd p - mean (map snd pairs)"
  let ?N = "sum_list (map (\<lambda>p. ?u p * ?v p) pairs)" and ?D = "sum_list (map (\<lambda>p. (?u p)\<^sup>2) pairs)"
  have ne: "pairs \<noteq> []" and s: "s = (if ?D \<le> 0 then 0 else ?N / ?D * 60)"
    using assms(1) by (auto simp: slope_per_min_def Let_def case_prod_unfold split: if_splits)
  have D: "0 \<le> ?D" by (rule sum_list_nonneg) auto
  have "?N = 0" if "?D = 0"
  proof -
    have "\<forall>p \<in> set pairs. (?u p)\<^sup>2 = 0"
      using that by (subst (asm) sum_list_nonneg_eq_0_iff) auto
    then have "map (\<lambda>p. ?u p * ?v p) pairs = map (\<lambda>p. 0) pairs" by simp
    then show ?thesis by (simp only: sum_list_0)
  qed
  then have N: "?N = b0 * ?D" using D s by (cases "?D = 0") (auto simp: b0_def)
  have "squared_error pairs a b - squared_error pairs a0 b0 =
      ?D * (b - b0)\<^sup>2 + real (length pairs) * (mean (map snd pairs) - a - b * mean (map fst pairs))\<^sup>2"
    unfolding squared_error_centred [OF ne] N by (simp add: a0_def b0_def algebra_simps power2_eq_square)
  moreover have "0 \<le> \<dots>" using D by simp
  ultimately show ?thesis by linarith
qed

section \<open>Properties\<close>

text \<open>Whatever a window holds, the feature row has the same 52 distinct columns in the same order,
  and the vector handed to the model is the row's values in that order.\<close>

lemma feature_row_shape:
  "map fst (extract_features fromiso es) = feature_columns \<and>
   distinct feature_columns \<and> length feature_columns = 52 \<and>
   feature_vector (extract_features fromiso es) = map snd (extract_features fromiso es)"
proof (intro conjI)
  show "feature_vector (extract_features fromiso es) = map snd (extract_features fromiso es)"
    unfolding feature_vector_def keys_extract_features [of fromiso es, symmetric]
    by (rule map_get_def_keys) (simp add: keys_extract_features distinct_feature_columns)
qed (simp_all only: keys_extract_features distinct_feature_columns,
     simp add: feature_columns_def FEATURE_METRICS_def STATS_def)

text \<open>The slope feature is the least-squares slope: no line through the samples has a smaller
  squared error than the one of that slope (per minute, hence the factor 60) through the means.\<close>

lemma slope_is_least_squares:
  assumes "slope_per_min pairs = Some s"
  shows "squared_error pairs (mean (map snd pairs) - s / 60 * mean (map fst pairs)) (s / 60)
       \<le> squared_error pairs a b"
  using assms by (rule squared_error_ge)

lemma slope_is_least_squares_witness:
  "squared_error [(0, 1), (60, 3), (120, 5)] 1 (2 / 60)
     \<le> squared_error [(0, 1), (60, 3), (120, 5)] 0 (1 / 10)"
  using slope_is_least_squares [of "[(0, 1), (60, 3), (120, 5)]" 2 0 "1 / 10"]
  by (simp add: slope_per_min_def mean_def)

end
