(* ===== verification/Sentinel.thy ===== *)
theory Sentinel
  imports Rules Features
begin

text \<open>
  The Sentinel agent (\<open>apps/agents/sentinel/main.py\<close>) and its model wrapper
  (\<open>apps/agents/sentinel/inference.py\<close>).

  A booster is a parameter: a function from the column names and the vector to a score, \<open>None\<close>
  where it raises. The set of dirty devices is the list of its elements, in whatever order the
  inference loop iterates them; \<open>uuid4()\<close> draws from a counter. \<open>now\<close> is the wall clock the window
  reads, \<open>tick\<close> the monotonic clock of the duplicate check; one scoring reads each once.

  The subscriber and the inference loop share the state and interleave where the loop awaits the
  publication: \<open>sentinel_step\<close> is one uninterrupted stretch (an event delivered, a cycle begun, one
  device of the cycle scored), \<open>sentinel_run\<close> any sequence of them.
\<close>

section \<open>The model wrapper\<close>

type_synonym booster = "string list \<Rightarrow> real option list \<Rightarrow> real option"

record sentinel_model =
  sm_booster :: "booster option"

definition load :: "bool \<Rightarrow> booster option \<Rightarrow> sentinel_model \<Rightarrow> bool \<times> sentinel_model" where
  "load path_exists loaded m =
     (if sm_booster m \<noteq> None then (True, m)
      else if \<not> path_exists then (False, m)
      else case loaded of
             None \<Rightarrow> (False, m)
           | Some b \<Rightarrow> (True, m\<lparr>sm_booster := Some b\<rparr>))"

definition enabled :: "sentinel_model \<Rightarrow> bool" where
  "enabled m \<longleftrightarrow> sm_booster m \<noteq> None"

definition predict_proba :: "sentinel_model \<Rightarrow> features \<Rightarrow> real" where
  "predict_proba m feats =
     (case sm_booster m of
        None \<Rightarrow> 0
      | Some predict \<Rightarrow>
          (case predict feature_columns (feature_vector feats) of
             None \<Rightarrow> 0
           | Some proba \<Rightarrow> max 0 (min 1 proba)))"

section \<open>The decision\<close>

record sentinel_config =
  sc_publish_threshold :: real
  sc_infer_interval_s :: real
  sc_dedupe_window_s :: real
  sc_site_id :: string

definition sentinel_defaults :: sentinel_config where
  "sentinel_defaults =
     \<lparr>sc_publish_threshold = 6 / 10, sc_infer_interval_s = 30, sc_dedupe_window_s = 300,
      sc_site_id = ''unknown''\<rparr>"

record sentinel_decision =
  sd_source :: string
  sd_failure_kind :: string
  sd_probability :: real
  sd_horizon_hours :: real
  sd_evidence :: dict

fun classify_loop :: "dict list \<Rightarrow> string" where
  "classify_loop [] = ''unknown''"
| "classify_loop (e # es) = (case get_str e ''device_type'' of Some t \<Rightarrow> t | None \<Rightarrow> classify_loop es)"

definition classify_device_type :: "dict list \<Rightarrow> string" where
  "classify_device_type window_events = classify_loop (rev window_events)"

definition model_proba :: "iso_parser \<Rightarrow> sentinel_model \<Rightarrow> dict list \<Rightarrow> real" where
  "model_proba fromiso m events =
     (if enabled m then predict_proba m (extract_features fromiso events) else 0)"

definition decide :: "real \<Rightarrow> iso_parser \<Rightarrow> real \<Rightarrow> sentinel_model \<Rightarrow> device_window \<Rightarrow> dict list \<Rightarrow>
    sentinel_decision option" where
  "decide threshold fromiso now m w events =
     (let hits = evaluate fromiso now w;
          proba = model_proba fromiso m events;
          best_hit = max_by rh_probability hits;
          best_score = (case best_hit of None \<Rightarrow> 0 | Some h \<Rightarrow> rh_probability h)
      in if best_score < proba \<and> threshold \<le> proba
         then Some \<lparr>sd_source = ''model'', sd_failure_kind = ''model_predicted_failure'',
                    sd_probability = proba, sd_horizon_hours = 24,
                    sd_evidence = [(''model_probability'', PFloat proba)]\<rparr>
         else case best_hit of
                None \<Rightarrow> None
              | Some h \<Rightarrow>
                  if threshold \<le> best_score
                  then let evidence = (if enabled m
                         then AList.update ''model_probability'' (PFloat proba) (rh_evidence h)
                         else rh_evidence h)
                       in Some \<lparr>sd_source = ''rule'', sd_failure_kind = rh_failure_kind h,
                                sd_probability = best_score, sd_horizon_hours = rh_horizon_hours h,
                                sd_evidence =
                                  AList.update ''rule_id'' (PStr (rh_rule_id h)) evidence\<rparr>
                  else None)"

section \<open>The duplicate check\<close>

type_synonym publish_log = "((string \<times> string) \<times> real) list"

definition is_duplicate :: "real \<Rightarrow> real \<Rightarrow> string \<times> string \<Rightarrow> publish_log \<Rightarrow> bool" where
  "is_duplicate window tick key pubs =
     (case map_of pubs key of None \<Rightarrow> False | Some ts \<Rightarrow> tick - ts < window)"

definition mark_published :: "real \<Rightarrow> string \<times> string \<Rightarrow> publish_log \<Rightarrow> publish_log" where
  "mark_published tick key pubs = AList.update key tick pubs"

interpretation dedupe: cooldown_gate "map_of" "is_duplicate window" mark_published window for window
  by unfold_locales (auto simp: is_duplicate_def mark_published_def update_conv')

section \<open>The agent\<close>

record sentinel_state =
  se_store :: window_store
  se_model :: sentinel_model
  se_dirty :: "string list"
  se_pending :: "string list"
  se_recent_publishes :: publish_log
  se_next_id :: uuid

text \<open>\<open>on_start\<close>; \<open>se_pending\<close> is the rest of the local \<open>dirty\<close> of the inference loop.\<close>

definition sentinel_start :: "bool \<Rightarrow> booster option \<Rightarrow> sentinel_state" where
  "sentinel_start path_exists loaded =
     \<lparr>se_store = new_store DEFAULT_MAXLEN DEFAULT_MAX_AGE_S,
      se_model = snd (load path_exists loaded \<lparr>sm_booster = None\<rparr>),
      se_dirty = [], se_pending = [], se_recent_publishes = [], se_next_id = 0\<rparr>"

fun sentinel_handle :: "pyval \<Rightarrow> sentinel_state \<Rightarrow> sentinel_state" where
  "sentinel_handle (PDict event) s =
     (let (device_id, store) = ingest event (se_store s)
      in case device_id of
           None \<Rightarrow> s\<lparr>se_store := store\<rparr>
         | Some d \<Rightarrow> s\<lparr>se_store := store, se_dirty := List.insert d (se_dirty s)\<rparr>)"
| "sentinel_handle _ s = s"

text \<open>The event \<open>_publish\<close> builds; Pydantic refuses identifiers that are not text.\<close>

definition mk_prediction :: "sentinel_config \<Rightarrow> real \<Rightarrow> uuid \<Rightarrow> sentinel_decision \<Rightarrow> dict list \<Rightarrow>
    predicted_failure res" where
  "mk_prediction cfg now eid d events =
     (let newest = last events
      in case (str_of (get_def newest ''site_id'' (PStr (sc_site_id cfg))),
               str_of (get_def newest ''device_id'' (PStr ''unknown''))) of
           (Some site, Some device) \<Rightarrow>
             (let evt = bus_event.extend (envelope eid now site None None [(''source'', PStr (sd_source d))])
                (predicted_failure.fields device (classify_device_type events) (sd_failure_kind d)
                   (sd_probability d) (sd_horizon_hours d) (sd_evidence d))
              in if predicted_failure_ok evt then Inr evt else Inl (ValueError ''out_of_range''))
         | _ \<Rightarrow> Inl (ValueError ''string_type''))"

text \<open>One iteration of \<open>_infer_batch\<close>: the commands sent, the new state, and the exception that ends
  the batch if one is raised. A publication that fails is only logged: the pair is marked either way.\<close>

definition infer_device :: "sentinel_config \<Rightarrow> iso_parser \<Rightarrow> real \<Rightarrow> real \<Rightarrow> string \<Rightarrow> sentinel_state \<Rightarrow>
    bus_msg effect list \<times> sentinel_state \<times> py_error option" where
  "infer_device cfg fromiso now tick device_id s =
     (case store_get device_id (se_store s) of
        None \<Rightarrow> ([], s, None)
      | Some w \<Rightarrow>
          let (events, w') = recent fromiso now w;
              s1 = s\<lparr>se_store := store_put device_id w' (se_store s)\<rparr>
          in if events = [] then ([], s1, None)
             else case decide (sc_publish_threshold cfg) fromiso now (se_model s) w' events of
                    None \<Rightarrow> ([], s1, None)
                  | Some d \<Rightarrow>
                      let key = (device_id, sd_failure_kind d)
                      in if is_duplicate (sc_dedupe_window_s cfg) tick key (se_recent_publishes s)
                         then ([], s1, None)
                         else case mk_prediction cfg now (se_next_id s) d events of
                                Inl err \<Rightarrow> ([], s1, Some err)
                              | Inr evt \<Rightarrow>
                                  ([Publish (topic_value PREDICTIONS_FAILURE) (MPredicted evt)],
                                   s1\<lparr>se_recent_publishes :=
                                        mark_published tick key (se_recent_publishes s),
                                      se_next_id := Suc (se_next_id s)\<rparr>, None))"

fun infer_batch :: "sentinel_config \<Rightarrow> iso_parser \<Rightarrow> real \<Rightarrow> real \<Rightarrow> string list \<Rightarrow> sentinel_state \<Rightarrow>
    bus_msg effect list \<times> sentinel_state \<times> py_error option" where
  "infer_batch cfg fromiso now tick [] s = ([], s, None)"
| "infer_batch cfg fromiso now tick (d # ds) s =
     (case infer_device cfg fromiso now tick d s of
        (out, s1, Some err) \<Rightarrow> (out, s1, Some err)
      | (out, s1, None) \<Rightarrow>
          let (outs, s2, r) = infer_batch cfg fromiso now tick ds s1 in (out @ outs, s2, r))"

datatype sentinel_label = Deliver pyval | Begin | Score real real

fun sentinel_step :: "sentinel_config \<Rightarrow> iso_parser \<Rightarrow> sentinel_label \<Rightarrow> sentinel_state \<Rightarrow>
    (real \<times> bus_msg effect) list \<times> sentinel_state" where
  "sentinel_step cfg fromiso (Deliver v) s = ([], sentinel_handle v s)"
| "sentinel_step cfg fromiso Begin s =
     ([], if se_pending s = [] then s\<lparr>se_pending := se_dirty s, se_dirty := []\<rparr> else s)"
| "sentinel_step cfg fromiso (Score now tick) s =
     (case se_pending s of
        [] \<Rightarrow> ([], s)
      | d # ds \<Rightarrow>
          (case infer_device cfg fromiso now tick d (s\<lparr>se_pending := ds\<rparr>) of
             (out, s1, Some err) \<Rightarrow> (map (Pair tick) out, s1\<lparr>se_pending := []\<rparr>)
           | (out, s1, None) \<Rightarrow> (map (Pair tick) out, s1)))"

fun sentinel_run :: "sentinel_config \<Rightarrow> iso_parser \<Rightarrow> sentinel_label list \<Rightarrow> sentinel_state \<Rightarrow>
    (real \<times> bus_msg effect) list \<times> sentinel_state" where
  "sentinel_run cfg fromiso [] s = ([], s)"
| "sentinel_run cfg fromiso (x # xs) s =
     (let (out, s1) = sentinel_step cfg fromiso x s;
          (outs, s2) = sentinel_run cfg fromiso xs s1
      in (out @ outs, s2))"

section \<open>The strongest signal\<close>

lemma predict_proba_unit: "unit_interval (predict_proba m feats)"
  by (auto simp: predict_proba_def unit_interval_def split: option.splits)

lemma model_proba_unit: "unit_interval (model_proba fromiso m es)"
  using predict_proba_unit by (simp add: model_proba_def) (simp add: unit_interval_def)

lemma first_max_Max: "f (first_max f b xs) = Max (f ` insert b (set xs))"
proof (rule Max_eqI [symmetric])
  show "f (first_max f b xs) \<in> f ` insert b (set xs)" by (rule imageI) (rule first_max_in)
qed (auto simp: first_max_ge)

lemma max_by_Max: "max_by f xs = Some m \<Longrightarrow> f m = Max (f ` set xs)"
  by (cases xs) (auto simp: first_max_Max)

definition strongest :: "iso_parser \<Rightarrow> real \<Rightarrow> sentinel_model \<Rightarrow> device_window \<Rightarrow> dict list \<Rightarrow> real" where
  "strongest fromiso now m w es =
     Max (insert (model_proba fromiso m es) (rh_probability ` set (evaluate fromiso now w)))"

lemma decide_strongest:
  "decide (6 / 10) fromiso now m w es = None \<longleftrightarrow>
     evaluate fromiso now w = [] \<and> model_proba fromiso m es < 6 / 10"
  "decide (6 / 10) fromiso now m w es = Some d \<Longrightarrow> sd_probability d = strongest fromiso now m w es"
proof -
  let ?hits = "evaluate fromiso now w" and ?p = "model_proba fromiso m es"
  have p: "0 \<le> ?p" using model_proba_unit by (simp add: unit_interval_def)
  show "decide (6 / 10) fromiso now m w es = None \<longleftrightarrow> ?hits = [] \<and> ?p < 6 / 10"
    "decide (6 / 10) fromiso now m w es = Some d \<Longrightarrow> sd_probability d = strongest fromiso now m w es"
  proof (atomize (full), cases "max_by rh_probability ?hits")
    case None
    then show "(decide (6 / 10) fromiso now m w es = None \<longleftrightarrow> ?hits = [] \<and> ?p < 6 / 10) \<and>
      (decide (6 / 10) fromiso now m w es = Some d \<longrightarrow> sd_probability d = strongest fromiso now m w es)"
      by (auto simp: decide_def strongest_def Let_def)
  next
    case (Some h)
    then have h: "h \<in> set ?hits" "?hits \<noteq> []"
      using max_by_SomeD [OF Some] by auto
    have "6 / 10 \<le> rh_probability h" using hit_bounds [OF h(1)] by simp
    moreover have "strongest fromiso now m w es = max ?p (rh_probability h)"
      using h(2) by (simp add: strongest_def max_by_Max [OF Some])
    ultimately show "(decide (6 / 10) fromiso now m w es = None \<longleftrightarrow> ?hits = [] \<and> ?p < 6 / 10) \<and>
      (decide (6 / 10) fromiso now m w es = Some d \<longrightarrow> sd_probability d = strongest fromiso now m w es)"
      using Some h(2) by (auto simp: decide_def Let_def)
  qed
qed

lemma decide_bounds:
  assumes "decide threshold fromiso now m w es = Some d"
  shows "unit_interval (sd_probability d) \<and> threshold \<le> sd_probability d \<and> 0 \<le> sd_horizon_hours d"
proof (cases "max_by rh_probability (evaluate fromiso now w)")
  case None
  with assms model_proba_unit [of fromiso m es] show ?thesis
    by (auto simp: decide_def Let_def split: if_splits)
next
  case (Some h)
  then have "h \<in> set (evaluate fromiso now w)" by (auto dest: max_by_SomeD)
  from hit_bounds [OF this] have "unit_interval (rh_probability h)" "0 \<le> rh_horizon_hours h"
    by (auto simp: unit_interval_def)
  with assms Some model_proba_unit [of fromiso m es] show ?thesis
    by (auto simp: decide_def Let_def split: if_splits)
qed

section \<open>Windows hold their own device's events\<close>

definition store_keyed :: "window_store \<Rightarrow> bool" where
  "store_keyed st \<longleftrightarrow>
     (\<forall>d w e. store_get d st = Some w \<longrightarrow> e \<in> set (dw_buf w) \<longrightarrow> map_of e ''device_id'' = Some (PStr d))"

lemma set_evict_loop: "set (evict_loop fromiso c es) \<subseteq> set es"
  by (auto simp: evict_loop_dropWhile dest: set_dropWhileD)

lemma store_keyed_new [inv_intros]: "store_keyed (new_store m age)"
  by (simp add: store_keyed_def store_get_def new_store_def)

lemma set_dq_append: "set (dq_append m x xs) \<subseteq> insert x (set xs)"
  using set_last_n_subset [of m "xs @ [x]"] by (simp add: dq_append_def)

lemma store_keyed_ingest [inv_intros]: "store_keyed st \<Longrightarrow> store_keyed (snd (ingest e st))"
  using set_dq_append
  by (fastforce simp: store_keyed_def store_get_ingest add_def new_window_def split: if_splits option.splits)

lemma store_keyed_recent [inv_intros]:
  "store_keyed st \<Longrightarrow> store_get d st = Some w \<Longrightarrow>
   store_keyed (store_put d (evict_stale fromiso now w) st)"
  using set_evict_loop by (fastforce simp: store_keyed_def evict_stale_def)

lemma store_keyed_handle [inv_intros]:
  "store_keyed (se_store s) \<Longrightarrow> store_keyed (se_store (sentinel_handle v s))"
  by (cases v) (auto simp: split_beta Let_def intro: inv_intros split: option.splits)

lemma infer_device_store [inv_intros]:
  "store_keyed (se_store s) \<Longrightarrow>
   store_keyed (se_store (fst (snd (infer_device cfg fromiso now tick d s))))"
  by (auto simp: infer_device_def Let_def split_beta intro: inv_intros split: option.splits sum.splits)

lemma store_keyed_step [inv_intros]:
  "store_keyed (se_store s) \<Longrightarrow> store_keyed (se_store (snd (sentinel_step cfg fromiso x s)))"
proof (cases x)
  case (Score now tick)
  assume s: "store_keyed (se_store s)"
  show ?thesis
  proof (cases "se_pending s")
    case Nil
    with s Score show ?thesis by simp
  next
    case (Cons d ds)
    with s Score infer_device_store [of "s\<lparr>se_pending := ds\<rparr>" cfg fromiso now tick d]
    show ?thesis by (auto split: prod.splits option.splits)
  qed
qed (auto intro: inv_intros)

section \<open>What one scoring publishes\<close>

fun prediction_of :: "bus_msg effect \<Rightarrow> predicted_failure option" where
  "prediction_of (Publish t (MPredicted e)) = (if t = topic_value PREDICTIONS_FAILURE then Some e else None)"
| "prediction_of _ = None"

definition publish_keys :: "(real \<times> bus_msg effect) list \<Rightarrow> (real \<times> string \<times> string) list" where
  "publish_keys out = List.map_filter
     (\<lambda>(t, e). map_option (\<lambda>p. (t, pf_device_id p, pf_failure_kind p)) (prediction_of e)) out"

lemma publish_keys_append [simp]: "publish_keys (xs @ ys) = publish_keys xs @ publish_keys ys"
  by (simp add: publish_keys_def map_filter_def)

lemma publish_keys_Nil [simp]: "publish_keys [] = []"
  by (simp add: publish_keys_def map_filter_def)

lemma mk_prediction_Inr:
  assumes "mk_prediction cfg now eid d events = Inr evt"
  shows "predicted_failure_ok evt" "pf_failure_kind evt = sd_failure_kind d"
    "pf_probability evt = sd_probability d"
    "get_def (last events) ''device_id'' (PStr ''unknown'') = PStr (pf_device_id evt)"
proof -
  have str: "str_of v = Some x \<longleftrightarrow> v = PStr x" for v x by (cases v) auto
  show "predicted_failure_ok evt" "pf_failure_kind evt = sd_failure_kind d"
    "pf_probability evt = sd_probability d"
    "get_def (last events) ''device_id'' (PStr ''unknown'') = PStr (pf_device_id evt)"
    using assms by (auto simp: mk_prediction_def Let_def str predicted_failure.defs bus_event.defs
        split: option.splits if_splits)
qed

lemma infer_device_publishes:
  assumes "infer_device cfg fromiso now tick d s = (out, s1, r)" and "store_keyed (se_store s)"
  obtains "out = []" "se_recent_publishes s1 = se_recent_publishes s"
  | evt where "out = [Publish (topic_value PREDICTIONS_FAILURE) (MPredicted evt)]"
      "predicted_failure_ok evt" "sc_publish_threshold cfg \<le> pf_probability evt"
      "pf_device_id evt = d" "r = None"
      "\<not> is_duplicate (sc_dedupe_window_s cfg) tick (d, pf_failure_kind evt) (se_recent_publishes s)"
      "se_recent_publishes s1 = mark_published tick (d, pf_failure_kind evt) (se_recent_publishes s)"
proof (cases "out = []")
  case True
  with assms(1) have "se_recent_publishes s1 = se_recent_publishes s"
    by (auto simp: infer_device_def Let_def split_beta split: option.splits sum.splits if_splits)
  with True that(1) show thesis by blast
next
  case False
  with assms(1) obtain w dec evt where w: "store_get d (se_store s) = Some w"
    and ne: "fst (recent fromiso now w) \<noteq> []"
    and dec: "decide (sc_publish_threshold cfg) fromiso now (se_model s) (snd (recent fromiso now w))
       (fst (recent fromiso now w)) = Some dec"
    and dup: "\<not> is_duplicate (sc_dedupe_window_s cfg) tick (d, sd_failure_kind dec) (se_recent_publishes s)"
    and evt: "mk_prediction cfg now (se_next_id s) dec (fst (recent fromiso now w)) = Inr evt"
    and out: "out = [Publish (topic_value PREDICTIONS_FAILURE) (MPredicted evt)]" "r = None"
    and s1: "se_recent_publishes s1 = mark_published tick (d, sd_failure_kind dec) (se_recent_publishes s)"
    by (auto simp: infer_device_def Let_def split_beta split: option.splits sum.splits if_splits)
  have "last (fst (recent fromiso now w)) \<in> set (dw_buf w)"
    using ne set_evict_loop last_in_set by fastforce
  then have "map_of (last (fst (recent fromiso now w))) ''device_id'' = Some (PStr d)"
    using assms(2) w by (auto simp: store_keyed_def)
  with mk_prediction_Inr(4) [OF evt] have "pf_device_id evt = d" by (simp add: get_def_def)
  with that(2) [OF out(1) _ _ _ out(2)] mk_prediction_Inr [OF evt] decide_bounds [OF dec] dup s1
  show thesis by simp
qed

section \<open>Runs\<close>

lemma sentinel_handle_log [simp]: "se_recent_publishes (sentinel_handle v s) = se_recent_publishes s"
  by (cases v) (auto simp: split_beta Let_def split: option.splits)

lemma sentinel_step_gate:
  assumes "store_keyed (se_store s)"
  shows "\<exists>as. gate_run (is_duplicate (sc_dedupe_window_s cfg)) mark_published (se_recent_publishes s) as =
    (publish_keys (fst (sentinel_step cfg fromiso x s)),
     se_recent_publishes (snd (sentinel_step cfg fromiso x s)))"
proof (cases "se_recent_publishes (snd (sentinel_step cfg fromiso x s)) = se_recent_publishes s
    \<and> publish_keys (fst (sentinel_step cfg fromiso x s)) = []")
  case True
  then show ?thesis by (intro exI [of _ "[]"]) simp
next
  case False
  then obtain now tick where x: "x = Score now tick"
    by (cases x) (auto split: if_splits)
  with False obtain d ds where p: "se_pending s = d # ds"
    by (cases "se_pending s") auto
  obtain out s1 r where i: "infer_device cfg fromiso now tick d (s\<lparr>se_pending := ds\<rparr>) = (out, s1, r)"
    by (cases "infer_device cfg fromiso now tick d (s\<lparr>se_pending := ds\<rparr>)")
  have "store_keyed (se_store (s\<lparr>se_pending := ds\<rparr>))" using assms by simp
  from infer_device_publishes [OF i this] show ?thesis
  proof cases
    case 1
    with False x p i show ?thesis by (cases r) auto
  next
    case (2 evt)
    with x p i show ?thesis
      by (intro exI [of _ "[(tick, d, pf_failure_kind evt)]"])
        (simp add: publish_keys_def map_filter_simps)
  qed
qed

lemma sentinel_run_gate:
  "store_keyed (se_store s) \<Longrightarrow>
   \<exists>as. gate_run (is_duplicate (sc_dedupe_window_s cfg)) mark_published (se_recent_publishes s) as =
     (publish_keys (fst (sentinel_run cfg fromiso xs s)),
      se_recent_publishes (snd (sentinel_run cfg fromiso xs s)))"
proof (induction xs arbitrary: s)
  case Nil
  show ?case by (intro exI [of _ "[]"]) simp
next
  case (Cons x xs)
  let ?g = "gate_run (is_duplicate (sc_dedupe_window_s cfg)) mark_published"
  let ?s1 = "snd (sentinel_step cfg fromiso x s)"
  from sentinel_step_gate [OF Cons.prems] obtain as where
    "?g (se_recent_publishes s) as = (publish_keys (fst (sentinel_step cfg fromiso x s)),
       se_recent_publishes ?s1)" by blast
  moreover from Cons.IH [of ?s1] Cons.prems obtain bs where
    "?g (se_recent_publishes ?s1) bs = (publish_keys (fst (sentinel_run cfg fromiso xs ?s1)),
       se_recent_publishes (snd (sentinel_run cfg fromiso xs ?s1)))"
    by (auto intro: inv_intros)
  ultimately show ?case
    by (intro exI [of _ "as @ bs"]) (simp add: gate_run_append split_beta Let_def)
qed

definition good_output :: "sentinel_config \<Rightarrow> real \<times> bus_msg effect \<Rightarrow> bool" where
  "good_output cfg o1 \<longleftrightarrow>
     (case prediction_of (snd o1) of
        None \<Rightarrow> False
      | Some evt \<Rightarrow> predicted_failure_ok evt \<and> sc_publish_threshold cfg \<le> pf_probability evt)"

lemma sentinel_step_good:
  assumes "store_keyed (se_store s)"
  shows "list_all (good_output cfg) (fst (sentinel_step cfg fromiso x s))"
proof (cases x)
  case (Score now tick)
  show ?thesis
  proof (cases "se_pending s")
    case Nil
    with Score show ?thesis by simp
  next
    case (Cons d ds)
    obtain out s1 r where i: "infer_device cfg fromiso now tick d (s\<lparr>se_pending := ds\<rparr>) = (out, s1, r)"
      by (cases "infer_device cfg fromiso now tick d (s\<lparr>se_pending := ds\<rparr>)")
    have "store_keyed (se_store (s\<lparr>se_pending := ds\<rparr>))" using assms by simp
    from infer_device_publishes [OF i this] have "list_all (good_output cfg) (map (Pair tick) out)"
      by cases (simp_all add: good_output_def)
    with Score Cons i show ?thesis by (cases r) auto
  qed
qed auto

lemma sentinel_run_good:
  "store_keyed (se_store s) \<Longrightarrow> list_all (good_output cfg) (fst (sentinel_run cfg fromiso xs s))"
proof (induction xs arbitrary: s)
  case (Cons x xs)
  then show ?case
    using sentinel_step_good [of s cfg fromiso x] store_keyed_step [of s cfg fromiso x]
    by (simp add: split_beta Let_def)
qed simp

lemma store_keyed_start: "store_keyed (se_store (sentinel_start p b))"
  by (simp add: sentinel_start_def store_keyed_new)

text \<open>Without events in between, scoring every pending device is the batch of \<open>_infer_batch\<close>.\<close>

lemma infer_device_pending:
  "infer_device cfg fromiso now tick d (s\<lparr>se_pending := p\<rparr>) =
     (let (out, s1, r) = infer_device cfg fromiso now tick d s in (out, s1\<lparr>se_pending := p\<rparr>, r))"
  by (simp add: infer_device_def Let_def split_beta split: option.splits sum.splits)

lemma score_idle: "se_pending s = [] \<Longrightarrow>
    sentinel_run cfg fromiso (replicate n (Score now tick)) s = ([], s)"
  by (induction n) auto

lemma score_pending:
  "sentinel_run cfg fromiso (replicate (length ds) (Score now tick)) (s\<lparr>se_pending := ds\<rparr>) =
     (let (out, s1, r) = infer_batch cfg fromiso now tick ds s
      in (map (Pair tick) out, s1\<lparr>se_pending := []\<rparr>))"
proof (induction ds arbitrary: s)
  case Nil
  show ?case by simp
next
  case (Cons d ds)
  obtain out s1 r where i: "infer_device cfg fromiso now tick d s = (out, s1, r)"
    by (cases "infer_device cfg fromiso now tick d s")
  then show ?case
    using Cons.IH [of s1]
    by (cases r) (simp_all add: infer_device_pending [of _ _ _ _ _ _ s] score_idle split_beta Let_def)
qed

section \<open>Properties\<close>

text \<open>C8: over any interleaving of arriving events and inference cycles, the same device and failure
  kind are published at most once per 300 seconds of the monotonic clock.\<close>

theorem predictions_deduplicated:
  "spaced 300 (publish_keys (fst (sentinel_run sentinel_defaults fromiso labels
     (sentinel_start path_exists loaded))))"
proof -
  from sentinel_run_gate [OF store_keyed_start] obtain as where
    "fst (gate_run (is_duplicate (sc_dedupe_window_s sentinel_defaults)) mark_published
       (se_recent_publishes (sentinel_start path_exists loaded)) as) =
     publish_keys (fst (sentinel_run sentinel_defaults fromiso labels (sentinel_start path_exists loaded)))"
    by (metis fst_conv)
  with dedupe.gate_run_spaced [of "sc_dedupe_window_s sentinel_defaults"
      "se_recent_publishes (sentinel_start path_exists loaded)" as]
  show ?thesis by (simp add: sentinel_defaults_def)
qed

text \<open>Everything the agent ever sends is a well-formed prediction on \<open>predictions.failure\<close> whose
  probability reaches the publication threshold.\<close>

lemma predictions_well_formed:
  "list_all (good_output cfg) (fst (sentinel_run cfg fromiso labels (sentinel_start path_exists loaded)))"
  by (rule sentinel_run_good [OF store_keyed_start])

text \<open>With the default threshold no signal is lost: there is no decision only if no rule fired and
  the model stayed under the threshold; otherwise the decision carries the largest probability of
  all rules and the model.\<close>

lemma decide_takes_strongest:
  "map_option sd_probability (decide (6 / 10) fromiso now m w es) =
     (if evaluate fromiso now w = [] \<and> model_proba fromiso m es < 6 / 10 then None
      else Some (Max (insert (model_proba fromiso m es) (rh_probability ` set (evaluate fromiso now w)))))"
proof (cases "decide (6 / 10) fromiso now m w es")
  case None
  with decide_strongest(1) [of fromiso now m w es] show ?thesis by simp
next
  case (Some d)
  with decide_strongest(1) [of fromiso now m w es] decide_strongest(2) [OF Some] show ?thesis
    by (simp add: strongest_def)
qed

end
