(* ===== verification/Correlator.thy ===== *)
theory Correlator
  imports Schema
begin

text \<open>
  The cross-site correlator (\<open>apps/control_plane/cross_site_correlator.py\<close>): it counts confident
  predictions per origin site and failure kind in a sliding window, and when a count reaches the
  threshold it sends a \<open>RuleCandidate\<close> to every other site, at most once per cooldown.

  The environment variables are a configuration record, fixed while the process runs; the clock is
  an argument, read once per event. \<open>ok\<close> says which Redis commands succeed.
\<close>

section \<open>Configuration and state\<close>

record correlator_config =
  cc_propagation_threshold :: int
  cc_confidence_floor :: real
  cc_window_s :: real
  cc_shadow_hours :: real
  cc_repropagate_cooldown_s :: real
  cc_sites :: "string list"

definition FEDERATION_SITES :: "string list" where
  "FEDERATION_SITES = [''frankfurt'', ''singapore'', ''mumbai'']"

definition federation_sites :: "string option \<Rightarrow> string list" where
  "federation_sites raw =
     (case raw of
        None \<Rightarrow> FEDERATION_SITES
      | Some r \<Rightarrow> if r = [] then FEDERATION_SITES
                  else filter (\<lambda>s. s \<noteq> []) (map strip (split_on CHR '','' r)))"

definition correlator_defaults :: correlator_config where
  "correlator_defaults =
     \<lparr>cc_propagation_threshold = 3, cc_confidence_floor = 85 / 100, cc_window_s = 3600,
      cc_shadow_hours = 48, cc_repropagate_cooldown_s = 3600, cc_sites = federation_sites None\<rparr>"

type_synonym hit = "real \<times> real \<times> string"
type_synonym propagation_log = "((string \<times> string \<times> string) \<times> real) list"

record correlator =
  co_hits :: "((string \<times> string) \<times> hit list) list"
  co_last_propagated :: propagation_log
  co_next_id :: uuid

definition correlator_init :: correlator where
  "correlator_init = \<lparr>co_hits = [], co_last_propagated = [], co_next_id = 0\<rparr>"

section \<open>Recording a prediction\<close>

fun purge_old :: "real \<Rightarrow> hit list \<Rightarrow> hit list" where
  "purge_old cutoff [] = []"
| "purge_old cutoff (h # hs) = (if fst h < cutoff then purge_old cutoff hs else h # hs)"

definition cooling :: "real \<Rightarrow> real \<Rightarrow> string \<times> string \<times> string \<Rightarrow> propagation_log \<Rightarrow> bool" where
  "cooling cooldown now key lp \<longleftrightarrow> now - get_def lp key 0 < cooldown"

definition mark_propagated :: "real \<Rightarrow> string \<times> string \<times> string \<Rightarrow> propagation_log \<Rightarrow> propagation_log" where
  "mark_propagated now key lp = AList.update key now lp"

interpretation propagation: cooldown_gate "\<lambda>lp k. Some (get_def lp k 0)" "cooling cooldown"
    mark_propagated cooldown for cooldown
  by unfold_locales
    (auto simp: cooling_def mark_propagated_def get_def_def update_conv' fun_eq_iff split: option.splits)

text \<open>The loop over the targets: those that are ready, and the new map of propagation times.\<close>

fun ready_loop :: "real \<Rightarrow> real \<Rightarrow> string \<Rightarrow> string \<Rightarrow> string list \<Rightarrow> propagation_log \<Rightarrow>
    string list \<times> propagation_log" where
  "ready_loop cooldown now site kind [] lp = ([], lp)"
| "ready_loop cooldown now site kind (target # ts) lp =
     (if target = site \<or> cooling cooldown now (site, kind, target) lp
      then ready_loop cooldown now site kind ts lp
      else let (ready, lp') = ready_loop cooldown now site kind ts
                                (mark_propagated now (site, kind, target) lp)
           in (target # ready, lp'))"

definition sample_devices :: "hit list \<Rightarrow> string list" where
  "sample_devices bucket = take 5 (sorted_set (filter (\<lambda>d. d \<noteq> []) (map (snd \<circ> snd) bucket)))"

text \<open>The guards at the head of \<open>record_prediction\<close>: the key and the hit an event gives.\<close>

definition qualifies :: "correlator_config \<Rightarrow> real \<Rightarrow> dict \<Rightarrow> ((string \<times> string) \<times> hit) option" where
  "qualifies cfg now event =
     (case (get_str event ''site_id'', get_str event ''failure_kind'', get_num event ''probability'') of
        (Some site, Some kind, Some conf) \<Rightarrow>
          if conf < cc_confidence_floor cfg then None
          else Some ((site, kind), now, conf,
                 (case get_def event ''device_id'' (PStr []) of PStr d \<Rightarrow> d | _ \<Rightarrow> []))
      | _ \<Rightarrow> None)"

definition record_prediction :: "correlator_config \<Rightarrow> real \<Rightarrow> dict \<Rightarrow> correlator \<Rightarrow>
    (string \<times> string \<times> string list) list \<times> correlator" where
  "record_prediction cfg now event co =
     (case qualifies cfg now event of
        None \<Rightarrow> ([], co)
      | Some ((site, kind), hit) \<Rightarrow>
          let bucket = purge_old (now - cc_window_s cfg) (get_def (co_hits co) (site, kind) [] @ [hit]);
              co1 = co\<lparr>co_hits := AList.update (site, kind) bucket (co_hits co)\<rparr>
          in if int (length bucket) < cc_propagation_threshold cfg then ([], co1)
             else let (ready, lp) = ready_loop (cc_repropagate_cooldown_s cfg) now site kind
                                      (cc_sites cfg) (co_last_propagated co)
                  in (if ready = [] then [] else [(site, kind, sample_devices bucket)],
                      co1\<lparr>co_last_propagated := lp\<rparr>))"

definition hit_count :: "correlator \<Rightarrow> string \<Rightarrow> string \<Rightarrow> nat" where
  "hit_count co site kind = length (get_def (co_hits co) (site, kind) [])"

section \<open>Propagation\<close>

definition build_candidate :: "correlator_config \<Rightarrow> real \<Rightarrow> uuid \<Rightarrow> string \<Rightarrow> string \<Rightarrow> string \<Rightarrow> real \<Rightarrow>
    nat \<Rightarrow> string list \<Rightarrow> rule_candidate" where
  "build_candidate cfg now eid origin target kind confidence count devs =
     bus_event.extend (envelope eid now target None None [])
       (rule_candidate.fields (''rule-cs-'' @ origin @ ''-'' @ kind) origin target kind
          (min 1 (max 0 confidence)) (now + 3600 * cc_shadow_hours cfg) (int count) devs)"

definition persist_candidate :: "(bus_msg effect \<Rightarrow> bool) \<Rightarrow> rule_candidate \<Rightarrow> bus_msg effect list" where
  "persist_candidate ok c =
     (let key = ''federation:candidates:'' @ rc_target_site_id c
      in attempt ok [LPush key (MRuleCandidate c), LTrim key 0 49])"

fun fan_out :: "correlator_config \<Rightarrow> (bus_msg effect \<Rightarrow> bool) \<Rightarrow> real \<Rightarrow> string \<Rightarrow> string \<Rightarrow> real \<Rightarrow> nat \<Rightarrow>
    string list \<Rightarrow> string list \<Rightarrow> uuid \<Rightarrow> bus_msg effect list \<times> uuid" where
  "fan_out cfg ok now origin kind conf count devs [] eid = ([], eid)"
| "fan_out cfg ok now origin kind conf count devs (target # ts) eid =
     (if target = origin then fan_out cfg ok now origin kind conf count devs ts eid
      else let cand = build_candidate cfg now eid origin target kind conf count devs;
               here = attempt ok [Publish (''federation.rule_candidate.'' @ target) (MRuleCandidate cand)]
                      @ persist_candidate ok cand;
               (rest, eid') = fan_out cfg ok now origin kind conf count devs ts (Suc eid)
           in (here @ rest, eid'))"

text \<open>One iteration of \<open>run_correlator\<close>; \<open>float(event.get("probability", 0.0))\<close> is a number here,
  since the event was recorded.\<close>

fun correlator_handle :: "correlator_config \<Rightarrow> (bus_msg effect \<Rightarrow> bool) \<Rightarrow> real \<Rightarrow> pyval \<Rightarrow> correlator \<Rightarrow>
    bus_msg effect list \<times> correlator" where
  "correlator_handle cfg ok now (PDict event) co =
     (case record_prediction cfg now event co of
        ([], co1) \<Rightarrow> ([], co1)
      | ((origin, kind, devs) # _, co1) \<Rightarrow>
          let count = hit_count co1 origin kind;
              conf = (case get_num event ''probability'' of None \<Rightarrow> 0 | Some p \<Rightarrow> p);
              (out, eid) = fan_out cfg ok now origin kind conf count devs (cc_sites cfg) (co_next_id co1)
          in (out, co1\<lparr>co_next_id := eid\<rparr>))"
| "correlator_handle cfg ok now _ co = ([], co)"

fun correlator_run :: "correlator_config \<Rightarrow> (bus_msg effect \<Rightarrow> bool) \<Rightarrow> (real \<times> pyval) list \<Rightarrow>
    correlator \<Rightarrow> (real \<times> bus_msg effect) list \<times> correlator" where
  "correlator_run cfg ok [] co = ([], co)"
| "correlator_run cfg ok ((now, v) # es) co =
     (let (out, co1) = correlator_handle cfg ok now v co;
          (outs, co2) = correlator_run cfg ok es co1
      in (map (Pair now) out @ outs, co2))"

section \<open>Hits in the window\<close>

lemma purge_old_dropWhile: "purge_old cutoff hs = dropWhile (\<lambda>h. fst h < cutoff) hs"
  by (induction hs) auto

lemma purge_old_sorted:
  "sorted (map fst hs) \<Longrightarrow> purge_old cutoff hs = filter (\<lambda>h. cutoff \<le> fst h) hs"
proof (induction hs)
  case (Cons h hs)
  show ?case
  proof (cases "fst h < cutoff")
    case False
    with Cons.prems have "filter (\<lambda>h. cutoff \<le> fst h) hs = hs"
      by (auto simp: filter_id_conv)
    with False show ?thesis by simp
  qed (use Cons in auto)
qed simp

text \<open>The hits of a key in a history of events, and the ones a count is made of.\<close>

definition hits_of :: "correlator_config \<Rightarrow> string \<times> string \<Rightarrow> (real \<times> pyval) list \<Rightarrow> hit list" where
  "hits_of cfg key es = List.map_filter
     (\<lambda>(now, v). case v of PDict e \<Rightarrow>
         (case qualifies cfg now e of Some (k, h) \<Rightarrow> if k = key then Some h else None | None \<Rightarrow> None)
       | _ \<Rightarrow> None) es"

definition live_hits :: "correlator_config \<Rightarrow> hit list \<Rightarrow> hit list" where
  "live_hits cfg hs = (if hs = [] then [] else filter (\<lambda>h. fst (last hs) - cc_window_s cfg \<le> fst h) hs)"

lemma qualifies_time: "qualifies cfg now e = Some (k, h) \<Longrightarrow> fst h = now \<and> cc_confidence_floor cfg \<le> fst (snd h)"
  by (auto simp: qualifies_def split: option.splits if_splits)

lemma record_hits:
  "co_hits (snd (record_prediction cfg now e co)) =
     (case qualifies cfg now e of
        None \<Rightarrow> co_hits co
      | Some (k, h) \<Rightarrow> AList.update k (purge_old (now - cc_window_s cfg) (get_def (co_hits co) k [] @ [h])) (co_hits co))"
  by (auto simp: record_prediction_def Let_def split_beta split: option.splits)

lemma handle_hits [simp]:
  "co_hits (snd (correlator_handle cfg ok now (PDict e) co)) = co_hits (snd (record_prediction cfg now e co))"
  by (auto simp: split_beta Let_def split: list.splits prod.splits)

declare correlator_handle.simps(1) [simp del]

lemma hits_of_snoc:
  "hits_of cfg key (es @ [(now, v)]) = hits_of cfg key es @
     (case v of PDict e \<Rightarrow>
        (case qualifies cfg now e of Some (k, h) \<Rightarrow> if k = key then [h] else [] | None \<Rightarrow> [])
      | _ \<Rightarrow> [])"
  by (auto simp: hits_of_def map_filter_def split: pyval.splits option.splits)

lemma correlator_run_snoc:
  "snd (correlator_run cfg ok (es @ [(now, v)]) co) =
     snd (correlator_handle cfg ok now v (snd (correlator_run cfg ok es co)))"
proof (induction es arbitrary: co)
  case (Cons x es)
  then show ?case by (cases x) (simp add: split_beta Let_def)
qed (simp add: split_beta)

lemma hits_of_times: "set (map fst (hits_of cfg key es)) \<subseteq> set (map fst es)"
  by (auto simp: hits_of_def map_filter_def image_iff dest!: qualifies_time
      split: pyval.splits option.splits if_splits) force+

lemma sorted_hits_of: "sorted (map fst es) \<Longrightarrow> sorted (map fst (hits_of cfg key es))"
proof (induction es rule: rev_induct)
  case (snoc x es)
  obtain now v where x: "x = (now, v)" by (cases x)
  with snoc.prems have s: "sorted (map fst es)" "\<forall>t \<in> set (map fst es). t \<le> now"
    by (auto simp: sorted_append)
  then have le: "\<forall>t \<in> set (map fst (hits_of cfg key es)). t \<le> now"
    using hits_of_times [of cfg key es] by blast
  show ?case
    unfolding x hits_of_snoc using snoc.IH [OF s(1)] le
    by (auto simp: sorted_append dest!: qualifies_time split: pyval.splits option.splits)
qed (simp add: hits_of_def map_filter_def)

lemma bucket_after_run:
  "sorted (map fst es) \<Longrightarrow>
   get_def (co_hits (snd (correlator_run cfg ok es correlator_init))) key [] = live_hits cfg (hits_of cfg key es)"
proof (induction es rule: rev_induct)
  case Nil
  show ?case by (simp add: correlator_init_def hits_of_def live_hits_def map_filter_def)
next
  case (snoc x es)
  obtain now v where x: "x = (now, v)" by (cases x)
  let ?co = "snd (correlator_run cfg ok es correlator_init)" and ?hs = "hits_of cfg key es"
  from snoc x have IH: "get_def (co_hits ?co) key [] = live_hits cfg ?hs" by (simp add: sorted_append)
  show ?case
  proof (cases "\<exists>e h. v = PDict e \<and> qualifies cfg now e = Some (key, h)")
    case True
    then obtain e h where v: "v = PDict e" "qualifies cfg now e = Some (key, h)" by blast
    then have h: "fst h = now" by (auto dest: qualifies_time)
    have hs: "hits_of cfg key (es @ [x]) = ?hs @ [h]"
      using v by (simp add: x hits_of_snoc)
    have s: "sorted (map fst (?hs @ [h]))"
      using sorted_hits_of [OF snoc.prems, of cfg key] by (simp only: hs)
    have live: "sorted (map fst (live_hits cfg ?hs @ [h]))"
      using s by (auto simp: live_hits_def sorted_append sorted_filter)
    have le: "fst (last ?hs) \<le> now" if "?hs \<noteq> []"
      using s that h by (auto simp: sorted_append)
    have "purge_old (now - cc_window_s cfg) (live_hits cfg ?hs @ [h]) =
        filter (\<lambda>a. now - cc_window_s cfg \<le> fst a) (?hs @ [h])"
      unfolding purge_old_sorted [OF live] using le
      by (auto simp: live_hits_def intro!: filter_cong)
    then show ?thesis
      using v h IH unfolding x correlator_run_snoc hs [unfolded x]
      by (simp add: record_hits update_conv' get_def_def live_hits_def)
  next
    case False
    then have "hits_of cfg key (es @ [x]) = ?hs"
      by (auto simp: x hits_of_snoc split: pyval.splits option.splits)
    moreover have "get_def (co_hits (snd (correlator_handle cfg ok now v ?co))) key [] = get_def (co_hits ?co) key []"
      using False by (cases v) (auto simp: record_hits get_def_def update_conv' split: option.splits)
    ultimately show ?thesis using IH by (simp add: x correlator_run_snoc)
  qed
qed

section \<open>Propagations are spaced\<close>

text \<open>The targets other than the origin share their last propagation, so the fan-out to every site
  the publisher makes is what the per-target cooldown allowed.\<close>

definition uniform_log :: "string list \<Rightarrow> propagation_log \<Rightarrow> bool" where
  "uniform_log sites lp \<longleftrightarrow>
     (\<forall>o1 k. \<exists>t. \<forall>x \<in> set sites. x \<noteq> o1 \<longrightarrow> get_def lp (o1, k, x) 0 = t)"

lemma get_mark [simp]:
  "get_def (mark_propagated now key lp) k 0 = (if k = key then now else get_def lp k 0)"
  by (simp add: mark_propagated_def get_def_def update_conv')

lemma cooling_mark [simp]:
  "cooling c now k (mark_propagated now' key lp) \<longleftrightarrow> (if k = key then now - now' < c else cooling c now k lp)"
  by (simp add: cooling_def)

lemma ready_loop_gate:
  "ready_loop c now site kind ts lp = (ready, lp') \<Longrightarrow>
   gate_run (cooling c) mark_propagated lp
     (map (\<lambda>x. (now, site, kind, x)) (filter (\<lambda>x. x \<noteq> site) ts)) =
   (map (\<lambda>x. (now, site, kind, x)) ready, lp')"
proof (induction ts arbitrary: lp ready lp')
  case (Cons x ts)
  then show ?case
    by (cases "x = site"; cases "cooling c now (site, kind, x) lp")
      (auto split: prod.splits)
qed simp

lemma ready_loop_uniform:
  assumes "\<forall>x \<in> set ts. x \<noteq> site \<longrightarrow> get_def lp (site, kind, x) 0 = t" and "distinct ts"
  shows "ready_loop c now site kind ts lp =
    (if now - t < c then ([], lp)
     else (filter (\<lambda>x. x \<noteq> site) ts,
           foldl (\<lambda>l x. mark_propagated now (site, kind, x) l) lp (filter (\<lambda>x. x \<noteq> site) ts)))"
  using assms
proof (induction ts arbitrary: lp)
  case Nil
  show ?case by simp
next
  case (Cons x ts)
  show ?case
  proof (cases "x = site \<or> now - t < c")
    case True
    then have "x = site \<or> cooling c now (site, kind, x) lp"
      using Cons.prems by (cases "x = site") (auto simp: cooling_def)
    with Cons True show ?thesis by auto
  next
    case False
    have "\<forall>y \<in> set ts. y \<noteq> site \<longrightarrow>
        get_def (mark_propagated now (site, kind, x) lp) (site, kind, y) 0 = t"
      using Cons.prems by auto
    from Cons.IH [OF this] False Cons.prems show ?thesis
      by (auto simp: cooling_def)
  qed
qed

lemma get_marks:
  "get_def (foldl (\<lambda>l x. mark_propagated now (site, kind, x) l) lp xs) (o1, k, x) 0 =
     (if o1 = site \<and> k = kind \<and> x \<in> set xs then now else get_def lp (o1, k, x) 0)"
  by (induction xs arbitrary: lp) auto

lemma uniform_marks:
  assumes "uniform_log sites lp"
  shows "uniform_log sites
    (foldl (\<lambda>l x. mark_propagated now (site, kind, x) l) lp (filter (\<lambda>x. x \<noteq> site) sites))"
  unfolding uniform_log_def get_marks
proof (intro allI)
  fix o1 k
  obtain t where "\<forall>x \<in> set sites. x \<noteq> o1 \<longrightarrow> get_def lp (o1, k, x) 0 = t"
    using assms unfolding uniform_log_def by blast
  then show "\<exists>t. \<forall>x \<in> set sites. x \<noteq> o1 \<longrightarrow>
      (if o1 = site \<and> k = kind \<and> x \<in> set (filter (\<lambda>x. x \<noteq> site) sites) then now
       else get_def lp (o1, k, x) 0) = t"
    by (intro exI [of _ "if o1 = site \<and> k = kind then now else t"]) auto
qed

fun candidate_key :: "bus_msg effect \<Rightarrow> (string \<times> string \<times> string) option" where
  "candidate_key (Publish topic (MRuleCandidate c)) =
     Some (rc_origin_site_id c, rc_failure_kind c, rc_target_site_id c)"
| "candidate_key _ = None"

definition candidate_keys :: "(real \<times> bus_msg effect) list \<Rightarrow> (real \<times> string \<times> string \<times> string) list" where
  "candidate_keys out = List.map_filter (\<lambda>(t, e). map_option (Pair t) (candidate_key e)) out"

lemma candidate_keys_append [simp]: "candidate_keys (xs @ ys) = candidate_keys xs @ candidate_keys ys"
  by (simp add: candidate_keys_def map_filter_def)

lemma candidate_fields [simp]:
  "rc_origin_site_id (build_candidate cfg now eid origin target kind conf n devs) = origin"
  "rc_target_site_id (build_candidate cfg now eid origin target kind conf n devs) = target"
  "rc_failure_kind (build_candidate cfg now eid origin target kind conf n devs) = kind"
  "rc_origin_confidence (build_candidate cfg now eid origin target kind conf n devs) = min 1 (max 0 conf)"
  "rc_sample_device_ids (build_candidate cfg now eid origin target kind conf n devs) = devs"
  "rc_occurrence_count (build_candidate cfg now eid origin target kind conf n devs) = int n"
  by (simp_all add: build_candidate_def bus_event.defs rule_candidate.defs)

lemma candidate_keys_here [simp]:
  "candidate_keys [(now, Publish topic (MRuleCandidate c))] =
     [(now, rc_origin_site_id c, rc_failure_kind c, rc_target_site_id c)]"
  "candidate_keys (map (Pair now) (persist_candidate ok c)) = []"
  by (simp_all add: candidate_keys_def map_filter_def persist_candidate_def Let_def)

lemma candidate_keys_fan_out:
  "candidate_keys (map (Pair now) (fst (fan_out cfg ok now origin kind conf n devs ts eid))) =
     map (\<lambda>x. (now, origin, kind, x)) (filter (\<lambda>x. x \<noteq> origin) ts)"
proof (induction ts arbitrary: eid)
  case Nil
  show ?case by (simp add: candidate_keys_def map_filter_def)
next
  case (Cons x ts)
  show ?case
  proof (cases "x = origin")
    case False
    let ?c = "build_candidate cfg now eid origin x kind conf n devs"
    have "map (Pair now) (fst (fan_out cfg ok now origin kind conf n devs (x # ts) eid)) =
        [(now, Publish (''federation.rule_candidate.'' @ x) (MRuleCandidate ?c))]
        @ map (Pair now) (persist_candidate ok ?c)
        @ map (Pair now) (fst (fan_out cfg ok now origin kind conf n devs ts (Suc eid)))"
      using False by (simp add: split_beta Let_def)
    then show ?thesis
      using False Cons by (simp only: candidate_keys_append candidate_keys_here candidate_fields) simp
  qed (use Cons in simp)
qed

lemma record_gate:
  assumes "record_prediction cfg now e co = (ready, co1)"
    and "uniform_log (cc_sites cfg) (co_last_propagated co)" and "distinct (cc_sites cfg)"
    and "0 < cc_repropagate_cooldown_s cfg"
  shows "uniform_log (cc_sites cfg) (co_last_propagated co1) \<and>
    (\<exists>as. gate_run (cooling (cc_repropagate_cooldown_s cfg)) mark_propagated (co_last_propagated co) as =
       (case ready of [] \<Rightarrow> []
        | (origin, kind, devs) # _ \<Rightarrow> map (\<lambda>x. (now, origin, kind, x)) (filter (\<lambda>x. x \<noteq> origin) (cc_sites cfg)),
        co_last_propagated co1))"
proof (cases "co_last_propagated co1 = co_last_propagated co \<and> ready = []")
  case True
  with assms(2) show ?thesis by (intro conjI exI [of _ "[]"]) simp_all
next
  case False
  let ?c = "cc_repropagate_cooldown_s cfg"
  from False assms(1) obtain site kind hit devs r lp where
    l: "ready_loop ?c now site kind (cc_sites cfg) (co_last_propagated co) = (r, lp)"
    and ready: "ready = (if r = [] then [] else [(site, kind, devs)])" and co1: "co_last_propagated co1 = lp"
    by (auto simp: record_prediction_def Let_def split: option.splits prod.splits if_splits)
  obtain t where t: "\<forall>x \<in> set (cc_sites cfg). x \<noteq> site \<longrightarrow>
      get_def (co_last_propagated co) (site, kind, x) 0 = t"
    using assms(2) unfolding uniform_log_def by blast
  from l ready_loop_uniform [OF t assms(3), of ?c now]
  consider "r = []" "lp = co_last_propagated co" | "r = filter (\<lambda>x. x \<noteq> site) (cc_sites cfg)"
      "lp = foldl (\<lambda>l x. mark_propagated now (site, kind, x) l) (co_last_propagated co)
              (filter (\<lambda>x. x \<noteq> site) (cc_sites cfg))"
    by (auto split: if_splits)
  then have u: "uniform_log (cc_sites cfg) lp \<and> (r \<noteq> [] \<longrightarrow> r = filter (\<lambda>x. x \<noteq> site) (cc_sites cfg))"
    by cases (use assms(2) uniform_marks [OF assms(2), of now site kind] in auto)
  with ready_loop_gate [OF l] ready co1 show ?thesis
    by (intro conjI exI [of _ "map (\<lambda>x. (now, site, kind, x)) (filter (\<lambda>x. x \<noteq> site) (cc_sites cfg))"])
      (cases "r = []"; simp)+
qed

lemma handle_gate:
  assumes "uniform_log (cc_sites cfg) (co_last_propagated co)" and "distinct (cc_sites cfg)"
    and "0 < cc_repropagate_cooldown_s cfg"
  shows "uniform_log (cc_sites cfg) (co_last_propagated (snd (correlator_handle cfg ok now v co))) \<and>
    (\<exists>as. gate_run (cooling (cc_repropagate_cooldown_s cfg)) mark_propagated (co_last_propagated co) as =
       (candidate_keys (map (Pair now) (fst (correlator_handle cfg ok now v co))),
        co_last_propagated (snd (correlator_handle cfg ok now v co))))"
proof (cases "\<exists>e. v = PDict e")
  case False
  then have "correlator_handle cfg ok now v co = ([], co)" by (cases v) auto
  with assms(1) show ?thesis
    by (intro conjI exI [of _ "[]"]) (simp_all add: candidate_keys_def map_filter_def)
next
  case True
  then obtain e where v: "v = PDict e" by blast
  obtain ready co1 where r: "record_prediction cfg now e co = (ready, co1)" by fastforce
  show ?thesis
  proof (cases ready)
    case Nil
    with record_gate [OF r assms] v r show ?thesis
      by (simp add: correlator_handle.simps(1) candidate_keys_def map_filter_def)
  next
    case (Cons x xs)
    obtain origin kind devs where x: "x = (origin, kind, devs)" by (cases x)
    with record_gate [OF r assms] v r Cons show ?thesis
      by (simp add: correlator_handle.simps(1) Let_def split_beta candidate_keys_fan_out)
  qed
qed

lemma correlator_run_gate:
  assumes "distinct (cc_sites cfg)" and "0 < cc_repropagate_cooldown_s cfg"
  shows "uniform_log (cc_sites cfg) (co_last_propagated co) \<Longrightarrow>
    \<exists>as. fst (gate_run (cooling (cc_repropagate_cooldown_s cfg)) mark_propagated (co_last_propagated co) as) =
       candidate_keys (fst (correlator_run cfg ok es co))"
proof (induction es arbitrary: co)
  case Nil
  show ?case by (intro exI [of _ "[]"]) (simp add: candidate_keys_def map_filter_def)
next
  case (Cons x es)
  obtain now v where x: "x = (now, v)" by (cases x)
  let ?co1 = "snd (correlator_handle cfg ok now v co)"
  let ?g = "gate_run (cooling (cc_repropagate_cooldown_s cfg)) mark_propagated"
  from handle_gate [OF Cons.prems assms, of ok now v] obtain as where
    "?g (co_last_propagated co) as = (candidate_keys (map (Pair now) (fst (correlator_handle cfg ok now v co))),
       co_last_propagated ?co1)" "uniform_log (cc_sites cfg) (co_last_propagated ?co1)" by blast
  moreover from Cons.IH [OF this(2)] obtain bs where
    "fst (?g (co_last_propagated ?co1) bs) = candidate_keys (fst (correlator_run cfg ok es ?co1))" by blast
  ultimately show ?case
    by (intro exI [of _ "as @ bs"]) (simp add: x gate_run_append split_beta Let_def)
qed

lemma uniform_log_init: "uniform_log sites (co_last_propagated correlator_init)"
  by (auto simp: uniform_log_def correlator_init_def)

section \<open>What is sent\<close>

fun good_candidate :: "correlator_config \<Rightarrow> real \<times> bus_msg effect \<Rightarrow> bool" where
  "good_candidate cfg (t, Publish topic (MRuleCandidate c)) =
     (topic = ''federation.rule_candidate.'' @ rc_target_site_id c \<and>
      rule_candidate_ok c \<and> rc_target_site_id c \<in> set (cc_sites cfg) \<and>
      rc_target_site_id c \<noteq> rc_origin_site_id c \<and>
      cc_propagation_threshold cfg \<le> rc_occurrence_count c \<and>
      length (rc_sample_device_ids c) \<le> 5 \<and> distinct (rc_sample_device_ids c) \<and>
      sorted (rc_sample_device_ids c))"
| "good_candidate cfg (t, Publish topic _) = False"
| "good_candidate cfg (t, _) = True"

lemma sample_devices_good:
  "length (sample_devices b) \<le> 5 \<and> distinct (sample_devices b) \<and> sorted (sample_devices b)"
  by (simp add: sample_devices_def sorted_wrt_take)

lemma good_fan_out:
  assumes "length devs \<le> 5 \<and> distinct devs \<and> sorted devs" "cc_propagation_threshold cfg \<le> int n"
  shows "set ts \<subseteq> set (cc_sites cfg) \<Longrightarrow>
    list_all (good_candidate cfg) (map (Pair now) (fst (fan_out cfg ok now origin kind conf n devs ts eid)))"
proof (induction ts arbitrary: eid)
  case (Cons x ts)
  then show ?case
    using assms
    by (simp add: split_beta Let_def persist_candidate_def rule_candidate_ok_def unit_interval_def)
qed simp

lemma record_count:
  assumes "record_prediction cfg now e co = ((origin, kind, devs) # rest, co1)"
  shows "cc_propagation_threshold cfg \<le> int (hit_count co1 origin kind) \<and> (\<exists>b. devs = sample_devices b)"
  using assms
  by (auto simp: record_prediction_def hit_count_def get_def_def update_conv' Let_def split_beta
      split: option.splits if_splits)

lemma good_handle: "list_all (good_candidate cfg) (map (Pair now) (fst (correlator_handle cfg ok now v co)))"
proof (cases v)
  case (PDict e)
  show ?thesis
  proof (cases "record_prediction cfg now e co")
    case (Pair ready co1)
    then show ?thesis
    proof (cases ready)
      case (Cons x xs)
      obtain origin kind devs where x: "x = (origin, kind, devs)" by (cases x)
      from record_count [of cfg now e co origin kind devs xs co1] Pair Cons x sample_devices_good
      have "cc_propagation_threshold cfg \<le> int (hit_count co1 origin kind)"
        "length devs \<le> 5 \<and> distinct devs \<and> sorted devs" by auto
      from good_fan_out [OF this(2,1) subset_refl] Pair Cons x PDict show ?thesis
        by (simp add: correlator_handle.simps(1) Let_def split_beta)
    qed (simp add: PDict correlator_handle.simps(1))
  qed
qed simp_all

section \<open>Properties\<close>


text \<open>Every candidate ever published goes to a federation site other than its origin, carries a
  confidence between 0 and 1 and at most five distinct sorted device names, and its occurrence
  count reached the propagation threshold.\<close>

lemma candidates_well_formed:
  "list_all (good_candidate cfg) (fst (correlator_run cfg ok es co))"
proof (induction es arbitrary: co)
  case (Cons x es)
  obtain now v where "x = (now, v)" by (cases x)
  with Cons good_handle show ?case by (simp add: split_beta Let_def)
qed simp

text \<open>The counter of a site and failure kind is the number of its confident predictions in the
  window that ends at the newest of them, on any time-ordered history.\<close>

lemma hit_count_is_sliding_window:
  assumes "sorted (map fst es)"
  shows "hit_count (snd (correlator_run cfg ok es correlator_init)) site kind =
     length (live_hits cfg (hits_of cfg (site, kind) es))"
  by (simp add: hit_count_def bucket_after_run [OF assms])

definition sample_prediction :: "string \<Rightarrow> pyval" where
  "sample_prediction d = PDict [(''site_id'', PStr ''mumbai''), (''failure_kind'', PStr ''gpu_thermal''),
     (''probability'', PFloat (9 / 10)), (''device_id'', PStr d)]"

lemma hit_count_is_sliding_window_witness:
  "hit_count (snd (correlator_run correlator_defaults (\<lambda>_. True)
     [(0, sample_prediction ''a''), (3000, sample_prediction ''b''), (4000, sample_prediction ''c'')]
     correlator_init)) ''mumbai'' ''gpu_thermal'' = 2"
proof -
  let ?es = "[(0 :: real, sample_prediction ''a''), (3000, sample_prediction ''b''), (4000, sample_prediction ''c'')]"
  have "sorted (map fst ?es)" by simp
  from hit_count_is_sliding_window [OF this, of correlator_defaults "\<lambda>_. True" "''mumbai''" "''gpu_thermal''"]
  show ?thesis
    by (simp add: hits_of_def List.map_filter_simps sample_prediction_def qualifies_def get_str_def
        get_num_def correlator_defaults_def live_hits_def)
qed

end
