(* ===== verification/Policy.thy ===== *)
theory Policy
  imports Schema "HOL-Library.Multiset"
begin

text \<open>
  The policy engine that gates every action (\<open>apps/control_plane/policy_engine.py\<close>).

  A policy's parameters are the values YAML yields. \<open>eval\<close> of a custom rule's condition is a
  parameter \<open>py_eval\<close> from the source text and the namespace of \<open>safe_locals\<close> to the truth of the
  result, \<open>None\<close> where it raises. The compiled rule pattern is modelled as the function
  \<open>custom_rule_match\<close>, with the group named \<open>verdict\<close>; as written in the source the pattern spells
  that name with an HTML escape, which \<open>re.compile\<close> refuses (\<open>custom_rule_pattern_malformed\<close>).
  Instants are seconds since the epoch.
\<close>

section \<open>Decisions\<close>

datatype decision = APPROVED | DENIED | NEEDS_HUMAN

fun decision_value :: "decision \<Rightarrow> string" where
  "decision_value APPROVED = ''approved''"
| "decision_value DENIED = ''denied''"
| "decision_value NEEDS_HUMAN = ''needs_human''"

text \<open>The order of the precedence DENIED > NEEDS_HUMAN > APPROVED.\<close>

fun strictness :: "decision \<Rightarrow> nat" where
  "strictness APPROVED = 0"
| "strictness NEEDS_HUMAN = 1"
| "strictness DENIED = 2"

lemma strictness_inject [simp]: "strictness a = strictness b \<longleftrightarrow> a = b"
  by (cases a; cases b) simp_all

instantiation decision :: linorder
begin

definition less_eq_decision :: "decision \<Rightarrow> decision \<Rightarrow> bool" where
  "less_eq_decision a b \<longleftrightarrow> strictness a \<le> strictness b"

definition less_decision :: "decision \<Rightarrow> decision \<Rightarrow> bool" where
  "less_decision a b \<longleftrightarrow> strictness a < strictness b"

instance
  by standard (auto simp: less_eq_decision_def less_decision_def)

end

lemma decision_less [simp]:
  "APPROVED \<le> d" "d \<le> DENIED" "DENIED \<le> d \<longleftrightarrow> d = DENIED" "d \<le> APPROVED \<longleftrightarrow> d = APPROVED"
  "NEEDS_HUMAN \<le> d \<longleftrightarrow> d \<noteq> APPROVED" "d \<le> NEEDS_HUMAN \<longleftrightarrow> d \<noteq> DENIED"
  by (cases d; simp add: less_eq_decision_def)+

section \<open>Policies\<close>

record policy =
  po_id :: string
  po_kind :: string
  po_parameters :: dict
  po_applies_to_sites :: "string list"

text \<open>\<open>set(v)\<close>: of a list its elements if they can be hashed, of a text its characters, of a dict its
  keys.\<close>

fun hashable :: "pyval \<Rightarrow> bool" where
  "hashable (PList xs) = False"
| "hashable (PDict d) = False"
| "hashable _ = True"

fun py_set :: "pyval \<Rightarrow> pyval list res" where
  "py_set (PList xs) =
     (if list_all hashable xs then Inr xs else Inl (TypeError ''unhashable type''))"
| "py_set (PStr s) = Inr (map (\<lambda>c. PStr [c]) s)"
| "py_set (PDict d) = Inr (map (PStr \<circ> fst) d)"
| "py_set _ = Inl (TypeError ''object is not iterable'')"

type_synonym verdict = "decision \<times> string option"

definition eval_blast_radius :: "policy \<Rightarrow> recommendation \<Rightarrow> verdict res" where
  "eval_blast_radius p rec =
     res_bind (py_int (get_def (po_parameters p) ''max_devices_per_action'' (PInt 8))) (\<lambda>cap.
       let n = int (length (rec_target_device_ids rec))
       in if cap < n
          then Inr (NEEDS_HUMAN,
                 Some (''blast radius '' @ str_of_int n @ '' > cap '' @ str_of_int cap))
          else Inr (APPROVED, None))"

definition utc_hour :: "real \<Rightarrow> int" where
  "utc_hour now = \<lfloor>now / 3600\<rfloor> mod 24"

definition in_window :: "int \<Rightarrow> int \<Rightarrow> int \<Rightarrow> bool" where
  "in_window start_h end_h local_hour =
     (if end_h < start_h
      then (start_h \<le> local_hour \<and> local_hour < 24) \<or> (0 \<le> local_hour \<and> local_hour < end_h)
      else start_h \<le> local_hour \<and> local_hour < end_h)"

definition eval_blackout_window :: "policy \<Rightarrow> recommendation \<Rightarrow> real \<Rightarrow> verdict res" where
  "eval_blackout_window p rec now =
     res_bind (py_set (get_def (po_parameters p) ''applies_to_kinds'' (PList []))) (\<lambda>kinds.
       if kinds \<noteq> [] \<and> PStr (rec_kind rec) \<notin> set kinds then Inr (APPROVED, None)
       else res_bind (py_int (get_def (po_parameters p) ''local_start_hour'' (PInt 22))) (\<lambda>start_h.
            res_bind (py_int (get_def (po_parameters p) ''local_end_hour'' (PInt 6))) (\<lambda>end_h.
            res_bind (py_int (get_def (po_parameters p) ''tz_offset_hours'' (PInt 0))) (\<lambda>offset_h.
              let local_hour = (utc_hour now + offset_h) mod 24
              in if in_window start_h end_h local_hour
                 then Inr (DENIED, Some (''in blackout window ['' @ str_of_int start_h @ '', ''
                        @ str_of_int end_h @ '') (current local hour '' @ str_of_int local_hour @ '')''))
                 else Inr (APPROVED, None)))))"

definition eval_change_freeze :: "policy \<Rightarrow> recommendation \<Rightarrow> verdict res" where
  "eval_change_freeze p rec =
     (if truthy (get_def (po_parameters p) ''enabled'' (PBool False))
      then Inr (DENIED, Some ''change freeze in effect'') else Inr (APPROVED, None))"

section \<open>Custom rules\<close>

text \<open>The part \<open>\s+then\s+(approved|denied|needs_human)\s*$\<close>, ignoring case.\<close>

definition match_tail :: "string \<Rightarrow> string option" where
  "match_tail s =
     (let r = lstrip s
      in if r = s \<or> \<not> prefix ''then'' (lower (take 4 r)) then None
         else let r1 = drop 4 r; r2 = lstrip r1; v = lower (rstrip r2)
              in if r2 = r1 then None
                 else if v = ''approved'' \<or> v = ''denied'' \<or> v = ''needs_human'' then Some v else None)"

text \<open>\<open>.+?\<close>: the shortest non-empty text without a newline after which the tail matches.\<close>

fun lazy_cond :: "string \<Rightarrow> string \<Rightarrow> (string \<times> string) option" where
  "lazy_cond acc [] = None"
| "lazy_cond acc (c # s) =
     (case (if acc = [] then None else match_tail (c # s)) of
        Some v \<Rightarrow> Some (acc, v)
      | None \<Rightarrow> if of_char c = (10 :: nat) then None else lazy_cond (acc @ [c]) s)"

text \<open>\<open>\s+\<close> after \<open>if\<close>: as many blanks as possible, fewer if the rest does not match.\<close>

fun blanks_then :: "nat \<Rightarrow> string \<Rightarrow> (string \<times> string) option" where
  "blanks_then 0 s = None"
| "blanks_then (Suc k) s =
     (case lazy_cond [] (drop (Suc k) s) of Some m \<Rightarrow> Some m | None \<Rightarrow> blanks_then k s)"

definition custom_rule_match :: "string \<Rightarrow> (string \<times> string) option" where
  "custom_rule_match rule =
     (let r = lstrip rule
      in if \<not> prefix ''if'' (lower (take 2 r)) then None
         else let r1 = drop 2 r in blanks_then (length (takeWhile is_space r1)) r1)"

text \<open>The pattern as the source spells it, and the rule of \<open>re.compile\<close> it breaks: an extension
  \<open>(?P\<close> is followed by \<open><\<close> or \<open>=\<close>. \<close>

definition CUSTOM_RULE_RE :: string where
  "CUSTOM_RULE_RE = concat
     [''^'', [CHR 0x5C], ''s*if'', [CHR 0x5C], ''s+(?P<cond>.+?)'', [CHR 0x5C], ''s+then'', [CHR 0x5C],
      ''s+(?P&lt;verdict>approved|denied|needs_human)'', [CHR 0x5C], ''s*$'']"

fun named_groups_ok :: "string \<Rightarrow> bool" where
  "named_groups_ok [] = True"
| "named_groups_ok (c # s) =
     (if c = CHR 0x5C then named_groups_ok (drop 1 s)
      else (if prefix ''(?P'' (c # s)
            then (case drop 2 s of [] \<Rightarrow> False | x # xs \<Rightarrow> x = CHR ''<'' \<or> x = CHR ''='')
            else True) \<and> named_groups_ok s)"

lemma custom_rule_pattern_malformed: "\<not> named_groups_ok CUSTOM_RULE_RE"
  by (simp add: CUSTOM_RULE_RE_def)

datatype eval_value = EVal pyval | ERec recommendation

definition safe_locals :: "recommendation \<Rightarrow> (string \<times> eval_value) list" where
  "safe_locals rec =
     [(''recommendation'', ERec rec), (''rec'', ERec rec),
      (''site_id'', EVal (PStr (ev_site_id rec))), (''kind'', EVal (PStr (rec_kind rec))),
      (''n_devices'', EVal (PInt (int (length (rec_target_device_ids rec))))),
      (''confidence'', EVal (PFloat (rec_confidence rec))),
      (''metadata'', EVal (PDict (ev_metadata rec))),
      (''requires_human_approval'', EVal (PBool (rec_requires_human_approval rec)))]"

type_synonym evaluator = "string \<Rightarrow> (string \<times> eval_value) list \<Rightarrow> bool option"

text \<open>\<open>str(v)\<close> of the rule: a value that is not a text prints as none that begins with \<open>if\<close>.\<close>

definition rule_text :: "policy \<Rightarrow> string" where
  "rule_text p = (case get_def (po_parameters p) ''rule'' (PStr []) of PStr s \<Rightarrow> s | _ \<Rightarrow> [])"

definition eval_custom :: "evaluator \<Rightarrow> policy \<Rightarrow> recommendation \<Rightarrow> verdict" where
  "eval_custom py_eval p rec =
     (case custom_rule_match (rule_text p) of
        None \<Rightarrow> (APPROVED, None)
      | Some (cond_src, v) \<Rightarrow>
          (case py_eval cond_src (safe_locals rec) of
             None \<Rightarrow> (APPROVED, None)
           | Some result \<Rightarrow>
               if \<not> result then (APPROVED, None)
               else if v = ''denied'' then (DENIED, Some (''custom rule '' @ po_id p @ '' matched''))
               else if v = ''needs_human''
               then (NEEDS_HUMAN, Some (''custom rule '' @ po_id p @ '' matched''))
               else (APPROVED, None)))"

section \<open>The engine\<close>

definition eval_one :: "evaluator \<Rightarrow> policy \<Rightarrow> recommendation \<Rightarrow> real \<Rightarrow> verdict res" where
  "eval_one py_eval p rec now =
     (if po_kind p = ''blast_radius'' then eval_blast_radius p rec
      else if po_kind p = ''blackout_window'' then eval_blackout_window p rec now
      else if po_kind p = ''change_freeze'' then eval_change_freeze p rec
      else if po_kind p = ''custom'' then Inr (eval_custom py_eval p rec)
      else Inr (APPROVED, None))"

definition applies :: "policy \<Rightarrow> recommendation \<Rightarrow> bool" where
  "applies p rec \<longleftrightarrow> po_applies_to_sites p = [] \<or> ev_site_id rec \<in> set (po_applies_to_sites p)"

definition tagged :: "policy \<Rightarrow> string option \<Rightarrow> string" where
  "tagged p reason = po_id p @ '': '' @ (case reason of None \<Rightarrow> ''None'' | Some r \<Rightarrow> r)"

text \<open>The loop of \<open>evaluate\<close>, with its three local variables as accumulators.\<close>

fun eval_loop :: "evaluator \<Rightarrow> recommendation \<Rightarrow> real \<Rightarrow> policy list \<Rightarrow>
    string list \<times> string option \<times> string option \<Rightarrow>
    (string list \<times> string option \<times> string option) res" where
  "eval_loop py_eval rec now [] acc = Inr acc"
| "eval_loop py_eval rec now (p # ps) (applied, deny, human) =
     (if \<not> applies p rec then eval_loop py_eval rec now ps (applied, deny, human)
      else res_bind (eval_one py_eval p rec now) (\<lambda>(d, reason).
        if d = DENIED \<and> deny = None
        then eval_loop py_eval rec now ps (applied @ [po_id p], Some (tagged p reason), human)
        else if d = NEEDS_HUMAN \<and> human = None
        then eval_loop py_eval rec now ps (applied @ [po_id p], deny, Some (tagged p reason))
        else eval_loop py_eval rec now ps (applied @ [po_id p], deny, human)))"

definition policy_evaluate :: "evaluator \<Rightarrow> policy list \<Rightarrow> recommendation \<Rightarrow> real \<Rightarrow>
    (decision \<times> string option \<times> string list) res" where
  "policy_evaluate py_eval policies rec now =
     res_bind (eval_loop py_eval rec now policies ([], None, None)) (\<lambda>(applied, deny, human).
       case deny of
         Some reason \<Rightarrow> Inr (DENIED, Some reason, applied)
       | None \<Rightarrow>
           let flag = rec_requires_human_approval rec \<and> human = None;
               human' = (if flag then Some ''recommendation self-flagged for review'' else human);
               applied' = (if flag then applied @ [''self-flag''] else applied)
           in case human' of
                Some reason \<Rightarrow> Inr (NEEDS_HUMAN, Some reason, applied')
              | None \<Rightarrow> Inr (APPROVED, None, applied'))"

text \<open>\<open>from_yaml\<close> on the document \<open>yaml.safe_load\<close> returns (\<open>None\<close> for a missing file): identifiers
  and kinds are text, parameters a mapping, sites a list of text.\<close>

definition policy_of_yaml :: "dict \<Rightarrow> policy res" where
  "policy_of_yaml p =
     (case (get_str p ''id'', get_str p ''kind'') of
        (None, _) \<Rightarrow> Inl (KeyError ''id'')
      | (_, None) \<Rightarrow> Inl (KeyError ''kind'')
      | (Some i, Some k) \<Rightarrow>
          Inr \<lparr>po_id = i, po_kind = k,
               po_parameters = (case map_of p ''parameters'' of Some (PDict d) \<Rightarrow> d | _ \<Rightarrow> []),
               po_applies_to_sites = (case map_of p ''applies_to_sites'' of
                  Some (PList xs) \<Rightarrow> List.map_filter str_of xs | _ \<Rightarrow> [])\<rparr>)"

fun collect_policies :: "dict list \<Rightarrow> policy list res" where
  "collect_policies [] = Inr []"
| "collect_policies (p # ps) =
     res_bind (policy_of_yaml p) (\<lambda>q. res_bind (collect_policies ps) (\<lambda>qs. Inr (q # qs)))"

definition from_path :: "dict list option \<Rightarrow> policy list res" where
  "from_path document = (case document of None \<Rightarrow> Inr [] | Some ps \<Rightarrow> collect_policies ps)"

text \<open>\<open>policies.default.yml\<close>\<close>

definition default_policies :: "policy list" where
  "default_policies =
    [\<lparr>po_id = ''blast-radius-global'', po_kind = ''blast_radius'',
      po_parameters = [(''max_devices_per_action'', PInt 8)], po_applies_to_sites = []\<rparr>,
     \<lparr>po_id = ''nightly-migration-freeze'', po_kind = ''blackout_window'',
      po_parameters = [(''local_start_hour'', PInt 22), (''local_end_hour'', PInt 6),
        (''applies_to_kinds'', PList [PStr ''workload_migration''])], po_applies_to_sites = []\<rparr>,
     \<lparr>po_id = ''change-freeze-global'', po_kind = ''change_freeze'',
      po_parameters = [(''enabled'', PBool False)], po_applies_to_sites = []\<rparr>,
     \<lparr>po_id = ''vision-decisions-need-human'', po_kind = ''custom'',
      po_parameters = [(''rule'',
        PStr ''if recommendation.metadata.source == 'vision' then needs_human'')],
      po_applies_to_sites = []\<rparr>]"

lemma default_rule_matches:
  "custom_rule_match (rule_text (default_policies ! 3)) =
     Some (''recommendation.metadata.source == 'vision'' @ [CHR 0x27], ''needs_human'')"
  by code_simp

section \<open>What the loop computes\<close>

text \<open>The verdicts of the policies that apply, in order, or the exception of one of them.\<close>

fun verdicts :: "evaluator \<Rightarrow> recommendation \<Rightarrow> real \<Rightarrow> policy list \<Rightarrow> decision list res" where
  "verdicts py_eval rec now [] = Inr []"
| "verdicts py_eval rec now (p # ps) =
     (if applies p rec
      then res_bind (eval_one py_eval p rec now) (\<lambda>(d, r).
           res_bind (verdicts py_eval rec now ps) (\<lambda>ds. Inr (d # ds)))
      else verdicts py_eval rec now ps)"

lemma eval_loop_verdicts:
  "eval_loop py_eval rec now ps (applied, deny, human) =
     res_bind (eval_loop py_eval rec now ps (applied, deny, human)) Inr"
  by (cases "eval_loop py_eval rec now ps (applied, deny, human)") auto

lemma eval_loop_Inr:
  assumes "eval_loop py_eval rec now ps (applied, deny, human) = Inr (applied', deny', human')"
  shows "\<exists>ds. verdicts py_eval rec now ps = Inr ds \<and>
    (deny' = None \<longleftrightarrow> deny = None \<and> DENIED \<notin> set ds) \<and>
    (human' = None \<longleftrightarrow> human = None \<and> NEEDS_HUMAN \<notin> set ds) \<and>
    applied' = applied @ map po_id (filter (\<lambda>p. applies p rec) ps)"
  using assms
proof (induction ps arbitrary: applied deny human)
  case Nil
  then show ?case by simp
next
  case (Cons p ps)
  show ?case
  proof (cases "applies p rec")
    case False
    with Cons show ?thesis by simp
  next
    case True
    with Cons.prems obtain d r where d: "eval_one py_eval p rec now = Inr (d, r)"
      by (auto split: if_splits)
    from True Cons.prems d consider
        "d = DENIED" "deny = None"
          "eval_loop py_eval rec now ps (applied @ [po_id p], Some (tagged p r), human) = Inr (applied', deny', human')"
      | "d = NEEDS_HUMAN" "human = None"
          "eval_loop py_eval rec now ps (applied @ [po_id p], deny, Some (tagged p r)) = Inr (applied', deny', human')"
      | "d = DENIED \<longrightarrow> deny \<noteq> None" "d = NEEDS_HUMAN \<longrightarrow> human \<noteq> None"
          "eval_loop py_eval rec now ps (applied @ [po_id p], deny, human) = Inr (applied', deny', human')"
      by (auto split: if_splits)
    then show ?thesis
    proof cases
      case 1
      from Cons.IH [OF 1(3)] 1(1,2) True d show ?thesis by auto
    next
      case 2
      from Cons.IH [OF 2(3)] 2(1,2) True d show ?thesis by auto
    next
      case 3
      from Cons.IH [OF 3(3)] 3(1,2) True d show ?thesis by auto
    qed
  qed
qed

lemma eval_loop_Inl:
  "(\<exists>e. eval_loop py_eval rec now ps acc = Inl e) \<longleftrightarrow> (\<exists>e. verdicts py_eval rec now ps = Inl e)"
proof (induction ps arbitrary: acc)
  case Nil
  then show ?case by simp
next
  case (Cons p ps)
  obtain a d h where acc: "acc = (a, d, h)" by (cases acc)
  show ?case
  proof (cases "eval_one py_eval p rec now")
    case (Inl e)
    with Cons acc show ?thesis by simp
  next
    case (Inr v)
    obtain dc r where v: "v = (dc, r)" by (cases v)
    from Inr v acc Cons show ?thesis by (auto simp: res_bind_eq_Inl)
  qed
qed

text \<open>The strictest verdict, the recommendation's own flag counting as NEEDS_HUMAN.\<close>

definition strictest :: "recommendation \<Rightarrow> decision list \<Rightarrow> decision" where
  "strictest rec ds =
     Max (insert (if rec_requires_human_approval rec then NEEDS_HUMAN else APPROVED) (set ds))"

lemma strictest_cases:
  "strictest rec ds = (if DENIED \<in> set ds then DENIED
     else if NEEDS_HUMAN \<in> set ds \<or> rec_requires_human_approval rec then NEEDS_HUMAN else APPROVED)"
proof -
  have *: "d = NEEDS_HUMAN \<or> d = APPROVED" if "d \<in> set ds" "DENIED \<notin> set ds" for d
  proof -
    from that have "d \<noteq> DENIED" by blast
    then show ?thesis by (cases d) simp_all
  qed
  show ?thesis
    unfolding strictest_def
    by (rule Max_eqI) (cases "rec_requires_human_approval rec"; auto dest: *)+
qed

lemma policy_evaluate_Inr:
  assumes "policy_evaluate py_eval ps rec now = Inr (d, reason, applied)"
  shows "\<exists>ds. verdicts py_eval rec now ps = Inr ds \<and> d = strictest rec ds"
proof -
  from assms obtain a deny human where
    l: "eval_loop py_eval rec now ps ([], None, None) = Inr (a, deny, human)"
    by (auto simp: policy_evaluate_def)
  from eval_loop_Inr [OF this] obtain ds where v: "verdicts py_eval rec now ps = Inr ds"
    and ds: "deny = None \<longleftrightarrow> DENIED \<notin> set ds" "human = None \<longleftrightarrow> NEEDS_HUMAN \<notin> set ds" by auto
  from assms l have "d = (if deny \<noteq> None then DENIED
      else if human \<noteq> None \<or> rec_requires_human_approval rec then NEEDS_HUMAN else APPROVED)"
    by (cases deny; cases human) (auto simp: policy_evaluate_def Let_def split: if_splits)
  with v ds show ?thesis by (auto simp: strictest_cases)
qed

lemma policy_evaluate_verdicts:
  "verdicts py_eval rec now ps = Inr ds \<Longrightarrow>
   \<exists>reason applied. policy_evaluate py_eval ps rec now = Inr (strictest rec ds, reason, applied)"
proof -
  assume v: "verdicts py_eval rec now ps = Inr ds"
  then have "\<nexists>e. eval_loop py_eval rec now ps ([], None, None) = Inl e" by (simp add: eval_loop_Inl)
  then obtain a deny human where
    l: "eval_loop py_eval rec now ps ([], None, None) = Inr (a, deny, human)"
    by (metis sum.exhaust prod_cases3)
  then obtain d reason applied where e: "policy_evaluate py_eval ps rec now = Inr (d, reason, applied)"
    by (cases deny; cases human; cases "rec_requires_human_approval rec")
      (auto simp: policy_evaluate_def Let_def)
  from policy_evaluate_Inr [OF e] v e show ?thesis by auto
qed

lemma verdicts_append:
  "verdicts py_eval rec now (ps @ qs) =
     res_bind (verdicts py_eval rec now ps) (\<lambda>ds.
       res_bind (verdicts py_eval rec now qs) (\<lambda>es. Inr (ds @ es)))"
proof (induction ps)
  case Nil
  show ?case by (cases "verdicts py_eval rec now qs") auto
next
  case (Cons p ps)
  show ?case
  proof (cases "eval_one py_eval p rec now")
    case (Inr v)
    with Cons show ?thesis
      by (cases "verdicts py_eval rec now ps"; cases "verdicts py_eval rec now qs") (auto split: prod.splits)
  qed (use Cons in auto)
qed

lemma verdicts_Inr_iff:
  "verdicts py_eval rec now ps = Inr ds \<longleftrightarrow>
     list_all2 (\<lambda>p d. \<exists>r. eval_one py_eval p rec now = Inr (d, r)) (filter (\<lambda>p. applies p rec) ps) ds"
  by (induction ps arbitrary: ds) (auto simp: list_all2_Cons1)

lemma verdicts_mset:
  assumes "verdicts py_eval rec now ps = Inr ds" "mset ps = mset qs"
  shows "\<exists>es. verdicts py_eval rec now qs = Inr es \<and> set es = set ds"
proof -
  let ?v = "\<lambda>p. fst (projr (eval_one py_eval p rec now))"
  have all: "verdicts py_eval rec now xs = Inr ys \<longleftrightarrow>
      (\<forall>p \<in> set (filter (\<lambda>p. applies p rec) xs). \<exists>v. eval_one py_eval p rec now = Inr v) \<and>
      ys = map ?v (filter (\<lambda>p. applies p rec) xs)" for xs ys
    by (induction xs arbitrary: ys) (auto simp: res_bind_eq_Inl split: prod.splits)
  have "set ps = set qs" using assms(2) by (rule mset_eq_setD)
  with assms(1) show ?thesis unfolding all by auto
qed

section \<open>Properties\<close>

definition allows :: "real \<Rightarrow> recommendation \<Rightarrow> policy \<Rightarrow> bool" where
  "allows now rec p \<longleftrightarrow>
     (po_kind p = ''blast_radius'' \<longrightarrow>
        (\<exists>cap. py_int (get_def (po_parameters p) ''max_devices_per_action'' (PInt 8)) = Inr cap \<and>
               int (length (rec_target_device_ids rec)) \<le> cap)) \<and>
     (po_kind p = ''change_freeze'' \<longrightarrow> \<not> truthy (get_def (po_parameters p) ''enabled'' (PBool False))) \<and>
     (po_kind p = ''blackout_window'' \<longrightarrow> eval_blackout_window p rec now = Inr (APPROVED, None))"

lemma allows_eval_one:
  assumes "eval_one py_eval p rec now = Inr (APPROVED, r)"
  shows "allows now rec p"
  using assms
  by (auto simp: allows_def eval_one_def eval_blast_radius_def eval_change_freeze_def
      eval_blackout_window_def Let_def split: if_splits)

text \<open>C4: the decision is the strictest verdict among the policies that apply to the site and the
  recommendation's own flag, in the order DENIED > NEEDS_HUMAN > APPROVED; so the order of the
  policies in the file does not change it.\<close>

theorem decision_is_strictest:
  assumes "policy_evaluate py_eval ps rec now = Inr (d, reason, applied)"
  shows "(\<exists>ds. list_all2 (\<lambda>p v. \<exists>r. eval_one py_eval p rec now = Inr (v, r))
            (filter (\<lambda>p. applies p rec) ps) ds \<and>
          d = Max (insert (if rec_requires_human_approval rec then NEEDS_HUMAN else APPROVED) (set ds))) \<and>
         (\<forall>qs. mset qs = mset ps \<longrightarrow>
            (\<exists>reason' applied'. policy_evaluate py_eval qs rec now = Inr (d, reason', applied')))"
proof -
  from policy_evaluate_Inr [OF assms] obtain ds where
    v: "verdicts py_eval rec now ps = Inr ds" and d: "d = strictest rec ds" by blast
  have "\<exists>reason' applied'. policy_evaluate py_eval qs rec now = Inr (d, reason', applied')"
    if "mset qs = mset ps" for qs
  proof -
    from verdicts_mset [OF v that [symmetric]] obtain es where
      "verdicts py_eval rec now qs = Inr es" "set es = set ds" by blast
    with policy_evaluate_verdicts [of py_eval rec now qs es] d show ?thesis
      by (simp add: strictest_def)
  qed
  with v d show ?thesis unfolding verdicts_Inr_iff strictest_def by blast
qed

definition sample_recommendation :: recommendation where
  "sample_recommendation =
     \<lparr>ev_id = 1, ev_timestamp = 0, ev_site_id = ''frankfurt'', ev_trace_id = None,
      ev_parent_event_id = None, ev_metadata = [], rec_id = 7, rec_kind = ''workload_migration'',
      rec_target_device_ids = [''d1'', ''d2''], rec_parameters = [], rec_estimated_impact = [],
      rec_confidence = 1 / 2, rec_requires_human_approval = False\<rparr>"

definition freeze_policy :: policy where
  "freeze_policy = \<lparr>po_id = ''freeze'', po_kind = ''change_freeze'',
     po_parameters = [(''enabled'', PBool True)], po_applies_to_sites = [''frankfurt'']\<rparr>"

lemmas policy_eval_defs = policy_evaluate_def eval_one_def eval_blast_radius_def
  eval_change_freeze_def applies_def tagged_def

theorem decision_is_strictest_witness:
  "\<exists>reason applied. policy_evaluate (\<lambda>c e. None) [default_policies ! 0, freeze_policy]
     sample_recommendation 0 = Inr (DENIED, reason, applied)"
proof -
  have "policy_evaluate (\<lambda>c e. None) [freeze_policy, default_policies ! 0] sample_recommendation 0 =
      Inr (DENIED, Some ''freeze: change freeze in effect'', [''freeze'', ''blast-radius-global''])"
    by (simp add: policy_eval_defs freeze_policy_def default_policies_def sample_recommendation_def)
  from decision_is_strictest [OF this] show ?thesis by simp
qed

lemma approved_allows:
  assumes "policy_evaluate py_eval ps rec now = Inr (APPROVED, reason, applied)"
  shows "list_all (allows now rec) (filter (\<lambda>p. applies p rec) ps) \<and>
         \<not> rec_requires_human_approval rec \<and> reason = None"
proof -
  from policy_evaluate_Inr [OF assms] obtain ds where
    v: "verdicts py_eval rec now ps = Inr ds" and d: "APPROVED = strictest rec ds" by blast
  from d have ap: "DENIED \<notin> set ds" "NEEDS_HUMAN \<notin> set ds" "\<not> rec_requires_human_approval rec"
    by (auto simp: strictest_cases split: if_splits)
  have all: "x = APPROVED" if "x \<in> set ds" for x
  proof -
    from that ap have "x \<noteq> DENIED" "x \<noteq> NEEDS_HUMAN" by blast+
    then show ?thesis by (cases x) simp_all
  qed
  have "allows now rec p" if "p \<in> set (filter (\<lambda>p. applies p rec) ps)" for p
  proof -
    from v that obtain x r where "x \<in> set ds" "eval_one py_eval p rec now = Inr (x, r)"
      unfolding verdicts_Inr_iff list_all2_conv_all_nth by (metis in_set_conv_nth)
    with all allows_eval_one show ?thesis by blast
  qed
  moreover have "reason = None"
    using assms by (auto simp: policy_evaluate_def Let_def split: option.splits if_splits)
  ultimately show ?thesis using ap by (simp add: list_all_iff)
qed



text \<open>Adding policies never makes a decision more permissive.\<close>

lemma more_policies_never_loosen:
  assumes "policy_evaluate py_eval ps rec now = Inr (d, reason, applied)"
    and "policy_evaluate py_eval (ps @ qs) rec now = Inr (d', reason', applied')"
  shows "d \<le> d'"
proof -
  from policy_evaluate_Inr [OF assms(1)] policy_evaluate_Inr [OF assms(2)]
  obtain ds es where "verdicts py_eval rec now ps = Inr ds" "d = strictest rec ds"
    "verdicts py_eval rec now (ps @ qs) = Inr es" "d' = strictest rec es" by blast
  then obtain fs where "d = strictest rec ds" "d' = strictest rec (ds @ fs)"
    by (auto simp: verdicts_append)
  then show ?thesis by (auto simp: strictest_def intro!: Max_mono)
qed

lemma more_policies_never_loosen_witness: "APPROVED \<le> DENIED"
proof (rule more_policies_never_loosen)
  show "policy_evaluate (\<lambda>c e. None) [default_policies ! 0] sample_recommendation 0 =
      Inr (APPROVED, None, [''blast-radius-global''])"
    by (simp add: policy_eval_defs default_policies_def sample_recommendation_def)
  show "policy_evaluate (\<lambda>c e. None) ([default_policies ! 0] @ [freeze_policy]) sample_recommendation 0 =
      Inr (DENIED, Some ''freeze: change freeze in effect'', [''blast-radius-global'', ''freeze''])"
    by (simp add: policy_eval_defs freeze_policy_def default_policies_def sample_recommendation_def)
qed

text \<open>The blackout test is membership in a circular interval of the day: for hours between 0 and
  23 the local hour is in the window iff its distance from the start, around the clock, is less
  than the window's length; the default window 22 to 6 covers eight hours.\<close>

lemma blackout_window_is_circular:
  assumes "0 \<le> s" "s < 24" "0 \<le> e" "e < 24" "0 \<le> h" "h < 24"
  shows "in_window s e h \<longleftrightarrow> (h - s) mod 24 < (e - s) mod 24"
proof -
  have m: "(x - s) mod 24 = (if s \<le> x then x - s else x - s + 24)" if "0 \<le> x" "x < 24" for x
  proof (cases "s \<le> x")
    case False
    have "(x - s) mod 24 = (x - s + 24) mod 24" by (simp only: mod_add_self2)
    also have "\<dots> = x - s + 24"
      by (rule mod_pos_pos_trivial) (use False assms that in linarith)+
    finally show ?thesis using False by simp
  qed (use assms that in simp)
  show ?thesis
    unfolding m [OF assms(3,4)] m [OF assms(5,6)] in_window_def using assms by auto
qed

lemma blackout_window_is_circular_witness:
  "in_window 22 6 23 \<and> in_window 22 6 5 \<and> \<not> in_window 22 6 6"
  using blackout_window_is_circular [of 22 6 23] blackout_window_is_circular [of 22 6 5]
    blackout_window_is_circular [of 22 6 6] by simp

text \<open>The audit list names every policy that applies, whether or not it fired (a self-flag aside).\<close>

lemma applied_lists_all_evaluated:
  assumes "policy_evaluate py_eval ps rec now = Inr (d, reason, applied)"
  shows "prefix (map po_id (filter (\<lambda>p. applies p rec) ps)) applied"
proof -
  from assms obtain a deny human where
    l: "eval_loop py_eval rec now ps ([], None, None) = Inr (a, deny, human)"
    by (auto simp: policy_evaluate_def)
  from eval_loop_Inr [OF this] have "a = map po_id (filter (\<lambda>p. applies p rec) ps)" by auto
  with assms l show ?thesis
    by (cases deny; cases human) (auto simp: policy_evaluate_def Let_def split: if_splits)
qed

end
