(* ===== verification/Executor.thy ===== *)
theory Executor
  imports Policy
begin

text \<open>
  The Executor agent (\<open>apps/agents/executor/main.py\<close>) and its action handlers
  (\<open>apps/agents/executor/actions.py\<close>).

  What lies outside is a record of parameters: the HTTP client (\<open>Inl\<close> the text of an exception,
  \<open>Inr\<close> the decoded body), the averages Timescale returns (\<open>None\<close> where the query raises), Pydantic's
  parsing of a recommendation, Python's \<open>eval\<close> and \<open>float\<close> on text, and which Redis commands
  succeed. A handler returns what it sent, in order, and the exception that left it, if one did;
  \<open>BaseAgent.serve\<close> logs that exception and goes on.
\<close>

section \<open>Outside\<close>

record executor_env =
  xe_http :: "string \<Rightarrow> dict \<Rightarrow> string + pyval"
  xe_avg :: "string \<Rightarrow> string \<Rightarrow> string list option \<Rightarrow> dict list option"
  xe_ts_enabled :: bool
  xe_validate :: "dict \<Rightarrow> recommendation option"
  xe_eval :: evaluator
  xe_float :: "string \<Rightarrow> real option"
  xe_ok :: "bus_msg effect \<Rightarrow> bool"

record executor_config =
  xc_base_url :: "string option"
  xc_keep :: int
  xc_policies :: "policy list"

definition executor_defaults :: "string option \<Rightarrow> executor_config" where
  "executor_defaults base = \<lparr>xc_base_url = base, xc_keep = 500, xc_policies = default_policies\<rparr>"

definition ACTIONS_LIST :: string where "ACTIONS_LIST = ''actions:recent''"

section \<open>Action handlers\<close>

type_synonym action_result = "bool \<times> pyval"

definition error_payload :: "string \<Rightarrow> pyval" where
  "error_payload msg = PDict [(''error'', PStr msg)]"

definition rstrip_slash :: "string \<Rightarrow> string" where
  "rstrip_slash s = rev (dropWhile (\<lambda>c. c = CHR ''/'') (rev s))"

definition post_action :: "executor_env \<Rightarrow> string option \<Rightarrow> string \<Rightarrow> dict \<Rightarrow>
    bus_msg effect list \<times> action_result" where
  "post_action env base path payload =
     (if base = None \<or> base = Some []
      then ([], False, error_payload ''MOCKS_BASE_URL not configured'')
      else let url = rstrip_slash (the base) @ path
           in ([HttpPost url payload],
               case xe_http env url payload of
                 Inl exc \<Rightarrow> (False, error_payload exc)
               | Inr body \<Rightarrow> (True, body)))"

type_synonym action_handler = "executor_env \<Rightarrow> string option \<Rightarrow> recommendation \<Rightarrow> string \<Rightarrow>
    (bus_msg effect list \<times> action_result) res"

definition handle_workload_migration :: action_handler where
  "handle_workload_migration env base rec action_id =
     (let m = get_def (rec_parameters rec) ''moves'' PNone;
          moves = (if truthy m then m else PList [])
      in Inr (post_action env base ''/actions/migrate_workload''
           [(''action_id'', PStr action_id), (''recommendation_id'', PStr (uuid_str (rec_id rec))),
            (''moves'', moves)]))"

definition handle_fan_speed :: action_handler where
  "handle_fan_speed env base rec action_id =
     (case rec_target_device_ids rec of
        [] \<Rightarrow> Inr ([], False, error_payload ''no target device for fan adjust'')
      | dev # _ \<Rightarrow>
          res_bind (py_float (xe_float env) (get_def (rec_parameters rec) ''target_fan_percent'' (PInt 80)))
            (\<lambda>pct. Inr (post_action env base ''/actions/fan_speed_adjust''
               [(''action_id'', PStr action_id), (''recommendation_id'', PStr (uuid_str (rec_id rec))),
                (''device_id'', PStr dev), (''target_fan_percent'', PFloat pct)])))"

definition revert :: "executor_env \<Rightarrow> string option \<Rightarrow> string \<Rightarrow> string \<Rightarrow>
    bus_msg effect list \<times> action_result" where
  "revert env base original_action_id reason =
     post_action env base ''/actions/revert''
       [(''original_action_id'', PStr original_action_id), (''reason'', PStr reason)]"

definition HANDLERS :: "(string \<times> action_handler) list" where
  "HANDLERS = [(''workload_migration'', handle_workload_migration), (''fan_speed_adjust'', handle_fan_speed)]"

definition resolve :: "string \<Rightarrow> action_handler option" where
  "resolve kind = map_of HANDLERS kind"

section \<open>KPI snapshots\<close>

definition kpi_metrics_for :: "string \<Rightarrow> string list" where
  "kpi_metrics_for kind =
     get_def
       [(''workload_migration'',
           [''env.inlet.celsius'', ''env.outlet.celsius'', ''power.draw.watts'', ''cpu.temp.celsius'']),
        (''fan_speed_adjust'', [''cpu.temp.celsius'', ''fan.rpm''])]
       kind [''env.inlet.celsius'']"

text \<open>The loop over the metrics: a query that raises or returns no number leaves its metric out.\<close>

definition sample_metric :: "dict list option \<Rightarrow> string \<Rightarrow> (string \<times> real) list \<Rightarrow> (string \<times> real) list" where
  "sample_metric rows metric out =
     (case rows of
        Some (row # _) \<Rightarrow>
          (case get_num row ''v'' of None \<Rightarrow> out | Some v \<Rightarrow> AList.update metric v out)
      | _ \<Rightarrow> out)"

definition snapshot_loop :: "(string \<Rightarrow> dict list option) \<Rightarrow> string list \<Rightarrow> (string \<times> real) list" where
  "snapshot_loop query metrics = foldl (\<lambda>out metric. sample_metric (query metric) metric out) [] metrics"

definition snapshot_kpis :: "executor_env \<Rightarrow> recommendation \<Rightarrow> (string \<times> real) list" where
  "snapshot_kpis env rec =
     (if \<not> xe_ts_enabled env \<or> rec_target_device_ids rec = [] then []
      else snapshot_loop (\<lambda>m. xe_avg env (ev_site_id rec) m (Some (rec_target_device_ids rec)))
             (kpi_metrics_for (rec_kind rec)))"

section \<open>The handler\<close>

record executor_state =
  ex_next_id :: uuid

definition persist_action :: "executor_env \<Rightarrow> executor_config \<Rightarrow> action_executed \<Rightarrow> bus_msg effect list" where
  "persist_action env cfg a =
     attempt (xe_ok env) [LPush ACTIONS_LIST (MExecuted a), LTrim ACTIONS_LIST 0 (xc_keep cfg - 1)]"

definition denied_event :: "real \<Rightarrow> uuid \<Rightarrow> recommendation \<Rightarrow> string \<Rightarrow> action_executed" where
  "denied_event now fresh rec reason =
     bus_event.extend
       (envelope fresh now (ev_site_id rec) (ev_trace_id rec) (Some (ev_id rec))
          [(''kind'', PStr (rec_kind rec)), (''denied_reason'', PStr reason)])
       (action_executed.fields (rec_id rec) (Suc fresh) False
          [(''denied'', PBool True), (''reason'', PStr reason)] [])"

definition record_denied :: "executor_env \<Rightarrow> executor_config \<Rightarrow> real \<Rightarrow> recommendation \<Rightarrow> string \<Rightarrow>
    executor_state \<Rightarrow> bus_msg effect list \<times> executor_state" where
  "record_denied env cfg now rec reason s =
     (persist_action env cfg (denied_event now (ex_next_id s) rec reason),
      s\<lparr>ex_next_id := ex_next_id s + 2\<rparr>)"

definition publish_needs_human :: "recommendation \<Rightarrow> string \<Rightarrow> bus_msg effect list" where
  "publish_needs_human rec reason =
     [Publish ''actions.needs_human''
        (MRecommendation (rec\<lparr>ev_metadata := AList.update ''policy_reason'' (PStr reason) (ev_metadata rec)\<rparr>))]"

definition executed_event :: "real \<Rightarrow> uuid \<Rightarrow> uuid \<Rightarrow> recommendation \<Rightarrow> bool \<Rightarrow> dict \<Rightarrow>
    (string \<times> real) list \<Rightarrow> action_executed" where
  "executed_event now eid action_id rec success payload pre_kpis =
     bus_event.extend
       (envelope eid now (ev_site_id rec) (ev_trace_id rec) (Some (ev_id rec))
          [(''kind'', PStr (rec_kind rec)), (''agent'', PStr ''executor'')])
       (action_executed.fields (rec_id rec) action_id success payload pre_kpis)"

text \<open>\<open>_execute\<close>; a body that is not a JSON object is refused by \<open>ActionExecuted\<close>, after the call was
  made.\<close>

definition execute :: "executor_env \<Rightarrow> executor_config \<Rightarrow> real \<Rightarrow> recommendation \<Rightarrow> executor_state \<Rightarrow>
    bus_msg effect list \<times> executor_state \<times> py_error option" where
  "execute env cfg now rec s =
     (case resolve (rec_kind rec) of
        None \<Rightarrow>
          let (out, s1) = record_denied env cfg now rec
                (''no handler for kind '' @ [CHR 0x27] @ rec_kind rec @ [CHR 0x27]) s
          in (out, s1, None)
      | Some handler \<Rightarrow>
          let action_id = ex_next_id s;
              s1 = s\<lparr>ex_next_id := ex_next_id s + 2\<rparr>;
              pre_kpis = snapshot_kpis env rec
          in case handler env (xc_base_url cfg) rec (uuid_str action_id) of
               Inl err \<Rightarrow> ([], s1, Some err)
             | Inr (out, success, body) \<Rightarrow>
                 (case body of
                    PDict payload \<Rightarrow>
                      let event = executed_event now (Suc action_id) action_id rec success payload pre_kpis
                      in (out @ [Publish (topic_value ACTIONS_EXECUTED) (MExecuted event)]
                            @ persist_action env cfg event, s1, None)
                  | _ \<Rightarrow> (out, s1, Some (ValueError ''dict_type''))))"

datatype executor_event = Parsed recommendation | Raw pyval

fun parse_recommendation :: "executor_env \<Rightarrow> executor_event \<Rightarrow> recommendation option" where
  "parse_recommendation env (Parsed rec) = Some rec"
| "parse_recommendation env (Raw (PDict d)) = xe_validate env d"
| "parse_recommendation env (Raw _) = None"

definition or_empty :: "string option \<Rightarrow> string" where
  "or_empty r = (case r of None \<Rightarrow> [] | Some s \<Rightarrow> s)"

definition executor_handle :: "executor_env \<Rightarrow> executor_config \<Rightarrow> real \<Rightarrow> executor_event \<Rightarrow>
    executor_state \<Rightarrow> bus_msg effect list \<times> executor_state \<times> py_error option" where
  "executor_handle env cfg now event s =
     (case parse_recommendation env event of
        None \<Rightarrow> ([], s, None)
      | Some rec \<Rightarrow>
          (case policy_evaluate (xe_eval env) (xc_policies cfg) rec now of
             Inl err \<Rightarrow> ([], s, Some err)
           | Inr (decision, reason, applied) \<Rightarrow>
               if decision = DENIED
               then let (out, s1) = record_denied env cfg now rec (or_empty reason) s in (out, s1, None)
               else if decision = NEEDS_HUMAN
               then (publish_needs_human rec (or_empty reason), s, None)
               else execute env cfg now rec s))"

fun executor_run :: "executor_env \<Rightarrow> executor_config \<Rightarrow> (real \<times> executor_event) list \<Rightarrow>
    executor_state \<Rightarrow> bus_msg effect list" where
  "executor_run env cfg [] s = []"
| "executor_run env cfg ((now, e) # es) s =
     (let (out, s1, r) = executor_handle env cfg now e s in out @ executor_run env cfg es s1)"

section \<open>What a handled recommendation leaves behind\<close>

fun is_post :: "'v effect \<Rightarrow> bool" where
  "is_post (HttpPost url payload) = True"
| "is_post _ = False"

fun logged_action :: "bus_msg effect \<Rightarrow> action_executed option" where
  "logged_action (LPush k (MExecuted a)) = (if k = ACTIONS_LIST then Some a else None)"
| "logged_action _ = None"

definition logged :: "bus_msg effect list \<Rightarrow> action_executed list" where
  "logged out = List.map_filter logged_action out"

lemma logged_simps [simp]:
  "logged [] = []" "logged (xs @ ys) = logged xs @ logged ys"
  "logged (e # es) = (case logged_action e of None \<Rightarrow> logged es | Some a \<Rightarrow> a # logged es)"
  by (simp_all add: logged_def map_filter_def split: option.splits)

lemma persist_simps [simp]:
  "filter is_post (persist_action env cfg a) = []" "logged (persist_action env cfg a) = [a]"
  by (auto simp: persist_action_def)

lemma event_fields [simp]:
  "ae_recommendation_id (denied_event now n rec reason) = rec_id rec"
  "ae_success (denied_event now n rec reason) = False"
  "ev_parent_event_id (denied_event now n rec reason) = Some (ev_id rec)"
  "ae_recommendation_id (executed_event now eid aid rec ok p k) = rec_id rec"
  "ae_success (executed_event now eid aid rec ok p k) = ok"
  "ae_action_id (executed_event now eid aid rec ok p k) = aid"
  "ae_pre_action_kpis (executed_event now eid aid rec ok p k) = k"
  "ev_parent_event_id (executed_event now eid aid rec ok p k) = Some (ev_id rec)"
  by (simp_all add: denied_event_def executed_event_def envelope_def bus_event.defs action_executed.defs)

lemma post_action_out:
  "post_action env base path payload = (out, r) \<Longrightarrow>
     logged out = [] \<and> length (filter is_post out) \<le> 1 \<and> set out \<subseteq> {HttpPost (rstrip_slash (the base) @ path) payload}"
  by (auto simp: post_action_def Let_def split: if_splits)

lemma handler_out:
  assumes "resolve kind = Some h" "h env base rec aid = Inr (out, r)"
  shows "logged out = [] \<and> filter is_post out = out \<and> length out \<le> 1"
proof -
  from assms(1) consider "h = handle_workload_migration" | "h = handle_fan_speed"
    by (auto simp: resolve_def HANDLERS_def split: if_splits)
  then show ?thesis
    using assms(2)
    by cases (auto simp: handle_workload_migration_def handle_fan_speed_def post_action_def Let_def
        split: list.splits if_splits)
qed

lemma execute_out:
  assumes "execute env cfg now rec s = (out, s1, r)"
  obtains (refused) reason where "resolve (rec_kind rec) = None" "r = None"
      "out = persist_action env cfg (denied_event now (ex_next_id s) rec reason)"
  | (failed) err where "r = Some err" "filter is_post out = out" "length out \<le> 1" "logged out = []"
      "resolve (rec_kind rec) \<noteq> None"
  | (sent) posts a where "r = None" "resolve (rec_kind rec) \<noteq> None"
      "out = posts @ [Publish (topic_value ACTIONS_EXECUTED) (MExecuted a)] @ persist_action env cfg a"
      "filter is_post posts = posts" "length posts \<le> 1" "logged posts = []"
      "ae_recommendation_id a = rec_id rec" "ev_parent_event_id a = Some (ev_id rec)"
      "ae_pre_action_kpis a = snapshot_kpis env rec"
proof (cases "resolve (rec_kind rec)")
  case None
  let ?why = "''no handler for kind '' @ [CHR 0x27] @ rec_kind rec @ [CHR 0x27]"
  from None assms have "r = None"
    "out = persist_action env cfg (denied_event now (ex_next_id s) rec ?why)"
    by (simp_all add: execute_def record_denied_def)
  with refused None show thesis by blast
next
  case (Some h)
  show thesis
  proof (cases "h env (xc_base_url cfg) rec (uuid_str (ex_next_id s))")
    case (Inl err)
    with assms Some show thesis by (intro failed) (auto simp: execute_def Let_def)
  next
    case (Inr b)
    obtain posts success body where b: "b = (posts, success, body)" by (cases b)
    note h = handler_out [OF Some Inr [unfolded b]]
    show thesis
    proof (cases "\<exists>p. body = PDict p")
      case True
      then obtain p where p: "body = PDict p" by blast
      let ?a = "executed_event now (Suc (ex_next_id s)) (ex_next_id s) rec success p (snapshot_kpis env rec)"
      from assms Some Inr b p have
        "out = posts @ [Publish (topic_value ACTIONS_EXECUTED) (MExecuted ?a)] @ persist_action env cfg ?a"
        "r = None" by (simp_all add: execute_def Let_def)
      with sent [of posts ?a] Some h show thesis by simp
    next
      case False
      with assms Some Inr b h show thesis
        by (intro failed) (auto simp: execute_def Let_def split: pyval.splits)
    qed
  qed
qed

lemma handle_posts:
  assumes "executor_handle env cfg now event s = (out, s1, r)"
  shows "length (filter is_post out) \<le> 1 \<and>
    (filter is_post out \<noteq> [] \<longrightarrow>
       (\<exists>rec applied. parse_recommendation env event = Some rec \<and>
          policy_evaluate (xe_eval env) (xc_policies cfg) rec now = Inr (APPROVED, None, applied) \<and>
          resolve (rec_kind rec) \<noteq> None))"
proof (cases "parse_recommendation env event")
  case None
  with assms show ?thesis by (simp add: executor_handle_def)
next
  case (Some rec)
  show ?thesis
  proof (cases "policy_evaluate (xe_eval env) (xc_policies cfg) rec now")
    case (Inl e)
    with assms Some show ?thesis by (simp add: executor_handle_def)
  next
    case (Inr v)
    obtain d reason applied where v: "v = (d, reason, applied)" by (cases v)
    show ?thesis
    proof (cases d)
      case APPROVED
      with assms Some Inr v have e: "execute env cfg now rec s = (out, s1, r)"
        by (simp add: executor_handle_def)
      from Inr v APPROVED have "reason = None" using approved_allows by blast
      with e Some Inr v APPROVED show ?thesis by (cases rule: execute_out) auto
    qed (use assms Some Inr v in \<open>auto simp: executor_handle_def record_denied_def publish_needs_human_def Let_def\<close>)
  qed
qed

section \<open>The recent list\<close>

abbreviation push_action :: "bus_msg \<Rightarrow> (string \<Rightarrow> bus_msg list) \<Rightarrow> (string \<Rightarrow> bus_msg list)" where
  "push_action v s \<equiv> mem_ltrim ACTIONS_LIST 0 (int 500 - 1) (mem_lpush ACTIONS_LIST v s)"

interpretation actions_log: capped_redis_list mem_lpush mem_ltrim "\<lambda>s. s" ACTIONS_LIST 500
  by unfold_locales simp

lemma run_lists_no_lists:
  "filter is_post es = es \<Longrightarrow> run_lists lpush ltrim es s = s"
proof (induction es)
  case (Cons e es)
  then show ?case by (cases e) (auto split: if_splits dest: filter_eq_ConsD simp: Cons_eq_filter_iff)
qed simp

lemma run_lists_persist:
  "xc_keep cfg = 500 \<Longrightarrow> run_lists mem_lpush mem_ltrim (persist_action (env\<lparr>xe_ok := \<lambda>_. True\<rparr>) cfg a) s =
     push_action (MExecuted a) s"
  by (simp add: persist_action_def)

lemma handle_lists:
  assumes "xc_keep cfg = 500"
    and "executor_handle (env\<lparr>xe_ok := \<lambda>_. True\<rparr>) cfg now event s = (out, s1, r)"
  shows "run_lists mem_lpush mem_ltrim out l = fold push_action (map MExecuted (logged out)) l"
proof (cases "parse_recommendation (env\<lparr>xe_ok := \<lambda>_. True\<rparr>) event")
  case None
  with assms show ?thesis by (simp add: executor_handle_def)
next
  case (Some rec)
  show ?thesis
  proof (cases "policy_evaluate (xe_eval env) (xc_policies cfg) rec now")
    case (Inl e)
    with assms Some show ?thesis by (simp add: executor_handle_def)
  next
    case (Inr v)
    obtain d reason applied where v: "v = (d, reason, applied)" by (cases v)
    show ?thesis
    proof (cases d)
      case APPROVED
      with assms Some Inr v have "execute (env\<lparr>xe_ok := \<lambda>_. True\<rparr>) cfg now rec s = (out, s1, r)"
        by (simp add: executor_handle_def)
      then show ?thesis
        by (cases rule: execute_out)
          (simp_all add: run_lists_append run_lists_no_lists run_lists_persist [OF assms(1)])
    next
      case DENIED
      with assms Some Inr v show ?thesis
        by (auto simp: executor_handle_def record_denied_def run_lists_persist Let_def)
    next
      case NEEDS_HUMAN
      with assms Some Inr v show ?thesis
        by (auto simp: executor_handle_def publish_needs_human_def)
    qed
  qed
qed

lemma run_lists_executor:
  "xc_keep cfg = 500 \<Longrightarrow>
   run_lists mem_lpush mem_ltrim (executor_run (env\<lparr>xe_ok := \<lambda>_. True\<rparr>) cfg es s) l =
   fold push_action (map MExecuted (logged (executor_run (env\<lparr>xe_ok := \<lambda>_. True\<rparr>) cfg es s))) l"
proof (induction es arbitrary: s l)
  case (Cons x es)
  obtain now e where x: "x = (now, e)" by (cases x)
  obtain out s1 r where h: "executor_handle (env\<lparr>xe_ok := \<lambda>_. True\<rparr>) cfg now e s = (out, s1, r)"
    by (cases "executor_handle (env\<lparr>xe_ok := \<lambda>_. True\<rparr>) cfg now e s")
  show ?case
    using Cons.IH [OF Cons.prems] handle_lists [OF Cons.prems h]
    by (simp add: x h run_lists_append)
qed simp

section \<open>Properties\<close>

definition sample_env :: executor_env where
  "sample_env =
     \<lparr>xe_http = (\<lambda>url payload. Inr (PDict [(''status'', PStr ''ok'')])),
      xe_avg = (\<lambda>site metric devs. Some [[(''v'', PFloat 24)]]), xe_ts_enabled = True,
      xe_validate = (\<lambda>d. None), xe_eval = (\<lambda>c e. None), xe_float = (\<lambda>s. None), xe_ok = (\<lambda>e. True)\<rparr>"

definition sample_cfg :: executor_config where
  "sample_cfg = \<lparr>xc_base_url = Some ''http://mocks'', xc_keep = 500, xc_policies = [default_policies ! 0]\<rparr>"

lemmas executor_eval_defs = executor_handle_def execute_def resolve_def HANDLERS_def
  handle_workload_migration_def handle_fan_speed_def post_action_def record_denied_def
  sample_env_def sample_cfg_def sample_recommendation_def

text \<open>C1: the executor never acts without an approval: an HTTP call is made only when the policy engine
  approved the parsed recommendation, every policy that applies was satisfied, no human review was
  asked for and a handler exists; and at most one call is made per recommendation.\<close>

theorem no_action_without_approval:
  assumes "executor_handle env cfg now event s = (out, s1, r)" and "HttpPost url payload \<in> set out"
  shows "length (filter is_post out) = 1 \<and>
    (\<exists>rec applied. parse_recommendation env event = Some rec \<and>
       policy_evaluate (xe_eval env) (xc_policies cfg) rec now = Inr (APPROVED, None, applied) \<and>
       list_all (allows now rec) (filter (\<lambda>p. applies p rec) (xc_policies cfg)) \<and>
       \<not> rec_requires_human_approval rec \<and> resolve (rec_kind rec) \<noteq> None)"
proof -
  from assms(2) have ne: "filter is_post out \<noteq> []"
    by (metis filter_empty_conv is_post.simps(1))
  with handle_posts [OF assms(1)] obtain rec applied where
    "parse_recommendation env event = Some rec"
    "policy_evaluate (xe_eval env) (xc_policies cfg) rec now = Inr (APPROVED, None, applied)"
    "resolve (rec_kind rec) \<noteq> None" by blast
  moreover from approved_allows [OF this(2)] have
    "list_all (allows now rec) (filter (\<lambda>p. applies p rec) (xc_policies cfg))"
    "\<not> rec_requires_human_approval rec" by auto
  moreover from handle_posts [OF assms(1)] ne have "length (filter is_post out) = 1"
    by (cases "filter is_post out") auto
  ultimately show ?thesis by blast
qed

theorem no_action_without_approval_witness:
  "\<exists>out s1 r applied. executor_handle sample_env sample_cfg 0 (Parsed sample_recommendation)
       \<lparr>ex_next_id = 0\<rparr> = (out, s1, r) \<and> length (filter is_post out) = 1 \<and>
     policy_evaluate (xe_eval sample_env) (xc_policies sample_cfg) sample_recommendation 0
       = Inr (APPROVED, None, applied)"
proof -
  obtain out s1 r where h: "executor_handle sample_env sample_cfg 0 (Parsed sample_recommendation)
      \<lparr>ex_next_id = 0\<rparr> = (out, s1, r)" by (cases "executor_handle sample_env sample_cfg 0
        (Parsed sample_recommendation) \<lparr>ex_next_id = 0\<rparr>")
  moreover have "HttpPost ''http://mocks/actions/migrate_workload''
      [(''action_id'', PStr (uuid_str 0)), (''recommendation_id'', PStr (uuid_str 7)), (''moves'', PList [])]
      \<in> set (fst (executor_handle sample_env sample_cfg 0 (Parsed sample_recommendation) \<lparr>ex_next_id = 0\<rparr>))"
    by (simp add: executor_eval_defs policy_eval_defs default_policies_def rstrip_slash_def Let_def)
  ultimately have "HttpPost ''http://mocks/actions/migrate_workload''
      [(''action_id'', PStr (uuid_str 0)), (''recommendation_id'', PStr (uuid_str 7)), (''moves'', PList [])]
      \<in> set out" by simp
  from no_action_without_approval [OF h this] h show ?thesis by auto
qed

text \<open>C2: every parsed recommendation whose handling does not raise is accounted for exactly once: sent to
  the humans and not logged, or logged as one action that names the recommendation and its event
  and is unsuccessful when it was denied.\<close>

theorem every_recommendation_accounted:
  assumes "executor_handle env cfg now event s = (out, s1, None)"
    and "parse_recommendation env event = Some rec"
  shows "\<exists>d reason applied.
    policy_evaluate (xe_eval env) (xc_policies cfg) rec now = Inr (d, reason, applied) \<and>
    (if d = NEEDS_HUMAN then out = publish_needs_human rec (or_empty reason) \<and> logged out = []
     else \<exists>a. logged out = [a] \<and> ae_recommendation_id a = rec_id rec \<and>
            ev_parent_event_id a = Some (ev_id rec) \<and> (if d = DENIED then \<not> ae_success a else True))"
proof (cases "policy_evaluate (xe_eval env) (xc_policies cfg) rec now")
  case (Inl e)
  with assms show ?thesis by (simp add: executor_handle_def)
next
  case (Inr v)
  obtain d reason applied where v: "v = (d, reason, applied)" by (cases v)
  have "if d = NEEDS_HUMAN then out = publish_needs_human rec (or_empty reason) \<and> logged out = []
     else \<exists>a. logged out = [a] \<and> ae_recommendation_id a = rec_id rec \<and>
            ev_parent_event_id a = Some (ev_id rec) \<and> (if d = DENIED then \<not> ae_success a else True)"
  proof (cases d)
    case APPROVED
    with assms Inr v have "execute env cfg now rec s = (out, s1, None)"
      by (simp add: executor_handle_def)
    then show ?thesis using APPROVED by (cases rule: execute_out) auto
  qed (use assms Inr v in \<open>auto simp: executor_handle_def record_denied_def publish_needs_human_def\<close>)
  with Inr v show ?thesis by blast
qed

theorem every_recommendation_accounted_witness:
  "\<exists>a. logged (fst (executor_handle sample_env (sample_cfg\<lparr>xc_policies := [freeze_policy]\<rparr>) 0
      (Parsed sample_recommendation) \<lparr>ex_next_id = 0\<rparr>)) = [a] \<and> ae_recommendation_id a = 7"
proof -
  have e: "policy_evaluate (xe_eval sample_env) [freeze_policy] sample_recommendation 0 =
      Inr (DENIED, Some ''freeze: change freeze in effect'', [''freeze''])"
    by (simp add: policy_eval_defs freeze_policy_def sample_recommendation_def)
  obtain out s1 r where h: "executor_handle sample_env (sample_cfg\<lparr>xc_policies := [freeze_policy]\<rparr>) 0
      (Parsed sample_recommendation) \<lparr>ex_next_id = 0\<rparr> = (out, s1, r)"
    by (cases "executor_handle sample_env (sample_cfg\<lparr>xc_policies := [freeze_policy]\<rparr>) 0
      (Parsed sample_recommendation) \<lparr>ex_next_id = 0\<rparr>")
  with e have r: "r = None" by (auto simp: executor_handle_def record_denied_def)
  have "parse_recommendation sample_env (Parsed sample_recommendation) = Some sample_recommendation" by simp
  from every_recommendation_accounted [OF h [unfolded r] this] e h show ?thesis
    by (auto simp: sample_recommendation_def)
qed

text \<open>C12: with Redis answering, the list \<open>actions:recent\<close> is the log of the newest 500 actions, newest
  first, whatever recommendations arrived.\<close>

theorem recent_actions_newest_first:
  "run_lists mem_lpush mem_ltrim
     (executor_run (env\<lparr>xe_ok := \<lambda>_. True\<rparr>) (executor_defaults base) es s) (\<lambda>_. []) ACTIONS_LIST =
   take 500 (rev (map MExecuted (logged
     (executor_run (env\<lparr>xe_ok := \<lambda>_. True\<rparr>) (executor_defaults base) es s))))"
  using actions_log.clog.view_pushes [of "\<lambda>_. []"]
  by (subst run_lists_executor) (simp_all add: executor_defaults_def)

end
