(* ===== verification/Rollback.thy ===== *)
theory Rollback
  imports Executor
begin

text \<open>
  The Rollback monitor (\<open>apps/agents/rollback/main.py\<close>): after an observation time it compares the
  KPIs an action recorded before it ran with fresh ones, and reverts the action when one regressed.

  \<open>rb_tasks\<close> are the verification tasks scheduled and not finished; a step either delivers an event
  or lets one of the tasks, any of them, run to its end. The environment is the executor's.
\<close>

definition REGRESSION_THRESHOLD :: real where
  "REGRESSION_THRESHOLD = 10 / 100"

definition LOWER_IS_BETTER :: "string list" where
  "LOWER_IS_BETTER =
     [''cpu.temp.celsius'', ''gpu.temp.celsius'', ''env.inlet.celsius'', ''env.outlet.celsius'',
      ''power.draw.watts'', ''psu.efficiency.percent'', ''gpu.ecc.uncorrectable'',
      ''gpu.ecc.correctable'', ''disk.temp.celsius'', ''net.err.in'', ''pdu.load.percent'']"

definition HIGHER_IS_BETTER :: "string list" where
  "HIGHER_IS_BETTER = [''fan.rpm'', ''net.port.up'', ''psu.efficiency.percent'']"

definition is_regression :: "string \<Rightarrow> real \<Rightarrow> real \<Rightarrow> real \<Rightarrow> bool" where
  "is_regression metric pre post threshold =
     (if metric \<in> set HIGHER_IS_BETTER then post < pre * (1 - threshold)
      else pre * (1 + threshold) < post)"

text \<open>\<open>_extract_devices\<close>: the loop over the moves, then the single device.\<close>

definition moved_device :: "pyval \<Rightarrow> string option" where
  "moved_device m =
     (case m of PDict d \<Rightarrow> map_option (remove_prefix ''wl-'') (get_str d ''workload_id'') | _ \<Rightarrow> None)"

definition extract_devices :: "action_executed \<Rightarrow> string list" where
  "extract_devices event =
     (let payload = ae_response_payload event;
          moves = get_def payload ''moves'' PNone;
          out = (case moves of PList ms \<Rightarrow> List.map_filter moved_device ms | _ \<Rightarrow> [])
      in if out \<noteq> [] then out
         else case get_str payload ''device_id'' of Some dev \<Rightarrow> [dev] | None \<Rightarrow> [])"

definition snapshot_post_kpis :: "executor_env \<Rightarrow> action_executed \<Rightarrow> (string \<times> real) list" where
  "snapshot_post_kpis env event =
     (if \<not> xe_ts_enabled env then []
      else let device_ids = extract_devices event
           in snapshot_loop
                (\<lambda>m. xe_avg env (ev_site_id event) m (if device_ids = [] then None else Some device_ids))
                (map fst (ae_pre_action_kpis event)))"

text \<open>The regressions, as \<open>(metric, pre, post)\<close> in the order of the recorded KPIs.\<close>

fun find_regressions :: "(string \<times> real) list \<Rightarrow> (string \<times> real) list \<Rightarrow> (string \<times> real \<times> real) list" where
  "find_regressions post_kpis [] = []"
| "find_regressions post_kpis ((metric, pre) # kpis) =
     (case map_of post_kpis metric of
        None \<Rightarrow> find_regressions post_kpis kpis
      | Some post \<Rightarrow>
          if is_regression metric pre post REGRESSION_THRESHOLD
          then (metric, pre, post) # find_regressions post_kpis kpis
          else find_regressions post_kpis kpis)"

definition regression_reason :: "(string \<times> real \<times> real) list \<Rightarrow> string" where
  "regression_reason rs =
     join_with ''; '' (map (\<lambda>(m, pre, post). m @ '' pre='' @ fixed2 pre @ '' post='' @ fixed2 post) rs)"

record rollback_state =
  rb_inflight :: "string list"
  rb_tasks :: "action_executed list"
  rb_next_id :: uuid

definition rollback_start :: rollback_state where
  "rollback_start = \<lparr>rb_inflight = [], rb_tasks = [], rb_next_id = 0\<rparr>"

definition rolled_back_event :: "real \<Rightarrow> uuid \<Rightarrow> action_executed \<Rightarrow> string \<Rightarrow> (string \<times> real) list \<Rightarrow>
    bool \<Rightarrow> pyval \<Rightarrow> action_rolled_back" where
  "rolled_back_event now eid event reason post_kpis revert_ok response =
     bus_event.extend
       (envelope eid now (ev_site_id event) (ev_trace_id event) (Some (ev_id event))
          [(''revert_ok'', PBool revert_ok), (''revert_response'', response)])
       (action_rolled_back.fields (ae_action_id event) reason (ae_pre_action_kpis event) post_kpis)"

definition trigger_revert :: "executor_env \<Rightarrow> string option \<Rightarrow> real \<Rightarrow> uuid \<Rightarrow> action_executed \<Rightarrow>
    (string \<times> real) list \<Rightarrow> (string \<times> real \<times> real) list \<Rightarrow> bus_msg effect list" where
  "trigger_revert env base now eid event post_kpis regressions =
     (let reason = regression_reason regressions;
          (out, revert_ok, response) = revert env base (uuid_str (ae_action_id event)) reason
      in out @ [Publish (topic_value ACTIONS_ROLLED_BACK)
           (MRolledBack (rolled_back_event now eid event reason post_kpis revert_ok response))])"

definition verify :: "executor_env \<Rightarrow> string option \<Rightarrow> real \<Rightarrow> uuid \<Rightarrow> action_executed \<Rightarrow>
    bus_msg effect list" where
  "verify env base now eid event =
     (let post_kpis = snapshot_post_kpis env event;
          regressions = find_regressions post_kpis (ae_pre_action_kpis event)
      in if regressions = [] then []
         else trigger_revert env base now eid event post_kpis regressions)"

definition rollback_handle :: "action_executed \<Rightarrow> rollback_state \<Rightarrow> rollback_state" where
  "rollback_handle event s =
     (if \<not> ae_success event then s
      else if ae_pre_action_kpis event = [] then s
      else let action_id = uuid_str (ae_action_id event)
           in if action_id \<in> set (rb_inflight s) then s
              else s\<lparr>rb_inflight := action_id # rb_inflight s, rb_tasks := rb_tasks s @ [event]\<rparr>)"

text \<open>The end of a task: \<open>_verify\<close>, then the \<open>finally\<close> of \<open>_verify_later\<close>.\<close>

definition verify_later :: "executor_env \<Rightarrow> string option \<Rightarrow> real \<Rightarrow> nat \<Rightarrow> rollback_state \<Rightarrow>
    bus_msg effect list \<times> rollback_state" where
  "verify_later env base now i s =
     (if length (rb_tasks s) \<le> i then ([], s)
      else let event = rb_tasks s ! i
           in (verify env base now (rb_next_id s) event,
               s\<lparr>rb_inflight := removeAll (uuid_str (ae_action_id event)) (rb_inflight s),
                 rb_tasks := take i (rb_tasks s) @ drop (Suc i) (rb_tasks s),
                 rb_next_id := Suc (rb_next_id s)\<rparr>))"

datatype rollback_label = Executed action_executed | Verify real nat

fun rollback_step :: "executor_env \<Rightarrow> string option \<Rightarrow> rollback_label \<Rightarrow> rollback_state \<Rightarrow>
    bus_msg effect list \<times> rollback_state" where
  "rollback_step env base (Executed event) s = ([], rollback_handle event s)"
| "rollback_step env base (Verify now i) s = verify_later env base now i s"

fun rollback_run :: "executor_env \<Rightarrow> string option \<Rightarrow> rollback_label list \<Rightarrow> rollback_state \<Rightarrow>
    bus_msg effect list \<times> rollback_state" where
  "rollback_run env base [] s = ([], s)"
| "rollback_run env base (x # xs) s =
     (let (out, s1) = rollback_step env base x s;
          (outs, s2) = rollback_run env base xs s1
      in (out @ outs, s2))"

section \<open>Regressions\<close>

lemma find_regressions_set:
  "set (find_regressions post kpis) =
     {(m, pre, po). (m, pre) \<in> set kpis \<and> map_of post m = Some po \<and> is_regression m pre po REGRESSION_THRESHOLD}"
  by (induction post kpis rule: find_regressions.induct) (auto split: option.splits)

section \<open>Tasks\<close>

definition tasks_wf :: "rollback_state \<Rightarrow> bool" where
  "tasks_wf s \<longleftrightarrow>
     distinct (map (\<lambda>e. uuid_str (ae_action_id e)) (rb_tasks s)) \<and>
     set (rb_inflight s) = set (map (\<lambda>e. uuid_str (ae_action_id e)) (rb_tasks s)) \<and>
     list_all (\<lambda>e. ae_success e \<and> ae_pre_action_kpis e \<noteq> []) (rb_tasks s)"

lemma tasks_wf_handle [inv_intros]: "tasks_wf s \<Longrightarrow> tasks_wf (rollback_handle e s)"
  by (auto simp: tasks_wf_def rollback_handle_def Let_def)

lemma tasks_wf_verify [inv_intros]:
  assumes "tasks_wf s"
  shows "tasks_wf (snd (verify_later env base now i s))"
proof (cases "i < length (rb_tasks s)")
  case True
  let ?f = "\<lambda>e. uuid_str (ae_action_id e)" and ?e = "rb_tasks s ! i"
  have split: "rb_tasks s = take i (rb_tasks s) @ ?e # drop (Suc i) (rb_tasks s)"
    using True by (rule id_take_nth_drop)
  define xs where "xs = take i (rb_tasks s)"
  define ys where "ys = drop (Suc i) (rb_tasks s)"
  have t: "rb_tasks s = xs @ ?e # ys" using split by (simp add: xs_def ys_def)
  have wf: "distinct (map ?f (xs @ ?e # ys))" "set (rb_inflight s) = set (map ?f (xs @ ?e # ys))"
    "list_all (\<lambda>e. ae_success e \<and> ae_pre_action_kpis e \<noteq> []) (xs @ ?e # ys)"
    using assms unfolding tasks_wf_def by (subst (asm) (1 2 3) t; blast)+
  show ?thesis
    using True wf by (auto simp: verify_later_def tasks_wf_def Let_def simp flip: xs_def ys_def)
next
  case False
  with assms show ?thesis by (simp add: verify_later_def)
qed

lemma tasks_wf_step [inv_intros]: "tasks_wf s \<Longrightarrow> tasks_wf (snd (rollback_step env base x s))"
  by (cases x) (auto intro: inv_intros)

lemma tasks_wf_run: "tasks_wf s \<Longrightarrow> tasks_wf (snd (rollback_run env base xs s))"
proof (induction xs arbitrary: s)
  case (Cons x xs)
  from Cons.IH [OF tasks_wf_step [OF Cons.prems]] show ?case by (simp add: split_beta Let_def)
qed simp

lemma tasks_wf_start: "tasks_wf rollback_start"
  by (simp add: tasks_wf_def rollback_start_def)

text \<open>The events delivered in a run.\<close>

fun delivered :: "rollback_label list \<Rightarrow> action_executed list" where
  "delivered [] = []"
| "delivered (Executed e # xs) = e # delivered xs"
| "delivered (Verify now i # xs) = delivered xs"

fun rollback_of :: "bus_msg effect \<Rightarrow> action_rolled_back option" where
  "rollback_of (Publish t (MRolledBack r)) = Some r"
| "rollback_of _ = None"

definition justified :: "action_executed list \<Rightarrow> action_rolled_back \<Rightarrow> bool" where
  "justified es r \<longleftrightarrow>
     (\<exists>e m pre post. e \<in> set es \<and> ae_success e \<and> ae_action_id e = arb_action_id r \<and>
        (m, pre) \<in> set (ae_pre_action_kpis e) \<and> map_of (arb_post_action_kpis r) m = Some post \<and>
        is_regression m pre post REGRESSION_THRESHOLD)"

lemma rolled_back_fields [simp]:
  "arb_action_id (rolled_back_event now eid e reason post ok resp) = ae_action_id e"
  "arb_post_action_kpis (rolled_back_event now eid e reason post ok resp) = post"
  by (simp_all add: rolled_back_event_def bus_event.defs action_rolled_back.defs)

lemma revert_no_rollback:
  "revert env base aid reason = (out, r) \<Longrightarrow> x \<in> set out \<Longrightarrow> rollback_of x = None"
  unfolding revert_def using post_action_out by fastforce

lemma verify_justified:
  assumes "x \<in> set (verify env base now eid e)" "rollback_of x = Some r" "ae_success e"
  shows "justified [e] r"
proof -
  let ?post = "snapshot_post_kpis env e"
  let ?rs = "find_regressions ?post (ae_pre_action_kpis e)"
  obtain out ok resp where rv: "revert env base (uuid_str (ae_action_id e)) (regression_reason ?rs) = (out, ok, resp)"
    by (cases "revert env base (uuid_str (ae_action_id e)) (regression_reason ?rs)")
  from assms(1) have ne: "?rs \<noteq> []"
    and x: "x \<in> set out \<or> x = Publish (topic_value ACTIONS_ROLLED_BACK)
       (MRolledBack (rolled_back_event now eid e (regression_reason ?rs) ?post ok resp))"
    by (auto simp: verify_def trigger_revert_def rv Let_def split: if_splits)
  with assms(2) revert_no_rollback [OF rv] have
    r: "r = rolled_back_event now eid e (regression_reason ?rs) ?post ok resp" by fastforce
  from ne obtain m pre post where "(m, pre, post) \<in> set ?rs" by (cases ?rs) auto
  with assms(3) r show ?thesis by (auto simp: justified_def find_regressions_set)
qed

lemma handle_tasks: "set (rb_tasks (rollback_handle e s)) \<subseteq> insert e (set (rb_tasks s))"
  by (auto simp: rollback_handle_def Let_def)

lemma verify_tasks: "set (rb_tasks (snd (verify_later env base now i s))) \<subseteq> set (rb_tasks s)"
  by (auto simp: verify_later_def Let_def dest: in_set_takeD in_set_dropD)

lemma run_justified:
  "tasks_wf s \<Longrightarrow> x \<in> set (fst (rollback_run env base labels s)) \<Longrightarrow> rollback_of x = Some r \<Longrightarrow>
   justified (rb_tasks s @ delivered labels) r"
proof (induction labels arbitrary: s)
  case (Cons l labels)
  let ?s1 = "snd (rollback_step env base l s)"
  have mono: "justified (rb_tasks s @ delivered (l # labels)) r"
    if "justified es r" "set es \<subseteq> set (rb_tasks s @ delivered (l # labels))" for es
    using that unfolding justified_def by blast
  from Cons.prems(2) consider "x \<in> set (fst (rollback_step env base l s))"
    | "x \<in> set (fst (rollback_run env base labels ?s1))"
    by (auto simp: split_beta Let_def)
  then show ?case
  proof cases
    case 1
    then obtain now i where l: "l = Verify now i" by (cases l) auto
    with 1 have i: "i < length (rb_tasks s)"
      and x: "x \<in> set (verify env base now (rb_next_id s) (rb_tasks s ! i))"
      by (auto simp: verify_later_def Let_def split: if_splits)
    have "ae_success (rb_tasks s ! i)"
      using Cons.prems(1) i by (simp add: tasks_wf_def list_all_length)
    from verify_justified [OF x Cons.prems(3) this] show ?thesis
      by (rule mono) (use i in simp)
  next
    case 2
    from Cons.IH [OF tasks_wf_step [OF Cons.prems(1)] 2 Cons.prems(3)] show ?thesis
      by (rule mono) (cases l; use handle_tasks verify_tasks in fastforce)
  qed
qed simp

section \<open>Properties\<close>

text \<open>A verification acts exactly when some KPI recorded before the action has a fresh value that
  regressed past the threshold; otherwise it sends nothing.\<close>

lemma verify_acts_iff_regressed:
  "verify env base now eid event \<noteq> [] \<longleftrightarrow>
     (\<exists>m pre post. (m, pre) \<in> set (ae_pre_action_kpis event) \<and>
        map_of (snapshot_post_kpis env event) m = Some post \<and>
        is_regression m pre post REGRESSION_THRESHOLD)"
proof -
  let ?rs = "find_regressions (snapshot_post_kpis env event) (ae_pre_action_kpis event)"
  have "verify env base now eid event \<noteq> [] \<longleftrightarrow> ?rs \<noteq> []"
    by (auto simp: verify_def trigger_revert_def Let_def split_beta)
  also have "\<dots> \<longleftrightarrow> set ?rs \<noteq> {}" by simp
  finally show ?thesis unfolding find_regressions_set by auto
qed

text \<open>C3: over any interleaving of events and verifications, every roll-back announced is that of an
  action delivered as successful, one of whose recorded KPIs regressed.\<close>

theorem rollbacks_justified:
  assumes "x \<in> set (fst (rollback_run env base labels rollback_start))" and "rollback_of x = Some r"
  shows "justified (delivered labels) r"
  using run_justified [OF tasks_wf_start assms] by (simp add: rollback_start_def)

definition sample_action :: action_executed where
  "sample_action = executed_event 0 1 2 sample_recommendation True [] [(''cpu.temp.celsius'', 20)]"

theorem rollbacks_justified_witness:
  "\<exists>r. justified [sample_action] r"
proof -
  let ?labels = "[Executed sample_action, Verify 300 0]"
  let ?run = "rollback_run sample_env None ?labels rollback_start"
  have post: "snapshot_post_kpis sample_env sample_action = [(''cpu.temp.celsius'', 24)]"
    by (simp add: snapshot_post_kpis_def snapshot_loop_def sample_metric_def sample_env_def
        sample_action_def get_num_def)
  have tasks: "rollback_handle sample_action rollback_start =
      \<lparr>rb_inflight = [uuid_str 2], rb_tasks = [sample_action], rb_next_id = 0\<rparr>"
    by (simp add: rollback_handle_def rollback_start_def sample_action_def)
  have ver: "verify sample_env None 300 0 sample_action =
      [Publish (topic_value ACTIONS_ROLLED_BACK) (MRolledBack (rolled_back_event 300 0 sample_action
         (regression_reason [(''cpu.temp.celsius'', 20, 24)]) [(''cpu.temp.celsius'', 24)] False
         (error_payload ''MOCKS_BASE_URL not configured'')))]"
    by (simp add: verify_def post) (simp add: sample_action_def is_regression_def HIGHER_IS_BETTER_def
        REGRESSION_THRESHOLD_def trigger_revert_def revert_def post_action_def)
  then obtain r where r: "verify sample_env None 300 0 sample_action = [Publish (topic_value ACTIONS_ROLLED_BACK) (MRolledBack r)]"
    by blast
  have "Publish (topic_value ACTIONS_ROLLED_BACK) (MRolledBack r) \<in> set (fst ?run)"
    by (simp add: tasks verify_later_def r)
  from rollbacks_justified [OF this, of r] show ?thesis by auto
qed

text \<open>At any time every action has at most one verification in flight, the in-flight set is exactly
  the actions of the running tasks, and only successful actions with recorded KPIs are verified.\<close>

lemma one_verification_per_action:
  "tasks_wf (snd (rollback_run env base labels rollback_start))"
  by (rule tasks_wf_run [OF tasks_wf_start])

text \<open>An unchanged KPI counts as a regression exactly when its value and the threshold have opposite
  signs: never for a non-negative reading, always for a negative one (a freezing outdoor inlet).\<close>

lemma unchanged_kpi_regresses_iff_negative:
  "is_regression metric x x threshold \<longleftrightarrow> x * threshold < 0"
  by (simp add: is_regression_def algebra_simps)

text \<open>The reply of the migration endpoint names no devices, so the fresh KPIs are averages over the whole
  site, compared with averages over the targets.\<close>

lemma migration_reply_is_site_wide:
  assumes "ae_response_payload event = [(''status'', s), (''n_moves'', n), (''action_id'', a)]"
    and "xe_ts_enabled env"
  shows "snapshot_post_kpis env event =
    snapshot_loop (\<lambda>m. xe_avg env (ev_site_id event) m None) (map fst (ae_pre_action_kpis event))"
  using assms by (simp add: snapshot_post_kpis_def extract_devices_def get_str_def)

end
