(* ===== verification/Solver.thy ===== *)
theory Solver
  imports Interfaces
begin

text \<open>
  The placement solver (\<open>apps/agents/optimizer/solver.py\<close>).

  \<open>solve\<close> builds a CP-SAT model, hands it to OR-Tools and reads the assignment back. The model it
  builds is data here: Boolean variables named by a workload and a rack, constraints over them and a
  linear objective. OR-Tools is a parameter \<open>cp_solve\<close> from a model and a time limit to a result;
  \<open>cp_result_ok\<close> is what its documentation promises of one. A variable is identified by the pair of
  names, so the theorems ask for distinct workload and rack names, as the callers provide.
\<close>

section \<open>CP-SAT models\<close>

type_synonym cp_var = "string \<times> string"

datatype cp_constraint = ExactlyOne "cp_var list" | LinLe "(int \<times> cp_var) list" int

record cp_model =
  cp_constraints :: "cp_constraint list"
  cp_objective :: "(int \<times> cp_var) list"

datatype cp_status = OPTIMAL | FEASIBLE | INFEASIBLE | MODEL_INVALID | UNKNOWN

fun cp_status_name :: "cp_status \<Rightarrow> string" where
  "cp_status_name OPTIMAL = ''OPTIMAL''"
| "cp_status_name FEASIBLE = ''FEASIBLE''"
| "cp_status_name INFEASIBLE = ''INFEASIBLE''"
| "cp_status_name MODEL_INVALID = ''MODEL_INVALID''"
| "cp_status_name UNKNOWN = ''UNKNOWN''"

record cp_result =
  cr_status :: cp_status
  cr_value :: "cp_var \<Rightarrow> bool"

type_synonym cp_solver = "cp_model \<Rightarrow> real \<Rightarrow> cp_result"

definition lin :: "(cp_var \<Rightarrow> bool) \<Rightarrow> (int \<times> cp_var) list \<Rightarrow> int" where
  "lin a ts = sum_list (map (\<lambda>(c, v). if a v then c else 0) ts)"

fun cp_sat :: "(cp_var \<Rightarrow> bool) \<Rightarrow> cp_constraint \<Rightarrow> bool" where
  "cp_sat a (ExactlyOne vs) = (length (filter a vs) = 1)"
| "cp_sat a (LinLe ts bound) = (lin a ts \<le> bound)"

definition cp_model_sat :: "(cp_var \<Rightarrow> bool) \<Rightarrow> cp_model \<Rightarrow> bool" where
  "cp_model_sat a m = list_all (cp_sat a) (cp_constraints m)"

definition cp_result_ok :: "cp_model \<Rightarrow> cp_result \<Rightarrow> bool" where
  "cp_result_ok m r \<longleftrightarrow>
     (cr_status r = OPTIMAL \<or> cr_status r = FEASIBLE \<longrightarrow> cp_model_sat (cr_value r) m) \<and>
     (cr_status r = OPTIMAL \<longrightarrow>
        (\<forall>a. cp_model_sat a m \<longrightarrow> lin (cr_value r) (cp_objective m) \<le> lin a (cp_objective m))) \<and>
     (cr_status r = INFEASIBLE \<longrightarrow> (\<forall>a. \<not> cp_model_sat a m))"

definition cp_solver_ok :: "cp_solver \<Rightarrow> bool" where
  "cp_solver_ok cp_solve \<longleftrightarrow> (\<forall>m limit. cp_result_ok m (cp_solve m limit))"

section \<open>Inputs and outputs\<close>

record workload =
  wl_id :: string
  wl_current_rack_id :: string
  wl_power_w :: real
  wl_thermal_load_kw :: real
  wl_tier :: string

record rack =
  rk_id :: string
  rk_pdu_capacity_w :: real
  rk_thermal_headroom_kw :: real
  rk_current_inlet_c :: real
  rk_target_inlet_c :: real

record solver_input =
  si_incident_rack_id :: string
  si_workloads :: "workload list"
  si_racks :: "rack list"
  si_time_limit_s :: "real option"

record move =
  mv_workload_id :: string
  mv_from_rack_id :: string
  mv_to_rack_id :: string
  mv_expected_power_w :: real
  mv_expected_thermal_kw :: real

record solver_output =
  so_feasible :: bool
  so_moves :: "move list"
  so_objective_value :: real
  so_solve_status :: string
  so_notes :: string

definition is_noop :: "solver_output \<Rightarrow> bool" where
  "is_noop out \<longleftrightarrow> so_moves out = []"

definition DEFAULT_TIME_LIMIT_S :: real where
  "DEFAULT_TIME_LIMIT_S = 10"

section \<open>The model it builds\<close>

definition racks_eligible :: "solver_input \<Rightarrow> rack list" where
  "racks_eligible inp = filter (\<lambda>r. 0 < rk_pdu_capacity_w r \<and> 0 < rk_thermal_headroom_kw r) (si_racks inp)"

definition assign_constraints :: "solver_input \<Rightarrow> cp_constraint list" where
  "assign_constraints inp =
     map (\<lambda>w. ExactlyOne (map (\<lambda>r. (wl_id w, rk_id r)) (racks_eligible inp))) (si_workloads inp)"

definition power_constraint :: "solver_input \<Rightarrow> rack \<Rightarrow> cp_constraint" where
  "power_constraint inp r =
     LinLe (map (\<lambda>w. (py_trunc (wl_power_w w * 1000), (wl_id w, rk_id r))) (si_workloads inp))
       (py_trunc (rk_pdu_capacity_w r * 1000))"

definition thermal_constraint :: "solver_input \<Rightarrow> rack \<Rightarrow> cp_constraint" where
  "thermal_constraint inp r =
     LinLe (map (\<lambda>w. (py_trunc (wl_thermal_load_kw w * 1000), (wl_id w, rk_id r))) (si_workloads inp))
       (py_trunc (rk_thermal_headroom_kw r * 1000))"

definition NON_AFFINITY_TIERS :: "string list" where
  "NON_AFFINITY_TIERS = [''default'', ''compute'', ''gpu'', ''switch'']"

text \<open>The keys of \<open>by_tier\<close> in insertion order, and the members of one.\<close>

definition affinity_tiers :: "solver_input \<Rightarrow> string list" where
  "affinity_tiers inp =
     rev (remdups (rev (filter (\<lambda>t. t \<notin> set NON_AFFINITY_TIERS) (map wl_tier (si_workloads inp)))))"

definition tier_members :: "solver_input \<Rightarrow> string \<Rightarrow> workload list" where
  "tier_members inp tier = filter (\<lambda>w. wl_tier w = tier) (si_workloads inp)"

definition per_rack_cap :: "nat \<Rightarrow> nat \<Rightarrow> nat" where
  "per_rack_cap n n_racks = max 1 ((n + n_racks - 1) div n_racks)"

definition affinity_constraints :: "solver_input \<Rightarrow> cp_constraint list" where
  "affinity_constraints inp =
     concat (map (\<lambda>tier.
       let members = tier_members inp tier; n = length members
       in if n \<le> 1 then []
          else map (\<lambda>r. LinLe (map (\<lambda>w. (1, (wl_id w, rk_id r))) members)
                          (int (per_rack_cap n (length (racks_eligible inp)))))
                 (racks_eligible inp))
       (affinity_tiers inp))"

definition incident_penalty :: int where
  "incident_penalty = 1000000"

definition placement_cost :: "string \<Rightarrow> workload \<Rightarrow> rack \<Rightarrow> int" where
  "placement_cost incident w r =
     py_round (wl_thermal_load_kw w * (rk_current_inlet_c r)\<^sup>2)
     + (if rk_id r = incident then incident_penalty else 0)"

definition placement_model :: "solver_input \<Rightarrow> cp_model" where
  "placement_model inp =
     \<lparr>cp_constraints =
        assign_constraints inp
        @ map (power_constraint inp) (racks_eligible inp)
        @ map (thermal_constraint inp) (racks_eligible inp)
        @ affinity_constraints inp,
      cp_objective =
        concat (map (\<lambda>w. map (\<lambda>r. (placement_cost (si_incident_rack_id inp) w r, (wl_id w, rk_id r)))
                            (racks_eligible inp)) (si_workloads inp))\<rparr>"

section \<open>Solving\<close>

definition mk_move :: "workload \<Rightarrow> string \<Rightarrow> move" where
  "mk_move w r_id =
     \<lparr>mv_workload_id = wl_id w, mv_from_rack_id = wl_current_rack_id w, mv_to_rack_id = r_id,
      mv_expected_power_w = wl_power_w w, mv_expected_thermal_kw = wl_thermal_load_kw w\<rparr>"

definition extract_moves :: "(cp_var \<Rightarrow> bool) \<Rightarrow> workload list \<Rightarrow> string list \<Rightarrow> move list" where
  "extract_moves value workloads rack_ids =
     concat (map (\<lambda>w. map (mk_move w)
       (filter (\<lambda>r_id. value (wl_id w, r_id) \<and> r_id \<noteq> wl_current_rack_id w) rack_ids)) workloads)"

definition no_moves :: "bool \<Rightarrow> string \<Rightarrow> string \<Rightarrow> solver_output" where
  "no_moves feasible status notes =
     \<lparr>so_feasible = feasible, so_moves = [], so_objective_value = 0, so_solve_status = status,
      so_notes = notes\<rparr>"

text \<open>\<open>ortools\<close> is \<open>Some exc\<close> where the import raises.\<close>

definition solve :: "string option \<Rightarrow> cp_solver \<Rightarrow> solver_input \<Rightarrow> solver_output" where
  "solve ortools cp_solve inp =
     (case ortools of
        Some exc \<Rightarrow> no_moves False ''UNAVAILABLE'' (''ortools missing: '' @ exc)
      | None \<Rightarrow>
          if si_workloads inp = [] \<or> si_racks inp = [] then no_moves True ''EMPTY'' ''no work to do''
          else if racks_eligible inp = []
          then no_moves False ''NO_ELIGIBLE_TARGETS'' ''no rack with both power + thermal headroom''
          else let limit = (case si_time_limit_s inp of
                              Some t \<Rightarrow> if t = 0 then DEFAULT_TIME_LIMIT_S else t
                            | None \<Rightarrow> DEFAULT_TIME_LIMIT_S);
                   result = cp_solve (placement_model inp) limit;
                   status_name = cp_status_name (cr_status result)
               in if cr_status result \<noteq> OPTIMAL \<and> cr_status result \<noteq> FEASIBLE
                  then no_moves False status_name
                         ''solver could not find a feasible placement under constraints''
                  else let moves = extract_moves (cr_value result) (si_workloads inp)
                                     (map rk_id (racks_eligible inp))
                       in \<lparr>so_feasible = True, so_moves = moves,
                           so_objective_value =
                             of_int (lin (cr_value result) (cp_objective (placement_model inp))),
                           so_solve_status = status_name,
                           so_notes = ''placed '' @ str_of_nat (length (si_workloads inp))
                             @ '' workloads, '' @ str_of_nat (length moves) @ '' migrations''\<rparr>)"

definition estimate_impact :: "move list \<Rightarrow> (string \<times> real) list" where
  "estimate_impact moves =
     [(''power_redistributed_w'', sum_list (map mv_expected_power_w moves)),
      (''thermal_redistributed_kw'', sum_list (map mv_expected_thermal_kw moves)),
      (''n_workload_migrations'', real (length moves))]"

section \<open>Reading the constraints back\<close>

lemma model_satD:
  assumes "cp_model_sat a (placement_model inp)"
  shows "w \<in> set (si_workloads inp) \<Longrightarrow>
      length (filter a (map (\<lambda>r. (wl_id w, rk_id r)) (racks_eligible inp))) = 1"
    "r \<in> set (racks_eligible inp) \<Longrightarrow> cp_sat a (power_constraint inp r)"
    "r \<in> set (racks_eligible inp) \<Longrightarrow> cp_sat a (thermal_constraint inp r)"
    "c \<in> set (affinity_constraints inp) \<Longrightarrow> cp_sat a c"
proof -
  have all: "cp_sat a c" if "c \<in> set (cp_constraints (placement_model inp))" for c
    using assms that by (simp add: cp_model_sat_def list_all_iff)
  note sets = placement_model_def assign_constraints_def
  show "length (filter a (map (\<lambda>r. (wl_id w, rk_id r)) (racks_eligible inp))) = 1"
    if "w \<in> set (si_workloads inp)"
    using all [of "ExactlyOne (map (\<lambda>r. (wl_id w, rk_id r)) (racks_eligible inp))"] that
    by (force simp: sets)
  show "cp_sat a (power_constraint inp r)" "cp_sat a (thermal_constraint inp r)"
    if "r \<in> set (racks_eligible inp)"
    by (rule all, use that in \<open>simp add: sets\<close>)+
  show "cp_sat a c" if "c \<in> set (affinity_constraints inp)"
    by (rule all) (use that in \<open>simp add: sets\<close>)
qed

lemma lin_filter: "lin a (map (\<lambda>w. (f w, g w)) ws) = sum_list (map f (filter (\<lambda>w. a (g w)) ws))"
  by (induction ws) (auto simp: lin_def)

lemma py_trunc_gt: "x < of_int (py_trunc x) + 1"
  by (simp add: py_trunc_def) linarith

lemma sum_trunc_bound:
  "sum_list (map f ws) \<le> (of_int (sum_list (map (\<lambda>w. py_trunc (f w * 1000)) ws)) + real (length ws)) / 1000"
proof (induction ws)
  case (Cons w ws)
  have "f w \<le> (of_int (py_trunc (f w * 1000)) + 1) / 1000"
    using py_trunc_gt [of "f w * 1000"] by simp
  with Cons show ?case by simp
qed simp

lemma sum_list_filter_mono:
  "(\<And>w. w \<in> set ws \<Longrightarrow> P w \<Longrightarrow> Q w) \<Longrightarrow> (\<And>w. w \<in> set ws \<Longrightarrow> 0 \<le> (f w :: int)) \<Longrightarrow>
   sum_list (map f (filter P ws)) \<le> sum_list (map f (filter Q ws))"
proof (induction ws)
  case (Cons w ws)
  from Cons.IH Cons.prems have "sum_list (map f (filter P ws)) \<le> sum_list (map f (filter Q ws))"
    by simp
  with Cons.prems [of w] show ?case by auto
qed simp

text \<open>The workloads the moves to a rack stand for.\<close>

definition moved_to :: "(cp_var \<Rightarrow> bool) \<Rightarrow> workload list \<Rightarrow> string \<Rightarrow> workload list" where
  "moved_to value ws r_id = filter (\<lambda>w. value (wl_id w, r_id) \<and> r_id \<noteq> wl_current_rack_id w) ws"

lemma filter_distinct_single:
  "distinct xs \<Longrightarrow> filter (\<lambda>x. P x \<and> x = y) xs = (if y \<in> set xs \<and> P y then [y] else [])"
  by (induction xs) auto

lemma moves_to_rack:
  assumes "distinct rack_ids" "r_id \<in> set rack_ids"
  shows "filter (\<lambda>m. mv_to_rack_id m = r_id) (extract_moves value ws rack_ids) =
    map (\<lambda>w. mk_move w r_id) (moved_to value ws r_id)"
proof (induction ws)
  case (Cons w ws)
  have "filter (\<lambda>m. mv_to_rack_id m = r_id) (map (mk_move w)
      (filter (\<lambda>x. value (wl_id w, x) \<and> x \<noteq> wl_current_rack_id w) rack_ids)) =
    map (mk_move w) (filter (\<lambda>x. (value (wl_id w, x) \<and> x \<noteq> wl_current_rack_id w) \<and> x = r_id) rack_ids)"
    by (simp add: filter_map comp_def mk_move_def conj_commute)
  also have "\<dots> = (if value (wl_id w, r_id) \<and> r_id \<noteq> wl_current_rack_id w then [mk_move w r_id] else [])"
    using assms by (subst filter_distinct_single) auto
  finally show ?case
    using Cons by (simp add: extract_moves_def moved_to_def)
qed (simp add: extract_moves_def moved_to_def)

definition well_named :: "solver_input \<Rightarrow> bool" where
  "well_named inp \<longleftrightarrow> distinct (map wl_id (si_workloads inp)) \<and> distinct (map rk_id (si_racks inp))"

lemma distinct_eligible: "well_named inp \<Longrightarrow> distinct (map rk_id (racks_eligible inp))"
  by (auto simp: well_named_def racks_eligible_def distinct_map inj_on_def)

text \<open>What the solver's guarantee says about a solution that is returned.\<close>

lemma solve_solution:
  assumes "cp_solver_ok cp_solve" "solve ortools cp_solve inp = out" "so_feasible out" "so_moves out \<noteq> []"
  obtains a where "cp_model_sat a (placement_model inp)"
    "so_moves out = extract_moves a (si_workloads inp) (map rk_id (racks_eligible inp))"
proof -
  let ?limit = "case si_time_limit_s inp of Some t \<Rightarrow> if t = 0 then DEFAULT_TIME_LIMIT_S else t
    | None \<Rightarrow> DEFAULT_TIME_LIMIT_S"
  let ?r = "cp_solve (placement_model inp) ?limit"
  from assms(2-4) have s: "cr_status ?r = OPTIMAL \<or> cr_status ?r = FEASIBLE"
    and m: "so_moves out = extract_moves (cr_value ?r) (si_workloads inp) (map rk_id (racks_eligible inp))"
    by (auto simp: solve_def no_moves_def Let_def split: option.splits if_splits)
  from assms(1) s have "cp_model_sat (cr_value ?r) (placement_model inp)"
    by (auto simp: cp_solver_ok_def cp_result_ok_def)
  with m that show thesis by blast
qed

lemma lin_Cons [simp]: "lin a ((c, v) # ts) = (if a v then c else 0) + lin a ts"
  by (simp add: lin_def)

lemma lin_member_le:
  "(c, v) \<in> set ts \<Longrightarrow> a v \<Longrightarrow> (\<And>c v. (c, v) \<in> set ts \<Longrightarrow> 0 \<le> c) \<Longrightarrow> c \<le> lin a ts"
proof (induction ts)
  case (Cons t ts)
  obtain d u where t: "t = (d, u)" by (cases t)
  have nonneg: "0 \<le> lin a xs" if "\<And>c v. (c, v) \<in> set xs \<Longrightarrow> 0 \<le> c" for xs
    using that by (auto simp: lin_def intro!: sum_list_nonneg)
  have d: "0 \<le> d" using Cons.prems(3) [of d u] t by simp
  have "0 \<le> lin a ts" using nonneg [of ts] Cons.prems(3) by (meson list.set_intros(2))
  note this d
  moreover have "c \<le> lin a ts" if "(c, v) \<in> set ts"
    using Cons.IH [OF that Cons.prems(2)] Cons.prems(3) by (meson list.set_intros(2))
  ultimately show ?case using Cons.prems(1,2) by (auto simp: t)
qed simp

lemma py_round_nonneg: "0 \<le> x \<Longrightarrow> 0 \<le> py_round x"
  by (simp add: py_round_def Let_def)

lemma rack_capacity:
  assumes "cp_model_sat a (placement_model inp)" "r \<in> set (racks_eligible inp)"
    and "\<And>w. w \<in> set (si_workloads inp) \<Longrightarrow> 0 \<le> wl_power_w w \<and> 0 \<le> wl_thermal_load_kw w"
  defines "ws \<equiv> moved_to a (si_workloads inp) (rk_id r)"
  shows "sum_list (map wl_power_w ws) \<le> rk_pdu_capacity_w r + real (length ws) / 1000 \<and>
    sum_list (map wl_thermal_load_kw ws) \<le> rk_thermal_headroom_kw r + real (length ws) / 1000"
proof -
  have bound: "sum_list (map f ws) \<le> cap + real (length ws) / 1000"
    if c: "cp_sat a (LinLe (map (\<lambda>w. (py_trunc (f w * 1000), (wl_id w, rk_id r))) (si_workloads inp))
        (py_trunc (cap * 1000)))"
      and f: "\<And>w. w \<in> set (si_workloads inp) \<Longrightarrow> 0 \<le> f w" and cap: "0 < cap" for f cap
  proof -
    let ?g = "\<lambda>w. py_trunc (f w * 1000)"
    have "sum_list (map ?g ws) \<le> sum_list (map ?g (filter (\<lambda>w. a (wl_id w, rk_id r)) (si_workloads inp)))"
      unfolding ws_def moved_to_def
      by (rule sum_list_filter_mono) (use f in \<open>auto simp: py_trunc_nonneg\<close>)
    also have "\<dots> \<le> py_trunc (cap * 1000)" using c by (simp add: lin_filter)
    finally have "real_of_int (sum_list (map ?g ws)) \<le> of_int (py_trunc (cap * 1000))" by (simp only: of_int_le_iff)
    also have "\<dots> \<le> cap * 1000" using py_trunc_nonneg [of "cap * 1000"] cap by simp
    finally show ?thesis using sum_trunc_bound [of f ws] by (simp add: field_simps)
  qed
  have pos: "0 < rk_pdu_capacity_w r" "0 < rk_thermal_headroom_kw r"
    using assms(2) by (auto simp: racks_eligible_def)
  show ?thesis
    using bound [OF model_satD(2) [OF assms(1,2), unfolded power_constraint_def] _ pos(1)]
      bound [OF model_satD(3) [OF assms(1,2), unfolded thermal_constraint_def] _ pos(2)] assms(3)
    by blast
qed

lemma exactly_one_rack:
  assumes "cp_model_sat a (placement_model inp)" "w \<in> set (si_workloads inp)"
  obtains r where "filter (\<lambda>r_id. a (wl_id w, r_id)) (map rk_id (racks_eligible inp)) = [r]"
proof -
  have "length (filter (\<lambda>r_id. a (wl_id w, r_id)) (map rk_id (racks_eligible inp))) = 1"
    using model_satD(1) [OF assms] by (simp add: filter_map comp_def)
  then obtain r where "filter (\<lambda>r_id. a (wl_id w, r_id)) (map rk_id (racks_eligible inp)) = [r]"
    by (cases "filter (\<lambda>r_id. a (wl_id w, r_id)) (map rk_id (racks_eligible inp))") simp_all
  then show thesis by (rule that)
qed

lemma moves_of_workload:
  assumes "filter (\<lambda>r_id. a (wl_id w, r_id)) rack_ids = [r]"
  shows "map (mk_move w) (filter (\<lambda>r_id. a (wl_id w, r_id) \<and> r_id \<noteq> wl_current_rack_id w) rack_ids) =
    (if r \<noteq> wl_current_rack_id w then [mk_move w r] else [])"
proof -
  have "filter (\<lambda>r_id. a (wl_id w, r_id) \<and> r_id \<noteq> wl_current_rack_id w) rack_ids =
      filter (\<lambda>r_id. r_id \<noteq> wl_current_rack_id w) (filter (\<lambda>r_id. a (wl_id w, r_id)) rack_ids)"
    by (simp add: conj_commute)
  with assms show ?thesis by simp
qed

lemma extract_moves_ids:
  assumes "cp_model_sat a (placement_model inp)" "set ws \<subseteq> set (si_workloads inp)"
  shows "subseq (map mv_workload_id (extract_moves a ws (map rk_id (racks_eligible inp)))) (map wl_id ws)"
  using assms(2)
proof (induction ws)
  case (Cons w ws)
  from Cons.prems obtain r where
    "filter (\<lambda>r_id. a (wl_id w, r_id)) (map rk_id (racks_eligible inp)) = [r]"
    using exactly_one_rack [OF assms(1), of w] by auto
  from moves_of_workload [OF this] Cons show ?case
    by (auto simp: extract_moves_def mk_move_def)
qed (simp add: extract_moves_def)

lemma in_extract_moves:
  "m \<in> set (extract_moves a ws rack_ids) \<longleftrightarrow>
     (\<exists>w r. w \<in> set ws \<and> r \<in> set rack_ids \<and> a (wl_id w, r) \<and> r \<noteq> wl_current_rack_id w \<and> m = mk_move w r)"
  by (auto simp: extract_moves_def)

section \<open>Properties\<close>

text \<open>One workload, its rack and a cooler one, and a solver that knows this model only.\<close>

definition sample_input :: solver_input where
  "sample_input =
     \<lparr>si_incident_rack_id = ''r1'',
      si_workloads = [\<lparr>wl_id = ''wl-a'', wl_current_rack_id = ''r1'', wl_power_w = 500,
                       wl_thermal_load_kw = 1 / 2, wl_tier = ''compute''\<rparr>],
      si_racks = [\<lparr>rk_id = ''r1'', rk_pdu_capacity_w = 1000, rk_thermal_headroom_kw = 1,
                   rk_current_inlet_c = 30, rk_target_inlet_c = 27\<rparr>,
                  \<lparr>rk_id = ''r2'', rk_pdu_capacity_w = 10000, rk_thermal_headroom_kw = 10,
                   rk_current_inlet_c = 22, rk_target_inlet_c = 27\<rparr>],
      si_time_limit_s = None\<rparr>"

definition sample_solver :: cp_solver where
  "sample_solver m limit =
     (if m = placement_model sample_input
      then \<lparr>cr_status = OPTIMAL, cr_value = (\<lambda>v. v = (''wl-a'', ''r2''))\<rparr>
      else \<lparr>cr_status = UNKNOWN, cr_value = (\<lambda>v. False)\<rparr>)"

lemmas sample_model_defs = sample_input_def racks_eligible_def assign_constraints_def
  power_constraint_def thermal_constraint_def affinity_constraints_def affinity_tiers_def
  NON_AFFINITY_TIERS_def placement_cost_def incident_penalty_def py_round_def py_trunc_def Let_def

lemma sample_model:
  "placement_model sample_input =
     \<lparr>cp_constraints =
        [ExactlyOne [(''wl-a'', ''r1''), (''wl-a'', ''r2'')],
         LinLe [(500000, (''wl-a'', ''r1''))] 1000000, LinLe [(500000, (''wl-a'', ''r2''))] 10000000,
         LinLe [(500, (''wl-a'', ''r1''))] 1000, LinLe [(500, (''wl-a'', ''r2''))] 10000],
      cp_objective = [(1000450, (''wl-a'', ''r1'')), (242, (''wl-a'', ''r2''))]\<rparr>"
  by (simp add: placement_model_def sample_model_defs)

lemma lin_Nil [simp]: "lin a [] = 0"
  by (simp add: lin_def)

lemma sample_solver_ok: "cp_solver_ok sample_solver"
proof -
  have "lin (\<lambda>v. v = (''wl-a'', ''r2'')) (cp_objective (placement_model sample_input))
      \<le> lin a (cp_objective (placement_model sample_input))"
    if "cp_model_sat a (placement_model sample_input)" for a
    using that by (auto simp: cp_model_sat_def sample_model split: if_splits)
  then show ?thesis
    by (auto simp: cp_solver_ok_def cp_result_ok_def sample_solver_def cp_model_sat_def sample_model)
qed

lemma sample_solve:
  "so_feasible (solve None sample_solver sample_input)"
  "so_solve_status (solve None sample_solver sample_input) = ''OPTIMAL''"
  "so_moves (solve None sample_solver sample_input) =
     [mk_move \<lparr>wl_id = ''wl-a'', wl_current_rack_id = ''r1'', wl_power_w = 500,
       wl_thermal_load_kw = 1 / 2, wl_tier = ''compute''\<rparr> ''r2'']"
  by (simp_all add: solve_def Let_def sample_solver_def)
    (simp_all add: sample_input_def racks_eligible_def extract_moves_def)

definition moves_to :: "string \<Rightarrow> solver_output \<Rightarrow> move list" where
  "moves_to r_id out = filter (\<lambda>m. mv_to_rack_id m = r_id) (so_moves out)"

text \<open>C6: whatever placement the solver returns, the power and heat moved to a rack stay within its
  headroom, up to the truncation of each demand to whole milliwatts and watts: at most a thousandth
  of a unit per move.\<close>

theorem moves_respect_headroom:
  assumes "cp_solver_ok cp_solve" and "well_named inp"
    and "\<forall>w \<in> set (si_workloads inp). 0 \<le> wl_power_w w \<and> 0 \<le> wl_thermal_load_kw w"
    and "solve ortools cp_solve inp = out" and "so_feasible out"
    and "r \<in> set (si_racks inp)" and "moves_to (rk_id r) out \<noteq> []"
  shows "sum_list (map mv_expected_power_w (moves_to (rk_id r) out))
           \<le> rk_pdu_capacity_w r + real (length (moves_to (rk_id r) out)) / 1000 \<and>
         sum_list (map mv_expected_thermal_kw (moves_to (rk_id r) out))
           \<le> rk_thermal_headroom_kw r + real (length (moves_to (rk_id r) out)) / 1000"
proof -
  have "so_moves out \<noteq> []" using assms(7) by (auto simp: moves_to_def)
  from solve_solution [OF assms(1,4,5) this] obtain a where
    a: "cp_model_sat a (placement_model inp)" and
    m: "so_moves out = extract_moves a (si_workloads inp) (map rk_id (racks_eligible inp))" .
  from assms(7) m have "rk_id r \<in> set (map rk_id (racks_eligible inp))"
    by (auto simp: moves_to_def filter_empty_conv in_extract_moves mk_move_def simp del: set_map)
  then obtain r' where r': "r' \<in> set (racks_eligible inp)" "rk_id r' = rk_id r" by auto
  then have r: "r \<in> set (racks_eligible inp)"
    using assms(2,6) by (auto simp: well_named_def distinct_map racks_eligible_def dest: inj_onD)
  let ?ws = "moved_to a (si_workloads inp) (rk_id r)"
  have to: "moves_to (rk_id r) out = map (\<lambda>w. mk_move w (rk_id r)) ?ws"
    unfolding moves_to_def m
    by (rule moves_to_rack [OF distinct_eligible [OF assms(2)]]) (use r in simp)
  have "map mv_expected_power_w (moves_to (rk_id r) out) = map wl_power_w ?ws"
    "map mv_expected_thermal_kw (moves_to (rk_id r) out) = map wl_thermal_load_kw ?ws"
    "length (moves_to (rk_id r) out) = length ?ws"
    by (simp_all add: to mk_move_def)
  with rack_capacity [OF a r] assms(3) show ?thesis by auto
qed

text \<open>A returned plan moves every workload at most once, from where it is to another rack that has
  room for both power and heat.\<close>

lemma plan_moves_each_workload_once:
  assumes "cp_solver_ok cp_solve" and "well_named inp"
    and "solve ortools cp_solve inp = out" and "so_feasible out"
  shows "distinct (map mv_workload_id (so_moves out)) \<and>
    list_all (\<lambda>m. mv_to_rack_id m \<noteq> mv_from_rack_id m \<and>
        mv_to_rack_id m \<in> set (map rk_id (racks_eligible inp)) \<and>
        (\<exists>w. w \<in> set (si_workloads inp) \<and> m = mk_move w (mv_to_rack_id m))) (so_moves out)"
proof (cases "so_moves out = []")
  case False
  from solve_solution [OF assms(1,3,4) this] obtain a where
    a: "cp_model_sat a (placement_model inp)" and
    m: "so_moves out = extract_moves a (si_workloads inp) (map rk_id (racks_eligible inp))" .
  have "distinct (map mv_workload_id (so_moves out))"
    using distinct_subseq [OF extract_moves_ids [OF a subset_refl]] assms(2)
    by (simp add: m well_named_def)
  moreover have "mv_to_rack_id x \<noteq> mv_from_rack_id x \<and>
      mv_to_rack_id x \<in> set (map rk_id (racks_eligible inp)) \<and>
      (\<exists>w. w \<in> set (si_workloads inp) \<and> x = mk_move w (mv_to_rack_id x))" if "x \<in> set (so_moves out)" for x
  proof -
    from that obtain w r where "w \<in> set (si_workloads inp)" "r \<in> set (map rk_id (racks_eligible inp))"
      "r \<noteq> wl_current_rack_id w" "x = mk_move w r" unfolding m in_extract_moves by blast
    moreover from this(4) have "mv_to_rack_id x = r" "mv_from_rack_id x = wl_current_rack_id w"
      by (simp_all add: mk_move_def)
    ultimately show ?thesis by metis
  qed
  ultimately show ?thesis unfolding list_all_iff by blast
qed simp

text \<open>C7: when the solver reports an optimum and the incident rack can be emptied at a heat cost under
  the penalty, the plan moves every workload off it.\<close>

theorem optimal_plan_empties_incident_rack:
  assumes "cp_solver_ok cp_solve"
    and "solve None cp_solve inp = out" and "so_solve_status out = ''OPTIMAL''"
    and "cp_model_sat a (placement_model inp)" and "lin a (cp_objective (placement_model inp)) < incident_penalty"
    and "\<forall>w \<in> set (si_workloads inp). 0 \<le> wl_thermal_load_kw w"
    and "w \<in> set (si_workloads inp)" and "wl_current_rack_id w = si_incident_rack_id inp"
  shows "\<exists>r. mk_move w r \<in> set (so_moves out) \<and> r \<noteq> si_incident_rack_id inp"
proof -
  let ?limit = "case si_time_limit_s inp of Some t \<Rightarrow> if t = 0 then DEFAULT_TIME_LIMIT_S else t
    | None \<Rightarrow> DEFAULT_TIME_LIMIT_S"
  let ?r = "cp_solve (placement_model inp) ?limit" and ?obj = "cp_objective (placement_model inp)"
  from assms(2,3) have st: "cr_status ?r = OPTIMAL"
    and m: "so_moves out = extract_moves (cr_value ?r) (si_workloads inp) (map rk_id (racks_eligible inp))"
    by (cases "cr_status ?r"; auto simp: solve_def no_moves_def Let_def split: if_splits)+
  from assms(1) st have sat: "cp_model_sat (cr_value ?r) (placement_model inp)"
    and opt: "lin (cr_value ?r) ?obj \<le> lin a ?obj"
    using assms(4) by (auto simp: cp_solver_ok_def cp_result_ok_def)
  obtain r where r: "filter (\<lambda>r_id. cr_value ?r (wl_id w, r_id)) (map rk_id (racks_eligible inp)) = [r]"
    using exactly_one_rack [OF sat assms(7)] .
  then have rin: "r \<in> set (map rk_id (racks_eligible inp))" "cr_value ?r (wl_id w, r)"
  proof -
    have "r \<in> set (filter (\<lambda>r_id. cr_value ?r (wl_id w, r_id)) (map rk_id (racks_eligible inp)))"
      by (subst r) simp
    then show "r \<in> set (map rk_id (racks_eligible inp))" "cr_value ?r (wl_id w, r)"
      unfolding set_filter by blast+
  qed
  have "r \<noteq> si_incident_rack_id inp"
  proof
    assume inc: "r = si_incident_rack_id inp"
    from rin(1) obtain k where k: "k \<in> set (racks_eligible inp)" "rk_id k = r" by auto
    have nonneg: "0 \<le> c" if "(c, v) \<in> set ?obj" for c v
      using that assms(6)
      by (auto simp: placement_model_def placement_cost_def incident_penalty_def
          intro!: py_round_nonneg add_nonneg_nonneg mult_nonneg_nonneg)
    have "(placement_cost (si_incident_rack_id inp) w k, (wl_id w, rk_id k)) \<in> set ?obj"
      using assms(7) k(1) by (auto simp: placement_model_def)
    from lin_member_le [OF this, of "cr_value ?r"] nonneg rin(2) k(2)
    have "placement_cost (si_incident_rack_id inp) w k \<le> lin (cr_value ?r) ?obj" by simp
    moreover have "incident_penalty \<le> placement_cost (si_incident_rack_id inp) w k"
      using assms(6,7) k(2) inc by (simp add: placement_cost_def py_round_nonneg)
    ultimately show False using opt assms(5) by linarith
  qed
  moreover from this rin assms(7,8) have "mk_move w r \<in> set (so_moves out)"
    unfolding m in_extract_moves by (intro exI [of _ w] exI [of _ r] conjI) simp_all
  ultimately show ?thesis by blast
qed

theorem moves_respect_headroom_witness:
  "sum_list (map mv_expected_power_w (moves_to ''r2'' (solve None sample_solver sample_input))) \<le> 10000 + 1 / 1000"
proof -
  let ?r = "\<lparr>rk_id = ''r2'', rk_pdu_capacity_w = 10000, rk_thermal_headroom_kw = 10,
    rk_current_inlet_c = 22, rk_target_inlet_c = 27\<rparr>"
  have n: "well_named sample_input" by (simp add: well_named_def sample_input_def)
  have p: "\<forall>w \<in> set (si_workloads sample_input). 0 \<le> wl_power_w w \<and> 0 \<le> wl_thermal_load_kw w"
    "?r \<in> set (si_racks sample_input)" by (simp_all add: sample_input_def)
  have m: "moves_to (rk_id ?r) (solve None sample_solver sample_input) =
      so_moves (solve None sample_solver sample_input)"
    by (simp add: moves_to_def sample_solve mk_move_def)
  then have "moves_to (rk_id ?r) (solve None sample_solver sample_input) \<noteq> []"
    by (simp add: sample_solve)
  from moves_respect_headroom [OF sample_solver_ok n p(1) refl sample_solve(1) p(2) this] m
  show ?thesis by (simp add: sample_solve)
qed

lemma plan_moves_each_workload_once_witness:
  "distinct (map mv_workload_id (so_moves (solve None sample_solver sample_input)))"
proof -
  have n: "well_named sample_input" by (simp add: well_named_def sample_input_def)
  from plan_moves_each_workload_once [OF sample_solver_ok n refl sample_solve(1)] show ?thesis by blast
qed

theorem optimal_plan_empties_incident_rack_witness:
  "\<exists>w r. mk_move w r \<in> set (so_moves (solve None sample_solver sample_input)) \<and> r \<noteq> ''r1''"
proof -
  let ?a = "\<lambda>v. v = (''wl-a'', ''r2'')" and ?w = "hd (si_workloads sample_input)"
  have "cp_model_sat ?a (placement_model sample_input)"
    "lin ?a (cp_objective (placement_model sample_input)) < incident_penalty"
    by (simp_all add: cp_model_sat_def sample_model incident_penalty_def)
  from optimal_plan_empties_incident_rack [OF sample_solver_ok refl sample_solve(2) this, of ?w]
  show ?thesis by (auto simp: sample_input_def)
qed

text \<open>The cap on a redundancy group never rules out every placement: the caps of all racks together have
  room for the group.\<close>

lemma per_rack_cap_covers: "0 < n_racks \<Longrightarrow> n \<le> per_rack_cap n n_racks * n_racks"
proof -
  assume r: "0 < n_racks"
  have "n \<le> (n + n_racks - 1) div n_racks * n_racks"
  proof -
    have "n + n_racks - 1 = (n + n_racks - 1) div n_racks * n_racks + (n + n_racks - 1) mod n_racks"
      by simp
    moreover have "(n + n_racks - 1) mod n_racks < n_racks" using r by simp
    ultimately show ?thesis using r by linarith
  qed
  also have "\<dots> \<le> per_rack_cap n n_racks * n_racks"
    by (rule mult_right_mono) (simp_all add: per_rack_cap_def)
  finally show ?thesis .
qed

end
