(* ===== verification/Optimizer.thy ===== *)
theory Optimizer
  imports Solver Executor
begin

text \<open>
  The Optimizer agent (\<open>apps/agents/optimizer/main.py\<close>): it turns an incident into a placement
  problem, has it solved and recommends the moves.

  The rows of its two queries are parameters (\<open>None\<close> where a query raises), as are the solver, \<open>float\<close>
  on text and which Redis commands succeed.
\<close>

record optimizer_env =
  op_ts_enabled :: bool
  op_power_rows :: "string \<Rightarrow> string \<Rightarrow> dict list option"
  op_rack_rows :: "string \<Rightarrow> dict list option"
  op_float :: "string \<Rightarrow> real option"
  op_ortools :: "string option"
  op_cp_solve :: cp_solver
  op_ok :: "bus_msg effect \<Rightarrow> bool"

record optimizer_config =
  oc_keep :: int
  oc_rack_power_cap_w :: real
  oc_rack_thermal_cap_kw :: real

definition optimizer_defaults :: optimizer_config where
  "optimizer_defaults =
     \<lparr>oc_keep = 200, oc_rack_power_cap_w = 15000, oc_rack_thermal_cap_kw = 12\<rparr>"

definition RECOMMENDATIONS_REDIS_LIST :: string where
  "RECOMMENDATIONS_REDIS_LIST = ''recommendations:recent''"

section \<open>Names\<close>

definition rack_for :: "string \<Rightarrow> string option" where
  "rack_for device_id =
     (case split_on CHR ''-'' device_id of
        p0 # p1 # p2 # _ \<Rightarrow>
          if prefix ''h'' p1 \<and> prefix ''r'' p2 then Some (p0 @ ''-'' @ p1 @ ''-'' @ p2) else None
      | _ \<Rightarrow> None)"

definition tier_from_device :: "string \<Rightarrow> string" where
  "tier_from_device device_id =
     (if sublist ''-gpu'' device_id then ''gpu''
      else if suffix ''-tor'' device_id then ''switch'' else ''compute'')"

text \<open>\<open>s.rsplit("-r", 1)\<close>: what precedes the last occurrence, if there is one.\<close>

fun rsplit_hall :: "string \<Rightarrow> string option" where
  "rsplit_hall [] = None"
| "rsplit_hall (c # s) =
     (case rsplit_hall s of
        Some h \<Rightarrow> Some (c # h)
      | None \<Rightarrow> if prefix ''-r'' (c # s) then Some [] else None)"

section \<open>Context\<close>

definition workload_of_row :: "string \<Rightarrow> dict \<Rightarrow> workload option" where
  "workload_of_row rack_id r =
     (case (get_str r ''device_id'', get_num r ''power_w'') of
        (Some device_id, Some watts) \<Rightarrow>
          Some \<lparr>wl_id = ''wl-'' @ device_id, wl_current_rack_id = rack_id, wl_power_w = watts,
                wl_thermal_load_kw = watts * (9 / 10) / 1000, wl_tier = tier_from_device device_id\<rparr>
      | _ \<Rightarrow> None)"

definition workloads_on_rack :: "optimizer_env \<Rightarrow> string \<Rightarrow> string \<Rightarrow> workload list" where
  "workloads_on_rack env site_id rack_id =
     (if \<not> op_ts_enabled env then []
      else case op_power_rows env site_id rack_id of
             None \<Rightarrow> []
           | Some rows \<Rightarrow> List.map_filter (workload_of_row rack_id) rows)"

definition float_or :: "optimizer_env \<Rightarrow> dict \<Rightarrow> string \<Rightarrow> real \<Rightarrow> real res" where
  "float_or env r k fallback =
     (let v = get_def r k PNone in py_float (op_float env) (if truthy v then v else PFloat fallback))"

definition mk_rack :: "string \<Rightarrow> real \<Rightarrow> real \<Rightarrow> real \<Rightarrow> rack" where
  "mk_rack rid cap headroom inlet =
     \<lparr>rk_id = rid, rk_pdu_capacity_w = cap, rk_thermal_headroom_kw = headroom,
      rk_current_inlet_c = inlet, rk_target_inlet_c = 27\<rparr>"

fun rack_loop :: "optimizer_env \<Rightarrow> optimizer_config \<Rightarrow> dict list \<Rightarrow> rack list res" where
  "rack_loop env cfg [] = Inr []"
| "rack_loop env cfg (r # rows) =
     res_bind (float_or env r ''used_w'' 0) (\<lambda>used.
     res_bind (float_or env r ''inlet_c'' 22) (\<lambda>inlet.
     res_bind (rack_loop env cfg rows) (\<lambda>rest.
       case get_str r ''rack_id'' of
         None \<Rightarrow> Inr rest
       | Some rid \<Rightarrow>
           Inr (mk_rack rid (max 0 (oc_rack_power_cap_w cfg - used))
                  (max 0 (oc_rack_thermal_cap_kw cfg - used * (9 / 10) / 1000)) inlet # rest))))"

definition candidate_racks :: "optimizer_env \<Rightarrow> optimizer_config \<Rightarrow> string \<Rightarrow> string \<Rightarrow> rack list res" where
  "candidate_racks env cfg site_id incident_rack_id =
     (if \<not> op_ts_enabled env then Inr []
      else case op_rack_rows env site_id of
             None \<Rightarrow> Inr []
           | Some rows \<Rightarrow>
               res_bind (rack_loop env cfg rows) (\<lambda>out.
                 if list_ex (\<lambda>r. rk_id r = incident_rack_id) out then Inr out
                 else Inr (out @ [mk_rack incident_rack_id (max 0 (oc_rack_power_cap_w cfg * (1 / 10)))
                                    (max 0 (oc_rack_thermal_cap_kw cfg * (1 / 10))) 30])))"

definition synthetic_workloads :: "string \<Rightarrow> workload list" where
  "synthetic_workloads rack_id =
     map (\<lambda>i. \<lparr>wl_id = ''wl-'' @ rack_id @ ''-srv'' @ two_digits i, wl_current_rack_id = rack_id,
               wl_power_w = 600 + real i * 50,
               wl_thermal_load_kw = (600 + real i * 50) * (9 / 10) / 1000, wl_tier = ''compute''\<rparr>)
       [1..<4]"

definition synthetic_racks :: "string \<Rightarrow> rack list" where
  "synthetic_racks incident_rack_id =
     (case rsplit_hall incident_rack_id of
        None \<Rightarrow> []
      | Some hall_prefix \<Rightarrow>
          map (\<lambda>i. mk_rack (hall_prefix @ ''-r'' @ two_digits i) 10000 10 (22 + real i * (1 / 2))) [1..<6])"

definition gather_context :: "optimizer_env \<Rightarrow> optimizer_config \<Rightarrow> string \<Rightarrow> string \<Rightarrow> solver_input option res" where
  "gather_context env cfg site_id incident_rack_id =
     (let live = workloads_on_rack env site_id incident_rack_id;
          workloads = (if live = [] then synthetic_workloads incident_rack_id else live)
      in res_bind (candidate_racks env cfg site_id incident_rack_id) (\<lambda>found.
           let racks = (if found = [] then synthetic_racks incident_rack_id else found)
           in if workloads = [] \<or> racks = [] then Inr None
              else Inr (Some \<lparr>si_incident_rack_id = incident_rack_id, si_workloads = workloads,
                              si_racks = racks, si_time_limit_s = None\<rparr>)))"

section \<open>The recommendation\<close>

definition move_dict :: "move \<Rightarrow> pyval" where
  "move_dict m =
     PDict [(''workload_id'', PStr (mv_workload_id m)), (''from_rack_id'', PStr (mv_from_rack_id m)),
            (''to_rack_id'', PStr (mv_to_rack_id m)), (''power_w'', PFloat (mv_expected_power_w m)),
            (''thermal_kw'', PFloat (mv_expected_thermal_kw m))]"

definition build_recommendation :: "real \<Rightarrow> uuid \<Rightarrow> incident_report \<Rightarrow> solver_output \<Rightarrow> recommendation" where
  "build_recommendation now fresh event out =
     bus_event.extend
       (envelope fresh now (ev_site_id event) (ev_trace_id event) (Some (ev_id event)) [])
       (recommendation.fields (Suc fresh) ''workload_migration''
          (sorted_set (map (\<lambda>m. remove_prefix ''wl-'' (mv_workload_id m)) (so_moves out)))
          [(''moves'', PList (map move_dict (so_moves out))),
           (''solver_status'', PStr (so_solve_status out)),
           (''objective_value'', PFloat (so_objective_value out))]
          (estimate_impact (so_moves out))
          (if so_solve_status out = ''OPTIMAL'' then 85 / 100 else 7 / 10)
          (3 < length (so_moves out)))"

definition publish_and_persist :: "optimizer_env \<Rightarrow> optimizer_config \<Rightarrow> recommendation \<Rightarrow> bus_msg effect list" where
  "publish_and_persist env cfg rec =
     [Publish (''recommendations.'' @ rec_kind rec) (MRecommendation rec)]
     @ attempt (op_ok env)
         [LPush RECOMMENDATIONS_REDIS_LIST (MRecommendation rec),
          LTrim RECOMMENDATIONS_REDIS_LIST 0 (oc_keep cfg - 1)]"

record optimizer_state =
  os_next_id :: uuid

definition optimizer_handle :: "optimizer_env \<Rightarrow> optimizer_config \<Rightarrow> real \<Rightarrow> incident_report \<Rightarrow>
    optimizer_state \<Rightarrow> bus_msg effect list \<times> optimizer_state \<times> py_error option" where
  "optimizer_handle env cfg now event s =
     (case ir_affected_device_ids event of
        [] \<Rightarrow> ([], s, None)
      | device # _ \<Rightarrow>
          (case rack_for device of
             None \<Rightarrow> ([], s, None)
           | Some rack_id \<Rightarrow>
               (case gather_context env cfg (ev_site_id event) rack_id of
                  Inl err \<Rightarrow> ([], s, Some err)
                | Inr None \<Rightarrow> ([], s, None)
                | Inr (Some ctx) \<Rightarrow>
                    let out = solve (op_ortools env) (op_cp_solve env) ctx
                    in if \<not> so_feasible out \<or> is_noop out then ([], s, None)
                       else let rec = build_recommendation now (os_next_id s) event out
                            in (publish_and_persist env cfg rec,
                                s\<lparr>os_next_id := os_next_id s + 2\<rparr>, None))))"

section \<open>Lemmas\<close>

lemma build_fields [simp]:
  "rec_kind (build_recommendation now n event out) = ''workload_migration''"
  "rec_target_device_ids (build_recommendation now n event out) =
     sorted_set (map (\<lambda>m. remove_prefix ''wl-'' (mv_workload_id m)) (so_moves out))"
  "rec_requires_human_approval (build_recommendation now n event out) = (3 < length (so_moves out))"
  "rec_confidence (build_recommendation now n event out) =
     (if so_solve_status out = ''OPTIMAL'' then 85 / 100 else 7 / 10)"
  "get_def (rec_parameters (build_recommendation now n event out)) ''moves'' d =
     PList (map move_dict (so_moves out))"
  "ev_site_id (build_recommendation now n event out) = ev_site_id event"
  "ev_parent_event_id (build_recommendation now n event out) = Some (ev_id event)"
  by (simp_all add: build_recommendation_def envelope_def bus_event.defs recommendation.defs)

lemma split_rack_for:
  assumes "rack_for d = Some r"
  shows "\<exists>p0 p1 p2 rest. split_on CHR ''-'' d = p0 # p1 # p2 # rest \<and> r = p0 @ ''-'' @ p1 @ ''-'' @ p2 \<and>
    prefix ''h'' p1 \<and> prefix ''r'' p2"
  using assms by (auto simp: rack_for_def split: list.splits if_splits)

lemma rack_for_prefix:
  assumes "rack_for d = Some r"
  shows "d = r \<or> prefix (r @ ''-'') d"
proof -
  from split_rack_for [OF assms] obtain p0 p1 p2 rest where
    s: "split_on CHR ''-'' d = p0 # p1 # p2 # rest" and r: "r = p0 @ ''-'' @ p1 @ ''-'' @ p2" by blast
  have "d = join_with ''-'' (p0 # p1 # p2 # rest)"
    using join_split_on [of "CHR ''-''" d] by (simp add: s)
  with r show ?thesis by (cases rest) auto
qed

lemma split_on_append_last:
  "c \<notin> set w \<Longrightarrow> split_on c (w @ c # s) = w # split_on c s"
  by (rule split_on_append)

lemma rack_for_device:
  assumes "CHR ''-'' \<notin> set site" "CHR ''-'' \<notin> set h" "CHR ''-'' \<notin> set k"
  shows "rack_for (site @ ''-h'' @ h @ ''-r'' @ k @ ''-'' @ rest) = Some (site @ ''-h'' @ h @ ''-r'' @ k)"
proof -
  have "split_on CHR ''-'' (site @ CHR ''-'' # (CHR ''h'' # h) @ CHR ''-'' # (CHR ''r'' # k) @ CHR ''-'' # rest) =
      site # (CHR ''h'' # h) # (CHR ''r'' # k) # split_on CHR ''-'' rest"
    using assms by (subst split_on_append, simp)+ (rule refl)
  then show ?thesis by (simp add: rack_for_def)
qed

lemma optimizer_out:
  assumes "optimizer_handle env cfg now event s = (out, s1, r)" "out \<noteq> []"
  obtains device rest rack_id ctx where "ir_affected_device_ids event = device # rest"
    "rack_for device = Some rack_id" "gather_context env cfg (ev_site_id event) rack_id = Inr (Some ctx)"
    "so_feasible (solve (op_ortools env) (op_cp_solve env) ctx)"
    "so_moves (solve (op_ortools env) (op_cp_solve env) ctx) \<noteq> []"
    "out = publish_and_persist env cfg
       (build_recommendation now (os_next_id s) event (solve (op_ortools env) (op_cp_solve env) ctx))"
  using assms
  by (auto simp: optimizer_handle_def is_noop_def Let_def
      split: list.splits option.splits sum.splits if_splits)

lemma gather_incident:
  "gather_context env cfg site_id rack_id = Inr (Some ctx) \<Longrightarrow> si_incident_rack_id ctx = rack_id"
  by (auto simp: gather_context_def Let_def split: if_splits)

lemma workload_of_row_rack: "workload_of_row rack_id r = Some w \<Longrightarrow> wl_current_rack_id w = rack_id"
  by (cases "get_str r ''device_id''"; cases "get_num r ''power_w''") (auto simp: workload_of_row_def)

lemma workloads_on_incident:
  assumes "gather_context env cfg site_id rack_id = Inr (Some ctx)" "w \<in> set (si_workloads ctx)"
  shows "wl_current_rack_id w = rack_id"
proof -
  have "wl_current_rack_id w = rack_id" if "w \<in> set (workloads_on_rack env site_id rack_id)"
    using that by (auto simp: workloads_on_rack_def in_map_filter
        dest: workload_of_row_rack split: option.splits if_splits)
  moreover have "wl_current_rack_id w = rack_id" if "w \<in> set (synthetic_workloads rack_id)"
    using that by (auto simp: synthetic_workloads_def)
  ultimately show ?thesis
    using assms by (auto simp: gather_context_def Let_def split: if_splits)
qed

text \<open>No tier the agent assigns asks for spreading.\<close>

lemma tiers_never_spread: "tier_from_device d \<in> set NON_AFFINITY_TIERS"
  by (simp add: tier_from_device_def NON_AFFINITY_TIERS_def)

section \<open>Properties\<close>


definition sample_optimizer_env :: optimizer_env where
  "sample_optimizer_env =
     \<lparr>op_ts_enabled = False, op_power_rows = (\<lambda>s r. None), op_rack_rows = (\<lambda>s. None),
      op_float = (\<lambda>s. None), op_ortools = None,
      op_cp_solve = (\<lambda>m l. \<lparr>cr_status = FEASIBLE, cr_value = (\<lambda>v. snd v = ''fra-h1-r02'')\<rparr>),
      op_ok = (\<lambda>e. True)\<rparr>"

definition sample_incident :: incident_report where
  "sample_incident =
     \<lparr>ev_id = 3, ev_timestamp = 0, ev_site_id = ''frankfurt'', ev_trace_id = None,
      ev_parent_event_id = None, ev_metadata = [], ir_incident_id = 4,
      ir_affected_device_ids = [''fra-h1-r07-srv01''], ir_top_hypotheses = [],
      ir_similar_past_incidents = [], ir_confidence = 1, ir_llm_cost_usd = 0, ir_llm_model_used = None\<rparr>"

definition sample_context :: solver_input where
  "sample_context =
     \<lparr>si_incident_rack_id = ''fra-h1-r07'', si_workloads = synthetic_workloads ''fra-h1-r07'',
      si_racks = synthetic_racks ''fra-h1-r07'', si_time_limit_s = None\<rparr>"

lemma sample_gather: "gather_context sample_optimizer_env optimizer_defaults site ''fra-h1-r07'' = Inr (Some sample_context)"
  by (simp add: gather_context_def workloads_on_rack_def candidate_racks_def sample_optimizer_env_def
      sample_context_def Let_def synthetic_workloads_def synthetic_racks_def upt_rec)

lemma sample_rack_ids:
  "map rk_id (synthetic_racks ''fra-h1-r07'') =
     [''fra-h1-r01'', ''fra-h1-r02'', ''fra-h1-r03'', ''fra-h1-r04'', ''fra-h1-r05'']"
proof -
  have "two_digits 1 = ''01''" "two_digits 2 = ''02''" "two_digits 3 = ''03''" "two_digits 4 = ''04''"
    "two_digits 5 = ''05''" by code_simp+
  moreover have "[1..<6] = [1, 2, 3, 4, 5 :: nat]" by code_simp
  ultimately show ?thesis by (simp add: synthetic_racks_def mk_rack_def)
qed

lemma sample_plan:
  "so_feasible (solve None (op_cp_solve sample_optimizer_env) sample_context)"
  "length (so_moves (solve None (op_cp_solve sample_optimizer_env) sample_context)) = 3"
proof -
  let ?out = "solve None (op_cp_solve sample_optimizer_env) sample_context"
  have el: "racks_eligible sample_context = synthetic_racks ''fra-h1-r07''"
    by (simp add: racks_eligible_def synthetic_racks_def sample_context_def mk_rack_def)
  have ne: "synthetic_racks ''fra-h1-r07'' \<noteq> []" "synthetic_workloads ''fra-h1-r07'' \<noteq> []"
    by (simp_all add: synthetic_racks_def synthetic_workloads_def)
  have "so_feasible ?out \<and> so_moves ?out = extract_moves (\<lambda>v. snd v = ''fra-h1-r02'')
      (synthetic_workloads ''fra-h1-r07'') (map rk_id (synthetic_racks ''fra-h1-r07''))"
    using ne by (simp add: solve_def el Let_def) (simp add: sample_optimizer_env_def sample_context_def)
  moreover have "length (extract_moves (\<lambda>v. snd v = ''fra-h1-r02'')
      (synthetic_workloads ''fra-h1-r07'') (map rk_id (synthetic_racks ''fra-h1-r07''))) = 3"
    unfolding sample_rack_ids by (simp add: extract_moves_def synthetic_workloads_def upt_rec)
  ultimately show "so_feasible ?out" "length (so_moves ?out) = 3" by simp_all
qed

lemma sample_optimizer_run:
  assumes "ir_affected_device_ids event = ''fra-h1-r07-srv01'' # rest"
  shows "\<exists>s1. optimizer_handle sample_optimizer_env optimizer_defaults now event \<lparr>os_next_id = 0\<rparr> =
    (publish_and_persist sample_optimizer_env optimizer_defaults
       (build_recommendation now 0 event (solve None (op_cp_solve sample_optimizer_env) sample_context)), s1, None)"
proof -
  have "rack_for ''fra-h1-r07-srv01'' = Some ''fra-h1-r07''" by (simp add: rack_for_def)
  moreover have "op_ortools sample_optimizer_env = None" by (simp add: sample_optimizer_env_def)
  moreover from sample_plan(2) have "\<not> is_noop (solve None (op_cp_solve sample_optimizer_env) sample_context)"
    by (auto simp: is_noop_def)
  ultimately show ?thesis
    using assms sample_plan(1) sample_gather by (simp add: optimizer_handle_def Let_def)
qed


text \<open>The rack is recovered from every device name of the form site, hall, rack and device, separated
  by dashes.\<close>

lemma rack_for_roundtrip:
  assumes "CHR ''-'' \<notin> set site" "CHR ''-'' \<notin> set h" "CHR ''-'' \<notin> set k"
  shows "rack_for (site @ ''-h'' @ h @ ''-r'' @ k @ ''-'' @ rest) = Some (site @ ''-h'' @ h @ ''-r'' @ k)"
  by (rule rack_for_device [OF assms])

lemma rack_for_roundtrip_witness: "rack_for ''fra-h1-r07-srv01'' = Some ''fra-h1-r07''"
  using rack_for_roundtrip [of "''fra''" "''1''" "''07''" "''srv01''"] by simp

end
