(* ===== verification/Planner.thy ===== *)
theory Planner
  imports Features
begin

text \<open>
  Capacity forecasts: \<open>apps/agents/planner/forecaster.py\<close> and the Planner agent
  (\<open>apps/agents/planner/main.py\<close>).

  An instant is the seconds since the epoch. Prophet is a parameter from the cleaned samples and the
  number of days to its points, \<open>Inl\<close> the text of the exception where it raises. The rows of the
  history query and \<open>datetime.fromisoformat\<close> are parameters too; a bucket is text, or a
  \<open>datetime\<close> given as its instant.
\<close>

section \<open>Forecasts\<close>

record forecast_point =
  fp_timestamp :: real
  fp_value :: real
  fp_yhat_lower :: real
  fp_yhat_upper :: real

record forecast_result =
  fr_site_id :: string
  fr_metric :: string
  fr_horizon_days :: int
  fr_points :: "forecast_point list"
  fr_method :: string
  fr_notes :: string

definition fr_values :: "forecast_result \<Rightarrow> real list" where
  "fr_values r = map fp_value (fr_points r)"

definition fr_lowers :: "forecast_result \<Rightarrow> real list" where
  "fr_lowers r = map fp_yhat_lower (fr_points r)"

definition fr_uppers :: "forecast_result \<Rightarrow> real list" where
  "fr_uppers r = map fp_yhat_upper (fr_points r)"

text \<open>The fit of \<open>_linear_fallback\<close>: slope, intercept and residual deviation of \<open>n \<ge> 1\<close> samples.\<close>

definition linear_fit :: "real list \<Rightarrow> real list \<Rightarrow> real \<times> real \<times> real" where
  "linear_fit xs ys =
     (if length xs < 2 then (0, hd ys, 0)
      else let n = length xs;
               mean_x = mean xs; mean_y = mean ys;
               num = sum_list (map (\<lambda>(x, y). (x - mean_x) * (y - mean_y)) (zip xs ys));
               den = sum_list (map (\<lambda>x. (x - mean_x)\<^sup>2) xs);
               slope = (if 0 < den then num / den else 0);
               intercept = mean_y - slope * mean_x;
               var = sum_list (map (\<lambda>(x, y). (y - (intercept + slope * x))\<^sup>2) (zip xs ys))
                     / real (max 1 (n - 2))
           in (slope, intercept, sqrt var))"

definition linear_points :: "(real \<times> real) list \<Rightarrow> int \<Rightarrow> forecast_point list" where
  "linear_points history horizon_days =
     (let t0 = fst (hd history);
          (slope, intercept, sd) =
            linear_fit (map (\<lambda>(t, v). t - t0) history) (map snd history);
          last_ts = fst (last history)
      in map (\<lambda>day. let ts = last_ts + 86400 * of_int day;
                         yhat = intercept + slope * (ts - t0)
                     in \<lparr>fp_timestamp = ts, fp_value = yhat, fp_yhat_lower = yhat - sd,
                         fp_yhat_upper = yhat + sd\<rparr>)
           [1..horizon_days])"

definition linear_fallback :: "string \<Rightarrow> string \<Rightarrow> (real \<times> real) list \<Rightarrow> int \<Rightarrow> string \<Rightarrow> forecast_result" where
  "linear_fallback site_id metric history horizon_days notes =
     (if history = []
      then \<lparr>fr_site_id = site_id, fr_metric = metric, fr_horizon_days = horizon_days,
            fr_points = [], fr_method = ''empty'', fr_notes = notes\<rparr>
      else \<lparr>fr_site_id = site_id, fr_metric = metric, fr_horizon_days = horizon_days,
            fr_points = linear_points history horizon_days, fr_method = ''linear_fallback'',
            fr_notes = notes\<rparr>)"

type_synonym prophet = "(real \<times> real) list \<Rightarrow> int \<Rightarrow> string + (real \<times> real \<times> real \<times> real) list"

text \<open>\<open>_prophet_forecast\<close>: duplicates dropped, first one kept, then sorted by time.\<close>

definition prophet_forecast :: "prophet \<Rightarrow> string \<Rightarrow> string \<Rightarrow> (real \<times> real) list \<Rightarrow> int \<Rightarrow>
    string + forecast_result" where
  "prophet_forecast prophet site_id metric history horizon_days =
     (case prophet (sort_key fst (AList.clearjunk history)) horizon_days of
        Inl exc \<Rightarrow> Inl exc
      | Inr rows \<Rightarrow>
          Inr \<lparr>fr_site_id = site_id, fr_metric = metric, fr_horizon_days = horizon_days,
               fr_points = map (\<lambda>(t, y, lo, hi). \<lparr>fp_timestamp = t, fp_value = y,
                 fp_yhat_lower = lo, fp_yhat_upper = hi\<rparr>) rows,
               fr_method = ''prophet'', fr_notes = []\<rparr>)"

definition forecast :: "prophet \<Rightarrow> string \<Rightarrow> string \<Rightarrow> (real \<times> pyval) list \<Rightarrow> int \<Rightarrow> forecast_result" where
  "forecast prophet site_id metric history horizon_days =
     (if history = []
      then \<lparr>fr_site_id = site_id, fr_metric = metric, fr_horizon_days = horizon_days, fr_points = [],
            fr_method = ''empty'', fr_notes = ''no history provided''\<rparr>
      else let pairs = List.map_filter (\<lambda>(t, v). map_option (Pair t) (num_of v)) history
           in if length pairs < 8
              then linear_fallback site_id metric pairs horizon_days
                     ''insufficient history for Prophet (< 8 points)''
              else case prophet_forecast prophet site_id metric pairs horizon_days of
                     Inr r \<Rightarrow> r
                   | Inl exc \<Rightarrow> linear_fallback site_id metric pairs horizon_days (''prophet failed: '' @ exc))"

section \<open>The agent\<close>

definition DEFAULT_FORECAST_SETS :: "(string \<times> string) list" where
  "DEFAULT_FORECAST_SETS =
     [(''frankfurt'', ''power.draw.watts''), (''frankfurt'', ''env.inlet.celsius''),
      (''frankfurt'', ''gpu.util.percent''), (''singapore'', ''power.draw.watts''),
      (''singapore'', ''env.inlet.celsius''), (''mumbai'', ''power.draw.watts''),
      (''mumbai'', ''env.inlet.celsius'')]"

record planner_config =
  pc_history_days :: int
  pc_horizons :: "int list"
  pc_redis_key_ttl_s :: int
  pc_forecast_sets :: "string option"

definition planner_defaults :: planner_config where
  "planner_defaults =
     \<lparr>pc_history_days = 30, pc_horizons = [30, 60, 90], pc_redis_key_ttl_s = 7200, pc_forecast_sets = None\<rparr>"

definition redis_key :: "string \<Rightarrow> string \<Rightarrow> int \<Rightarrow> string" where
  "redis_key site_id metric horizon =
     ''forecasts:'' @ site_id @ '':'' @ metric @ '':'' @ str_of_int horizon"

definition forecast_token :: "string \<Rightarrow> (string \<times> string) option" where
  "forecast_token token =
     (if CHR '':'' \<notin> set token then None
      else Some (strip (takeWhile (\<lambda>c. c \<noteq> CHR '':'') token), strip (tl (dropWhile (\<lambda>c. c \<noteq> CHR '':'') token))))"

definition forecast_sets :: "string option \<Rightarrow> (string \<times> string) list" where
  "forecast_sets raw =
     (case raw of
        None \<Rightarrow> DEFAULT_FORECAST_SETS
      | Some r \<Rightarrow>
          if r = [] then DEFAULT_FORECAST_SETS
          else let out = List.map_filter forecast_token (split_on CHR '','' r)
               in if out = [] then DEFAULT_FORECAST_SETS else out)"

definition synthetic_history :: "real \<Rightarrow> string \<Rightarrow> int \<Rightarrow> (real \<times> real) list" where
  "synthetic_history now metric days =
     (let base = get_def [(''power.draw.watts'', 1500000), (''env.inlet.celsius'', 22),
                          (''gpu.util.percent'', 55)] metric 100
      in map (\<lambda>i. (now - 86400 * of_int i,
                   base + of_int (days - i) * (1 / 2) + 2 * of_int (i mod 7 - 3) / 3))
           (rev [1..days]))"

datatype bucket = BText string | BTime real | BOther

type_synonym history_row = "bucket \<times> pyval"

fun history_of_row :: "iso_parser \<Rightarrow> history_row \<Rightarrow> (real \<times> real) option" where
  "history_of_row fromiso (BTime t, y) = map_option (Pair t) (num_of y)"
| "history_of_row fromiso (BText s, y) =
     (case num_of y of
        None \<Rightarrow> None
      | Some v \<Rightarrow> map_option (\<lambda>t. (t, v)) (parse_ts fromiso (PStr s)))"
| "history_of_row fromiso (BOther, y) = None"

record planner_env =
  pe_ts_enabled :: bool
  pe_history_rows :: "string \<Rightarrow> string \<Rightarrow> int \<Rightarrow> history_row list option"
  pe_fromiso :: iso_parser
  pe_prophet :: prophet

definition pull_history :: "planner_env \<Rightarrow> planner_config \<Rightarrow> real \<Rightarrow> string \<Rightarrow> string \<Rightarrow> (real \<times> real) list" where
  "pull_history env cfg now site_id metric =
     (if \<not> pe_ts_enabled env then synthetic_history now metric (pc_history_days cfg)
      else case pe_history_rows env site_id metric (pc_history_days cfg) of
             None \<Rightarrow> synthetic_history now metric (pc_history_days cfg)
           | Some rows \<Rightarrow>
               let history = List.map_filter (history_of_row (pe_fromiso env)) rows
               in if history = [] then synthetic_history now metric (pc_history_days cfg) else history)"

definition forecast_event :: "real \<Rightarrow> uuid \<Rightarrow> forecast_result \<Rightarrow> capacity_forecast" where
  "forecast_event now eid result =
     bus_event.extend
       (envelope eid now (fr_site_id result) None None
          [(''method'', PStr (fr_method result)), (''notes'', PStr (fr_notes result))])
       (capacity_forecast.fields (fr_horizon_days result) [(fr_metric result, fr_values result)]
          [(fr_metric result, zip (fr_lowers result) (fr_uppers result))])"

definition publish_and_cache :: "planner_config \<Rightarrow> real \<Rightarrow> uuid \<Rightarrow> forecast_result \<Rightarrow> bus_msg effect list" where
  "publish_and_cache cfg now eid result =
     (let event = MForecast (forecast_event now eid result)
      in [Publish (''forecasts.'' @ str_of_int (fr_horizon_days result)) event,
          SetEx (redis_key (fr_site_id result) (fr_metric result) (fr_horizon_days result)) event
            (pc_redis_key_ttl_s cfg)])"

fun horizon_loop :: "planner_env \<Rightarrow> planner_config \<Rightarrow> real \<Rightarrow> string \<Rightarrow> string \<Rightarrow> (real \<times> real) list \<Rightarrow>
    int list \<Rightarrow> uuid \<Rightarrow> bus_msg effect list \<times> uuid" where
  "horizon_loop env cfg now site_id metric history [] eid = ([], eid)"
| "horizon_loop env cfg now site_id metric history (h # hs) eid =
     (let result = forecast (pe_prophet env) site_id metric (map (\<lambda>(t, v). (t, PFloat v)) history) h;
          (outs, eid') = horizon_loop env cfg now site_id metric history hs (Suc eid)
      in (publish_and_cache cfg now eid result @ outs, eid'))"

definition forecast_one :: "planner_env \<Rightarrow> planner_config \<Rightarrow> real \<Rightarrow> string \<Rightarrow> string \<Rightarrow> uuid \<Rightarrow>
    bus_msg effect list \<times> uuid" where
  "forecast_one env cfg now site_id metric eid =
     horizon_loop env cfg now site_id metric (pull_history env cfg now site_id metric) (pc_horizons cfg) eid"

fun tick_loop :: "planner_env \<Rightarrow> planner_config \<Rightarrow> real \<Rightarrow> (string \<times> string) list \<Rightarrow> uuid \<Rightarrow>
    bus_msg effect list \<times> uuid" where
  "tick_loop env cfg now [] eid = ([], eid)"
| "tick_loop env cfg now ((site_id, metric) # sets) eid =
     (let (out, eid1) = forecast_one env cfg now site_id metric eid;
          (outs, eid2) = tick_loop env cfg now sets eid1
      in (out @ outs, eid2))"

definition run_tick :: "planner_env \<Rightarrow> planner_config \<Rightarrow> real \<Rightarrow> uuid \<Rightarrow> bus_msg effect list \<times> uuid" where
  "run_tick env cfg now eid = tick_loop env cfg now (forecast_sets (pc_forecast_sets cfg)) eid"

section \<open>The linear fit\<close>

lemma mean_affine: "xs \<noteq> [] \<Longrightarrow> mean (map (\<lambda>x. a + b * x) xs) = a + b * mean xs"
  by (simp add: mean_def sum_list_addf sum_list_const_mult sum_list_triv add_divide_distrib)

lemma zip_map_self: "zip xs (map f xs) = map (\<lambda>x. (x, f x)) xs"
  by (induction xs) auto

lemma den_pos:
  assumes "x \<in> set xs" "y \<in> set xs" "x \<noteq> (y :: real)"
  shows "0 < sum_list (map (\<lambda>x. (x - m)\<^sup>2) xs)"
proof -
  have nonneg: "\<forall>z \<in> set (map (\<lambda>x. (x - m)\<^sup>2) xs). 0 \<le> z" by auto
  have "sum_list (map (\<lambda>x. (x - m)\<^sup>2) xs) \<noteq> 0"
  proof
    assume "sum_list (map (\<lambda>x. (x - m)\<^sup>2) xs) = 0"
    with nonneg have "\<forall>z \<in> set (map (\<lambda>x. (x - m)\<^sup>2) xs). z = 0"
      by (subst (asm) sum_list_nonneg_eq_0_iff) auto
    then have "\<forall>z \<in> set xs. z = m" by simp
    with assms show False by metis
  qed
  moreover have "0 \<le> sum_list (map (\<lambda>x. (x - m)\<^sup>2) xs)"
    by (rule sum_list_nonneg) (use nonneg in blast)
  ultimately show ?thesis by linarith
qed

lemma linear_fit_line:
  assumes "x \<in> set xs" "y \<in> set xs" "x \<noteq> y"
  shows "linear_fit xs (map (\<lambda>x. a + b * x) xs) = (b, a, 0)"
proof -
  have n: "\<not> length xs < 2" "xs \<noteq> []"
    using assms by (cases xs; cases "tl xs"; auto)+
  let ?D = "sum_list (map (\<lambda>x. (x - mean xs)\<^sup>2) xs)"
  have D: "0 < ?D" using assms by (rule den_pos)
  have "sum_list (map (\<lambda>x. (x - mean xs) * ((a + b * x) - (a + b * mean xs))) xs) =
      sum_list (map (\<lambda>x. b * (x - mean xs)\<^sup>2) xs)"
    by (rule arg_cong [of _ _ sum_list], rule map_cong) (simp_all add: power2_eq_square algebra_simps)
  then have N: "sum_list (map (\<lambda>(x, y). (x - mean xs) * (y - mean (map (\<lambda>x. a + b * x) xs)))
      (zip xs (map (\<lambda>x. a + b * x) xs))) = b * ?D"
    by (simp add: zip_map_self comp_def mean_affine [OF n(2)] sum_list_const_mult)
  have i: "mean (map (\<lambda>x. a + b * x) xs) - b * mean xs = a"
    by (simp add: mean_affine [OF n(2)])
  have R: "sum_list (map (\<lambda>(x, y). (y - (a + b * x))\<^sup>2) (zip xs (map (\<lambda>x. a + b * x) xs))) = 0"
    by (simp add: zip_map_self comp_def)
  show ?thesis
    using n(1) D by (simp add: linear_fit_def N i R Let_def)
qed

lemma linear_fit_sd: "0 \<le> snd (snd (linear_fit xs ys))"
  by (auto simp: linear_fit_def Let_def intro!: divide_nonneg_nonneg sum_list_nonneg)

section \<open>Properties\<close>

text \<open>On a history that lies on a line, at two different times at least, the fallback continues the
  line: every day of the horizon has the line's value at its instant and an interval of width zero.\<close>

lemma linear_fallback_exact_on_lines:
  assumes "t \<in> set ts" "u \<in> set ts" "t \<noteq> u"
  shows "fr_points (linear_fallback site metric (map (\<lambda>t. (t, a + b * t)) ts) horizon notes) =
    map (\<lambda>day. let s = last ts + 86400 * of_int day; y = a + b * s
               in \<lparr>fp_timestamp = s, fp_value = y, fp_yhat_lower = y, fp_yhat_upper = y\<rparr>) [1..horizon]"
proof -
  let ?t0 = "hd ts" and ?xs = "map (\<lambda>t. t - hd ts) ts"
  have ne: "ts \<noteq> []" using assms by auto
  have ys: "map (\<lambda>t. a + b * t) ts = map (\<lambda>x. (a + b * ?t0) + b * x) ?xs"
    by (simp add: algebra_simps)
  have "t - ?t0 \<in> set ?xs" "u - ?t0 \<in> set ?xs" "t - ?t0 \<noteq> u - ?t0" using assms by auto
  from linear_fit_line [OF this, of "a + b * ?t0" b]
  have "linear_fit ?xs (map (\<lambda>t. a + b * t) ts) = (b, a + b * ?t0, 0)" unfolding ys .
  with ne show ?thesis
    by (simp add: linear_fallback_def linear_points_def comp_def hd_map last_map Let_def algebra_simps)
qed

lemma linear_fallback_exact_on_lines_witness:
  "map fp_value (fr_points (linear_fallback ''mumbai'' ''power.draw.watts''
     [(0, 5), (86400, 6), (2 * 86400, 7)] 2 [])) = [8, 9]"
proof -
  have "map (\<lambda>t. (t, 5 + 1 / 86400 * t)) [0, 86400, 2 * 86400 :: real] = [(0, 5), (86400, 6), (2 * 86400, 7)]"
    by simp
  moreover have "[1..2] = [1, 2 :: int]" by code_simp
  ultimately show ?thesis
    using linear_fallback_exact_on_lines [of 0 "[0, 86400, 2 * 86400]" 86400 "''mumbai''"
        "''power.draw.watts''" 5 "1 / 86400" 2 "[]"]
    by simp
qed

text \<open>Every forecast the fallback makes has one point per day of the horizon, a day apart from the last
  sample on, with its value inside its interval.\<close>

lemma linear_fallback_shape:
  "map fp_timestamp (fr_points (linear_fallback site metric (h # hs) horizon notes)) =
     map (\<lambda>day. fst (last (h # hs)) + 86400 * of_int day) [1..horizon] \<and>
   list_all (\<lambda>p. fp_yhat_lower p \<le> fp_value p \<and> fp_value p \<le> fp_yhat_upper p)
     (fr_points (linear_fallback site metric (h # hs) horizon notes))"
proof -
  have pts: "fr_points (linear_fallback site metric (h # hs) horizon notes) = linear_points (h # hs) horizon"
    by (simp add: linear_fallback_def)
  show ?thesis
    unfolding pts linear_points_def Let_def split_beta
    by (simp add: comp_def list_all_iff linear_fit_sd del: list.map last.simps)
qed

lemma forecast_fields [simp]:
  "fr_site_id (forecast p site metric hist h) = site" "fr_metric (forecast p site metric hist h) = metric"
  "fr_horizon_days (forecast p site metric hist h) = h"
  by (auto simp: forecast_def linear_fallback_def prophet_forecast_def Let_def split: sum.splits)

lemma forecast_event_fields [simp]:
  "ev_site_id (forecast_event now eid r) = fr_site_id r"
  "cf_horizon_days (forecast_event now eid r) = fr_horizon_days r"
  "cf_series (forecast_event now eid r) = [(fr_metric r, fr_values r)]"
  by (simp_all add: forecast_event_def envelope_def bus_event.defs capacity_forecast.defs)

text \<open>The forecasts published and cached: topic, site, metric and horizon, and the key.\<close>

fun published_forecast :: "bus_msg effect \<Rightarrow> (string \<times> string \<times> string \<times> int) option" where
  "published_forecast (Publish topic (MForecast e)) =
     Some (topic, ev_site_id e, fst (hd (cf_series e)), cf_horizon_days e)"
| "published_forecast _ = None"

fun cached_key :: "bus_msg effect \<Rightarrow> (string \<times> int) option" where
  "cached_key (SetEx key v ttl) = Some (key, ttl)"
| "cached_key _ = None"

lemma horizon_loop_out:
  "List.map_filter published_forecast (fst (horizon_loop env cfg now site metric hist hs eid)) =
     map (\<lambda>h. (''forecasts.'' @ str_of_int h, site, metric, h)) hs \<and>
   List.map_filter cached_key (fst (horizon_loop env cfg now site metric hist hs eid)) =
     map (\<lambda>h. (redis_key site metric h, pc_redis_key_ttl_s cfg)) hs"
  by (induction hs arbitrary: eid)
    (simp_all add: split_beta Let_def publish_and_cache_def List.map_filter_simps)

lemma tick_loop_out:
  "List.map_filter published_forecast (fst (tick_loop env cfg now sets eid)) =
     concat (map (\<lambda>(s, m). map (\<lambda>h. (''forecasts.'' @ str_of_int h, s, m, h)) (pc_horizons cfg)) sets) \<and>
   List.map_filter cached_key (fst (tick_loop env cfg now sets eid)) =
     concat (map (\<lambda>(s, m). map (\<lambda>h. (redis_key s m h, pc_redis_key_ttl_s cfg)) (pc_horizons cfg)) sets)"
proof (induction sets arbitrary: eid)
  case (Cons x sets)
  obtain s m where "x = (s, m)" by (cases x)
  with Cons horizon_loop_out show ?case by (simp add: split_beta Let_def forecast_one_def)
qed (simp add: List.map_filter_simps)

text \<open>A tick publishes one forecast per configured site, metric and horizon on \<open>forecasts.<horizon>\<close>,
  and caches each under the key the API reads, with the configured time to live.\<close>

lemma tick_covers_every_horizon:
  "List.map_filter published_forecast (fst (run_tick env cfg now eid)) =
     concat (map (\<lambda>(s, m). map (\<lambda>h. (''forecasts.'' @ str_of_int h, s, m, h)) (pc_horizons cfg))
       (forecast_sets (pc_forecast_sets cfg))) \<and>
   List.map_filter cached_key (fst (run_tick env cfg now eid)) =
     concat (map (\<lambda>(s, m). map (\<lambda>h. (redis_key s m h, pc_redis_key_ttl_s cfg)) (pc_horizons cfg))
       (forecast_sets (pc_forecast_sets cfg)))"
  unfolding run_tick_def by (rule tick_loop_out)

end
