(* ===== verification/Router.thy ===== *)
theory Router
  imports Schema
begin

text \<open>
  The LLM router (\<open>apps/agents/shared/llm_router.py\<close>), the only place a language model is called
  from: it picks a model, charges the agent's daily budget, downgrades when the budget is used up
  and writes an audit record per call.

  The environment is a parameter \<open>getenv\<close>; the backend (\<open>apps/agents/shared/llm_backends/base.py\<close>)
  a function from the arguments of \<open>invoke\<close> to a response, \<open>Inl\<close> the exception where it raises.
  The clock is read once per call; \<open>re_today\<close> is the UTC date of an instant as text.
\<close>

section \<open>Tiers, tasks and models\<close>

datatype model_tier = HAIKU | SONNET

fun tier_value :: "model_tier \<Rightarrow> string" where
  "tier_value HAIKU = ''haiku''"
| "tier_value SONNET = ''sonnet''"

datatype task_class =
  CLASSIFY | EXPLAIN | SUMMARIZE | NL_TO_SQL | RCA | MULTIMODAL | DEEP_REASONING

fun DEFAULT_TIER :: "task_class \<Rightarrow> model_tier" where
  "DEFAULT_TIER MULTIMODAL = SONNET"
| "DEFAULT_TIER DEEP_REASONING = SONNET"
| "DEFAULT_TIER _ = HAIKU"

fun ANTHROPIC_PRICING :: "model_tier \<Rightarrow> real \<times> real" where
  "ANTHROPIC_PRICING HAIKU = (1, 5)"
| "ANTHROPIC_PRICING SONNET = (3, 15)"

definition getenv_or :: "(string \<Rightarrow> string option) \<Rightarrow> string \<Rightarrow> string \<Rightarrow> string" where
  "getenv_or getenv name fallback = (case getenv name of None \<Rightarrow> fallback | Some v \<Rightarrow> v)"

definition resolve_model_id :: "(string \<Rightarrow> string option) \<Rightarrow> string \<Rightarrow> model_tier \<Rightarrow> task_class \<Rightarrow> string" where
  "resolve_model_id getenv backend_name tier task =
     (if backend_name = ''anthropic''
      then if tier = HAIKU then getenv_or getenv ''ANTHROPIC_MODEL_HAIKU'' ''claude-haiku-4-5-20251001''
           else getenv_or getenv ''ANTHROPIC_MODEL_SONNET'' ''claude-sonnet-4-6''
      else if task = MULTIMODAL then getenv_or getenv ''LLM_MODEL_VISION'' ''qwen2-vl:7b''
      else if task = NL_TO_SQL then getenv_or getenv ''LLM_MODEL_CODER'' ''qwen2.5-coder:3b''
      else if tier = HAIKU then getenv_or getenv ''LLM_MODEL_FAST'' ''llama3.2:3b''
      else if task = DEEP_REASONING then getenv_or getenv ''LLM_MODEL_DEEP'' ''deepseek-r1:8b''
      else getenv_or getenv ''LLM_MODEL_REASONING'' ''qwen2.5:7b'')"

section \<open>Requests and results\<close>

record llm_request =
  rq_task_class :: task_class
  rq_system :: string
  rq_messages :: "pyval list"
  rq_max_tokens :: int
  rq_force_tier :: "model_tier option"
  rq_temperature :: "real option"
  rq_response_format :: "pyval option"

record invocation =
  in_text :: string
  in_model_id :: string
  in_tokens_in :: int
  in_tokens_out :: int
  in_latency_ms :: real
  in_raw :: pyval

record llm_result =
  lr_text :: string
  lr_model_used :: string
  lr_tier_used :: model_tier
  lr_tokens_in :: int
  lr_tokens_out :: int
  lr_usd_cost :: real
  lr_latency_ms :: real
  lr_escalated :: bool
  lr_downgraded :: bool
  lr_raw :: pyval

record call_record =
  cl_timestamp :: real
  cl_agent :: string
  cl_backend :: string
  cl_task_class :: task_class
  cl_tier_used :: model_tier
  cl_model_id :: string
  cl_tokens_in :: int
  cl_tokens_out :: int
  cl_usd_cost :: real
  cl_latency_ms :: real
  cl_escalated :: bool
  cl_downgraded :: bool

datatype router_msg = RBudget budget_exceeded | RCall call_record

section \<open>The router\<close>

record router_env =
  re_getenv :: "string \<Rightarrow> string option"
  re_today :: "real \<Rightarrow> string"
  re_backend_name :: string
  re_invoke :: "string \<Rightarrow> llm_request \<Rightarrow> string + invocation"
  re_has_bus :: bool
  re_ok :: "router_msg effect \<Rightarrow> bool"

record router =
  rt_agent_name :: string
  rt_daily_budget :: real
  rt_spent_today_usd :: real
  rt_last_reset_date :: string
  rt_budget_exceeded_emitted :: bool
  rt_next_id :: uuid

definition AUDIT_STREAM :: string where "AUDIT_STREAM = ''audit.events''"
definition BUDGET_TOPIC :: string where "BUDGET_TOPIC = ''alerts.budget_exceeded''"

definition new_router :: "string \<Rightarrow> real option \<Rightarrow> string \<Rightarrow> router" where
  "new_router agent_name daily_budget_usd today =
     \<lparr>rt_agent_name = agent_name,
      rt_daily_budget = (case daily_budget_usd of Some b \<Rightarrow> b | None \<Rightarrow> 5),
      rt_spent_today_usd = 0, rt_last_reset_date = today, rt_budget_exceeded_emitted = False,
      rt_next_id = 0\<rparr>"

definition reset_if_new_day :: "string \<Rightarrow> router \<Rightarrow> router" where
  "reset_if_new_day today rt =
     (if today \<noteq> rt_last_reset_date rt
      then rt\<lparr>rt_spent_today_usd := 0, rt_last_reset_date := today, rt_budget_exceeded_emitted := False\<rparr>
      else rt)"

definition compute_cost :: "string \<Rightarrow> model_tier \<Rightarrow> int \<Rightarrow> int \<Rightarrow> real" where
  "compute_cost backend_name tier tokens_in tokens_out =
     (if backend_name \<noteq> ''anthropic'' then 0
      else let (pin, pout) = ANTHROPIC_PRICING tier
           in (of_int tokens_in * pin + of_int tokens_out * pout) / 1000000)"

definition budget_event :: "router_env \<Rightarrow> real \<Rightarrow> router \<Rightarrow> budget_exceeded" where
  "budget_event env now rt =
     bus_event.extend
       (envelope (rt_next_id rt) now (getenv_or (re_getenv env) ''SITE_ID'' ''unknown'') None None [])
       (budget_exceeded.fields (rt_agent_name rt) (rt_spent_today_usd rt) (rt_daily_budget rt) (re_backend_name env))"

definition apply_budget_policy :: "router_env \<Rightarrow> real \<Rightarrow> model_tier \<Rightarrow> router \<Rightarrow>
    model_tier \<times> bool \<times> router_msg effect list \<times> router" where
  "apply_budget_policy env now requested_tier rt =
     (if re_backend_name env \<noteq> ''anthropic'' then (requested_tier, False, [], rt)
      else if rt_spent_today_usd rt < rt_daily_budget rt then (requested_tier, False, [], rt)
      else if \<not> rt_budget_exceeded_emitted rt \<and> re_has_bus env
      then let alert = Publish BUDGET_TOPIC (RBudget (budget_event env now rt));
               rt1 = rt\<lparr>rt_next_id := Suc (rt_next_id rt)\<rparr>
           in (HAIKU, True, [alert],
               if re_ok env alert then rt1\<lparr>rt_budget_exceeded_emitted := True\<rparr> else rt1)
      else (HAIKU, True, [], rt))"

definition invoke :: "router_env \<Rightarrow> model_tier \<Rightarrow> llm_request \<Rightarrow> llm_result res" where
  "invoke env tier rq =
     (case re_invoke env (resolve_model_id (re_getenv env) (re_backend_name env) tier (rq_task_class rq)) rq of
        Inl exc \<Rightarrow> Inl (RuntimeError exc)
      | Inr i \<Rightarrow>
          Inr \<lparr>lr_text = in_text i, lr_model_used = in_model_id i, lr_tier_used = tier,
               lr_tokens_in = in_tokens_in i, lr_tokens_out = in_tokens_out i,
               lr_usd_cost = compute_cost (re_backend_name env) tier (in_tokens_in i) (in_tokens_out i),
               lr_latency_ms = in_latency_ms i, lr_escalated = False, lr_downgraded = False,
               lr_raw = in_raw i\<rparr>)"

definition audit_record :: "router_env \<Rightarrow> real \<Rightarrow> router \<Rightarrow> task_class \<Rightarrow> llm_result \<Rightarrow> bool \<Rightarrow> call_record" where
  "audit_record env now rt task r downgraded =
     \<lparr>cl_timestamp = now, cl_agent = rt_agent_name rt, cl_backend = re_backend_name env, cl_task_class = task,
      cl_tier_used = lr_tier_used r, cl_model_id = lr_model_used r, cl_tokens_in = lr_tokens_in r,
      cl_tokens_out = lr_tokens_out r, cl_usd_cost = lr_usd_cost r, cl_latency_ms = lr_latency_ms r,
      cl_escalated = lr_escalated r, cl_downgraded = downgraded\<rparr>"

definition record_and_audit :: "router_env \<Rightarrow> real \<Rightarrow> task_class \<Rightarrow> llm_result \<Rightarrow> bool \<Rightarrow> router \<Rightarrow>
    router_msg effect list \<times> router" where
  "record_and_audit env now task r downgraded rt =
     (if re_has_bus env then [PublishStream AUDIT_STREAM (RCall (audit_record env now rt task r downgraded))] else [],
      rt\<lparr>rt_spent_today_usd := rt_spent_today_usd rt + lr_usd_cost r\<rparr>)"

definition router_call :: "router_env \<Rightarrow> real \<Rightarrow> llm_request \<Rightarrow> router \<Rightarrow>
    llm_result res \<times> router_msg effect list \<times> router" where
  "router_call env now rq rt =
     (let rt1 = reset_if_new_day (re_today env now) rt;
          requested_tier = (case rq_force_tier rq of Some t \<Rightarrow> t | None \<Rightarrow> DEFAULT_TIER (rq_task_class rq));
          (tier, downgraded, alerts, rt2) = apply_budget_policy env now requested_tier rt1
      in case invoke env tier rq of
           Inl err \<Rightarrow> (Inl err, alerts, rt2)
         | Inr r0 \<Rightarrow>
             let r = r0\<lparr>lr_downgraded := downgraded\<rparr>;
                 (audits, rt3) = record_and_audit env now (rq_task_class rq) r downgraded rt2
             in (Inr r, alerts @ audits, rt3))"

fun router_run :: "router_env \<Rightarrow> (real \<times> llm_request) list \<Rightarrow> router \<Rightarrow>
    (real \<times> llm_result) list \<times> router_msg effect list \<times> router" where
  "router_run env [] rt = ([], [], rt)"
| "router_run env ((now, rq) # rqs) rt =
     (let (r, out, rt1) = router_call env now rq rt;
          (rs, outs, rt2) = router_run env rqs rt1
      in ((case r of Inl e \<Rightarrow> rs | Inr a \<Rightarrow> (now, a) # rs), out @ outs, rt2))"

section \<open>One call\<close>

lemma tier_price_mono: "fst (ANTHROPIC_PRICING HAIKU) \<le> fst (ANTHROPIC_PRICING t)"
  "snd (ANTHROPIC_PRICING HAIKU) \<le> snd (ANTHROPIC_PRICING t)"
  by (cases t; simp)+

lemma cost_nonneg: "0 \<le> i \<Longrightarrow> 0 \<le> j \<Longrightarrow> 0 \<le> compute_cost b t i j"
  by (cases t) (simp_all add: compute_cost_def)

lemma reset_fields [simp]:
  "rt_last_reset_date (reset_if_new_day today rt) = today"
  "rt_daily_budget (reset_if_new_day today rt) = rt_daily_budget rt"
  "rt_spent_today_usd (reset_if_new_day today rt) =
     (if today = rt_last_reset_date rt then rt_spent_today_usd rt else 0)"
  "rt_budget_exceeded_emitted (reset_if_new_day today rt) =
     (today = rt_last_reset_date rt \<and> rt_budget_exceeded_emitted rt)"
  by (auto simp: reset_if_new_day_def)

lemma policy_fields:
  assumes "apply_budget_policy env now req rt = (tier, downgraded, alerts, rt')"
  shows "rt_spent_today_usd rt' = rt_spent_today_usd rt" "rt_daily_budget rt' = rt_daily_budget rt"
    "rt_last_reset_date rt' = rt_last_reset_date rt" "rt_agent_name rt' = rt_agent_name rt"
  using assms by (auto simp: apply_budget_policy_def Let_def split: if_splits)

text \<open>The spending of the day a call starts from.\<close>

definition spent_on :: "string \<Rightarrow> router \<Rightarrow> real" where
  "spent_on today rt = (if today = rt_last_reset_date rt then rt_spent_today_usd rt else 0)"

lemma router_call_fields:
  assumes "router_call env now rq rt = (r, out, rt')"
  shows "rt_last_reset_date rt' = re_today env now" "rt_daily_budget rt' = rt_daily_budget rt"
    "rt_spent_today_usd rt' = spent_on (re_today env now) rt + (case r of Inl e \<Rightarrow> 0 | Inr a \<Rightarrow> lr_usd_cost a)"
    "spent_on d rt' = (if d = re_today env now then spent_on (re_today env now) rt + (case r of Inl e \<Rightarrow> 0 | Inr a \<Rightarrow> lr_usd_cost a) else 0)"
proof -
  obtain tier dg al rt2 where p: "apply_budget_policy env now
      (case rq_force_tier rq of Some t \<Rightarrow> t | None \<Rightarrow> DEFAULT_TIER (rq_task_class rq))
      (reset_if_new_day (re_today env now) rt) = (tier, dg, al, rt2)" by (metis prod_cases4)
  note f = policy_fields [OF p]
  show "rt_last_reset_date rt' = re_today env now" "rt_daily_budget rt' = rt_daily_budget rt"
    "rt_spent_today_usd rt' = spent_on (re_today env now) rt + (case r of Inl e \<Rightarrow> 0 | Inr a \<Rightarrow> lr_usd_cost a)"
    "spent_on d rt' = (if d = re_today env now then spent_on (re_today env now) rt + (case r of Inl e \<Rightarrow> 0 | Inr a \<Rightarrow> lr_usd_cost a) else 0)"
    using assms f
    by (auto simp: router_call_def p record_and_audit_def spent_on_def Let_def split: sum.splits)
qed

lemma deep_call_under_budget:
  assumes "router_call env now rq rt = (Inr r, out, rt')" "re_backend_name env = ''anthropic''"
    "lr_tier_used r = SONNET"
  shows "spent_on (re_today env now) rt < rt_daily_budget rt"
proof (rule ccontr)
  assume "\<not> spent_on (re_today env now) rt < rt_daily_budget rt"
  then have "fst (apply_budget_policy env now t (reset_if_new_day (re_today env now) rt)) = HAIKU" for t
    using assms(2) by (auto simp: apply_budget_policy_def spent_on_def Let_def)
  then have "lr_tier_used r = HAIKU"
    using assms(1) by (auto simp: router_call_def invoke_def record_and_audit_def Let_def split_beta
        split: sum.splits)
  with assms(3) show False by simp
qed

section \<open>A day of calls\<close>

fun audit_of :: "router_msg effect \<Rightarrow> call_record option" where
  "audit_of (PublishStream k (RCall c)) = (if k = AUDIT_STREAM then Some c else None)"
| "audit_of _ = None"

fun is_alert :: "router_msg effect \<Rightarrow> bool" where
  "is_alert (Publish k (RBudget e)) = (k = BUDGET_TOPIC)"
| "is_alert _ = False"

definition deep_costs :: "(real \<times> llm_result) list \<Rightarrow> real list" where
  "deep_costs rs = map (lr_usd_cost \<circ> snd) (filter (\<lambda>(t, r). lr_tier_used r = SONNET) rs)"

definition same_day :: "router_env \<Rightarrow> string \<Rightarrow> (real \<times> llm_request) list \<Rightarrow> bool" where
  "same_day env d rqs \<longleftrightarrow> list_all (\<lambda>(now, rq). re_today env now = d) rqs"

definition tokens_nonneg :: "router_env \<Rightarrow> bool" where
  "tokens_nonneg env \<longleftrightarrow>
     (\<forall>m rq i. re_invoke env m rq = Inr i \<longrightarrow> 0 \<le> in_tokens_in i \<and> 0 \<le> in_tokens_out i)"

lemma router_call_cost:
  assumes "router_call env now rq rt = (Inr r, out, rt')" "tokens_nonneg env"
  shows "0 \<le> lr_usd_cost r"
  using assms
  by (auto simp: router_call_def invoke_def record_and_audit_def tokens_nonneg_def Let_def split_beta
      intro!: cost_nonneg split: sum.splits)

lemma router_call_out:
  assumes "router_call env now rq rt = (r, out, rt')"
  shows "re_has_bus env \<Longrightarrow> map cl_usd_cost (List.map_filter audit_of out) =
      (case r of Inl e \<Rightarrow> [] | Inr a \<Rightarrow> [lr_usd_cost a])"
    "re_ok env = (\<lambda>_. True) \<Longrightarrow> length (filter is_alert out) =
      (if rt_budget_exceeded_emitted rt' \<and> \<not> (re_today env now = rt_last_reset_date rt \<and> rt_budget_exceeded_emitted rt)
       then 1 else 0) \<and>
      (re_today env now = rt_last_reset_date rt \<longrightarrow> rt_budget_exceeded_emitted rt \<longrightarrow> rt_budget_exceeded_emitted rt')"
  using assms
  by (auto simp: router_call_def apply_budget_policy_def record_and_audit_def audit_record_def Let_def
      AUDIT_STREAM_def BUDGET_TOPIC_def List.map_filter_simps split: sum.splits if_splits)

lemma deep_spend:
  assumes "re_backend_name env = ''anthropic''" "tokens_nonneg env"
  shows "same_day env d rqs \<Longrightarrow> router_run env rqs rt = (rs, out, rt') \<Longrightarrow>
    deep_costs rs = [] \<or> spent_on d rt + sum_list (butlast (deep_costs rs)) < rt_daily_budget rt"
proof (induction rqs arbitrary: rt rs out rt')
  case (Cons x rqs)
  obtain now rq where x: "x = (now, rq)" by (cases x)
  obtain r o1 rt1 where c: "router_call env now rq rt = (r, o1, rt1)" by (metis prod_cases3)
  obtain rs2 o2 rt2 where rest: "router_run env rqs rt1 = (rs2, o2, rt2)" by (metis prod_cases3)
  from Cons.prems(1) x have d: "re_today env now = d" "same_day env d rqs" by (auto simp: same_day_def)
  note f = router_call_fields [OF c]
  from Cons.IH [OF d(2) rest] f(2) f(4) [of d] d(1) have IH: "deep_costs rs2 = [] \<or>
      spent_on d rt + (case r of Inl e \<Rightarrow> 0 | Inr a \<Rightarrow> lr_usd_cost a) + sum_list (butlast (deep_costs rs2))
      < rt_daily_budget rt" by simp
  from Cons.prems(2) x c rest have rs: "rs = (case r of Inl e \<Rightarrow> rs2 | Inr a \<Rightarrow> (now, a) # rs2)"
    by simp
  show ?case
  proof (cases r)
    case (Inl e)
    with IH rs show ?thesis by simp
  next
    case (Inr a)
    have cost: "0 \<le> lr_usd_cost a" using router_call_cost c Inr assms(2) by blast
    show ?thesis
    proof (cases "lr_tier_used a = SONNET")
      case True
      from deep_call_under_budget [OF c [unfolded Inr] assms(1) True] d(1)
      have "spent_on d rt < rt_daily_budget rt" by simp
      with True Inr rs IH show ?thesis
        by (cases "deep_costs rs2 = []") (auto simp: deep_costs_def)
    next
      case False
      with Inr rs IH cost show ?thesis by (auto simp: deep_costs_def)
    qed
  qed
qed (simp add: deep_costs_def)

lemma day_accounts:
  assumes "re_has_bus env" "re_ok env = (\<lambda>_. True)"
  shows "same_day env d rqs \<Longrightarrow> router_run env rqs rt = (rs, out, rt') \<Longrightarrow>
    spent_on d rt' = spent_on d rt + sum_list (map (lr_usd_cost \<circ> snd) rs) \<and>
    map cl_usd_cost (List.map_filter audit_of out) = map (lr_usd_cost \<circ> snd) rs \<and>
    length (filter is_alert out) \<le> (if d = rt_last_reset_date rt \<and> rt_budget_exceeded_emitted rt then 0 else 1)"
proof (induction rqs arbitrary: rt rs out rt')
  case (Cons x rqs)
  obtain now rq where x: "x = (now, rq)" by (cases x)
  obtain r o1 rt1 where c: "router_call env now rq rt = (r, o1, rt1)" by (metis prod_cases3)
  obtain rs2 o2 rt2 where rest: "router_run env rqs rt1 = (rs2, o2, rt2)" by (metis prod_cases3)
  from Cons.prems(1) x have d: "re_today env now = d" "same_day env d rqs" by (auto simp: same_day_def)
  from Cons.prems(2) x c rest have rs: "rs = (case r of Inl e \<Rightarrow> rs2 | Inr a \<Rightarrow> (now, a) # rs2)"
    and out: "out = o1 @ o2" and rt': "rt' = rt2" by simp_all
  note f = router_call_fields [OF c] and o = router_call_out [OF c]
  note IH = Cons.IH [OF d(2) rest]
  have "map cl_usd_cost (List.map_filter audit_of out) = map (lr_usd_cost \<circ> snd) rs"
    using IH o(1) [OF assms(1)] by (cases r) (simp_all add: out rs map_filter_def)
  moreover have "spent_on d rt' = spent_on d rt + sum_list (map (lr_usd_cost \<circ> snd) rs)"
    using IH f(4) [of d] d(1) by (cases r) (simp_all add: rt' rs comp_def)
  moreover have "length (filter is_alert out) \<le> (if d = rt_last_reset_date rt \<and> rt_budget_exceeded_emitted rt then 0 else 1)"
    using IH o(2) [OF assms(2)] f(1) d(1) by (auto simp: out split: if_splits)
  ultimately show ?case by blast
qed (simp add: List.map_filter_simps)

section \<open>Properties\<close>

text \<open>C14: the daily budget bounds what the paid deep tier may spend: over any calls of one day, the deep
  calls except the last one cost less than what was left of the budget, so only a single deep
  call can cross it.\<close>

theorem budget_bounds_deep_spend:
  assumes "re_backend_name env = ''anthropic''" and "tokens_nonneg env" and "same_day env d rqs"
    and "router_run env rqs rt = (rs, out, rt')" and "deep_costs rs \<noteq> []"
  shows "spent_on d rt + sum_list (butlast (deep_costs rs)) < rt_daily_budget rt"
  using deep_spend [OF assms(1-4)] assms(5) by blast

definition sample_router_env :: router_env where
  "sample_router_env =
     \<lparr>re_getenv = (\<lambda>n. None), re_today = (\<lambda>t. ''2026-01-01''), re_backend_name = ''anthropic'',
      re_invoke = (\<lambda>m rq. Inr \<lparr>in_text = ''[CONFIDENCE: 0.9]'', in_model_id = m, in_tokens_in = 1000000,
        in_tokens_out = 0, in_latency_ms = 5, in_raw = PNone\<rparr>),
      re_has_bus = True, re_ok = (\<lambda>_. True)\<rparr>"

definition sample_request :: llm_request where
  "sample_request =
     \<lparr>rq_task_class = DEEP_REASONING, rq_system = [], rq_messages = [], rq_max_tokens = 64,
      rq_force_tier = None, rq_temperature = None, rq_response_format = None\<rparr>"

lemma sample_router_run:
  "fst (router_run sample_router_env [(0, sample_request), (1, sample_request), (2, sample_request)]
     (new_router ''forensic'' None ''2026-01-01'')) =
   map (\<lambda>(t, tier, cost, dg). (t, \<lparr>lr_text = ''[CONFIDENCE: 0.9]'',
      lr_model_used = (if tier = HAIKU then ''claude-haiku-4-5-20251001'' else ''claude-sonnet-4-6''),
      lr_tier_used = tier, lr_tokens_in = 1000000, lr_tokens_out = 0, lr_usd_cost = cost,
      lr_latency_ms = 5, lr_escalated = False, lr_downgraded = dg, lr_raw = PNone\<rparr>))
     [(0, SONNET, 3, False), (1, SONNET, 3, False), (2, HAIKU, 1, True)]"
  by (simp add: router_call_def sample_router_env_def sample_request_def new_router_def
      reset_if_new_day_def apply_budget_policy_def invoke_def resolve_model_id_def getenv_or_def
      compute_cost_def record_and_audit_def Let_def)

theorem budget_bounds_deep_spend_witness:
  "spent_on ''2026-01-01'' (new_router ''forensic'' None ''2026-01-01'') + 3 < 5"
proof -
  let ?rqs = "[(0, sample_request), (1, sample_request), (2, sample_request)]"
  let ?rt = "new_router ''forensic'' None ''2026-01-01''"
  obtain rs out rt' where run: "router_run sample_router_env ?rqs ?rt = (rs, out, rt')"
    by (metis prod_cases3)
  with sample_router_run have deep: "deep_costs rs = [3, 3]" by (simp add: deep_costs_def)
  have "re_backend_name sample_router_env = ''anthropic''" "tokens_nonneg sample_router_env"
    "same_day sample_router_env ''2026-01-01'' ?rqs"
    by (simp_all add: sample_router_env_def tokens_nonneg_def same_day_def)
  from budget_bounds_deep_spend [OF this run] deep show ?thesis by (simp add: new_router_def)
qed

text \<open>With the bus answering, the audit stream accounts for every charge of a day: the audited costs are
  those of the calls that returned, in order, their sum is what the router has spent, and the budget
  alert is sent at most once.\<close>

lemma audit_accounts_for_spend:
  assumes "re_has_bus env" and "re_ok env = (\<lambda>_. True)" and "same_day env d rqs"
    and "router_run env rqs rt = (rs, out, rt')"
  shows "map cl_usd_cost (List.map_filter audit_of out) = map (lr_usd_cost \<circ> snd) rs \<and>
    spent_on d rt' = spent_on d rt + sum_list (map cl_usd_cost (List.map_filter audit_of out)) \<and>
    length (filter is_alert out) \<le> 1"
  using day_accounts [OF assms] by (auto split: if_splits)

lemma audit_accounts_for_spend_witness:
  "\<exists>rs out rt'. router_run sample_router_env [(0, sample_request), (1, sample_request), (2, sample_request)]
      (new_router ''forensic'' None ''2026-01-01'') = (rs, out, rt') \<and>
    map cl_usd_cost (List.map_filter audit_of out) = [3, 3, 1] \<and> length (filter is_alert out) \<le> 1"
proof -
  let ?rqs = "[(0, sample_request), (1, sample_request), (2, sample_request)]"
  let ?rt = "new_router ''forensic'' None ''2026-01-01''"
  obtain rs out rt' where run: "router_run sample_router_env ?rqs ?rt = (rs, out, rt')"
    by (metis prod_cases3)
  have "re_has_bus sample_router_env" "re_ok sample_router_env = (\<lambda>_. True)"
    "same_day sample_router_env ''2026-01-01'' ?rqs"
    by (simp_all add: sample_router_env_def same_day_def)
  from audit_accounts_for_spend [OF this run] run sample_router_run show ?thesis by auto
qed

end
