(* ===== verification/Quality.thy ===== *)
theory Quality
  imports Router Features
begin

text \<open>
  The layers that make a language model's answers usable (\<open>apps/agents/shared/quality\<close>): structured
  output with corrections, confidence-based escalation, a critic, and sampling.

  Each takes the router as an argument, here the state-passing function \<open>call\<close>. The locale
  \<open>llm_client\<close> is what they rely on, a log of the calls that returned; \<open>metered\<close> interprets it on
  the router model, whose audit stream is that log. A schema is a validator from text to a value,
  \<open>Inl\<close> the message of its \<open>ValidationError\<close>.
\<close>

type_synonym 's llm_call = "llm_request \<Rightarrow> 's \<Rightarrow> llm_result res \<times> 's"

definition message :: "string \<Rightarrow> string \<Rightarrow> pyval" where
  "message role content = PDict [(''role'', PStr role), (''content'', PStr content)]"

definition newline :: string where "newline = [CHR 0x0A]"

section \<open>Structured output\<close>

fun find_char :: "char \<Rightarrow> string \<Rightarrow> nat option" where
  "find_char c [] = None"
| "find_char c (x # s) = (if x = c then Some 0 else map_option Suc (find_char c s))"

definition rfind_char :: "char \<Rightarrow> string \<Rightarrow> nat option" where
  "rfind_char c s = map_option (\<lambda>i. length s - 1 - i) (find_char c (rev s))"

definition FENCE :: string where "FENCE = [CHR 0x60, CHR 0x60, CHR 0x60]"

definition strip_fence :: "string \<Rightarrow> string" where
  "strip_fence s =
     (if \<not> prefix FENCE s then s
      else let s1 = (case find_char (CHR 0x0A) s of None \<Rightarrow> s | Some i \<Rightarrow> drop (Suc i) s);
               s2 = (if suffix FENCE s1 then take (length s1 - 3) s1 else s1)
           in strip s2)"

definition extract_json :: "string \<Rightarrow> string" where
  "extract_json text =
     (let s = strip_fence (strip text)
      in case (find_char (CHR ''{'') s, rfind_char (CHR ''}'') s) of
           (Some start, Some stop) \<Rightarrow> if start < stop then drop start (take (Suc stop) s) else s
         | _ \<Rightarrow> s)"

definition correction :: "string \<Rightarrow> string" where
  "correction exc =
     ''That response failed validation:'' @ newline @ exc @ newline @ newline
     @ ''Return a corrected JSON object matching the schema exactly.''"

definition schema_hint :: "string \<Rightarrow> string" where
  "schema_hint schema_json =
     newline @ newline @ ''Return ONLY a single JSON object matching this schema. ''
     @ ''Do not include prose, code fences, or explanation:'' @ newline @ schema_json"

text \<open>The loop of \<open>call_structured\<close>, with the attempts that are left.\<close>

fun structured_loop :: "'s llm_call \<Rightarrow> (string \<Rightarrow> string + 'a) \<Rightarrow> llm_request \<Rightarrow> nat \<Rightarrow> pyval list \<Rightarrow> 's \<Rightarrow>
    ('a \<times> llm_result) res \<times> 's" where
  "structured_loop call validate rq 0 msgs s =
     (Inl (StructuredOutputError ''structured output failed after retries''), s)"
| "structured_loop call validate rq (Suc k) msgs s =
     (case call (rq\<lparr>rq_messages := msgs\<rparr>) s of
        (Inl err, s1) \<Rightarrow> (Inl err, s1)
      | (Inr result, s1) \<Rightarrow>
          (case validate (extract_json (lr_text result)) of
             Inr parsed \<Rightarrow> (Inr (parsed, result), s1)
           | Inl exc \<Rightarrow>
               structured_loop call validate rq k
                 (msgs @ [message ''assistant'' (lr_text result), message ''user'' (correction exc)]) s1))"

definition call_structured :: "'s llm_call \<Rightarrow> (string \<Rightarrow> string + 'a) \<Rightarrow> pyval \<Rightarrow> string \<Rightarrow> llm_request \<Rightarrow> int \<Rightarrow>
    's \<Rightarrow> ('a \<times> llm_result) res \<times> 's" where
  "call_structured call validate json_schema schema_json rq max_retries s =
     structured_loop call validate
       (rq\<lparr>rq_system := rq_system rq @ schema_hint schema_json, rq_response_format := Some json_schema\<rparr>)
       (nat (max_retries + 1)) (rq_messages rq) s"

lemma structured_validated:
  "call_structured call validate js txt rq k s = (Inr (a, r), s') \<Longrightarrow> \<exists>t. validate t = Inr a"
proof -
  have "structured_loop call validate rq n msgs s = (Inr (a, r), s') \<Longrightarrow> \<exists>t. validate t = Inr a" for n rq msgs s
    by (induction n arbitrary: msgs s) (auto split: prod.splits sum.splits)
  then show "call_structured call validate js txt rq k s = (Inr (a, r), s') \<Longrightarrow> \<exists>t. validate t = Inr a"
    by (auto simp: call_structured_def)
qed

section \<open>Escalation\<close>

definition CONFIDENCE_INSTRUCTION :: string where
  "CONFIDENCE_INSTRUCTION =
     newline @ newline @ ''IMPORTANT: End your response with a line of exactly this form: ''
     @ ''[CONFIDENCE: 0.NN] where 0.NN is your honest self-assessed confidence ''
     @ ''in your answer, from 0.00 (guessing) to 1.00 (certain).''"

text \<open>The pattern \<open>\[CONFIDENCE:\s*(-?[0-9]*\.?[0-9]+)\s*\]\<close>, ignoring case, at the head of a text: the
  number and what follows the match.\<close>

definition match_number :: "string \<Rightarrow> (real \<times> string) option" where
  "match_number s =
     (let (sign, r) = (case s of c # cs \<Rightarrow> if c = CHR ''-'' then (- 1, cs) else (1, s) | [] \<Rightarrow> (1, s));
          whole = takeWhile is_digit r; r1 = dropWhile is_digit r
      in case r1 of
           c # cs \<Rightarrow>
             if c = CHR ''.''
             then let frac = takeWhile is_digit cs
                  in if frac = [] then None
                     else Some (sign * (real (nat_of_digits whole) + real (nat_of_digits frac) / 10 ^ length frac),
                                dropWhile is_digit cs)
             else if whole = [] then None else Some (sign * real (nat_of_digits whole), r1)
         | [] \<Rightarrow> if whole = [] then None else Some (sign * real (nat_of_digits whole), r1))"

definition match_tag :: "string \<Rightarrow> (real \<times> string) option" where
  "match_tag s =
     (if lower (take 12 s) \<noteq> ''[confidence:'' then None
      else case match_number (lstrip (drop 12 s)) of
             None \<Rightarrow> None
           | Some (v, r) \<Rightarrow>
               (case lstrip r of
                  c # rest \<Rightarrow> if c = CHR '']'' then Some (v, rest) else None
                | [] \<Rightarrow> None))"

fun find_tag :: "string \<Rightarrow> real option" where
  "find_tag [] = None"
| "find_tag (c # s) = (case match_tag (c # s) of Some (v, r) \<Rightarrow> Some v | None \<Rightarrow> find_tag s)"

definition parse_confidence :: "string \<Rightarrow> real option" where
  "parse_confidence text = map_option (\<lambda>v. max 0 (min 1 v)) (find_tag text)"

lemma match_number_suffix: "match_number s = Some (v, r) \<Longrightarrow> suffix r s"
proof -
  assume m: "match_number s = Some (v, r)"
  define sr where "sr = (case s of c # cs \<Rightarrow> if c = CHR ''-'' then (- 1, cs) else (1, s) | [] \<Rightarrow> (1 :: real, s))"
  obtain sign r0 where p: "sr = (sign, r0)" by (cases sr)
  then have s: "suffix r0 s" by (auto simp: sr_def suffix_ConsI split: list.splits if_splits)
  define r1 where "r1 = dropWhile is_digit r0"
  have "suffix r1 r0" unfolding r1_def by (rule suffix_dropWhile)
  with s have d: "suffix r1 s" by (rule suffix_order.trans [rotated])
  from m have "r = r1 \<or> (\<exists>c cs. r1 = c # cs \<and> r = dropWhile is_digit cs)"
    unfolding match_number_def sr_def [symmetric] p Let_def prod.case r1_def [symmetric]
    by (auto split: list.splits if_splits)
  then show "suffix r s"
  proof (elim disjE exE conjE)
    fix c cs assume "r1 = c # cs" "r = dropWhile is_digit cs"
    with d show ?thesis
      by (metis suffix_ConsD suffix_dropWhile suffix_order.trans)
  qed (use d in simp)
qed

lemma match_tag_shorter: "match_tag s = Some (v, r) \<Longrightarrow> length r < length s"
proof -
  assume m: "match_tag s = Some (v, r)"
  then obtain r1 c where n: "match_number (lstrip (drop 12 s)) = Some (v, r1)" "lstrip r1 = c # r"
    by (auto simp: match_tag_def split: if_splits option.splits list.splits)
  have "suffix (lstrip r1) r1" "suffix (lstrip (drop 12 s)) (drop 12 s)"
    by (simp_all add: lstrip_def suffix_dropWhile)
  with match_number_suffix [OF n(1)] n(2) have "suffix (c # r) (drop 12 s)"
    by (metis suffix_order.trans)
  from suffix_length_le [OF this] show ?thesis by simp
qed

text \<open>\<open>sub("", text)\<close>: every match is removed, going on after it.\<close>

function remove_tags :: "string \<Rightarrow> string" where
  "remove_tags [] = []"
| "remove_tags (c # s) = (case match_tag (c # s) of Some (v, r) \<Rightarrow> remove_tags r | None \<Rightarrow> c # remove_tags s)"
  by pat_completeness auto
termination
  by (relation "measure length") (auto dest: match_tag_shorter)

definition strip_confidence_tag :: "string \<Rightarrow> string" where
  "strip_confidence_tag text = strip (remove_tags text)"

definition with_escalation :: "'s llm_call \<Rightarrow> llm_request \<Rightarrow> real \<Rightarrow> 's \<Rightarrow> llm_result res \<times> 's" where
  "with_escalation call rq cutoff s =
     (let annotated = rq\<lparr>rq_system := rq_system rq @ CONFIDENCE_INSTRUCTION, rq_response_format := None\<rparr>
      in case call (annotated\<lparr>rq_force_tier := Some HAIKU\<rparr>) s of
           (Inl err, s1) \<Rightarrow> (Inl err, s1)
         | (Inr first, s1) \<Rightarrow>
             let confidence = (case parse_confidence (lr_text first) of None \<Rightarrow> 0 | Some c \<Rightarrow> c)
             in if cutoff \<le> confidence
                then (Inr (first\<lparr>lr_text := strip_confidence_tag (lr_text first)\<rparr>), s1)
                else case call (annotated\<lparr>rq_force_tier := Some SONNET\<rparr>) s1 of
                       (Inl err, s2) \<Rightarrow> (Inl err, s2)
                     | (Inr second, s2) \<Rightarrow>
                         (Inr (second\<lparr>lr_escalated := True,
                                      lr_text := strip_confidence_tag (lr_text second)\<rparr>), s2))"

section \<open>The critic\<close>

definition critic_accepts :: "string \<Rightarrow> bool" where
  "critic_accepts verdict =
     (let word = upper (takeWhile (\<lambda>c. \<not> is_space c) (strip verdict));
          head = rev (dropWhile (\<lambda>c. c \<in> set '':,.'') (rev word))
      in head = ''OK'')"

text \<open>\<open>py_str\<close> is \<open>str\<close> on a value that is not a text.\<close>

definition part_text :: "pyval \<Rightarrow> string option" where
  "part_text part = (case part of PDict d \<Rightarrow> Some (case get_str d ''text'' of Some t \<Rightarrow> t | None \<Rightarrow> []) | _ \<Rightarrow> None)"

definition stringify_message :: "(pyval \<Rightarrow> string) \<Rightarrow> pyval \<Rightarrow> string" where
  "stringify_message py_str m =
     (let d = (case m of PDict d \<Rightarrow> d | _ \<Rightarrow> []);
          shown = (\<lambda>v. case v of PStr s \<Rightarrow> s | _ \<Rightarrow> py_str v);
          content = (case get_def d ''content'' (PStr []) of
                       PList parts \<Rightarrow> join_with '' '' (List.map_filter part_text parts)
                     | v \<Rightarrow> shown v)
      in ''['' @ shown (get_def d ''role'' (PStr ''?'')) @ ''] '' @ content)"

definition stringify_messages :: "(pyval \<Rightarrow> string) \<Rightarrow> pyval list \<Rightarrow> string" where
  "stringify_messages py_str msgs = join_with newline (map (stringify_message py_str) msgs)"

record critic_config =
  cr_system :: string
  cr_tier :: "model_tier option"

definition critic_request :: "(pyval \<Rightarrow> string) \<Rightarrow> critic_config \<Rightarrow> llm_request \<Rightarrow> llm_result \<Rightarrow> llm_request" where
  "critic_request py_str cr rq result =
     \<lparr>rq_task_class = CLASSIFY, rq_system = cr_system cr,
      rq_messages = [message ''user''
        (''TASK:'' @ newline @ rq_system rq @ newline @ newline @ ''CONTEXT:'' @ newline
         @ stringify_messages py_str (rq_messages rq) @ newline @ newline @ ''CANDIDATE:'' @ newline
         @ lr_text result)],
      rq_max_tokens = 256, rq_force_tier = cr_tier cr, rq_temperature = Some 0, rq_response_format = None\<rparr>"

definition revision_request :: "llm_request \<Rightarrow> llm_result \<Rightarrow> string \<Rightarrow> llm_request" where
  "revision_request rq result verdict =
     rq\<lparr>rq_messages := rq_messages rq
        @ [message ''assistant'' (lr_text result),
           message ''user'' (''A reviewer flagged these issues with your answer:'' @ newline
             @ verdict @ newline @ newline
             @ ''Provide a corrected answer that addresses each issue.'')]\<rparr>"

fun revise_loop :: "'s llm_call \<Rightarrow> (pyval \<Rightarrow> string) \<Rightarrow> critic_config \<Rightarrow> llm_request \<Rightarrow> nat \<Rightarrow> llm_result \<Rightarrow> 's \<Rightarrow>
    llm_result res \<times> 's" where
  "revise_loop call py_str cr rq 0 result s = (Inr result, s)"
| "revise_loop call py_str cr rq (Suc k) result s =
     (case call (critic_request py_str cr rq result) s of
        (Inl err, s1) \<Rightarrow> (Inl err, s1)
      | (Inr critique, s1) \<Rightarrow>
          let verdict = strip (lr_text critique)
          in if critic_accepts verdict then (Inr result, s1)
             else case call (revision_request rq result verdict) s1 of
                    (Inl err, s2) \<Rightarrow> (Inl err, s2)
                  | (Inr revised, s2) \<Rightarrow> revise_loop call py_str cr rq k revised s2)"

definition with_verifier :: "'s llm_call \<Rightarrow> (pyval \<Rightarrow> string) \<Rightarrow> critic_config \<Rightarrow> llm_request \<Rightarrow> int \<Rightarrow> 's \<Rightarrow>
    llm_result res \<times> 's" where
  "with_verifier call py_str cr rq max_revisions s =
     (case call (rq\<lparr>rq_response_format := None\<rparr>) s of
        (Inl err, s1) \<Rightarrow> (Inl err, s1)
      | (Inr result, s1) \<Rightarrow>
          revise_loop call py_str cr (rq\<lparr>rq_response_format := None\<rparr>) (nat max_revisions) result s1)"

section \<open>Sampling\<close>

text \<open>The \<open>n\<close> calls of \<open>asyncio.gather\<close>: all are made, and the first exception is raised.\<close>

fun sample_loop :: "'s llm_call \<Rightarrow> llm_request \<Rightarrow> nat \<Rightarrow> 's \<Rightarrow> llm_result res list \<times> 's" where
  "sample_loop call rq 0 s = ([], s)"
| "sample_loop call rq (Suc n) s =
     (let (r, s1) = call rq s; (rs, s2) = sample_loop call rq n s1 in (r # rs, s2))"

fun gather :: "'a res list \<Rightarrow> 'a list res" where
  "gather [] = Inr []"
| "gather (Inl e # rs) = Inl e"
| "gather (Inr a # rs) = res_bind (gather rs) (\<lambda>as. Inr (a # as))"

text \<open>\<open>Counter(xs).most_common(1)[0]\<close>: among the most frequent values the one seen first.\<close>

definition most_common :: "'a list \<Rightarrow> ('a \<times> nat) option" where
  "most_common xs =
     map_option (\<lambda>x. (x, count_list xs x)) (max_by (count_list xs) (rev (remdups (rev xs))))"

definition vote :: "'s llm_call \<Rightarrow> (string \<Rightarrow> 'a) \<Rightarrow> llm_request \<Rightarrow> nat \<Rightarrow> 's \<Rightarrow> ('a \<times> real \<times> 'a list) res \<times> 's" where
  "vote call coerce rq n s =
     (let (rs, s1) = sample_loop call (rq\<lparr>rq_response_format := None\<rparr>) n s
      in (res_bind (gather rs) (\<lambda>samples.
            let normalized = map (coerce \<circ> lr_text) samples
            in case most_common normalized of
                 None \<Rightarrow> Inl IndexError
               | Some (winner, votes) \<Rightarrow> Inr (winner, real votes / real n, normalized)), s1))"

definition average :: "'s llm_call \<Rightarrow> (string \<Rightarrow> real option) \<Rightarrow> llm_request \<Rightarrow> nat \<Rightarrow> 's \<Rightarrow>
    (real \<times> real \<times> real list) res \<times> 's" where
  "average call parser rq n s =
     (let (rs, s1) = sample_loop call (rq\<lparr>rq_response_format := None\<rparr>) n s
      in (res_bind (gather rs) (\<lambda>samples.
            let values = List.map_filter (parser \<circ> lr_text) samples
            in if values = [] then Inl (RuntimeError ''self_consistency.average: no parseable samples'')
               else let m = mean values
                    in Inr (m, sqrt (sum_list (map (\<lambda>v. (v - m)\<^sup>2) values) / real (length values)), values)), s1))"

section \<open>Counting calls\<close>

text \<open>\<open>ys\<close> is \<open>xs\<close> with at most \<open>n\<close> more entries.\<close>

definition extends_by :: "nat \<Rightarrow> 'a list \<Rightarrow> 'a list \<Rightarrow> bool" where
  "extends_by n xs ys \<longleftrightarrow> prefix xs ys \<and> length ys \<le> length xs + n"

lemma extends_by_refl [simp]: "extends_by n xs xs"
  by (simp add: extends_by_def)

lemma extends_by_snoc: "0 < n \<Longrightarrow> extends_by n xs (xs @ [x])"
  by (simp add: extends_by_def)

lemma extends_by_trans:
  "extends_by m xs ys \<Longrightarrow> extends_by n ys zs \<Longrightarrow> m + n \<le> k \<Longrightarrow> extends_by k xs zs"
  by (auto simp: extends_by_def intro: prefix_order.trans)

text \<open>What the layers rely on: a call that returns is charged once, one that raises is not, and the
  router itself never marks a result as escalated.\<close>

locale llm_client =
  fixes call :: "llm_request \<Rightarrow> 's \<Rightarrow> llm_result res \<times> 's"
    and charges :: "'s \<Rightarrow> (model_tier \<times> real) list"
  assumes call_ok: "call rq s = (Inr r, s') \<Longrightarrow>
      charges s' = charges s @ [(lr_tier_used r, lr_usd_cost r)] \<and> \<not> lr_escalated r"
    and call_err: "call rq s = (Inl e, s') \<Longrightarrow> charges s' = charges s"
begin

lemma one_call: "call rq s = (x, s') \<Longrightarrow> extends_by 1 (charges s) (charges s')"
  by (cases x) (auto dest: call_ok call_err simp: extends_by_snoc)

lemma structured_loop_calls:
  "structured_loop call validate rq k msgs s = (x, s') \<Longrightarrow> extends_by k (charges s) (charges s')"
proof (induction k arbitrary: msgs s)
  case (Suc k)
  obtain y s1 where c: "call (rq\<lparr>rq_messages := msgs\<rparr>) s = (y, s1)" by fastforce
  have one: "extends_by 1 (charges s) (charges s1)" by (rule one_call [OF c])
  from Suc.prems c consider "s' = s1"
    | msgs' where "structured_loop call validate rq k msgs' s1 = (x, s')"
    by (auto split: sum.splits)
  then show ?case
  proof cases
    case 1
    with one show ?thesis by (auto simp: extends_by_def)
  next
    case (2 msgs')
    from Suc.IH [OF this] one show ?thesis by (auto intro: extends_by_trans)
  qed
qed simp

lemma structured_calls:
  "call_structured call validate js txt rq max_retries s = (x, s') \<Longrightarrow>
    extends_by (nat (max_retries + 1)) (charges s) (charges s')"
  unfolding call_structured_def by (rule structured_loop_calls)

lemma escalation_calls:
  assumes "with_escalation call rq cutoff s = (x, s')"
  shows "extends_by 2 (charges s) (charges s')"
  using assms unfolding with_escalation_def Let_def
  by (auto split: prod.splits sum.splits if_splits
      dest!: one_call intro: extends_by_trans [of 1 _ _ 1] extends_by_trans [of 1 _ _ 0])

lemma revise_calls:
  "revise_loop call shown cr rq k r s = (x, s') \<Longrightarrow> extends_by (2 * k) (charges s) (charges s')"
proof (induction k arbitrary: r s)
  case (Suc k)
  obtain y s1 where c: "call (critic_request shown cr rq r) s = (y, s1)" by fastforce
  from Suc.prems c have rest: "s' = s1 \<or> (\<exists>rq2 z s2. call rq2 s1 = (z, s2) \<and>
        (s' = s2 \<or> (\<exists>r2. revise_loop call shown cr rq k r2 s2 = (x, s'))))"
    unfolding revise_loop.simps Let_def by (auto split: prod.splits sum.splits if_splits)
  have 1: "extends_by 1 (charges s) (charges s1)" by (rule one_call [OF c])
  from rest show ?case
  proof (elim disjE exE conjE)
    assume "s' = s1"
    with 1 show ?thesis by (auto simp: extends_by_def)
  next
    fix rq2 z s2 assume "call rq2 s1 = (z, s2)"
    from extends_by_trans [OF 1 one_call [OF this], of 2]
    have 2: "extends_by 2 (charges s) (charges s2)" by simp
    { assume "s' = s2"
      with 2 show ?thesis by (auto simp: extends_by_def) }
    { fix r2 assume "revise_loop call shown cr rq k r2 s2 = (x, s')"
      from extends_by_trans [OF 2 Suc.IH [OF this]] show ?thesis by simp }
  qed
qed simp

lemma verifier_calls:
  assumes "with_verifier call shown cr rq max_revisions s = (x, s')"
  shows "extends_by (1 + 2 * nat max_revisions) (charges s) (charges s')"
proof -
  obtain y s1 where c: "call (rq\<lparr>rq_response_format := None\<rparr>) s = (y, s1)" by fastforce
  have 1: "extends_by 1 (charges s) (charges s1)" by (rule one_call [OF c])
  from assms c consider "s' = s1"
    | r where "revise_loop call shown cr (rq\<lparr>rq_response_format := None\<rparr>) (nat max_revisions) r s1 = (x, s')"
    by (auto simp: with_verifier_def split: sum.splits)
  then show ?thesis
  proof cases
    case 1
    with \<open>extends_by 1 _ _\<close> show ?thesis by (auto simp: extends_by_def)
  next
    case (2 r)
    from extends_by_trans [OF 1 revise_calls [OF this]] show ?thesis by simp
  qed
qed

lemma sample_calls: "sample_loop call rq n s = (rs, s') \<Longrightarrow> extends_by n (charges s) (charges s')"
proof (induction n arbitrary: s rs s')
  case (Suc n)
  obtain y s1 where c: "call rq s = (y, s1)" by fastforce
  obtain rs1 s2 where l: "sample_loop call rq n s1 = (rs1, s2)" by fastforce
  from extends_by_trans [OF one_call [OF c] Suc.IH [OF l]] Suc.prems c l show ?case by auto
qed simp

lemma vote_calls:
  "vote call coerce rq n s = (x, s') \<Longrightarrow> extends_by n (charges s) (charges s')"
  by (auto simp: vote_def split: prod.splits dest: sample_calls)

lemma average_calls:
  "average call parser rq n s = (x, s') \<Longrightarrow> extends_by n (charges s) (charges s')"
  by (auto simp: average_def split: prod.splits dest: sample_calls)

text \<open>An escalated answer was paid for twice: the charge of the discarded answer comes first.\<close>

lemma escalation_charges:
  assumes "with_escalation call rq cutoff s = (Inr r, s')"
  shows "\<exists>first s1. call (rq\<lparr>rq_system := rq_system rq @ CONFIDENCE_INSTRUCTION, rq_response_format := None,
        rq_force_tier := Some HAIKU\<rparr>) s = (Inr first, s1) \<and>
      (lr_escalated r \<longleftrightarrow> (case parse_confidence (lr_text first) of None \<Rightarrow> 0 | Some c \<Rightarrow> c) < cutoff) \<and>
      charges s' = charges s @ (lr_tier_used first, lr_usd_cost first) #
        (if lr_escalated r then [(lr_tier_used r, lr_usd_cost r)] else []) \<and>
      (\<not> lr_escalated r \<longrightarrow> r = first\<lparr>lr_text := strip_confidence_tag (lr_text first)\<rparr>)"
  using assms unfolding with_escalation_def Let_def
  by (auto split: prod.splits sum.splits if_splits dest!: call_ok)

end

text \<open>The router behind the layers: its state, the effects it has had and the number of calls made; the
  \<open>k\<close>-th call reads the clock at \<open>clock k\<close>.\<close>

type_synonym metered = "router \<times> router_msg effect list \<times> nat"

definition metered_call :: "router_env \<Rightarrow> (nat \<Rightarrow> real) \<Rightarrow> llm_request \<Rightarrow> metered \<Rightarrow> llm_result res \<times> metered" where
  "metered_call env clock rq s =
     (let (rt, out, k) = s;
          (r, fx, rt') = router_call (env\<lparr>re_has_bus := True\<rparr>) (clock k) rq rt
      in (r, (rt', out @ fx, Suc k)))"

definition metered_charges :: "metered \<Rightarrow> (model_tier \<times> real) list" where
  "metered_charges s =
     map (\<lambda>c. (cl_tier_used c, cl_usd_cost c)) (List.map_filter audit_of (fst (snd s)))"

lemma router_audit:
  assumes "router_call env now rq rt = (x, out, rt')" "re_has_bus env"
  shows "List.map_filter audit_of out =
      (case x of Inl e \<Rightarrow> [] | Inr r \<Rightarrow> [audit_record env now rt' (rq_task_class rq) r (lr_downgraded r)]) \<and>
    (\<forall>r. x = Inr r \<longrightarrow> \<not> lr_escalated r)"
  using assms
  by (auto simp: router_call_def apply_budget_policy_def record_and_audit_def invoke_def audit_record_def
      Let_def List.map_filter_simps split: sum.splits if_splits)

interpretation metered: llm_client "metered_call env clock" metered_charges for env clock
proof
  fix rq s r s'
  assume c: "metered_call env clock rq s = (Inr r, s')"
  obtain rt out k where s: "s = (rt, out, k)" by (cases s)
  obtain fx rt' where rc: "router_call (env\<lparr>re_has_bus := True\<rparr>) (clock k) rq rt = (Inr r, fx, rt')"
    and s': "s' = (rt', out @ fx, Suc k)"
    using c by (auto simp: metered_call_def s split: prod.splits)
  from router_audit [OF rc] show "metered_charges s' = metered_charges s @ [(lr_tier_used r, lr_usd_cost r)] \<and>
      \<not> lr_escalated r"
    by (simp add: metered_charges_def s s' audit_record_def)
next
  fix rq s e s'
  assume c: "metered_call env clock rq s = (Inl e, s')"
  obtain rt out k where s: "s = (rt, out, k)" by (cases s)
  obtain fx rt' where rc: "router_call (env\<lparr>re_has_bus := True\<rparr>) (clock k) rq rt = (Inl e, fx, rt')"
    and s': "s' = (rt', out @ fx, Suc k)"
    using c by (auto simp: metered_call_def s split: prod.splits)
  from router_audit [OF rc] show "metered_charges s' = metered_charges s"
    by (simp add: metered_charges_def s s')
qed

section \<open>The majority\<close>

lemma first_max_split:
  "\<exists>ys zs. b # xs = ys @ first_max f b xs # zs \<and> (\<forall>y \<in> set ys. f y < f (first_max f b xs))"
proof (induction xs arbitrary: b)
  case (Cons x xs)
  let ?m = "first_max f b (x # xs)"
  show ?case
  proof (cases "f b < f x")
    case True
    then have m: "?m = first_max f x xs" by simp
    from Cons [of x] obtain ys zs where s: "x # xs = ys @ ?m # zs"
      and l: "\<forall>y \<in> set ys. f y < f ?m" unfolding m by blast
    have "f x \<le> f ?m" unfolding m by (rule first_max_ge) simp
    with True have "f b < f ?m" by (rule less_le_trans)
    with s l show ?thesis by (intro exI [of _ "b # ys"] exI [of _ zs]) (simp del: first_max.simps)
  next
    case False
    then have m: "?m = first_max f b xs" by simp
    from Cons [of b] obtain ys zs where s: "b # xs = ys @ ?m # zs"
      and l: "\<forall>y \<in> set ys. f y < f ?m" unfolding m by blast
    show ?thesis
    proof (cases ys)
      case Nil
      with s have "b = ?m" by (metis append_Nil list.inject)
      then show ?thesis by (metis append_Nil empty_iff list.set(1))
    next
      case (Cons y ys')
      from s Cons have "b = y" "xs = ys' @ ?m # zs" by (metis append_Cons list.inject)+
      moreover from l Cons \<open>b = y\<close> have "f b < f ?m" by (metis list.set_intros(1))
      moreover from this False have "f x < f ?m" by (metis le_less_trans not_less)
      moreover from l Cons have "\<forall>y \<in> set ys'. f y < f ?m" by (metis list.set_intros(2))
      ultimately have "b # x # xs = (b # x # ys') @ ?m # zs \<and> (\<forall>y \<in> set (b # x # ys'). f y < f ?m)"
        by (simp del: first_max.simps)
      then show ?thesis by blast
    qed
  qed
qed (intro exI [of _ "[]"], simp)

lemma max_by_split:
  "max_by f xs = Some m \<Longrightarrow> \<exists>ys zs. xs = ys @ m # zs \<and> (\<forall>y \<in> set ys. f y < f m)"
  using first_max_split [of _ _ f] by (cases xs) auto

lemma first_seen_snoc:
  "rev (remdups (rev (xs @ [x]))) = rev (remdups (rev xs)) @ (if x \<in> set xs then [] else [x])"
  by simp

lemma first_seen_prefix: "prefix (rev (remdups (rev xs))) (rev (remdups (rev (xs @ ys))))"
proof (induction ys rule: rev_induct)
  case (snoc y ys)
  then show ?case
    using first_seen_snoc [of "xs @ ys" y] by (auto intro: prefix_order.trans)
qed simp

lemma most_common_SomeD:
  assumes "most_common xs = Some (w, k)"
  shows "k = count_list xs w \<and> 0 < k \<and> (\<forall>x. count_list xs x \<le> k) \<and>
    (\<exists>ys zs. xs = ys @ w # zs \<and> (\<forall>y \<in> set ys. count_list xs y < k))"
proof -
  let ?ds = "rev (remdups (rev xs))"
  from assms have m: "max_by (count_list xs) ?ds = Some w" and k: "k = count_list xs w"
    by (auto simp: most_common_def)
  note max = max_by_SomeD [OF m]
  then have w: "w \<in> set xs" by simp
  have top: "count_list xs x \<le> k" for x
    using max by (cases "x \<in> set xs") (auto simp: k count_list_0_iff)
  from max_by_split [OF m] obtain as bs where ds: "?ds = as @ w # bs"
    and less: "\<forall>y \<in> set as. count_list xs y < k" unfolding k by blast
  from split_list_first [OF w] obtain ys zs where xs: "xs = ys @ w # zs" "w \<notin> set ys" by blast
  have "prefix (rev (remdups (rev (ys @ [w])))) ?ds"
    using first_seen_prefix [of "ys @ [w]" zs] xs by simp
  with xs(2) obtain cs where "?ds = rev (remdups (rev ys)) @ w # cs"
    unfolding first_seen_snoc by (auto simp: prefix_def)
  moreover have "distinct ?ds" by simp
  ultimately have "as = rev (remdups (rev ys))"
    using ds by (metis append_Cons_eq_iff distinct_append distinct.simps(2) not_distinct_conv_prefix)
  then have "set as = set ys" by simp
  with less xs(1) top k show ?thesis
    using count_notin w by (metis count_list_0_iff gr0I)
qed

lemma length_gather: "gather rs = Inr as \<Longrightarrow> length as = length rs"
  by (induction rs arbitrary: as rule: gather.induct) auto

lemma length_sample_loop: "length (fst (sample_loop call rq n s)) = n"
  by (induction n arbitrary: s) (auto simp: split_beta Let_def)

lemma count_le_length: "count_list xs x \<le> length xs"
  by (induction xs) auto

section \<open>Properties\<close>

text \<open>On the router, whose audit stream has one record per call that returned: structured output makes at
  most one call per attempt, an escalation two, the critic one and two more per revision, and sampling
  one per sample, whatever the model answers.\<close>

lemma quality_layers_bounded:
  "extends_by (nat (max_retries + 1)) (metered_charges s)
     (metered_charges (snd (call_structured (metered_call env clock) validate js txt rq max_retries s))) \<and>
   extends_by 2 (metered_charges s)
     (metered_charges (snd (with_escalation (metered_call env clock) rq cutoff s))) \<and>
   extends_by (1 + 2 * nat max_revisions) (metered_charges s)
     (metered_charges (snd (with_verifier (metered_call env clock) py_str cr rq max_revisions s))) \<and>
   extends_by n (metered_charges s)
     (metered_charges (snd (vote (metered_call env clock) coerce rq n s))) \<and>
   extends_by n (metered_charges s)
     (metered_charges (snd (average (metered_call env clock) parser rq n s)))"
  by (intro conjI metered.structured_calls [OF prod.collapse [symmetric]]
      metered.escalation_calls [OF prod.collapse [symmetric]]
      metered.verifier_calls [OF prod.collapse [symmetric]]
      metered.vote_calls [OF prod.collapse [symmetric]] metered.average_calls [OF prod.collapse [symmetric]])

text \<open>C15: an answer of \<open>with_escalation\<close> is marked as escalated exactly when the fast tier's confidence,
  0 where it gave none, is below the cut-off; then the router has charged both calls although the
  returned result carries the cost of the second only.\<close>

theorem escalation_contract:
  assumes "with_escalation (metered_call env clock) rq cutoff s = (Inr r, s')"
  shows "\<exists>first s1. metered_call env clock (rq\<lparr>rq_system := rq_system rq @ CONFIDENCE_INSTRUCTION,
        rq_response_format := None, rq_force_tier := Some HAIKU\<rparr>) s = (Inr first, s1) \<and>
      (lr_escalated r \<longleftrightarrow> (case parse_confidence (lr_text first) of None \<Rightarrow> 0 | Some c \<Rightarrow> c) < cutoff) \<and>
      metered_charges s' = metered_charges s @ (lr_tier_used first, lr_usd_cost first) #
        (if lr_escalated r then [(lr_tier_used r, lr_usd_cost r)] else [])"
  using metered.escalation_charges [OF assms] by blast

text \<open>A vote returns a value no sample outnumbers, the first seen among equals, with its share of the
  samples as the agreement, and every sample in the list.\<close>

lemma vote_picks_first_mode:
  assumes "vote call coerce rq n s = (Inr (winner, ratio, samples), s')"
  shows "length samples = n \<and> (\<forall>x. count_list samples x \<le> count_list samples winner) \<and>
    (\<exists>ys zs. samples = ys @ winner # zs \<and> (\<forall>y \<in> set ys. count_list samples y < count_list samples winner)) \<and>
    ratio = real (count_list samples winner) / real n \<and> 0 < ratio \<and> ratio \<le> 1"
proof -
  obtain rs s1 where l: "sample_loop call (rq\<lparr>rq_response_format := None\<rparr>) n s = (rs, s1)" by fastforce
  with assms obtain as k where g: "gather rs = Inr as" and samples: "samples = map (coerce \<circ> lr_text) as"
    and mc: "most_common samples = Some (winner, k)" and r: "ratio = real k / real n"
    by (auto simp: vote_def Let_def res_bind_eq_Inr split: option.splits)
  have len: "length samples = n"
    using length_gather [OF g] length_sample_loop [of call "rq\<lparr>rq_response_format := None\<rparr>" n s]
    by (simp add: samples l)
  from most_common_SomeD [OF mc] count_le_length [of samples winner] len r show ?thesis by auto
qed

definition sample_metered :: metered where
  "sample_metered = (new_router ''forensic'' None ''2026-01-01'', [], 0)"

lemma match_tag_sample: "match_tag ''[CONFIDENCE: 0.9]'' = Some (9 / 10, [])"
  by (code_simp)

lemma sample_confidence: "parse_confidence ''[CONFIDENCE: 0.9]'' = Some (9 / 10)"
  by (simp add: parse_confidence_def match_tag_sample)

lemma sample_answer:
  assumes "rq_force_tier rq = Some tier" and "rt_spent_today_usd rt < 5" and "rt_daily_budget rt = 5"
    and "rt_last_reset_date rt = ''2026-01-01''"
  shows "\<exists>r rt' fx. metered_call sample_router_env clock rq (rt, out, k) = (Inr r, rt', fx, Suc k) \<and>
    lr_text r = ''[CONFIDENCE: 0.9]'' \<and> lr_tier_used r = tier \<and> lr_usd_cost r = fst (ANTHROPIC_PRICING tier) \<and>
    rt_spent_today_usd rt' = rt_spent_today_usd rt + fst (ANTHROPIC_PRICING tier) \<and> rt_daily_budget rt' = 5 \<and>
    rt_last_reset_date rt' = ''2026-01-01''"
  using assms
  by (cases tier) (auto simp: metered_call_def router_call_def sample_router_env_def
      reset_if_new_day_def apply_budget_policy_def invoke_def compute_cost_def record_and_audit_def Let_def)

lemma sample_escalates:
  "\<exists>r s'. with_escalation (metered_call sample_router_env clock) sample_request (95 / 100) sample_metered = (Inr r, s') \<and>
     lr_escalated r \<and> lr_tier_used r = SONNET \<and> lr_usd_cost r = 3"
proof -
  let ?rq = "\<lambda>t. sample_request\<lparr>rq_system := rq_system sample_request @ CONFIDENCE_INSTRUCTION,
    rq_response_format := None, rq_force_tier := Some t\<rparr>"
  let ?rt = "new_router ''forensic'' None ''2026-01-01''"
  from sample_answer [of "?rq HAIKU" HAIKU ?rt clock "[]" 0] obtain r1 rt1 fx1 where
    1: "metered_call sample_router_env clock (?rq HAIKU) sample_metered = (Inr r1, rt1, fx1, Suc 0)"
    "lr_text r1 = ''[CONFIDENCE: 0.9]''" "rt_spent_today_usd rt1 = 1" "rt_daily_budget rt1 = 5"
    "rt_last_reset_date rt1 = ''2026-01-01''"
    by (auto simp: sample_metered_def new_router_def)
  from sample_answer [of "?rq SONNET" SONNET rt1 clock fx1 "Suc 0"] 1(3-5) obtain r2 s2 where
    2: "metered_call sample_router_env clock (?rq SONNET) (rt1, fx1, Suc 0) = (Inr r2, s2)"
    "lr_tier_used r2 = SONNET" "lr_usd_cost r2 = 3"
    by auto
  from 1 2 show ?thesis
    by (cases s2) (simp add: with_escalation_def Let_def sample_confidence)
qed

theorem escalation_contract_witness:
  "\<exists>r s' cost. with_escalation (metered_call sample_router_env real) sample_request (95 / 100) sample_metered = (Inr r, s') \<and>
     lr_usd_cost r = 3 \<and> metered_charges s' = [(HAIKU, cost), (SONNET, 3)]"
proof -
  from sample_escalates [of real] obtain r s' where
    e: "with_escalation (metered_call sample_router_env real) sample_request (95 / 100) sample_metered = (Inr r, s')"
    and r: "lr_escalated r" "lr_tier_used r = SONNET" "lr_usd_cost r = 3" by blast
  from escalation_contract [OF e] obtain first s1 where
    f: "metered_call sample_router_env real (sample_request\<lparr>rq_system := rq_system sample_request @ CONFIDENCE_INSTRUCTION,
      rq_response_format := None, rq_force_tier := Some HAIKU\<rparr>) sample_metered = (Inr first, s1)"
    and c: "metered_charges s' = metered_charges sample_metered @ (lr_tier_used first, lr_usd_cost first) #
      (if lr_escalated r then [(lr_tier_used r, lr_usd_cost r)] else [])" by blast
  from sample_answer [of "sample_request\<lparr>rq_system := rq_system sample_request @ CONFIDENCE_INSTRUCTION,
      rq_response_format := None, rq_force_tier := Some HAIKU\<rparr>" HAIKU
      "new_router ''forensic'' None ''2026-01-01''" real "[]" 0] f
  have "lr_tier_used first = HAIKU" by (auto simp: sample_metered_def new_router_def)
  with e r c show ?thesis
    by (auto simp: sample_metered_def metered_charges_def List.map_filter_simps)
qed

text \<open>A client that answers from a list of texts, to run the layers on.\<close>

definition scripted :: "llm_request \<Rightarrow> string list \<Rightarrow> llm_result res \<times> string list" where
  "scripted rq texts =
     (Inr \<lparr>lr_text = hd texts, lr_model_used = [], lr_tier_used = HAIKU, lr_tokens_in = 0, lr_tokens_out = 0,
        lr_usd_cost = 0, lr_latency_ms = 0, lr_escalated = False, lr_downgraded = False, lr_raw = PNone\<rparr>, tl texts)"

lemma vote_picks_first_mode_witness:
  "count_list [''high'', ''low'', ''low'', ''high''] ''high'' = 2 \<and>
   (\<exists>s'. vote scripted strip sample_request 4 ['' high'', ''low'', ''low '', ''high''] =
     (Inr (''high'', 1 / 2, [''high'', ''low'', ''low'', ''high'']), s'))"
proof -
  have s: "strip '' high'' = ''high''" "strip ''low'' = ''low''" "strip ''low '' = ''low''" "strip ''high'' = ''high''"
    by code_simp+
  have v: "vote scripted strip sample_request 4 ['' high'', ''low'', ''low '', ''high''] =
      (Inr (''high'', 1 / 2, [''high'', ''low'', ''low'', ''high'']), [])"
    by (simp add: vote_def scripted_def eval_nat_numeral s most_common_def Let_def)
  from vote_picks_first_mode [OF v] v show ?thesis by simp
qed

end
