(* ===== verification/Grounding.thy ===== *)
theory Grounding
  imports Schema
begin

text \<open>
  What a model's answer is checked against before it is used: the shapes of the answers
  (\<open>apps/agents/shared/quality/schemas.py\<close>), the identifiers they may name (\<open>kg_grounding.py\<close>,
  \<open>kg_client.py\<close>) and the guard in front of the database (\<open>ts_client.py\<close>).

  Neo4j and TimescaleDB are parameters: a query is a function to \<open>Some\<close> rows, \<open>None\<close> where the driver
  raises; a client that is not connected answers with the sources' safe defaults. A value of a row is a
  JSON value or a timestamp with its \<open>isoformat()\<close> and \<open>str\<close> forms; the SQL types that are neither
  (\<open>numeric\<close>, \<open>uuid\<close>) do not occur in it. \<open>validate\<close> of a schema parses a text (a parameter) and
  checks the constraints its fields declare.
\<close>

section \<open>Answers\<close>

record rca_hypothesis =
  hy_cause :: string
  hy_probability :: real
  hy_evidence_summary :: string
  hy_affected_device_ids :: "string list"

record incident_rca =
  rca_incident_summary :: string
  rca_top_hypotheses :: "rca_hypothesis list"
  rca_confidence :: real
  rca_recommended_action :: string

record operator_answer =
  oa_answer_text :: string
  oa_sql :: string
  oa_referenced_metrics :: "string list"
  oa_confidence :: real

record vision_finding =
  vf_finding_summary :: string
  vf_affected_device_ids :: "string list"
  vf_severity :: severity
  vf_confidence :: real
  vf_evidence_observations :: "string list"

definition rca_hypothesis_ok :: "rca_hypothesis \<Rightarrow> bool" where
  "rca_hypothesis_ok h \<longleftrightarrow>
     hy_cause h \<noteq> [] \<and> unit_interval (hy_probability h) \<and> hy_evidence_summary h \<noteq> []"

definition incident_rca_ok :: "incident_rca \<Rightarrow> bool" where
  "incident_rca_ok r \<longleftrightarrow>
     rca_incident_summary r \<noteq> [] \<and> 1 \<le> length (rca_top_hypotheses r) \<and> length (rca_top_hypotheses r) \<le> 5 \<and>
     list_all rca_hypothesis_ok (rca_top_hypotheses r) \<and> unit_interval (rca_confidence r) \<and>
     rca_recommended_action r \<noteq> []"

definition vision_finding_ok :: "vision_finding \<Rightarrow> bool" where
  "vision_finding_ok f \<longleftrightarrow>
     vf_finding_summary f \<noteq> [] \<and> unit_interval (vf_confidence f) \<and> vf_evidence_observations f \<noteq> []"

text \<open>\<open>setdefault\<close> on a dictionary keeps the position of a key that is there.\<close>

definition all_device_ids :: "incident_rca \<Rightarrow> string list" where
  "all_device_ids r =
     foldl (\<lambda>seen h. foldl (\<lambda>seen d. if d \<in> set seen then seen else seen @ [d]) seen (hy_affected_device_ids h))
       [] (rca_top_hypotheses r)"

section \<open>The guards on SQL\<close>

definition SCHEMA_FORBIDDEN :: "string list" where
  "SCHEMA_FORBIDDEN =
     [''INSERT '', ''UPDATE '', ''DELETE '', ''DROP '', ''TRUNCATE '', ''ALTER '',
      ''GRANT '', ''REVOKE '', ''CREATE '', '' INTO '']"

definition FORBIDDEN_SQL_TOKENS :: "string list" where
  "FORBIDDEN_SQL_TOKENS =
     [''INSERT '', ''UPDATE '', ''DELETE '', ''DROP '', ''TRUNCATE '', ''ALTER '',
      ''GRANT '', ''REVOKE '', ''CREATE '', '' INTO '', ''COPY '']"

definition lstrip_parens :: "string \<Rightarrow> string" where
  "lstrip_parens s = dropWhile (\<lambda>c. c = CHR ''('') s"

definition reads_only :: "string \<Rightarrow> bool" where
  "reads_only s \<longleftrightarrow> prefix ''SELECT'' s \<or> prefix ''WITH'' s"

definition forbidden_in :: "string list \<Rightarrow> string \<Rightarrow> string option" where
  "forbidden_in toks sql = find (\<lambda>tok. sublist tok ('' '' @ upper sql @ '' '')) toks"

definition must_be_select :: "string \<Rightarrow> string res" where
  "must_be_select v =
     (if \<not> reads_only (upper (lstrip (lstrip_parens (strip v))))
      then Inl (ValueError ''sql must be a SELECT (or WITH ... SELECT) statement'')
      else case forbidden_in SCHEMA_FORBIDDEN v of
             Some tok \<Rightarrow> Inl (ValueError (''sql contains forbidden token: '' @ strip tok))
           | None \<Rightarrow> Inr v)"

definition operator_answer_ok :: "operator_answer \<Rightarrow> bool" where
  "operator_answer_ok a \<longleftrightarrow>
     oa_answer_text a \<noteq> [] \<and> oa_sql a \<noteq> [] \<and> must_be_select (oa_sql a) = Inr (oa_sql a) \<and>
     unit_interval (oa_confidence a)"

definition validate_answer :: "(string \<Rightarrow> string + 'a) \<Rightarrow> ('a \<Rightarrow> bool) \<Rightarrow> string \<Rightarrow> string + 'a" where
  "validate_answer parse ok text =
     (case parse text of Inl exc \<Rightarrow> Inl exc
      | Inr a \<Rightarrow> if ok a then Inr a else Inl ''validation error'')"

section \<open>TimescaleDB\<close>

datatype cell = Plain pyval | Stamp string string

type_synonym row = "(string \<times> cell) list"

record timescale =
  ts_connected :: bool
  ts_recent :: "string \<Rightarrow> int \<Rightarrow> int \<Rightarrow> row list option"
  ts_select :: "string \<Rightarrow> row list option"
  ts_insert_ok :: bool

definition recent_telemetry :: "timescale \<Rightarrow> string \<Rightarrow> int \<Rightarrow> int \<Rightarrow> row list" where
  "recent_telemetry ts device_id window_s limit =
     (if \<not> ts_connected ts then []
      else case ts_recent ts device_id window_s limit of None \<Rightarrow> [] | Some rows \<Rightarrow> rows)"

text \<open>The rows, and the statements sent to the database.\<close>

definition execute_select :: "timescale \<Rightarrow> string \<Rightarrow> nat \<Rightarrow> row list res \<times> string list" where
  "execute_select ts sql max_rows =
     (if \<not> ts_connected ts then (Inr [], [])
      else case forbidden_in FORBIDDEN_SQL_TOKENS sql of
             Some tok \<Rightarrow> (Inl (ValueError (''refusing SQL containing forbidden token: '' @ strip tok)), [])
           | None \<Rightarrow>
               if \<not> reads_only (upper (lstrip (lstrip_parens sql)))
               then (Inl (ValueError ''execute_select only accepts SELECT / WITH ... SELECT''), [])
               else ((case ts_select ts sql of None \<Rightarrow> Inr [] | Some rows \<Rightarrow> Inr (take max_rows rows)), [sql]))"

record telemetry_row =
  tr_time :: "pyval option"
  tr_site_id :: "pyval option"
  tr_hall_id :: "pyval option"
  tr_rack_id :: "pyval option"
  tr_device_id :: "pyval option"
  tr_device_type :: "pyval option"
  tr_metric :: "pyval option"
  tr_value_num :: "pyval option"
  tr_value_str :: "string option"
  tr_unit :: "pyval option"
  tr_severity :: pyval
  tr_metadata :: pyval

definition telemetry_row_of :: "dict \<Rightarrow> telemetry_row" where
  "telemetry_row_of e =
     (let val = map_of e ''value''
      in \<lparr>tr_time = map_of e ''timestamp'', tr_site_id = map_of e ''site_id'',
          tr_hall_id = map_of e ''hall_id'', tr_rack_id = map_of e ''rack_id'',
          tr_device_id = map_of e ''device_id'', tr_device_type = map_of e ''device_type'',
          tr_metric = map_of e ''metric'',
          tr_value_num = (case Option.bind val num_of of None \<Rightarrow> None | Some x \<Rightarrow> val),
          tr_value_str = Option.bind val str_of, tr_unit = map_of e ''unit'',
          tr_severity = get_def e ''severity'' (PStr ''info''),
          tr_metadata = get_def e ''metadata'' (PDict [])\<rparr>)"

definition insert_telemetry :: "timescale \<Rightarrow> dict list \<Rightarrow> telemetry_row list \<times> nat" where
  "insert_telemetry ts events =
     (if \<not> ts_connected ts \<or> events = [] then ([], 0)
      else let rows = map telemetry_row_of events
           in if ts_insert_ok ts then (rows, length rows) else ([], 0))"

section \<open>The knowledge graph\<close>

record knowledge_graph =
  kg_connected :: bool
  kg_missing_devices :: "string list \<Rightarrow> string list option"
  kg_missing_sites :: "string list \<Rightarrow> string list option"
  kg_neighbours :: "string \<Rightarrow> int \<Rightarrow> dict list option"
  kg_register_ok :: bool

definition kg_validate_device_ids :: "knowledge_graph \<Rightarrow> string list \<Rightarrow> string list" where
  "kg_validate_device_ids kg ids =
     (if \<not> kg_connected kg \<or> ids = [] then []
      else case kg_missing_devices kg ids of None \<Rightarrow> [] | Some missing \<Rightarrow> missing)"

definition kg_validate_site_ids :: "knowledge_graph \<Rightarrow> string list \<Rightarrow> string list" where
  "kg_validate_site_ids kg ids =
     (if \<not> kg_connected kg \<or> ids = [] then []
      else case kg_missing_sites kg ids of None \<Rightarrow> [] | Some missing \<Rightarrow> missing)"

definition dependency_subgraph :: "knowledge_graph \<Rightarrow> string \<Rightarrow> int \<Rightarrow> dict list" where
  "dependency_subgraph kg device_id hops =
     (if \<not> kg_connected kg \<or> hops < 1 then []
      else case kg_neighbours kg device_id (min hops 4) of None \<Rightarrow> [] | Some rows \<Rightarrow> rows)"

text \<open>\<open>KGValidator\<close> around an object with the two methods, either of which may raise.\<close>

definition validator_device_ids :: "(string list \<Rightarrow> string list option) option \<Rightarrow> string list \<Rightarrow> string list" where
  "validator_device_ids kg ids =
     (case kg of None \<Rightarrow> []
      | Some query \<Rightarrow> if ids = [] then []
                     else case query ids of None \<Rightarrow> [] | Some missing \<Rightarrow> missing)"

definition validate_metrics :: "string list \<Rightarrow> string list" where
  "validate_metrics names = filter (\<lambda>m. m \<notin> set (map metric_value all_metrics)) names"

definition format_grounding_errors :: "string list \<Rightarrow> string list \<Rightarrow> string list \<Rightarrow> string option" where
  "format_grounding_errors unknown_metrics unknown_devices unknown_sites =
     (let bits = (if unknown_metrics \<noteq> []
                  then [''Unknown metric names (not in the canonical catalog): '' @ join_with '', '' unknown_metrics]
                  else [])
               @ (if unknown_devices \<noteq> []
                  then [''Unknown device IDs (not present in the knowledge graph): '' @ join_with '', '' unknown_devices]
                  else [])
               @ (if unknown_sites \<noteq> [] then [''Unknown site IDs: '' @ join_with '', '' unknown_sites] else []);
          newline = [CHR 0x0A]
      in if bits = [] then None
         else Some (''Your response references identifiers that do not exist:'' @ newline
                @ join_with newline (map (\<lambda>b. ''- '' @ b) bits)
                @ newline @ ''Fix the response using only identifiers from the provided context.''))"

section \<open>Lemmas\<close>

lemma seen_foldl:
  "distinct seen \<Longrightarrow>
    distinct (foldl (\<lambda>seen d. if d \<in> set seen then seen else seen @ [d]) seen ds) \<and>
    set (foldl (\<lambda>seen d. if d \<in> set seen then seen else seen @ [d]) seen ds) = set seen \<union> set ds"
  by (induction ds arbitrary: seen) auto

lemma all_device_ids_set:
  "distinct (all_device_ids r) \<and>
   set (all_device_ids r) = (\<Union>h \<in> set (rca_top_hypotheses r). set (hy_affected_device_ids h))"
proof -
  have "distinct seen \<Longrightarrow>
      distinct (foldl (\<lambda>seen h. foldl (\<lambda>seen d. if d \<in> set seen then seen else seen @ [d]) seen (hy_affected_device_ids h)) seen hs) \<and>
      set (foldl (\<lambda>seen h. foldl (\<lambda>seen d. if d \<in> set seen then seen else seen @ [d]) seen (hy_affected_device_ids h)) seen hs) =
        set seen \<union> (\<Union>h \<in> set hs. set (hy_affected_device_ids h))" for seen hs
    by (induction hs arbitrary: seen) (auto simp: seen_foldl)
  from this [of "[]"] show ?thesis by (simp add: all_device_ids_def)
qed

lemma validate_metrics_Nil: "validate_metrics names = [] \<longleftrightarrow> set names \<subseteq> range metric_value"
  using metric_of_eq_None metric_of_eq_Some
  by (auto simp: validate_metrics_def filter_empty_conv)

lemma validate_answer_Inr: "validate_answer parse ok text = Inr a \<longleftrightarrow> parse text = Inr a \<and> ok a"
  by (auto simp: validate_answer_def split: sum.splits)

text \<open>What the guards let through.\<close>

definition guarded_sql :: "string \<Rightarrow> bool" where
  "guarded_sql sql \<longleftrightarrow>
     reads_only (upper (lstrip (lstrip_parens sql))) \<and>
     list_all (\<lambda>tok. \<not> sublist tok ('' '' @ upper sql @ '' '')) FORBIDDEN_SQL_TOKENS"

lemma forbidden_in_None:
  "forbidden_in toks sql = None \<longleftrightarrow> list_all (\<lambda>tok. \<not> sublist tok ('' '' @ upper sql @ '' '')) toks"
  by (auto simp: forbidden_in_def find_None_iff list_all_iff)

lemma executed_guarded: "execute_select ts sql n = (rows, sent) \<Longrightarrow> set sent \<subseteq> {q. q = sql \<and> guarded_sql q}"
  using forbidden_in_None [of FORBIDDEN_SQL_TOKENS sql]
  by (auto simp: execute_select_def guarded_sql_def split: option.splits if_splits)

lemma executed_rows: "execute_select ts sql n = (Inr rows, sent) \<Longrightarrow> length rows \<le> n"
  by (auto simp: execute_select_def split: option.splits if_splits)

text \<open>The tokens end in a space, so a mutating word that another white space follows passes both
  guards.\<close>

lemma guards_miss_newline:
  "let sql = ''WITH t AS (DELETE'' @ [CHR 0x0A] @ ''FROM telemetry RETURNING 1) SELECT 1''
   in must_be_select sql = Inr sql \<and> guarded_sql sql"
  by code_simp

text \<open>A statement in parentheses after white space passes the first guard and not the second.\<close>

lemma guards_disagree_on_parens:
  "must_be_select '' (SELECT 1)'' = Inr '' (SELECT 1)'' \<and> \<not> guarded_sql '' (SELECT 1)''"
  by code_simp

end
