(* ===== verification/Retrieval.thy ===== *)
theory Retrieval
  imports Grounding "HOL-Library.Multiset"
begin

text \<open>
  The retrieval helpers in front of the language model: the semantic cache, the few-shot examples and
  the reranker (\<open>apps/agents/shared/quality/semantic_cache.py\<close>, \<open>few_shot.py\<close>, \<open>reranker.py\<close>).

  A Chroma collection is a parameter, two functions on its own state: \<open>query\<close> to \<open>Some\<close> answer and
  \<open>upsert\<close> to \<open>Some\<close> new state, \<open>None\<close> where the client raises. The cross encoder is the function from
  pairs to scores, SHA-256 that of a text to its hexadecimal digest. Characters outside ASCII are spelled
  by their UTF-8 bytes.
\<close>

record chroma_answer =
  ca_ids :: "string list list option"
  ca_documents :: "string list list option"
  ca_metadatas :: "dict option list list option"
  ca_distances :: "real list list option"

record 'c chroma =
  ch_query :: "string \<Rightarrow> nat \<Rightarrow> 'c \<Rightarrow> chroma_answer option"
  ch_upsert :: "string \<Rightarrow> string \<Rightarrow> dict \<Rightarrow> 'c \<Rightarrow> 'c option"

text \<open>\<open>(res.get(k) or [[]])[0]\<close>.\<close>

definition first_list :: "'a list list option \<Rightarrow> 'a list" where
  "first_list r = (case r of Some (xs # _) \<Rightarrow> xs | _ \<Rightarrow> [])"

section \<open>The semantic cache\<close>

record semantic_cache =
  sc_threshold :: real
  sc_enabled :: bool

text \<open>\<open>client\<close> is whether \<open>get_or_create_collection\<close> succeeds, \<open>None\<close> without a client.\<close>

definition new_semantic_cache :: "bool option \<Rightarrow> real \<Rightarrow> semantic_cache" where
  "new_semantic_cache client threshold = \<lparr>sc_threshold = threshold, sc_enabled = (client = Some True)\<rparr>"

definition cache_get :: "'c chroma \<Rightarrow> semantic_cache \<Rightarrow> string \<Rightarrow> 'c \<Rightarrow> string option" where
  "cache_get ch cache prompt c =
     (if \<not> sc_enabled cache then None
      else case ch_query ch prompt 1 c of
             None \<Rightarrow> None
           | Some res \<Rightarrow>
               (case (first_list (ca_distances res), first_list (ca_metadatas res)) of
                  (distance # _, meta # _) \<Rightarrow>
                    let similarity = 1 - distance
                    in if similarity < sc_threshold cache then None
                       else get_str (case meta of None \<Rightarrow> [] | Some m \<Rightarrow> m) ''response''
                | _ \<Rightarrow> None))"

definition prompt_id :: "(string \<Rightarrow> string) \<Rightarrow> string \<Rightarrow> string" where
  "prompt_id sha256 prompt = take 16 (sha256 prompt)"

definition dict_merge :: "dict \<Rightarrow> dict \<Rightarrow> dict" where
  "dict_merge d e = foldl (\<lambda>d (k, v). AList.update k v d) d e"

definition cache_put :: "(string \<Rightarrow> string) \<Rightarrow> 'c chroma \<Rightarrow> semantic_cache \<Rightarrow> string \<Rightarrow> string \<Rightarrow> dict \<Rightarrow>
    'c \<Rightarrow> 'c" where
  "cache_put sha256 ch cache prompt response md c =
     (if \<not> sc_enabled cache then c
      else let entry_meta = dict_merge [(''response'', PStr response)] md
           in case ch_upsert ch (prompt_id sha256 prompt) prompt entry_meta c of None \<Rightarrow> c | Some c' \<Rightarrow> c')"

section \<open>Few-shot examples\<close>

record shot =
  sh_document :: string
  sh_metadata :: dict
  sh_distance :: real

definition few_shot_retrieve :: "'c chroma \<Rightarrow> bool \<Rightarrow> string \<Rightarrow> nat \<Rightarrow> 'c \<Rightarrow> shot list" where
  "few_shot_retrieve ch enabled query k c =
     (if \<not> enabled then []
      else case ch_query ch query k c of
             None \<Rightarrow> []
           | Some res \<Rightarrow>
               map (\<lambda>(doc, meta, dist). \<lparr>sh_document = doc,
                      sh_metadata = (case meta of None \<Rightarrow> [] | Some m \<Rightarrow> m), sh_distance = dist\<rparr>)
                 (zip (first_list (ca_documents res))
                    (zip (first_list (ca_metadatas res)) (first_list (ca_distances res)))))"

definition em_dash :: string where "em_dash = [CHR 0xE2, CHR 0x80, CHR 0x94]"

text \<open>\<open>str(v)\<close> in a formatted string; \<open>py_str\<close> is \<open>str\<close> on a value that is not a text.\<close>

definition shown :: "(pyval \<Rightarrow> string) \<Rightarrow> pyval \<Rightarrow> string" where
  "shown py_str v = (case v of PStr s \<Rightarrow> s | _ \<Rightarrow> py_str v)"

definition example_lines :: "(pyval \<Rightarrow> string) \<Rightarrow> nat \<times> shot \<Rightarrow> string list" where
  "example_lines py_str = (\<lambda>(i, ex).
     [''Example '' @ str_of_nat i @ '':'',
      ''  Symptoms: '' @ sh_document ex,
      ''  Root cause: '' @ shown py_str (get_def (sh_metadata ex) ''root_cause'' (PStr ''(unknown)'')),
      ''  Resolution: '' @ shown py_str (get_def (sh_metadata ex) ''resolution'' (PStr ''(unknown)'')),
      []])"

definition format_as_examples :: "(pyval \<Rightarrow> string) \<Rightarrow> shot list \<Rightarrow> string" where
  "format_as_examples py_str examples =
     (if examples = [] then []
      else join_with [CHR 0x0A]
             ([''EXAMPLES '' @ em_dash @ '' past incidents similar to the current one:'', []]
              @ concat (map (example_lines py_str) (zip [1..<Suc (length examples)] examples))))"

section \<open>The reranker\<close>

text \<open>\<open>predict\<close> is \<open>None\<close> where the model cannot be loaded. \<open>sorted(..., reverse=True)\<close> is stable: equal
  scores stay in order.\<close>

definition rank_scores :: "real list \<Rightarrow> (nat \<times> real) list" where
  "rank_scores scores = sort_key (\<lambda>(i, s). - s) (zip [0..<length scores] scores)"

text \<open>The slice \<open>xs[:k]\<close>.\<close>

definition py_take :: "int \<Rightarrow> 'a list \<Rightarrow> 'a list" where
  "py_take k xs = (if k < 0 then take (length xs - nat (- k)) xs else take (nat k) xs)"

definition rerank :: "((string \<times> string) list \<Rightarrow> real list) option \<Rightarrow> string \<Rightarrow> string list \<Rightarrow> int option \<Rightarrow>
    (nat \<times> real) list res" where
  "rerank predict query candidates top_k =
     (if candidates = [] then Inr []
      else case predict of
             None \<Rightarrow> Inl (RuntimeError ''Reranker requires sentence-transformers'')
           | Some score \<Rightarrow>
               let ranked = rank_scores (score (map (\<lambda>c. (query, c)) candidates))
               in Inr (case top_k of None \<Rightarrow> ranked | Some k \<Rightarrow> py_take k ranked))"

section \<open>Lemmas\<close>

lemma map_of_dict_merge:
  "map_of (dict_merge d e) k = (case map_of (rev e) k of Some v \<Rightarrow> Some v | None \<Rightarrow> map_of d k)"
proof (induction e rule: rev_induct)
  case (snoc x e)
  then show ?case by (cases x) (auto simp: dict_merge_def update_conv' split: option.splits)
qed (simp add: dict_merge_def)

lemma rank_scores_sorted:
  "sorted_wrt (\<lambda>a b. snd b \<le> snd a) (rank_scores scores)"
proof -
  have "sorted (map (\<lambda>(i, s). - s) (rank_scores scores))" by (simp add: rank_scores_def)
  then show ?thesis by (simp add: sorted_wrt_map case_prod_unfold)
qed

lemma set_rank_scores: "set (rank_scores scores) = {(i, scores ! i) | i. i < length scores}"
  by (force simp: rank_scores_def set_zip)

lemma distinct_rank_scores: "distinct (map fst (rank_scores scores))"
proof -
  have "mset (map fst (rank_scores scores)) = mset (map fst (zip [0..<length scores] scores))"
    unfolding rank_scores_def by (metis mset_map mset_sort)
  then have "mset (map fst (rank_scores scores)) = mset [0..<length scores]" by simp
  then show ?thesis by (metis distinct_upt mset_eq_imp_distinct_iff)
qed

lemma rerank_keeps_best:
  assumes "rerank (Some score) query candidates (Some k) = Inr ranked"
    and "(i, s) \<in> set ranked" and "j < length (score (map (\<lambda>c. (query, c)) candidates))"
    and "j \<notin> fst ` set ranked" and "candidates \<noteq> []"
  shows "score (map (\<lambda>c. (query, c)) candidates) ! j \<le> s"
proof -
  let ?sc = "score (map (\<lambda>c. (query, c)) candidates)"
  from assms have "ranked = py_take k (rank_scores ?sc)" by (simp add: rerank_def Let_def)
  then obtain m where r: "ranked = take m (rank_scores ?sc)"
    unfolding py_take_def by (cases "k < 0") auto
  have "(j, ?sc ! j) \<in> set (rank_scores ?sc)" using assms(3) by (auto simp: set_rank_scores)
  moreover have "(j, ?sc ! j) \<notin> set ranked" using assms(4) by force
  ultimately have "(j, ?sc ! j) \<in> set (drop m (rank_scores ?sc))"
    using r by (metis Un_iff append_take_drop_id set_append)
  moreover have "sorted_wrt (\<lambda>a b. snd b \<le> snd a) (take m (rank_scores ?sc) @ drop m (rank_scores ?sc))"
    using rank_scores_sorted by simp
  moreover have "(i, s) \<in> set (take m (rank_scores ?sc))" using assms(2) r by simp
  ultimately have "snd (j, ?sc ! j) \<le> snd (i, s)" unfolding sorted_wrt_append by blast
  then show ?thesis by simp
qed

text \<open>The cache on a collection that answers a text it holds with that entry at distance 0.\<close>

lemma cache_get_put:
  assumes "sc_enabled cache" "sc_threshold cache \<le> 1" "''response'' \<notin> fst ` set md"
    and "ch_upsert ch (prompt_id sha256 prompt) prompt (dict_merge [(''response'', PStr response)] md) c = Some c'"
    and "ch_query ch prompt 1 c' = Some \<lparr>ca_ids = ids, ca_documents = docs,
      ca_metadatas = Some [[Some (dict_merge [(''response'', PStr response)] md)]], ca_distances = Some [[0]]\<rparr>"
  shows "cache_get ch cache prompt (cache_put sha256 ch cache prompt response md c) = Some response"
proof -
  have "map_of (rev md) ''response'' = None"
    using assms(3) by (simp add: map_of_eq_None_iff)
  with assms show ?thesis
    by (simp add: cache_get_def cache_put_def first_list_def map_of_dict_merge)
qed

end
