(* ===== verification/Operator.thy ===== *)
theory Operator
  imports Quality Retrieval
begin

text \<open>
  The Operator agent (\<open>apps/agents/operator/main.py\<close>): a question becomes a SELECT and a chart.

  The state is that of the language model client, of the cache's collection, and the next id. The
  environment holds the collections, the database, the reranker's model and the parsers; the answer's
  schema is \<open>validate_answer\<close> of its constraints. What the handler does is a list of statements sent
  to the database and effects on the bus.
\<close>

record operator_config =
  oc_site_id :: string
  oc_recall_top_n :: nat
  oc_rerank_top_k :: int
  oc_kg_ground :: bool
  oc_cache_enabled :: bool

definition operator_defaults :: operator_config where
  "operator_defaults =
     \<lparr>oc_site_id = ''unknown'', oc_recall_top_n = 20, oc_rerank_top_k = 5, oc_kg_ground = True,
      oc_cache_enabled = True\<rparr>"

record ('s, 'c) operator_env =
  oe_call :: "llm_request \<Rightarrow> 's \<Rightarrow> llm_result res \<times> 's"
  oe_chroma :: "'c chroma"
  oe_cache :: semantic_cache
  oe_sha256 :: "string \<Rightarrow> string"
  oe_runbooks :: "(string \<Rightarrow> nat \<Rightarrow> chroma_answer option) option"
  oe_predict :: "((string \<times> string) list \<Rightarrow> real list) option"
  oe_ts :: timescale
  oe_parse :: "string \<Rightarrow> string + operator_answer"
  oe_dump :: "operator_answer \<Rightarrow> string"
  oe_schema :: pyval
  oe_schema_json :: string
  oe_parse_uuid :: "string \<Rightarrow> uuid option"
  oe_uuid_text :: "uuid \<Rightarrow> string"
  oe_py_str :: "pyval \<Rightarrow> string"
  oe_set_order :: "string list \<Rightarrow> string list"
  oe_ok :: "bus_msg effect \<Rightarrow> bool"

record ('s, 'c) operator_state =
  or_llm :: 's
  or_cache :: 'c
  or_next_id :: uuid

datatype operator_action = RunSql string | Send "bus_msg effect"

definition OPERATOR_SYSTEM :: string where
  "OPERATOR_SYSTEM =
     ''You are the Operator agent. Translate the user'' @ [CHR 0x27] @ ''s question into a single ''
     @ ''SELECT statement against the TimescaleDB telemetry schema, plus a short ''
     @ ''human answer. Use only canonical metric names from the supplied catalog. ''
     @ ''Never emit INSERT/UPDATE/DELETE/DDL '' @ em_dash @ '' output will be rejected if you do.''"

section \<open>Requests\<close>

definition extract_request :: "('s, 'c) operator_env \<Rightarrow> pyval \<Rightarrow> uuid \<Rightarrow> (string \<times> uuid) option \<times> uuid" where
  "extract_request env event nid =
     (case event of
        PDict d \<Rightarrow>
          (case get_str d ''question'' of
             None \<Rightarrow> (None, nid)
           | Some question \<Rightarrow>
               if strip question = [] then (None, nid)
               else let rid_raw = get_def d ''request_id'' PNone
                    in case (if truthy rid_raw then oe_parse_uuid env (shown (oe_py_str env) rid_raw) else None) of
                         Some rid \<Rightarrow> (Some (strip question, rid), nid)
                       | None \<Rightarrow> (Some (strip question, nid), Suc nid))
      | PStr s \<Rightarrow> if strip s = [] then (None, nid) else (Some (strip s, nid), Suc nid)
      | _ \<Rightarrow> (None, nid))"

section \<open>Retrieval\<close>

record runbook_source =
  rs_id :: "string option"
  rs_question :: string
  rs_sql_template :: pyval
  rs_metrics :: pyval
  rs_category :: pyval
  rs_notes :: pyval
  rs_score :: real

text \<open>The loop over \<open>ranked\<close>; a missing metadata entry is the \<open>IndexError\<close> it raises.\<close>

fun runbook_sources :: "string list \<Rightarrow> string list \<Rightarrow> dict option list \<Rightarrow> (nat \<times> real) list \<Rightarrow>
    runbook_source list res" where
  "runbook_sources ids docs metas [] = Inr []"
| "runbook_sources ids docs metas ((idx, score) # ranked) =
     (if length docs \<le> idx then runbook_sources ids docs metas ranked
      else if length metas \<le> idx then Inl IndexError
      else let meta = (case metas ! idx of None \<Rightarrow> [] | Some m \<Rightarrow> m);
               src = \<lparr>rs_id = (if idx < length ids then Some (ids ! idx) else None),
                      rs_question = docs ! idx,
                      rs_sql_template = get_def meta ''sql_template'' (PStr []),
                      rs_metrics = get_def meta ''metrics'' (PStr []),
                      rs_category = get_def meta ''category'' (PStr []),
                      rs_notes = get_def meta ''notes'' (PStr []), rs_score = score\<rparr>
           in res_bind (runbook_sources ids docs metas ranked) (\<lambda>out. Inr (src # out)))"

definition retrieve_runbooks :: "operator_config \<Rightarrow> ('s, 'c) operator_env \<Rightarrow> string \<Rightarrow> runbook_source list res" where
  "retrieve_runbooks cfg env question =
     (case oe_runbooks env of
        None \<Rightarrow> Inr []
      | Some query \<Rightarrow>
          (case query question (oc_recall_top_n cfg) of
             None \<Rightarrow> Inr []
           | Some recall \<Rightarrow>
               let docs = first_list (ca_documents recall);
                   ranked = (case rerank (oe_predict env) question docs (Some (oc_rerank_top_k cfg)) of
                               Inr r \<Rightarrow> r
                             | Inl e \<Rightarrow> map (\<lambda>i. (i, 0)) [0..<nat (min (int (length docs)) (oc_rerank_top_k cfg))])
               in if docs = [] then Inr []
                  else runbook_sources (first_list (ca_ids recall)) docs (first_list (ca_metadatas recall)) ranked))"

definition source_lines :: "('s, 'c) operator_env \<Rightarrow> nat \<times> runbook_source \<Rightarrow> string list" where
  "source_lines env = (\<lambda>(i, s).
     [''  '' @ str_of_nat i @ ''. '' @ shown (oe_py_str env) (rs_category s) @ '' '' @ em_dash @ '' '' @ rs_question s,
      ''     SQL: '' @ shown (oe_py_str env) (rs_sql_template s),
      ''     Notes: '' @ shown (oe_py_str env) (rs_notes s)])"

definition build_context :: "('s, 'c) operator_env \<Rightarrow> string \<Rightarrow> runbook_source list \<Rightarrow> string" where
  "build_context env question sources =
     (let catalog = join_with newline (map (\<lambda>m. ''  - '' @ metric_value m) all_metrics)
      in join_with newline
           ([''Question: '' @ question, [], ''Canonical metric catalog (use only these names):'', catalog]
            @ (if sources = [] then []
               else [[], ''Relevant runbook patterns (use as exemplars, adapt the placeholders):'']
                    @ concat (map (source_lines env) (zip [1..<Suc (length sources)] sources)))))"

section \<open>The answer\<close>

definition operator_request :: "pyval list \<Rightarrow> llm_request" where
  "operator_request msgs =
     \<lparr>rq_task_class = NL_TO_SQL, rq_system = OPERATOR_SYSTEM, rq_messages = msgs, rq_max_tokens = 1024,
      rq_force_tier = None, rq_temperature = Some 0, rq_response_format = None\<rparr>"

definition ask :: "('s, 'c) operator_env \<Rightarrow> pyval list \<Rightarrow> int \<Rightarrow> 's \<Rightarrow> (operator_answer \<times> llm_result) res \<times> 's" where
  "ask env msgs max_retries s =
     call_structured (oe_call env) (validate_answer (oe_parse env) operator_answer_ok) (oe_schema env)
       (oe_schema_json env) (operator_request msgs) max_retries s"

text \<open>The revision with the names the catalogue does not have.\<close>

definition ground_metrics :: "operator_config \<Rightarrow> ('s, 'c) operator_env \<Rightarrow> pyval list \<Rightarrow> operator_answer \<Rightarrow> 's \<Rightarrow>
    operator_answer res \<times> 's" where
  "ground_metrics cfg env msgs ans s =
     (let unknown = validate_metrics (oa_referenced_metrics ans)
      in if \<not> oc_kg_ground cfg \<or> unknown = [] then (Inr ans, s)
         else let hint = format_grounding_errors unknown [] [];
                  (r, s1) = ask env (msgs @ [message ''assistant'' (oe_dump env ans),
                                message ''user'' (case hint of None \<Rightarrow> [] | Some h \<Rightarrow> h)]) 1 s
              in (res_bind r (\<lambda>(revised, result). Inr revised), s1))"

definition cached_answer :: "('s, 'c) operator_env \<Rightarrow> string \<Rightarrow> 'c \<Rightarrow> operator_answer option" where
  "cached_answer env question c =
     (case cache_get (oe_chroma env) (oe_cache env) question c of
        None \<Rightarrow> None
      | Some text \<Rightarrow>
          (case validate_answer (oe_parse env) operator_answer_ok text of Inl exc \<Rightarrow> None | Inr a \<Rightarrow> Some a))"

definition operator_answer_to :: "operator_config \<Rightarrow> ('s, 'c) operator_env \<Rightarrow> string \<Rightarrow> ('s, 'c) operator_state \<Rightarrow>
    (operator_answer \<times> runbook_source list) res \<times> ('s, 'c) operator_state" where
  "operator_answer_to cfg env question st =
     (case cached_answer env question (or_cache st) of
        Some a \<Rightarrow> (Inr (a, []), st)
      | None \<Rightarrow>
          (case retrieve_runbooks cfg env question of
             Inl e \<Rightarrow> (Inl e, st)
           | Inr sources \<Rightarrow>
               let msgs = [message ''user'' (build_context env question sources)]
               in case ask env msgs 2 (or_llm st) of
                    (Inl e, s1) \<Rightarrow> (Inl e, st\<lparr>or_llm := s1\<rparr>)
                  | (Inr (first, result), s1) \<Rightarrow>
                      (case ground_metrics cfg env msgs first s1 of
                         (Inl e, s2) \<Rightarrow> (Inl e, st\<lparr>or_llm := s2\<rparr>)
                       | (Inr ans, s2) \<Rightarrow>
                           (Inr (ans, sources),
                            st\<lparr>or_llm := s2,
                               or_cache := (if oc_cache_enabled cfg
                                            then cache_put (oe_sha256 env) (oe_chroma env) (oe_cache env) question
                                                   (oe_dump env ans) [(''agent'', PStr ''operator'')] (or_cache st)
                                            else or_cache st)\<rparr>))))"

section \<open>The chart\<close>

definition cell_text :: "(pyval \<Rightarrow> string) \<Rightarrow> cell \<Rightarrow> string" where
  "cell_text py_str c = (case c of Plain v \<Rightarrow> shown py_str v | Stamp isof txt \<Rightarrow> txt)"

text \<open>The JSON form of a cell, which is also what \<open>_stringify_rows\<close> makes of it.\<close>

definition cell_value :: "cell \<Rightarrow> pyval" where
  "cell_value c = (case c of Plain v \<Rightarrow> v | Stamp isof txt \<Rightarrow> PStr isof)"

definition cell_is_str :: "cell \<Rightarrow> bool" where
  "cell_is_str c = (case c of Plain (PStr s) \<Rightarrow> True | _ \<Rightarrow> False)"

definition cell_is_num :: "cell \<Rightarrow> bool" where
  "cell_is_num c = (case c of Plain v \<Rightarrow> num_of v \<noteq> None | _ \<Rightarrow> False)"

definition field :: "string \<Rightarrow> row \<Rightarrow> cell res" where
  "field c r = (case map_of r c of None \<Rightarrow> Inl (KeyError c) | Some v \<Rightarrow> Inr v)"

definition column :: "string \<Rightarrow> row list \<Rightarrow> cell list res" where
  "column c rows = gather (map (field c) rows)"

definition layout :: "string \<Rightarrow> string \<Rightarrow> string \<Rightarrow> pyval" where
  "layout x_title y_title question =
     PDict ([(''xaxis'', PDict [(''title'', PStr x_title)]), (''yaxis'', PDict [(''title'', PStr y_title)])]
            @ (if question = [] then [] else [(''title'', PStr (take 80 question))]))"

definition trace_of :: "string \<Rightarrow> string option \<Rightarrow> string \<Rightarrow> string list \<Rightarrow> cell list \<Rightarrow> pyval" where
  "trace_of kind mode name xs ys =
     PDict ([(''type'', PStr kind)] @ (case mode of None \<Rightarrow> [] | Some m \<Rightarrow> [(''mode'', PStr m)])
            @ [(''name'', PStr name), (''x'', PList (map PStr xs)), (''y'', PList (map cell_value ys))])"

definition line_spec :: "(pyval \<Rightarrow> string) \<Rightarrow> row list \<Rightarrow> string \<Rightarrow> string \<Rightarrow> string \<Rightarrow> dict res" where
  "line_spec py_str rows x_col y_col question =
     res_bind (column x_col rows) (\<lambda>xs. res_bind (column y_col rows) (\<lambda>ys.
       Inr [(''data'', PList [trace_of ''scatter'' (Some ''lines'') y_col (map (cell_text py_str) xs) ys]),
            (''layout'', layout x_col y_col question)]))"

text \<open>The points of a series dictionary, in the order the categories are first seen.\<close>

type_synonym series = "(string \<times> string list \<times> cell list) list"

definition add_point :: "series \<Rightarrow> string \<times> string \<times> cell \<Rightarrow> series" where
  "add_point series = (\<lambda>(key, x, y).
     let (xs, ys) = get_def series key ([], []) in AList.update key (xs @ [x], ys @ [y]) series)"

definition row_point :: "(pyval \<Rightarrow> string) \<Rightarrow> string \<Rightarrow> string \<Rightarrow> string \<Rightarrow> row \<Rightarrow> (string \<times> string \<times> cell) res" where
  "row_point py_str x_col y_col cat_col r =
     res_bind (field x_col r) (\<lambda>x. res_bind (field y_col r) (\<lambda>y.
       Inr (cell_text py_str (get_def r cat_col (Plain (PStr []))), cell_text py_str x, y)))"

definition multi_line_spec :: "(pyval \<Rightarrow> string) \<Rightarrow> row list \<Rightarrow> string \<Rightarrow> string \<Rightarrow> string \<Rightarrow> string \<Rightarrow> dict res" where
  "multi_line_spec py_str rows x_col y_col cat_col question =
     res_bind (gather (map (row_point py_str x_col y_col cat_col) rows)) (\<lambda>points.
       Inr [(''data'', PList (map (\<lambda>(key, xs, ys). trace_of ''scatter'' (Some ''lines'') key xs ys)
                                (foldl add_point [] points))),
            (''layout'', layout x_col y_col question)])"

definition bar_spec :: "(pyval \<Rightarrow> string) \<Rightarrow> row list \<Rightarrow> string \<Rightarrow> string \<Rightarrow> string \<Rightarrow> dict res" where
  "bar_spec py_str rows cat_col val_col question =
     res_bind (column cat_col rows) (\<lambda>xs. res_bind (column val_col rows) (\<lambda>ys.
       Inr [(''data'', PList [trace_of ''bar'' None val_col (map (cell_text py_str) xs) ys]),
            (''layout'', layout cat_col val_col question)]))"

text \<open>\<open>set_order\<close> is the order in which a set of column names is iterated, which Python does not fix.\<close>

definition chart_spec :: "(pyval \<Rightarrow> string) \<Rightarrow> (string list \<Rightarrow> string list) \<Rightarrow> row list \<Rightarrow> string \<Rightarrow> dict option res" where
  "chart_spec py_str set_order rows question =
     (case rows of
        [] \<Rightarrow> Inr None
      | first # _ \<Rightarrow>
          let cols = map fst first;
              is_str = (\<lambda>c. case map_of first c of None \<Rightarrow> False | Some v \<Rightarrow> cell_is_str v)
          in if ''time'' \<in> set cols \<and> ''value_num'' \<in> set cols
             then (case filter (\<lambda>c. c \<noteq> ''value_num'' \<and> c \<noteq> ''time'' \<and> is_str c) (set_order cols) of
                     [] \<Rightarrow> res_bind (line_spec py_str rows ''time'' ''value_num'' question) (\<lambda>d. Inr (Some d))
                   | cat_col # _ \<Rightarrow>
                       res_bind (multi_line_spec py_str rows ''time'' ''value_num'' cat_col question) (\<lambda>d. Inr (Some d)))
             else case (filter (\<lambda>(c, v). cell_is_num v) first, filter (\<lambda>(c, v). cell_is_str v) first) of
                    ((num_col, _) # _, (cat_col, _) # _) \<Rightarrow>
                      res_bind (bar_spec py_str rows cat_col num_col question) (\<lambda>d. Inr (Some d))
                  | _ \<Rightarrow> Inr None)"

section \<open>The handler\<close>

definition execute_sql :: "timescale \<Rightarrow> string \<Rightarrow> row list \<times> operator_action list" where
  "execute_sql ts sql =
     (if \<not> ts_connected ts then ([], [])
      else case execute_select ts sql 1000 of
             (Inl e, sent) \<Rightarrow> ([], map RunSql sent)
           | (Inr rows, sent) \<Rightarrow> (rows, map RunSql sent))"

definition stringify_rows :: "row list \<Rightarrow> pyval" where
  "stringify_rows rows = PList (map (\<lambda>r. PDict (map (\<lambda>(k, v). (k, cell_value v)) r)) rows)"

definition source_json :: "runbook_source \<Rightarrow> dict" where
  "source_json s =
     [(''id'', (case rs_id s of None \<Rightarrow> PNone | Some i \<Rightarrow> PStr i)), (''category'', rs_category s),
      (''score'', PFloat (rs_score s))]"

definition query_event :: "operator_config \<Rightarrow> real \<Rightarrow> uuid \<Rightarrow> uuid \<Rightarrow> string \<Rightarrow> operator_answer \<Rightarrow> row list \<Rightarrow>
    dict option \<Rightarrow> runbook_source list \<Rightarrow> query_result" where
  "query_event cfg now eid request_id question ans rows chart sources =
     bus_event.extend (envelope eid now (oc_site_id cfg) None None [(''rows'', stringify_rows rows)])
       (query_result.fields request_id question (oa_answer_text ans) (Some (oa_sql ans)) chart
          (map source_json sources) 0)"

definition operator_handle :: "operator_config \<Rightarrow> ('s, 'c) operator_env \<Rightarrow> real \<Rightarrow> pyval \<Rightarrow> ('s, 'c) operator_state \<Rightarrow>
    operator_action list \<times> ('s, 'c) operator_state \<times> py_error option" where
  "operator_handle cfg env now event st =
     (let (request, nid) = extract_request env event (or_next_id st); st0 = st\<lparr>or_next_id := nid\<rparr>
      in case request of
           None \<Rightarrow> ([], st0, None)
         | Some (question, request_id) \<Rightarrow>
             (case operator_answer_to cfg env question st0 of
                (Inl (StructuredOutputError exc), st1) \<Rightarrow> ([], st1, None)
              | (Inl e, st1) \<Rightarrow> ([], st1, Some e)
              | (Inr (ans, sources), st1) \<Rightarrow>
                  let (rows, run) = execute_sql (oe_ts env) (oa_sql ans)
                  in case chart_spec (oe_py_str env) (oe_set_order env) rows question of
                       Inl e \<Rightarrow> (run, st1, Some e)
                     | Inr chart \<Rightarrow>
                         (run @ [Send (Publish (topic_value QUERY_RESULT) (MQueryResult
                            (query_event cfg now (or_next_id st1) request_id question ans rows chart sources)))],
                          st1\<lparr>or_next_id := Suc (or_next_id st1)\<rparr>, None)))"

section \<open>Lemmas\<close>

lemma ask_ok: "ask env msgs k s = (Inr (a, r), s') \<Longrightarrow> operator_answer_ok a"
  by (auto simp: ask_def validate_answer_Inr dest!: structured_validated)

lemma ground_metrics_ok:
  assumes "ground_metrics cfg env msgs ans s = (Inr a, s')" "operator_answer_ok ans"
  shows "operator_answer_ok a"
  using assms by (auto simp: ground_metrics_def Let_def dest: ask_ok split: if_splits prod.splits)

lemma cached_answer_ok: "cached_answer env q c = Some a \<Longrightarrow> operator_answer_ok a"
  by (auto simp: cached_answer_def validate_answer_Inr split: option.splits sum.splits)

lemma answer_ok:
  assumes "operator_answer_to cfg env q st = (Inr (a, src), st')"
  shows "operator_answer_ok a"
  using assms
  by (auto simp: operator_answer_to_def Let_def split: option.splits sum.splits prod.splits
      dest: cached_answer_ok ask_ok intro: ground_metrics_ok)

text \<open>What is sent for one question: at most one guarded statement, that of a valid answer, and the
  result that carries it.\<close>

definition result_for :: "operator_answer \<Rightarrow> operator_action \<Rightarrow> bool" where
  "result_for a act \<longleftrightarrow>
     (\<exists>q. act = Send (Publish (topic_value QUERY_RESULT) (MQueryResult q)) \<and> qr_sql_executed q = Some (oa_sql a) \<and>
        qr_answer_text q = oa_answer_text a)"

lemma execute_sql_ran:
  "execute_sql ts sql = (rows, run) \<Longrightarrow> run = [] \<or> run = [RunSql sql] \<and> guarded_sql sql"
  using executed_guarded [of ts sql 1000]
  by (auto simp: execute_sql_def execute_select_def split: if_splits sum.splits option.splits)

lemma query_event_fields [simp]:
  "qr_sql_executed (query_event cfg now eid rid q a rows chart src) = Some (oa_sql a)"
  "qr_answer_text (query_event cfg now eid rid q a rows chart src) = oa_answer_text a"
  "qr_request_id (query_event cfg now eid rid q a rows chart src) = rid"
  "qr_question (query_event cfg now eid rid q a rows chart src) = q"
  by (simp_all add: query_event_def query_result.defs bus_event.defs envelope_def)

lemma operator_actions:
  assumes "operator_handle cfg env now ev st = (acts, st', err)"
  shows "acts = [] \<or> (\<exists>a run pub. operator_answer_ok a \<and> acts = run @ pub \<and>
    (run = [] \<or> run = [RunSql (oa_sql a)] \<and> guarded_sql (oa_sql a)) \<and>
    (pub = [] \<or> (\<exists>p. pub = [p] \<and> result_for a p)) \<and> (pub = [] \<longleftrightarrow> err \<noteq> None))"
proof -
  obtain rq nid where x: "extract_request env ev (or_next_id st) = (rq, nid)" by fastforce
  let ?st0 = "st\<lparr>or_next_id := nid\<rparr>"
  show ?thesis
  proof (cases rq)
    case None
    with assms x show ?thesis by (simp add: operator_handle_def)
  next
    case (Some qr)
    obtain q rid where qr: "rq = Some (q, rid)" using Some by (cases qr) auto
    obtain r st1 where a: "operator_answer_to cfg env q ?st0 = (r, st1)" by fastforce
    show ?thesis
    proof (cases r)
      case (Inl e)
      with assms x qr a show ?thesis
        by (auto simp: operator_handle_def split: py_error.splits)
    next
      case (Inr b)
      obtain ans src where b: "r = Inr (ans, src)" using Inr by (cases b) auto
      from answer_ok a b have ok: "operator_answer_ok ans" by metis
      obtain rows run where e: "execute_sql (oe_ts env) (oa_sql ans) = (rows, run)" by fastforce
      obtain pub where "acts = run @ pub"
        "(pub = [] \<or> (\<exists>p. pub = [p] \<and> result_for ans p)) \<and> (pub = [] \<longleftrightarrow> err \<noteq> None)"
      proof (cases "chart_spec (oe_py_str env) (oe_set_order env) rows q")
        case (Inl e')
        with assms x qr a b e have "acts = run @ []" "err = Some e'"
          by (simp_all add: operator_handle_def)
        with that show ?thesis by blast
      next
        case (Inr chart)
        let ?p = "Send (Publish (topic_value QUERY_RESULT) (MQueryResult
            (query_event cfg now (or_next_id st1) rid q ans rows chart src)))"
        from Inr assms x qr a b e have "acts = run @ [?p]" "err = None"
          by (simp_all add: operator_handle_def)
        moreover have "result_for ans ?p" unfolding result_for_def
          by (rule exI, rule conjI, rule refl, simp)
        ultimately show ?thesis using that by blast
      qed
      with ok execute_sql_ran [OF e] show ?thesis by blast
    qed
  qed
qed

lemma set_update_cases: "x \<in> set (AList.update k v d) \<Longrightarrow> x = (k, v) \<or> x \<in> set d"
  by (induction d) (auto split: if_splits)

text \<open>The categories of a multi-series chart partition its points, each in the order of the rows.\<close>

definition series_points :: "series \<Rightarrow> string \<Rightarrow> (string \<times> cell) list" where
  "series_points series key = (case map_of series key of None \<Rightarrow> [] | Some (xs, ys) \<Rightarrow> zip xs ys)"

lemma add_points:
  assumes "\<forall>(key, xs, ys) \<in> set series. length xs = length ys"
  shows "series_points (foldl add_point series points) key =
      series_points series key @ map snd (filter (\<lambda>p. fst p = key) points) \<and>
    (\<forall>(key, xs, ys) \<in> set (foldl add_point series points). length xs = length ys)"
  using assms
proof (induction points arbitrary: series)
  case (Cons p points)
  obtain k x y where p: "p = (k, x, y)" by (cases p)
  obtain xs ys where g: "get_def series k ([], []) = (xs, ys)" by fastforce
  have l: "length xs = length ys"
    using Cons.prems g by (auto simp: get_def_def split: option.splits dest!: map_of_SomeD)
  have add: "add_point series p = AList.update k (xs @ [x], ys @ [y]) series"
    by (simp add: add_point_def p g)
  have "\<forall>(key, xs, ys) \<in> set (add_point series p). length xs = length ys"
  proof clarify
    fix key as bs assume "(key, as, bs) \<in> set (add_point series p)"
    then have "(key, as, bs) = (k, xs @ [x], ys @ [y]) \<or> (key, as, bs) \<in> set series"
      unfolding add by (rule set_update_cases)
    with Cons.prems l show "length as = length bs" by auto
  qed
  from Cons.IH [OF this]
  have IH: "series_points (foldl add_point series (p # points)) key =
        series_points (add_point series p) key @ map snd (filter (\<lambda>p. fst p = key) points)"
      "\<forall>(key, xs, ys) \<in> set (foldl add_point series (p # points)). length xs = length ys" by simp_all
  have "series_points (add_point series p) key =
      series_points series key @ (if k = key then [(x, y)] else [])"
    using g l by (auto simp: series_points_def add update_conv' get_def_def split: option.splits)
  with IH show ?case by (simp add: p)
qed simp

lemma or_llm_cached: "cached_answer env q (or_cache st) = Some a \<Longrightarrow>
    operator_answer_to cfg env q st = (Inr (a, []), st)"
  by (simp add: operator_answer_to_def)

context llm_client
begin

lemma ask_calls:
  "oe_call env = call \<Longrightarrow> ask env msgs k s = (x, s') \<Longrightarrow> extends_by (nat (k + 1)) (charges s) (charges s')"
  unfolding ask_def by (rule structured_calls) simp

lemma ground_metrics_calls:
  assumes "oe_call env = call" "ground_metrics cfg env msgs ans s = (x, s')"
  shows "extends_by 2 (charges s) (charges s')"
  using assms(2) ask_calls [OF assms(1), of _ 1 s]
  by (fastforce simp: ground_metrics_def Let_def split: if_splits prod.splits)

lemma answer_to_calls:
  assumes call: "oe_call env = call" and a: "operator_answer_to cfg env q st = (x, st')"
  shows "extends_by 5 (charges (or_llm st)) (charges (or_llm st'))"
proof (cases "cached_answer env q (or_cache st)")
  case (Some c)
  with a show ?thesis by (simp add: or_llm_cached)
next
  case cache: None
  show ?thesis
  proof (cases "retrieve_runbooks cfg env q")
    case (Inl e)
    with a cache show ?thesis by (simp add: operator_answer_to_def)
  next
    case (Inr sources)
    let ?msgs = "[message ''user'' (build_context env q sources)]"
    obtain y s1 where ask: "ask env ?msgs 2 (or_llm st) = (y, s1)" by fastforce
    from ask_calls [OF call ask] have 3: "extends_by 3 (charges (or_llm st)) (charges s1)" by simp
    from a cache Inr ask have "or_llm st' = s1 \<or>
        (\<exists>first z. ground_metrics cfg env ?msgs first s1 = (z, or_llm st'))"
      unfolding operator_answer_to_def Let_def by (auto split: sum.splits prod.splits)
    then show ?thesis
      using 3 extends_by_trans [OF 3 ground_metrics_calls [OF call]]
      by (fastforce simp: extends_by_def)
  qed
qed

lemma operator_calls:
  assumes call: "oe_call env = call" and h: "operator_handle cfg env now ev st = (acts, st', err)"
  shows "extends_by 5 (charges (or_llm st)) (charges (or_llm st'))"
proof -
  obtain rq nid where x: "extract_request env ev (or_next_id st) = (rq, nid)" by fastforce
  show ?thesis
  proof (cases rq)
    case None
    with h x show ?thesis by (auto simp: operator_handle_def)
  next
    case (Some qr)
    obtain q rid where qr: "rq = Some (q, rid)" using Some by (cases qr) auto
    obtain r st1 where a: "operator_answer_to cfg env q (st\<lparr>or_next_id := nid\<rparr>) = (r, st1)" by fastforce
    from h x qr a have "or_llm st' = or_llm st1"
      unfolding operator_handle_def by (auto split: sum.splits prod.splits py_error.splits)
    with answer_to_calls [OF call a] show ?thesis by simp
  qed
qed

end

section \<open>Properties\<close>

text \<open>C16: whatever the model answers, the Operator sends the database at most one statement per request,
  and only one that begins as a SELECT or WITH and contains none of the forbidden tokens; a result it
  publishes is that of an answer satisfying the schema and reports the statement of that answer.\<close>

theorem operator_sql_guarded:
  assumes "operator_handle cfg env now ev st = (acts, st', err)"
  shows "length (filter (\<lambda>a. \<exists>q. a = RunSql q) acts) \<le> 1 \<and>
    (\<forall>q. RunSql q \<in> set acts \<longrightarrow> guarded_sql q \<and> must_be_select q = Inr q) \<and>
    (\<forall>topic m. Send (Publish topic m) \<in> set acts \<longrightarrow>
       (\<exists>a res. operator_answer_ok a \<and> m = MQueryResult res \<and> qr_sql_executed res = Some (oa_sql a) \<and>
          (\<forall>q. RunSql q \<in> set acts \<longrightarrow> q = oa_sql a)))"
  using operator_actions [OF assms] unfolding result_for_def operator_answer_ok_def
  by (elim disjE exE conjE) (fastforce)+

definition sample_operator_answer :: "string \<Rightarrow> operator_answer" where
  "sample_operator_answer metric =
     \<lparr>oa_answer_text = ''one'', oa_sql = ''SELECT 1'', oa_referenced_metrics = [metric], oa_confidence = 1\<rparr>"

text \<open>A model whose text is the metric its answer names, and a database with one row.\<close>

definition sample_operator_env :: "(string list, unit) operator_env" where
  "sample_operator_env =
     \<lparr>oe_call = scripted, oe_chroma = \<lparr>ch_query = (\<lambda>q n c. None), ch_upsert = (\<lambda>i d m c. None)\<rparr>,
      oe_cache = \<lparr>sc_threshold = 97 / 100, sc_enabled = False\<rparr>, oe_sha256 = (\<lambda>s. s), oe_runbooks = None,
      oe_predict = None,
      oe_ts = \<lparr>ts_connected = True, ts_recent = (\<lambda>d w l. None),
        ts_select = (\<lambda>q. Some [[(''host'', Plain (PStr ''a'')), (''n'', Plain (PInt 1))]]), ts_insert_ok = True\<rparr>,
      oe_parse = (\<lambda>t. Inr (sample_operator_answer t)), oe_dump = oa_answer_text, oe_schema = PNone,
      oe_schema_json = [], oe_parse_uuid = (\<lambda>s. None), oe_uuid_text = (\<lambda>u. []), oe_py_str = (\<lambda>v. []),
      oe_set_order = (\<lambda>xs. xs), oe_ok = (\<lambda>e. True)\<rparr>"

lemma sample_sql_ok: "must_be_select ''SELECT 1'' = Inr ''SELECT 1''" "guarded_sql ''SELECT 1''"
    "forbidden_in FORBIDDEN_SQL_TOKENS ''SELECT 1'' = None"
    "reads_only (upper (lstrip (lstrip_parens ''SELECT 1'')))"
  by code_simp+

lemma sample_answer_ok: "operator_answer_ok (sample_operator_answer m)"
  by (simp add: operator_answer_ok_def sample_operator_answer_def sample_sql_ok unit_interval_def)

lemma sample_ask:
  assumes "extract_json t = t"
  shows "\<exists>r. ask sample_operator_env msgs k (t # ts) =
    (if 0 \<le> k then Inr (sample_operator_answer t, r) else Inl (StructuredOutputError ''structured output failed after retries''),
     if 0 \<le> k then ts else t # ts)"
proof (cases "0 \<le> k")
  case True
  then have "nat (k + 1) = Suc (nat k)" by simp
  with True assms sample_answer_ok [of t] show ?thesis
    by (simp add: ask_def call_structured_def scripted_def sample_operator_env_def validate_answer_def)
qed (simp add: ask_def call_structured_def)

lemma extract_words: "extract_json ''fan.rpm'' = ''fan.rpm''" "extract_json ''fan.speed'' = ''fan.speed''"
  by code_simp+

lemma sample_metrics: "validate_metrics [''fan.rpm''] = []" "validate_metrics [''fan.speed''] = [''fan.speed'']"
  by (simp_all add: validate_metrics_def all_metrics_def)

text \<open>The revised answer is not checked again: a model that insists on a metric the catalogue does not have
  gets its answer through.\<close>

lemma revision_not_rechecked:
  "fst (ground_metrics operator_defaults sample_operator_env msgs (sample_operator_answer ''fan.speed'') [''fan.speed'']) =
     Inr (sample_operator_answer ''fan.speed'')"
proof -
  have "\<exists>res. ask sample_operator_env msgs' 1 [''fan.speed''] = (Inr (sample_operator_answer ''fan.speed'', res), [])" for msgs'
    using sample_ask [OF extract_words(2), of msgs' 1 "[]"] by simp
  then have "fst (res_bind (fst (ask sample_operator_env msgs' 1 [''fan.speed''])) (\<lambda>(revised, result). Inr revised), s') =
      Inr (sample_operator_answer ''fan.speed'')" for msgs' s'
    by (metis (no_types, lifting) case_prod_conv fst_conv res_bind.simps(2))
  moreover have "validate_metrics (oa_referenced_metrics (sample_operator_answer ''fan.speed'')) = [''fan.speed'']"
    by (simp add: sample_operator_answer_def sample_metrics)
  ultimately show ?thesis
    by (simp add: ground_metrics_def operator_defaults_def Let_def split_beta)
qed

definition sample_operator_state :: "(string list, unit) operator_state" where
  "sample_operator_state = \<lparr>or_llm = [''fan.rpm''], or_cache = (), or_next_id = 0\<rparr>"

theorem operator_sql_guarded_witness:
  "\<exists>acts st' err. operator_handle operator_defaults sample_operator_env 0 (PStr ''q'') sample_operator_state = (acts, st', err) \<and>
     RunSql ''SELECT 1'' \<in> set acts \<and> guarded_sql ''SELECT 1'' \<and> length acts = 2"
proof -
  obtain acts st' err where h:
    "operator_handle operator_defaults sample_operator_env 0 (PStr ''q'') sample_operator_state = (acts, st', err)"
    by (metis prod_cases3)
  have s: "strip ''q'' = ''q''" by code_simp
  have x: "extract_request sample_operator_env (PStr ''q'') 0 = (Some (''q'', 0), 1)"
    by (simp add: extract_request_def s)
  have c: "cached_answer sample_operator_env ''q'' () = None"
    by (simp add: cached_answer_def cache_get_def sample_operator_env_def)
  have r: "retrieve_runbooks operator_defaults sample_operator_env ''q'' = Inr []"
    by (simp add: retrieve_runbooks_def sample_operator_env_def)
  obtain res where k: "ask sample_operator_env [message ''user'' (build_context sample_operator_env ''q'' [])] 2 [''fan.rpm''] =
      (Inr (sample_operator_answer ''fan.rpm'', res), [])"
    using sample_ask [of "''fan.rpm''" _ 2 "[]"] extract_words(1) by fastforce
  have g: "ground_metrics operator_defaults sample_operator_env msgs (sample_operator_answer ''fan.rpm'') s =
      (Inr (sample_operator_answer ''fan.rpm''), s)" for msgs s
    by (simp add: ground_metrics_def sample_operator_answer_def sample_metrics)
  have "fst (operator_answer_to operator_defaults sample_operator_env ''q'' (sample_operator_state\<lparr>or_next_id := 1\<rparr>)) =
      Inr (sample_operator_answer ''fan.rpm'', [])"
    by (simp add: operator_answer_to_def sample_operator_state_def c r k g)
  then obtain st1 where a: "operator_answer_to operator_defaults sample_operator_env ''q'' (sample_operator_state\<lparr>or_next_id := 1\<rparr>) =
      (Inr (sample_operator_answer ''fan.rpm'', []), st1)" by (metis prod.collapse)
  have e: "execute_sql (oe_ts sample_operator_env) (oa_sql (sample_operator_answer ''fan.rpm'')) =
      ([[(''host'', Plain (PStr ''a'')), (''n'', Plain (PInt 1))]], [RunSql ''SELECT 1''])"
    by (simp add: execute_sql_def execute_select_def sample_operator_env_def sample_operator_answer_def sample_sql_ok)
  obtain chart where "chart_spec (oe_py_str sample_operator_env) (oe_set_order sample_operator_env)
      [[(''host'', Plain (PStr ''a'')), (''n'', Plain (PInt 1))]] ''q'' = Inr chart"
    by (simp add: chart_spec_def bar_spec_def column_def field_def cell_is_num_def cell_is_str_def)
  then have "RunSql ''SELECT 1'' \<in> set acts" "length acts = 2"
    using h x a e by (auto simp: operator_handle_def sample_operator_state_def split: sum.splits)
  with operator_sql_guarded [OF h] h show ?thesis by blast
qed

end
