(* ===== verification/Forensic.thy ===== *)
theory Forensic
  imports Quality Retrieval
begin

text \<open>
  The Forensic agent (\<open>apps/agents/forensic/main.py\<close>): a predicted failure becomes a root-cause
  analysis, checked by a critic and against the knowledge graph, persisted and published.

  As for the Operator, the state is that of the language model client and of the cache's collection; the
  environment holds the databases, the collections and the parser of the answer. \<open>dump\<close> is
  \<open>model_dump_json()\<close> of an analysis and \<open>fmt_time\<close> the \<open>isoformat()\<close> of an instant.
\<close>

record forensic_config =
  fc_site_id :: string
  fc_verifier :: bool
  fc_kg_ground :: bool
  fc_critic_system :: string

record ('s, 'c) forensic_env =
  fe_call :: "llm_request \<Rightarrow> 's \<Rightarrow> llm_result res \<times> 's"
  fe_chroma :: "'c chroma"
  fe_cache :: semantic_cache
  fe_sha256 :: "string \<Rightarrow> string"
  fe_few_shot :: "'c chroma"
  fe_few_shot_enabled :: bool
  fe_kg :: knowledge_graph
  fe_ts :: timescale
  fe_parse :: "string \<Rightarrow> string + incident_rca"
  fe_dump :: "incident_rca \<Rightarrow> string"
  fe_schema :: pyval
  fe_schema_json :: string
  fe_py_str :: "pyval \<Rightarrow> string"
  fe_fmt_time :: "real \<Rightarrow> string"

record ('s, 'c) forensic_state =
  fs_llm :: 's
  fs_cache :: 'c
  fs_next_id :: uuid

record incident_row =
  in_incident_id :: uuid
  in_opened_at :: real
  in_site_id :: string
  in_severity :: string
  in_affected_devices :: "string list"
  in_top_hypotheses :: "dict list"
  in_confidence :: real
  in_llm_cost_usd :: real
  in_llm_model_used :: "string option"
  in_trace_id :: "uuid option"

datatype forensic_action =
    InsertIncident incident_row
  | RegisterIncident uuid string string "string list"
  | Report "bus_msg effect"

definition RCA_SYSTEM :: string where
  "RCA_SYSTEM =
     ''You are the Forensic agent for a multi-site data center operations platform. ''
     @ ''Given a PredictedFailure event and surrounding telemetry context, produce a ''
     @ ''root-cause analysis. Be concise. Reference only device IDs and metric names ''
     @ ''that appear in the supplied context '' @ em_dash @ '' do not invent identifiers. Provide ''
     @ ''between 1 and 5 ranked hypotheses, each with concrete evidence.''"

definition SEVERITY_FROM_CONFIDENCE :: "(real \<times> string) list" where
  "SEVERITY_FROM_CONFIDENCE =
     [(9 / 10, ''critical''), (7 / 10, ''error''), (4 / 10, ''warn''), (0, ''info'')]"

definition severity_for :: "real \<Rightarrow> string" where
  "severity_for confidence =
     (case find (\<lambda>(cutoff, label). cutoff \<le> confidence) SEVERITY_FROM_CONFIDENCE of
        Some (cutoff, label) \<Rightarrow> label | None \<Rightarrow> ''info'')"

section \<open>The context\<close>

definition fixed1 :: "real \<Rightarrow> string" where
  "fixed1 x =
     (let n = nat (py_round (10 * \<bar>x\<bar>))
      in (if x < 0 then ''-'' else []) @ str_of_nat (n div 10) @ ''.'' @ str_of_nat (n mod 10))"

definition cell_or :: "(pyval \<Rightarrow> string) \<Rightarrow> row \<Rightarrow> string \<Rightarrow> pyval \<Rightarrow> string" where
  "cell_or py_str r k v =
     (case map_of r k of None \<Rightarrow> shown py_str v | Some (Plain w) \<Rightarrow> shown py_str w | Some (Stamp isof txt) \<Rightarrow> txt)"

definition telemetry_line :: "(pyval \<Rightarrow> string) \<Rightarrow> row \<Rightarrow> string" where
  "telemetry_line py_str r =
     (let val = (case map_of r ''value_num'' of
                   None \<Rightarrow> cell_or py_str r ''value_str'' (PStr [])
                 | Some (Plain PNone) \<Rightarrow> cell_or py_str r ''value_str'' (PStr [])
                 | Some c \<Rightarrow> cell_or py_str r ''value_num'' PNone);
          unit = (case map_of r ''unit'' of
                    Some (Plain w) \<Rightarrow> if truthy w then shown py_str w else []
                  | None \<Rightarrow> [] | Some (Stamp isof txt) \<Rightarrow> txt)
      in ''  - '' @ cell_or py_str r ''time'' PNone @ '' '' @ cell_or py_str r ''metric'' (PStr ''?'') @ ''='' @ val @ unit)"

definition format_telemetry :: "(pyval \<Rightarrow> string) \<Rightarrow> row list \<Rightarrow> string" where
  "format_telemetry py_str rows =
     (if rows = [] then ''  (no telemetry available)''
      else join_with newline (map (telemetry_line py_str) (take 30 rows)))"

definition subgraph_line :: "(pyval \<Rightarrow> string) \<Rightarrow> dict \<Rightarrow> string" where
  "subgraph_line py_str r =
     (let get = (\<lambda>k. shown py_str (get_def r k PNone))
      in ''  - '' @ get ''id'' @ '' ('' @ get ''type'' @ '') model='' @ get ''model'' @ '' distance='' @ get ''distance'')"

definition format_subgraph :: "(pyval \<Rightarrow> string) \<Rightarrow> dict list \<Rightarrow> string" where
  "format_subgraph py_str rows =
     (if rows = [] then ''  (no dependency data available)''
      else join_with newline (map (subgraph_line py_str) (take 30 rows)))"

definition rca_context :: "('s, 'c) forensic_env \<Rightarrow> predicted_failure \<Rightarrow> string" where
  "rca_context env event =
     (let rows = recent_telemetry (fe_ts env) (pf_device_id event) 300 60;
          sub = dependency_subgraph (fe_kg env) (pf_device_id event) 2
      in ''Site: '' @ ev_site_id event @ newline
         @ ''Device: '' @ pf_device_id event @ '' ('' @ pf_device_type event @ '')'' @ newline
         @ ''Predicted failure kind: '' @ pf_failure_kind event @ newline
         @ ''Probability: '' @ fixed2 (pf_probability event) @ newline
         @ ''Horizon: '' @ fixed1 (pf_horizon_hours event) @ ''h'' @ newline
         @ ''Sentinel evidence: '' @ fe_py_str env (PDict (pf_evidence event)) @ newline @ newline
         @ ''Recent telemetry ('' @ str_of_nat (length rows) @ '' samples in last 5 min):'' @ newline
         @ format_telemetry (fe_py_str env) rows @ newline @ newline
         @ ''Dependency neighbors ('' @ str_of_nat (length sub) @ '' within 2 hops):'' @ newline
         @ format_subgraph (fe_py_str env) sub)"

section \<open>The analysis\<close>

definition rca_request :: "pyval list \<Rightarrow> llm_request" where
  "rca_request msgs =
     \<lparr>rq_task_class = RCA, rq_system = RCA_SYSTEM, rq_messages = msgs, rq_max_tokens = 2048,
      rq_force_tier = None, rq_temperature = Some 0, rq_response_format = None\<rparr>"

definition ask_rca :: "('s, 'c) forensic_env \<Rightarrow> pyval list \<Rightarrow> int \<Rightarrow> 's \<Rightarrow> (incident_rca \<times> llm_result) res \<times> 's" where
  "ask_rca env msgs max_retries s =
     call_structured (fe_call env) (validate_answer (fe_parse env) incident_rca_ok) (fe_schema env)
       (fe_schema_json env) (rca_request msgs) max_retries s"

definition call_with_quality :: "forensic_config \<Rightarrow> ('s, 'c) forensic_env \<Rightarrow> pyval list \<Rightarrow> 's \<Rightarrow>
    incident_rca res \<times> 's" where
  "call_with_quality cfg env msgs s =
     (case ask_rca env msgs 2 s of
        (Inl e, s1) \<Rightarrow> (Inl e, s1)
      | (Inr (rca, result), s1) \<Rightarrow>
          if \<not> fc_verifier cfg then (Inr rca, s1)
          else let review = msgs @ [message ''assistant'' (fe_dump env rca),
                      message ''user'' ''Review the above RCA. Return a corrected RCA if needed.'']
               in case with_verifier (fe_call env) (fe_py_str env)
                         \<lparr>cr_system = fc_critic_system cfg, cr_tier = None\<rparr> (rca_request review) 1 s1 of
                    (Inl e, s2) \<Rightarrow> (Inl e, s2)
                  | (Inr verified, s2) \<Rightarrow>
                      (case validate_answer (fe_parse env) incident_rca_ok (lr_text verified) of
                         Inl exc \<Rightarrow> (Inr rca, s2)
                       | Inr better \<Rightarrow> (Inr better, s2)))"

definition kg_ground :: "('s, 'c) forensic_env \<Rightarrow> incident_rca \<Rightarrow> pyval list \<Rightarrow> 's \<Rightarrow> incident_rca res \<times> 's" where
  "kg_ground env rca msgs s =
     (let unknown = kg_validate_device_ids (fe_kg env) (all_device_ids rca)
      in if unknown = [] then (Inr rca, s)
         else let hint = format_grounding_errors [] unknown []
              in case ask_rca env (msgs @ [message ''assistant'' (fe_dump env rca),
                            message ''user'' (case hint of None \<Rightarrow> [] | Some h \<Rightarrow> h)]) 1 s of
                   (Inr (revised, result), s1) \<Rightarrow> (Inr revised, s1)
                 | (Inl (StructuredOutputError exc), s1) \<Rightarrow> (Inr rca, s1)
                 | (Inl e, s1) \<Rightarrow> (Inl e, s1))"

definition cached_rca :: "('s, 'c) forensic_env \<Rightarrow> string \<Rightarrow> 'c \<Rightarrow> incident_rca option" where
  "cached_rca env ctx c =
     (case cache_get (fe_chroma env) (fe_cache env) ctx c of
        None \<Rightarrow> None
      | Some text \<Rightarrow>
          (case validate_answer (fe_parse env) incident_rca_ok text of Inl exc \<Rightarrow> None | Inr a \<Rightarrow> Some a))"

definition analyze :: "forensic_config \<Rightarrow> ('s, 'c) forensic_env \<Rightarrow> predicted_failure \<Rightarrow> ('s, 'c) forensic_state \<Rightarrow>
    incident_rca res \<times> ('s, 'c) forensic_state" where
  "analyze cfg env event st =
     (let ctx = rca_context env event
      in case cached_rca env ctx (fs_cache st) of
           Some rca \<Rightarrow> (Inr rca, st)
         | None \<Rightarrow>
             let examples = few_shot_retrieve (fe_few_shot env) (fe_few_shot_enabled env) ctx 3 (fs_cache st);
                 msgs = [message ''user'' (format_as_examples (fe_py_str env) examples @ newline @ newline
                           @ ''CURRENT INCIDENT:'' @ newline @ ctx)]
             in case call_with_quality cfg env msgs (fs_llm st) of
                  (Inl e, s1) \<Rightarrow> (Inl e, st\<lparr>fs_llm := s1\<rparr>)
                | (Inr rca, s1) \<Rightarrow>
                    (case (if fc_kg_ground cfg then kg_ground env rca msgs s1 else (Inr rca, s1)) of
                       (Inl e, s2) \<Rightarrow> (Inl e, st\<lparr>fs_llm := s2\<rparr>)
                     | (Inr grounded, s2) \<Rightarrow>
                         (Inr grounded,
                          st\<lparr>fs_llm := s2,
                             fs_cache := cache_put (fe_sha256 env) (fe_chroma env) (fe_cache env) ctx
                               (fe_dump env grounded)
                               [(''agent'', PStr ''forensic''), (''site_id'', PStr (fc_site_id cfg))] (fs_cache st)\<rparr>)))"

section \<open>The report\<close>

definition hypothesis_dump :: "rca_hypothesis \<Rightarrow> dict" where
  "hypothesis_dump h =
     [(''cause'', PStr (hy_cause h)), (''probability'', PFloat (hy_probability h)),
      (''evidence_summary'', PStr (hy_evidence_summary h)),
      (''affected_device_ids'', PList (map PStr (hy_affected_device_ids h)))]"

definition incident_row_of :: "real \<Rightarrow> uuid \<Rightarrow> predicted_failure \<Rightarrow> incident_rca \<Rightarrow> incident_row" where
  "incident_row_of now incident_id event rca =
     \<lparr>in_incident_id = incident_id, in_opened_at = now, in_site_id = ev_site_id event,
      in_severity = severity_for (rca_confidence rca), in_affected_devices = all_device_ids rca,
      in_top_hypotheses = map hypothesis_dump (rca_top_hypotheses rca), in_confidence = rca_confidence rca,
      in_llm_cost_usd = 0, in_llm_model_used = None, in_trace_id = ev_trace_id event\<rparr>"

definition incident_event :: "real \<Rightarrow> uuid \<Rightarrow> uuid \<Rightarrow> predicted_failure \<Rightarrow> incident_rca \<Rightarrow> incident_report" where
  "incident_event now incident_id eid event rca =
     bus_event.extend
       (envelope eid now (ev_site_id event) (ev_trace_id event) (Some (ev_id event))
          [(''summary'', PStr (rca_incident_summary rca)),
           (''recommended_action'', PStr (rca_recommended_action rca))])
       (incident_report.fields incident_id (all_device_ids rca) (map hypothesis_dump (rca_top_hypotheses rca)) []
          (rca_confidence rca) 0 None)"

definition persist_and_publish :: "('s, 'c) forensic_env \<Rightarrow> real \<Rightarrow> predicted_failure \<Rightarrow> incident_rca \<Rightarrow>
    ('s, 'c) forensic_state \<Rightarrow> forensic_action list \<times> ('s, 'c) forensic_state" where
  "persist_and_publish env now event rca st =
     (let incident_id = fs_next_id st; eid = Suc incident_id
      in ((if ts_connected (fe_ts env) then [InsertIncident (incident_row_of now incident_id event rca)] else [])
          @ (if kg_connected (fe_kg env)
             then [RegisterIncident incident_id (fe_fmt_time env now) (severity_for (rca_confidence rca)) (all_device_ids rca)]
             else [])
          @ [Report (Publish (topic_value INCIDENTS_REPORT) (MIncident (incident_event now incident_id eid event rca)))],
          st\<lparr>fs_next_id := Suc eid\<rparr>))"

definition forensic_handle :: "forensic_config \<Rightarrow> ('s, 'c) forensic_env \<Rightarrow> real \<Rightarrow> predicted_failure \<Rightarrow>
    ('s, 'c) forensic_state \<Rightarrow> forensic_action list \<times> ('s, 'c) forensic_state \<times> py_error option" where
  "forensic_handle cfg env now event st =
     (case analyze cfg env event st of
        (Inl (StructuredOutputError exc), st1) \<Rightarrow> ([], st1, None)
      | (Inl e, st1) \<Rightarrow> ([], st1, Some e)
      | (Inr rca, st1) \<Rightarrow>
          let (acts, st2) = persist_and_publish env now event rca st1 in (acts, st2, None))"

section \<open>Lemmas\<close>

text \<open>What a validated schema gives, whichever part of the pipeline produced the analysis.\<close>

lemma ask_rca_ok: "ask_rca env msgs k s = (Inr (a, r), s') \<Longrightarrow> incident_rca_ok a"
  unfolding ask_rca_def by (auto simp: validate_answer_Inr dest!: structured_validated)

lemma call_with_quality_ok:
  assumes "call_with_quality cfg env msgs s = (Inr a, s')"
  shows "incident_rca_ok a"
proof -
  obtain rca r s1 where q: "ask_rca env msgs 2 s = (Inr (rca, r), s1)"
    using assms by (cases "ask_rca env msgs 2 s" rule: prod.exhaust) (auto simp: call_with_quality_def split: sum.splits)
  have ok: "incident_rca_ok rca" by (rule ask_rca_ok [OF q])
  show ?thesis
  proof (cases "fc_verifier cfg")
    case True
    from assms q True have "a = rca \<or> (\<exists>t. validate_answer (fe_parse env) incident_rca_ok t = Inr a)"
      unfolding call_with_quality_def Let_def by (auto split: prod.splits sum.splits)
    with ok show ?thesis by (auto simp: validate_answer_Inr)
  qed (use assms q ok in \<open>simp add: call_with_quality_def\<close>)
qed

lemma kg_ground_ok: "kg_ground env rca msgs s = (Inr a, s') \<Longrightarrow> incident_rca_ok rca \<Longrightarrow> incident_rca_ok a"
  by (auto simp: kg_ground_def Let_def split: prod.splits sum.splits if_splits py_error.splits
      dest: ask_rca_ok)

lemma analyze_ok: "analyze cfg env event st = (Inr a, st') \<Longrightarrow> incident_rca_ok a"
  by (auto simp: analyze_def Let_def cached_rca_def validate_answer_Inr
      split: prod.splits sum.splits if_splits option.splits
      dest: call_with_quality_ok kg_ground_ok)

context llm_client
begin

lemma ask_rca_calls:
  "fe_call env = call \<Longrightarrow> ask_rca env msgs k s = (x, s') \<Longrightarrow> extends_by (nat (k + 1)) (charges s) (charges s')"
  unfolding ask_rca_def by (rule structured_calls) simp

lemma call_with_quality_calls:
  assumes call: "fe_call env = call" and c: "call_with_quality cfg env msgs s = (x, s')"
  shows "extends_by 6 (charges s) (charges s')"
proof -
  obtain y s1 where a: "ask_rca env msgs 2 s = (y, s1)" by fastforce
  have 3: "extends_by 3 (charges s) (charges s1)" using ask_rca_calls [OF call a] by simp
  from c a have "s' = s1 \<or> (\<exists>shown cr rq z. with_verifier call shown cr rq 1 s1 = (z, s'))"
    unfolding call_with_quality_def Let_def call [symmetric]
    by (auto split: sum.splits prod.splits if_splits)
  then show ?thesis
    using 3 extends_by_trans [OF 3 verifier_calls, of _ _ _ 1 _ s' 6] by (fastforce simp: extends_by_def)
qed

lemma kg_ground_calls:
  assumes "fe_call env = call" "kg_ground env rca msgs s = (x, s')"
  shows "extends_by 2 (charges s) (charges s')"
  using assms(2) ask_rca_calls [OF assms(1), of _ 1 s]
  by (fastforce simp: kg_ground_def Let_def split: if_splits prod.splits sum.splits py_error.splits)

lemma analyze_calls:
  assumes call: "fe_call env = call" and a: "analyze cfg env event st = (x, st')"
  shows "extends_by 8 (charges (fs_llm st)) (charges (fs_llm st'))"
proof (cases "cached_rca env (rca_context env event) (fs_cache st)")
  case (Some rca)
  with a show ?thesis by (simp add: analyze_def Let_def)
next
  case None
  define msgs where "msgs = [message ''user'' (format_as_examples (fe_py_str env)
    (few_shot_retrieve (fe_few_shot env) (fe_few_shot_enabled env) (rca_context env event) 3 (fs_cache st))
    @ newline @ newline @ ''CURRENT INCIDENT:'' @ newline @ rca_context env event)]"
  obtain y s1 where q: "call_with_quality cfg env msgs (fs_llm st) = (y, s1)" by fastforce
  have 6: "extends_by 6 (charges (fs_llm st)) (charges s1)" by (rule call_with_quality_calls [OF call q])
  from a None q have "fs_llm st' = s1 \<or> (\<exists>rca z. kg_ground env rca msgs s1 = (z, fs_llm st'))"
    unfolding analyze_def Let_def msgs_def [symmetric]
    by (auto split: sum.splits prod.splits if_splits)
  then show ?thesis
    using 6 extends_by_trans [OF 6 kg_ground_calls [OF call]] by (fastforce simp: extends_by_def)
qed

lemma forensic_calls:
  assumes "fe_call env = call" "forensic_handle cfg env now event st = (acts, st', err)"
  shows "extends_by 8 (charges (fs_llm st)) (charges (fs_llm st'))"
proof -
  obtain r st1 where a: "analyze cfg env event st = (r, st1)" by fastforce
  from assms(2) a have "fs_llm st' = fs_llm st1"
    by (auto simp: forensic_handle_def persist_and_publish_def Let_def split: sum.splits py_error.splits)
  with analyze_calls [OF assms(1) a] show ?thesis by simp
qed

end

lemma incident_event_fields [simp]:
  "ir_incident_id (incident_event now i eid event rca) = i"
  "ir_affected_device_ids (incident_event now i eid event rca) = all_device_ids rca"
  "ir_top_hypotheses (incident_event now i eid event rca) = map hypothesis_dump (rca_top_hypotheses rca)"
  "ir_confidence (incident_event now i eid event rca) = rca_confidence rca"
  "ev_parent_event_id (incident_event now i eid event rca) = Some (ev_id event)"
  "ev_trace_id (incident_event now i eid event rca) = ev_trace_id event"
  "ev_site_id (incident_event now i eid event rca) = ev_site_id event"
  "ev_id (incident_event now i eid event rca) = eid"
  by (simp_all add: incident_event_def incident_report.defs bus_event.defs envelope_def)

lemma forensic_report_fields:
  assumes "forensic_handle cfg env now event st = (acts, st', err)" and "Report (Publish t (MIncident rep)) \<in> set acts"
  shows "ev_parent_event_id rep = Some (ev_id event) \<and> ev_site_id rep = ev_site_id event \<and>
    (\<exists>rca. incident_rca_ok rca \<and> ir_affected_device_ids rep = all_device_ids rca)"
proof -
  obtain r st1 where a: "analyze cfg env event st = (r, st1)" by fastforce
  with assms obtain rca where r: "r = Inr rca"
    by (auto simp: forensic_handle_def split: sum.splits py_error.splits)
  have "incident_rca_ok rca" using analyze_ok a r by metis
  moreover have "rep = incident_event now (fs_next_id st1) (Suc (fs_next_id st1)) event rca"
    using assms a r by (auto simp: forensic_handle_def persist_and_publish_def Let_def split: if_splits)
  ultimately show ?thesis by auto
qed

section \<open>Properties\<close>


definition sample_rca :: incident_rca where
  "sample_rca =
     \<lparr>rca_incident_summary = ''fan failure'',
      rca_top_hypotheses = [\<lparr>hy_cause = ''fan'', hy_probability = 1, hy_evidence_summary = ''rpm 0'',
         hy_affected_device_ids = [''fra-h1-r07-srv01'', ''fra-h1-r07-srv02'', ''fra-h1-r07-srv01'']\<rparr>],
      rca_confidence = 8 / 10, rca_recommended_action = ''replace''\<rparr>"

definition sample_forensic_env :: "(string list, unit) forensic_env" where
  "sample_forensic_env =
     \<lparr>fe_call = scripted, fe_chroma = \<lparr>ch_query = (\<lambda>q n c. None), ch_upsert = (\<lambda>i d m c. None)\<rparr>,
      fe_cache = \<lparr>sc_threshold = 97 / 100, sc_enabled = False\<rparr>, fe_sha256 = (\<lambda>s. s),
      fe_few_shot = \<lparr>ch_query = (\<lambda>q n c. None), ch_upsert = (\<lambda>i d m c. None)\<rparr>, fe_few_shot_enabled = False,
      fe_kg = \<lparr>kg_connected = True, kg_missing_devices = (\<lambda>ids. Some []), kg_missing_sites = (\<lambda>ids. Some []),
        kg_neighbours = (\<lambda>d h. None), kg_register_ok = True\<rparr>,
      fe_ts = \<lparr>ts_connected = True, ts_recent = (\<lambda>d w l. None), ts_select = (\<lambda>q. None), ts_insert_ok = True\<rparr>,
      fe_parse = (\<lambda>t. Inr sample_rca), fe_dump = rca_incident_summary, fe_schema = PNone, fe_schema_json = [],
      fe_py_str = (\<lambda>v. []), fe_fmt_time = (\<lambda>t. ''2026-01-01T00:00:00+00:00'')\<rparr>"

definition sample_forensic_config :: forensic_config where
  "sample_forensic_config =
     \<lparr>fc_site_id = ''iad-01'', fc_verifier = False, fc_kg_ground = True, fc_critic_system = []\<rparr>"

definition sample_prediction :: predicted_failure where
  "sample_prediction =
     bus_event.extend (envelope 7 0 ''iad-01'' (Some 6) None [])
       (predicted_failure.fields ''fra-h1-r07-srv01'' ''server'' ''fan_failure'' (9 / 10) 24 [])"

lemma sample_rca_ok: "incident_rca_ok sample_rca"
  by (simp add: incident_rca_ok_def sample_rca_def rca_hypothesis_ok_def unit_interval_def)

lemma sample_analysis:
  "fst (analyze sample_forensic_config sample_forensic_env ev \<lparr>fs_llm = [t], fs_cache = (), fs_next_id = 0\<rparr>) = Inr sample_rca"
proof -
  have ask: "\<exists>r. ask_rca sample_forensic_env msgs 2 [t] = (Inr (sample_rca, r), [])" for msgs
    using sample_rca_ok
    by (simp add: ask_rca_def call_structured_def sample_forensic_env_def scripted_def validate_answer_def
        eval_nat_numeral)
  have q: "call_with_quality sample_forensic_config sample_forensic_env msgs [t] = (Inr sample_rca, [])" for msgs
  proof -
    obtain r where "ask_rca sample_forensic_env msgs 2 [t] = (Inr (sample_rca, r), [])"
      using ask by blast
    then show ?thesis by (simp add: call_with_quality_def sample_forensic_config_def)
  qed
  have "cached_rca sample_forensic_env ctx () = None" for ctx
    by (simp add: cached_rca_def cache_get_def sample_forensic_env_def)
  moreover have "kg_ground sample_forensic_env sample_rca msgs s = (Inr sample_rca, s)" for msgs and s :: "string list"
    by (simp add: kg_ground_def kg_validate_device_ids_def sample_forensic_env_def Let_def)
  ultimately show ?thesis by (simp add: analyze_def q Let_def)
qed

lemma sample_forensic_run:
  "\<exists>acts st' rep. forensic_handle sample_forensic_config sample_forensic_env now ev
     \<lparr>fs_llm = [t], fs_cache = (), fs_next_id = 0\<rparr> = (acts, st', None) \<and> length acts = 3 \<and>
   Report (Publish (topic_value INCIDENTS_REPORT) (MIncident rep)) \<in> set acts \<and>
   ir_affected_device_ids rep = [''fra-h1-r07-srv01'', ''fra-h1-r07-srv02'']"
proof -
  obtain st1 where a: "analyze sample_forensic_config sample_forensic_env ev
      \<lparr>fs_llm = [t], fs_cache = (), fs_next_id = 0\<rparr> = (Inr sample_rca, st1)"
    using sample_analysis [of ev t] by (metis prod.collapse)
  moreover have "all_device_ids sample_rca = [''fra-h1-r07-srv01'', ''fra-h1-r07-srv02'']"
    by (simp add: all_device_ids_def sample_rca_def)
  ultimately show ?thesis
    by (auto simp: forensic_handle_def persist_and_publish_def sample_forensic_env_def Let_def)
qed


end
