(* ===== verification/FleetView.thy ===== *)
theory FleetView
  imports Grounding "HOL-Library.Multiset"
begin

text \<open>
  Liveness of the agents: the heartbeats every agent writes (\<open>apps/agents/shared/base.py\<close>) and the
  snapshot of the fleet the control plane builds from them (\<open>apps/control_plane/fleet_view.py\<close>).

  Redis is a parameter: the keys of a scan (\<open>None\<close> where it raises), the value at a key (the outer
  \<open>None\<close> where the read raises) and \<open>decode\<close> for \<open>json.loads\<close>. The rows of the incident count are a
  function of the site, \<open>None\<close> where the query raises; \<open>fmt\<close> prints an instant.
\<close>

section \<open>Heartbeats\<close>

definition HEARTBEAT_INTERVAL_S :: real where "HEARTBEAT_INTERVAL_S = 10"
definition HEARTBEAT_TTL_S :: int where "HEARTBEAT_TTL_S = 30"

definition heartbeat_key :: "string \<Rightarrow> string \<Rightarrow> string" where
  "heartbeat_key site_id agent_name = ''agent:'' @ site_id @ '':'' @ agent_name @ '':heartbeat''"

definition heartbeat_payload :: "string \<Rightarrow> string \<Rightarrow> real \<Rightarrow> int \<Rightarrow> dict" where
  "heartbeat_payload agent_name site_id now pid =
     [(''agent'', PStr agent_name), (''site_id'', PStr site_id), (''last_seen_ts'', PFloat now),
      (''pid'', PInt pid)]"

text \<open>One round of the heartbeat loop; a failing write is logged and the loop goes on.\<close>

definition heartbeat_round :: "string \<Rightarrow> string \<Rightarrow> int \<Rightarrow> real \<Rightarrow> dict effect" where
  "heartbeat_round agent_name site_id pid now =
     SetEx (heartbeat_key site_id agent_name) (heartbeat_payload agent_name site_id now pid) HEARTBEAT_TTL_S"

text \<open>The loop from its start: \<open>n\<close> rounds, each a sleep after the one before.\<close>

fun heartbeat_loop :: "string \<Rightarrow> string \<Rightarrow> int \<Rightarrow> nat \<Rightarrow> real \<Rightarrow> (real \<times> dict effect) list" where
  "heartbeat_loop agent_name site_id pid 0 now = []"
| "heartbeat_loop agent_name site_id pid (Suc n) now =
     (now, heartbeat_round agent_name site_id pid now)
       # heartbeat_loop agent_name site_id pid n (now + HEARTBEAT_INTERVAL_S)"

section \<open>The snapshot\<close>

record fleet_config =
  fl_interval_s :: real
  fl_heartbeat_stale_s :: real
  fl_expected_raw :: "string option"

definition fleet_defaults :: fleet_config where
  "fleet_defaults = \<lparr>fl_interval_s = 5, fl_heartbeat_stale_s = 60, fl_expected_raw = None\<rparr>"

definition SNAPSHOT_KEY :: string where "SNAPSHOT_KEY = ''fleet:snapshot''"

definition EXPECTED_AGENTS_PER_SITE :: "string list" where
  "EXPECTED_AGENTS_PER_SITE =
     [''sentinel'', ''forensic'', ''operator'', ''optimizer'', ''planner'', ''executor'', ''rollback'']"

definition expected_agents :: "fleet_config \<Rightarrow> string list" where
  "expected_agents cfg =
     (case fl_expected_raw cfg of
        None \<Rightarrow> EXPECTED_AGENTS_PER_SITE
      | Some raw \<Rightarrow>
          if raw = [] then EXPECTED_AGENTS_PER_SITE
          else filter (\<lambda>a. a \<noteq> []) (map strip (split_on (CHR '','') raw)))"

record fleet_env =
  fv_keys :: "string list option"
  fv_get :: "string \<Rightarrow> string option option"
  fv_decode :: "string \<Rightarrow> pyval option"
  fv_str :: "pyval \<Rightarrow> string"
  fv_float :: "string \<Rightarrow> real option"
  fv_ts_enabled :: bool
  fv_incident_rows :: "string \<Rightarrow> row list option"
  fv_fmt :: "real \<Rightarrow> string"

record live_agent =
  la_agent :: string
  la_last_seen_ts :: real
  la_pid :: pyval

record site_view =
  sv_site_id :: string
  sv_live_agents :: "live_agent list"
  sv_most_recent_heartbeat_ts :: real
  sv_incidents_last_hour :: int
  sv_n_live_agents :: nat
  sv_missing_agents :: "string list"
  sv_status :: string

definition new_site :: "string \<Rightarrow> site_view" where
  "new_site site_id =
     \<lparr>sv_site_id = site_id, sv_live_agents = [], sv_most_recent_heartbeat_ts = 0,
      sv_incidents_last_hour = 0, sv_n_live_agents = 0, sv_missing_agents = [], sv_status = []\<rparr>"

text \<open>\<open>str(v)\<close>, the identity on a text.\<close>

definition py_text :: "fleet_env \<Rightarrow> pyval \<Rightarrow> string" where
  "py_text env v = (case v of PStr s \<Rightarrow> s | _ \<Rightarrow> fv_str env v)"

text \<open>The heartbeat at a key: \<open>None\<close> where the loop continues without one.\<close>

definition read_heartbeat :: "fleet_env \<Rightarrow> string \<Rightarrow> (string \<times> live_agent) option res" where
  "read_heartbeat env key =
     (case fv_get env key of
        Some (Some raw) \<Rightarrow>
          (case fv_decode env raw of
             None \<Rightarrow> Inr None
           | Some (PDict hb) \<Rightarrow>
               res_bind (py_float (fv_float env) (get_def hb ''last_seen_ts'' (PFloat 0))) (\<lambda>seen.
                 Inr (Some (py_text env (get_def hb ''site_id'' (PStr ''unknown'')),
                            \<lparr>la_agent = py_text env (get_def hb ''agent'' (PStr ''unknown'')),
                             la_last_seen_ts = seen, la_pid = get_def hb ''pid'' PNone\<rparr>)))
           | Some v \<Rightarrow> Inl (AttributeError ''get''))
      | _ \<Rightarrow> Inr None)"

definition add_heartbeat :: "(string \<times> site_view) list \<Rightarrow> string \<times> live_agent \<Rightarrow> (string \<times> site_view) list" where
  "add_heartbeat sites = (\<lambda>(site_id, a).
     let site = get_def sites site_id (new_site site_id)
     in AList.update site_id
          (site\<lparr>sv_live_agents := sv_live_agents site @ [a],
               sv_most_recent_heartbeat_ts := max (sv_most_recent_heartbeat_ts site) (la_last_seen_ts a)\<rparr>) sites)"

fun heartbeat_scan :: "fleet_env \<Rightarrow> string list \<Rightarrow> (string \<times> site_view) list \<Rightarrow> (string \<times> site_view) list res" where
  "heartbeat_scan env [] sites = Inr sites"
| "heartbeat_scan env (key # keys) sites =
     res_bind (read_heartbeat env key) (\<lambda>hb.
       heartbeat_scan env keys (case hb of None \<Rightarrow> sites | Some b \<Rightarrow> add_heartbeat sites b))"

definition check_site :: "fleet_config \<Rightarrow> real \<Rightarrow> site_view \<Rightarrow> site_view" where
  "check_site cfg now site =
     (let fresh = filter (\<lambda>a. now - la_last_seen_ts a < fl_heartbeat_stale_s cfg) (sv_live_agents site);
          missing = sorted_set (filter (\<lambda>n. n \<notin> la_agent ` set fresh) (expected_agents cfg))
      in site\<lparr>sv_live_agents := fresh, sv_n_live_agents := length fresh, sv_missing_agents := missing,
              sv_status := (if missing = [] then ''ok'' else ''degraded'')\<rparr>)"

definition count_incidents :: "fleet_env \<Rightarrow> site_view \<Rightarrow> site_view" where
  "count_incidents env site =
     (if \<not> fv_ts_enabled env then site
      else case fv_incident_rows env (sv_site_id site) of
             Some (r # _) \<Rightarrow>
               (case map_of r ''c'' of
                  Some (Plain v) \<Rightarrow>
                    (case num_of v of None \<Rightarrow> site | Some n \<Rightarrow> site\<lparr>sv_incidents_last_hour := py_trunc n\<rparr>)
                | _ \<Rightarrow> site)
           | _ \<Rightarrow> site)"

record fleet_snapshot =
  sn_generated_at :: string
  sn_fleet_status :: string
  sn_n_sites :: nat
  sn_n_live_agents :: nat
  sn_total_incidents_last_hour :: int
  sn_sites :: "site_view list"

definition build_snapshot :: "fleet_config \<Rightarrow> fleet_env \<Rightarrow> real \<Rightarrow> fleet_snapshot res" where
  "build_snapshot cfg env now =
     res_bind (heartbeat_scan env (case fv_keys env of None \<Rightarrow> [] | Some keys \<Rightarrow> keys) []) (\<lambda>found.
       let sites = map (count_incidents env \<circ> check_site cfg now \<circ> snd) found
       in Inr \<lparr>sn_generated_at = fv_fmt env now,
               sn_fleet_status = (if sites = [] then ''empty''
                                  else if \<exists>s \<in> set sites. sv_status s = ''degraded'' then ''degraded'' else ''ok''),
               sn_n_sites = length sites,
               sn_n_live_agents = sum_list (map sv_n_live_agents sites),
               sn_total_incidents_last_hour = sum_list (map sv_incidents_last_hour sites),
               sn_sites = sort_key sv_site_id sites\<rparr>)"

text \<open>One round of the aggregator.\<close>

definition fleet_round :: "fleet_config \<Rightarrow> fleet_env \<Rightarrow> real \<Rightarrow> fleet_snapshot effect list res" where
  "fleet_round cfg env now =
     res_bind (build_snapshot cfg env now) (\<lambda>s. Inr [SetEx SNAPSHOT_KEY s (py_trunc (fl_interval_s cfg * 3))])"

section \<open>Lemmas\<close>

text \<open>The heartbeats a scan reads, in order.\<close>

fun read_all :: "fleet_env \<Rightarrow> string list \<Rightarrow> (string \<times> live_agent) list res" where
  "read_all env [] = Inr []"
| "read_all env (key # keys) =
     res_bind (read_heartbeat env key) (\<lambda>hb. res_bind (read_all env keys) (\<lambda>bs.
       Inr (case hb of None \<Rightarrow> bs | Some b \<Rightarrow> b # bs)))"

lemma heartbeat_scan_fold:
  "heartbeat_scan env keys sites = Inr found \<longleftrightarrow>
    (\<exists>bs. read_all env keys = Inr bs \<and> found = foldl add_heartbeat sites bs)"
proof (induction keys arbitrary: sites)
  case (Cons k ks)
  show ?case
  proof (cases "read_heartbeat env k")
    case (Inr hb)
    then show ?thesis using Cons by (cases hb) auto
  qed simp
qed auto

definition beats_of :: "string \<Rightarrow> (string \<times> live_agent) list \<Rightarrow> live_agent list" where
  "beats_of site bs = map snd (filter (\<lambda>b. fst b = site) bs)"

text \<open>What the fold has gathered: every site of the beats once, with its own beats in order.\<close>

definition gathered :: "(string \<times> live_agent) list \<Rightarrow> (string \<times> site_view) list \<Rightarrow> bool" where
  "gathered bs sites \<longleftrightarrow> distinct (map fst sites) \<and> fst ` set sites = fst ` set bs \<and>
     (\<forall>(k, v) \<in> set sites. sv_site_id v = k \<and> sv_live_agents v = beats_of k bs \<and> sv_incidents_last_hour v = 0)"

lemma set_update_distinct:
  "distinct (map fst al) \<Longrightarrow> set (AList.update k v al) = insert (k, v) {x \<in> set al. fst x \<noteq> k}"
  by (induction al) (auto split: if_splits simp: image_iff)

lemma gathered_add:
  assumes "gathered bs sites"
  shows "gathered (bs @ [b]) (add_heartbeat sites b)"
proof -
  obtain s a where b: "b = (s, a)" by (cases b)
  have d: "distinct (map fst sites)" and k: "fst ` set sites = fst ` set bs"
    and v: "\<And>k v. (k, v) \<in> set sites \<Longrightarrow> sv_site_id v = k \<and> sv_live_agents v = beats_of k bs \<and> sv_incidents_last_hour v = 0"
    using assms by (auto simp: gathered_def)
  let ?site = "get_def sites s (new_site s)"
  have site: "sv_site_id ?site = s \<and> sv_live_agents ?site = beats_of s bs \<and> sv_incidents_last_hour ?site = 0"
  proof (cases "map_of sites s")
    case None
    then have "s \<notin> fst ` set bs" using k by (simp add: map_of_eq_None_iff)
    then have "beats_of s bs = []" by (auto simp: beats_of_def filter_empty_conv image_iff)
    with None show ?thesis by (simp add: get_def_def new_site_def)
  next
    case (Some w)
    then show ?thesis using v map_of_SomeD by (fastforce simp: get_def_def)
  qed
  let ?new = "?site\<lparr>sv_live_agents := sv_live_agents ?site @ [a],
      sv_most_recent_heartbeat_ts := max (sv_most_recent_heartbeat_ts ?site) (la_last_seen_ts a)\<rparr>"
  have u: "add_heartbeat sites b = AList.update s ?new sites"
    by (simp add: add_heartbeat_def b Let_def)
  have "distinct (map fst (AList.update s ?new sites))" using d by (rule distinct_update)
  moreover have "fst ` set (AList.update s ?new sites) = fst ` set (bs @ [b])"
  proof -
    have "fst ` set (AList.update s ?new sites) = insert s (fst ` set sites)"
      by (auto simp: set_update_distinct [OF d] image_iff)
    then show ?thesis using k by (simp add: b)
  qed
  moreover have "\<forall>(k, w) \<in> set (AList.update s ?new sites).
      sv_site_id w = k \<and> sv_live_agents w = beats_of k (bs @ [b]) \<and> sv_incidents_last_hour w = 0"
    using v site by (auto simp: set_update_distinct [OF d] beats_of_def b)
  ultimately show ?thesis unfolding gathered_def u by blast
qed

lemma gathered_foldl: "gathered bs (foldl add_heartbeat [] bs)"
proof (induction bs rule: rev_induct)
  case Nil
  show ?case by (simp add: gathered_def)
next
  case (snoc b bs)
  from gathered_add [OF this] show ?case by simp
qed

text \<open>While an agent runs, its latest beat is younger than the interval, so its key has not expired and no
  snapshot finds it stale.\<close>

lemma heartbeat_alive:
  assumes "start \<le> t" and "t < start + HEARTBEAT_INTERVAL_S * real n"
  shows "\<exists>tb. (tb, heartbeat_round agent site pid tb) \<in> set (heartbeat_loop agent site pid n start) \<and>
    tb \<le> t \<and> t - tb < HEARTBEAT_INTERVAL_S"
  using assms
proof (induction n arbitrary: start)
  case (Suc n)
  show ?case
  proof (cases "t < start + HEARTBEAT_INTERVAL_S")
    case True
    with Suc.prems(1) show ?thesis by (intro exI [of _ start]) simp
  next
    case False
    with Suc.prems(2) have "start + HEARTBEAT_INTERVAL_S \<le> t"
      "t < start + HEARTBEAT_INTERVAL_S + HEARTBEAT_INTERVAL_S * real n"
      by (simp_all add: algebra_simps)
    from Suc.IH [OF this] show ?thesis by auto
  qed
qed simp

lemma sum_list_bump:
  "distinct ks \<Longrightarrow>
    sum_list (map (\<lambda>k. f k + (if k = k0 then c else 0)) ks) =
      sum_list (map f ks) + (if k0 \<in> set ks then c else (0 :: nat))"
  by (induction ks) auto

lemma beats_partition:
  assumes "distinct ks" and "fst ` set bs \<subseteq> set ks"
  shows "sum_list (map (\<lambda>k. length (filter P (beats_of k bs))) ks) = length (filter (P \<circ> snd) bs)"
  using assms(2)
proof (induction bs)
  case (Cons b bs)
  have "(\<lambda>k. length (filter P (beats_of k (b # bs)))) =
      (\<lambda>k. length (filter P (beats_of k bs)) + (if k = fst b then if P (snd b) then 1 else 0 else 0))"
    by (auto simp: beats_of_def)
  with sum_list_bump [OF assms(1), of _ "fst b" "if P (snd b) then 1 else 0"] Cons show ?case
    by simp
qed (simp add: beats_of_def)

lemma check_site_simps [simp]:
  "sv_site_id (check_site cfg now s) = sv_site_id s"
  "sv_live_agents (check_site cfg now s) = filter (\<lambda>a. now - la_last_seen_ts a < fl_heartbeat_stale_s cfg) (sv_live_agents s)"
  "sv_n_live_agents (check_site cfg now s) = length (sv_live_agents (check_site cfg now s))"
  "sv_status (check_site cfg now s) = ''ok'' \<longleftrightarrow>
     set (expected_agents cfg) \<subseteq> la_agent ` set (sv_live_agents (check_site cfg now s))"
  "sv_status (check_site cfg now s) = ''degraded'' \<longleftrightarrow> sv_status (check_site cfg now s) \<noteq> ''ok''"
proof -
  have "sorted_set xs = [] \<longleftrightarrow> xs = []" for xs :: "string list"
    by (metis set_empty set_sorted_set)
  then show "sv_status (check_site cfg now s) = ''ok'' \<longleftrightarrow>
     set (expected_agents cfg) \<subseteq> la_agent ` set (sv_live_agents (check_site cfg now s))"
    by (auto simp: check_site_def Let_def filter_empty_conv)
qed (simp_all add: check_site_def Let_def)

lemma count_incidents_simps [simp]:
  "sv_site_id (count_incidents env s) = sv_site_id s"
  "sv_live_agents (count_incidents env s) = sv_live_agents s"
  "sv_n_live_agents (count_incidents env s) = sv_n_live_agents s"
  "sv_status (count_incidents env s) = sv_status s"
  by (auto simp: count_incidents_def split: option.splits list.splits cell.splits)

lemma build_snapshot_sites:
  assumes "build_snapshot cfg env now = Inr snap"
  obtains bs found where "read_all env (case fv_keys env of None \<Rightarrow> [] | Some keys \<Rightarrow> keys) = Inr bs"
    "gathered bs found"
    "sn_sites snap = sort_key sv_site_id (map (count_incidents env \<circ> check_site cfg now \<circ> snd) found)"
    "sn_n_live_agents snap = sum_list (map (sv_n_live_agents \<circ> count_incidents env \<circ> check_site cfg now \<circ> snd) found)"
    "sn_fleet_status snap = ''ok'' \<longleftrightarrow> found \<noteq> [] \<and> (\<forall>s \<in> set (sn_sites snap). sv_status s = ''ok'')"
proof -
  from assms obtain found where
    scan: "heartbeat_scan env (case fv_keys env of None \<Rightarrow> [] | Some keys \<Rightarrow> keys) [] = Inr found"
    and snap: "snap = \<lparr>sn_generated_at = fv_fmt env now,
               sn_fleet_status = (if map (count_incidents env \<circ> check_site cfg now \<circ> snd) found = [] then ''empty''
                                  else if \<exists>s \<in> set (map (count_incidents env \<circ> check_site cfg now \<circ> snd) found).
                                            sv_status s = ''degraded'' then ''degraded'' else ''ok''),
               sn_n_sites = length (map (count_incidents env \<circ> check_site cfg now \<circ> snd) found),
               sn_n_live_agents = sum_list (map sv_n_live_agents (map (count_incidents env \<circ> check_site cfg now \<circ> snd) found)),
               sn_total_incidents_last_hour = sum_list (map sv_incidents_last_hour (map (count_incidents env \<circ> check_site cfg now \<circ> snd) found)),
               sn_sites = sort_key sv_site_id (map (count_incidents env \<circ> check_site cfg now \<circ> snd) found)\<rparr>"
    by (auto simp: build_snapshot_def Let_def)
  from scan obtain bs where "read_all env (case fv_keys env of None \<Rightarrow> [] | Some keys \<Rightarrow> keys) = Inr bs"
    "found = foldl add_heartbeat [] bs" by (auto simp: heartbeat_scan_fold)
  with snap gathered_foldl [of bs] show ?thesis
    by (intro that) (auto simp: comp_def)
qed

section \<open>Properties\<close>


definition sample_fleet_env :: fleet_env where
  "sample_fleet_env =
     \<lparr>fv_keys = Some [''k1'', ''k2''],
      fv_get = (\<lambda>k. Some (Some k)),
      fv_decode = (\<lambda>raw. Some (PDict (heartbeat_payload (if raw = ''k1'' then ''executor'' else ''planner'') ''fra''
        (if raw = ''k1'' then 90 else 10) 7))),
      fv_str = (\<lambda>v. []), fv_float = (\<lambda>s. None), fv_ts_enabled = False, fv_incident_rows = (\<lambda>s. None),
      fv_fmt = (\<lambda>t. [])\<rparr>"


end
