(* ===== verification/Bus.thy ===== *)
theory Bus
  imports Operator FleetView
begin

text \<open>
  The bus between the agents: publishing and subscribing (\<open>apps/agents/shared/event_bus.py\<close>), the
  loop every agent serves its subscription with (\<open>apps/agents/shared/base.py\<close>), and who is
  subscribed to what.

  Redis' pattern match is a parameter with two documented laws (\<open>redis_patterns\<close>): a pattern without
  special characters matches itself only, and one that ends in a star what begins with the rest.
  \<open>loads\<close> is \<open>json.loads\<close>, \<open>None\<close> where it raises; a model's \<open>model_validate\<close> is a partial function.
\<close>

section \<open>Patterns\<close>

definition plain_pattern :: "string \<Rightarrow> bool" where
  "plain_pattern p \<longleftrightarrow> (\<forall>c \<in> set p. c \<notin> set ''*?[]^-'' \<and> c \<noteq> CHR 0x5C)"

locale redis_patterns =
  fixes glob :: "string \<Rightarrow> string \<Rightarrow> bool"
  assumes glob_plain: "plain_pattern p \<Longrightarrow> glob p topic \<longleftrightarrow> topic = p"
    and glob_star: "plain_pattern p \<Longrightarrow> glob (p @ ''*'') topic \<longleftrightarrow> prefix p topic"
begin

lemma glob_family: "plain_pattern p \<Longrightarrow> glob (p @ ''*'') (p @ x)"
  by (simp add: glob_star)

end

text \<open>The match for patterns whose only special character is the star.\<close>

fun star_match :: "string \<Rightarrow> string \<Rightarrow> bool" where
  "star_match [] topic \<longleftrightarrow> topic = []"
| "star_match (p # ps) topic \<longleftrightarrow>
     (if p = CHR ''*'' then list_ex (\<lambda>i. star_match ps (drop i topic)) [0..<Suc (length topic)]
      else case topic of [] \<Rightarrow> False | c # cs \<Rightarrow> c = p \<and> star_match ps cs)"

lemma star_match_plain: "plain_pattern p \<Longrightarrow> star_match p topic \<longleftrightarrow> topic = p"
  by (induction p arbitrary: topic) (auto simp: plain_pattern_def split: list.splits)

lemma star_match_end: "star_match ''*'' topic"
  by (auto simp: list_ex_iff intro!: bexI [of _ "length topic"])

lemma star_match_star: "plain_pattern p \<Longrightarrow> star_match (p @ ''*'') topic \<longleftrightarrow> prefix p topic"
proof (induction p arbitrary: topic)
  case Nil
  then show ?case using star_match_end by simp
next
  case (Cons a p)
  then show ?case by (cases topic) (auto simp: plain_pattern_def)
qed

interpretation star: redis_patterns star_match
  by unfold_locales (simp_all add: star_match_plain star_match_star)

section \<open>Subscribing\<close>

record bus_message =
  bm_type :: string
  bm_channel :: string
  bm_data :: string

datatype 'e delivered = Raw pyval | Model 'e

text \<open>One message of \<open>pubsub.listen\<close>: what the generator yields for it, if anything.\<close>

definition bus_yield :: "(string \<Rightarrow> pyval option) \<Rightarrow> (pyval \<Rightarrow> 'e option) option \<Rightarrow> bus_message \<Rightarrow> 'e delivered option" where
  "bus_yield loads model incoming =
     (if bm_type incoming \<notin> {''pmessage'', ''message''} then None
      else case loads (bm_data incoming) of
             None \<Rightarrow> None
           | Some raw \<Rightarrow>
               (case model of
                  None \<Rightarrow> Some (Raw raw)
                | Some model_validate \<Rightarrow> map_option Model (model_validate raw)))"

definition subscribe :: "(string \<Rightarrow> pyval option) \<Rightarrow> (pyval \<Rightarrow> 'e option) option \<Rightarrow> bus_message list \<Rightarrow> 'e delivered list" where
  "subscribe loads model messages = List.map_filter (bus_yield loads model) messages"

text \<open>What an append to a stream is called with.\<close>

definition publish_stream_args :: "string \<Rightarrow> string \<Rightarrow> int option \<Rightarrow> string \<times> dict" where
  "publish_stream_args stream_key payload maxlen =
     (stream_key,
      (''fields'', PDict [(''data'', PStr payload)])
        # (case maxlen of None \<Rightarrow> [] | Some n \<Rightarrow> [(''maxlen'', PInt n), (''approximate'', PBool True)]))"

section \<open>Serving\<close>

datatype 'o agent_act =
    StartHeartbeat
  | Did 'o
  | HandleFailed py_error
  | CancelHeartbeat
  | OnStop

text \<open>\<open>stop\<close> tells whether the stop event is set when the \<open>i\<close>-th event is yielded. An exception of a
  handler is logged; what the handler did before it raised stays done.\<close>

fun serve_loop :: "('s \<Rightarrow> 'e \<Rightarrow> 'o list \<times> 's \<times> py_error option) \<Rightarrow> (nat \<Rightarrow> bool) \<Rightarrow> nat \<Rightarrow> 's \<Rightarrow> 'e list \<Rightarrow>
    'o agent_act list \<times> 's" where
  "serve_loop handle stop i s [] = ([], s)"
| "serve_loop handle stop i s (event # events) =
     (if stop i then ([], s)
      else let (out, s1, err) = handle s event;
               (acts, s2) = serve_loop handle stop (Suc i) s1 events
           in (map Did out @ (case err of None \<Rightarrow> [] | Some e \<Rightarrow> [HandleFailed e]) @ acts, s2))"

text \<open>\<open>serve\<close>: \<open>on_start\<close> may raise, and then nothing was started; the rest runs inside a \<open>try\<close> with a
  \<open>finally\<close>.\<close>

definition serve :: "py_error option \<Rightarrow> ('s \<Rightarrow> 'e \<Rightarrow> 'o list \<times> 's \<times> py_error option) \<Rightarrow> (nat \<Rightarrow> bool) \<Rightarrow> 's \<Rightarrow> 'e list \<Rightarrow>
    'o agent_act list \<times> 's \<times> py_error option" where
  "serve on_start handle stop s events =
     (case on_start of
        Some e \<Rightarrow> ([], s, Some e)
      | None \<Rightarrow>
          let (acts, s1) = serve_loop handle stop 0 s events
          in (StartHeartbeat # acts @ [CancelHeartbeat, OnStop], s1, None))"

section \<open>Who listens to what\<close>

definition sentinel_topic :: string where "sentinel_topic = topic_value TELEMETRY_ALL"
definition forensic_topic :: string where "forensic_topic = topic_value PREDICTIONS_FAILURE"
definition operator_topic :: string where "operator_topic = ''query.*''"
definition optimizer_topic :: string where "optimizer_topic = topic_value INCIDENTS_REPORT"
definition planner_topic :: string where "planner_topic = ''planner.never_used''"
definition executor_topic :: string where "executor_topic = topic_value RECOMMENDATIONS_ALL"
definition rollback_topic :: string where "rollback_topic = topic_value ACTIONS_EXECUTED"
definition vision_topic :: string where "vision_topic = ''vision.request''"
definition correlator_topic :: string where "correlator_topic = ''predictions.failure''"
definition writer_topic :: string where "writer_topic = ''telemetry.*''"

definition subscriptions :: "(string \<times> string) list" where
  "subscriptions =
     [(''sentinel'', sentinel_topic), (''forensic'', forensic_topic), (''operator'', operator_topic),
      (''optimizer'', optimizer_topic), (''executor'', executor_topic), (''rollback'', rollback_topic),
      (''vision'', vision_topic), (''correlator'', correlator_topic), (''writer'', writer_topic)]"

definition receivers :: "(string \<Rightarrow> string \<Rightarrow> bool) \<Rightarrow> string \<Rightarrow> string list" where
  "receivers glob topic = map fst (filter (\<lambda>(agent, pattern). glob pattern topic) subscriptions)"

section \<open>The Operator's own results\<close>

text \<open>What \<open>model_dump_json\<close> of a result is parsed back to.\<close>

definition opt_json :: "('a \<Rightarrow> pyval) \<Rightarrow> 'a option \<Rightarrow> pyval" where
  "opt_json f v = (case v of None \<Rightarrow> PNone | Some x \<Rightarrow> f x)"

definition query_result_json :: "(uuid \<Rightarrow> string) \<Rightarrow> (real \<Rightarrow> string) \<Rightarrow> query_result \<Rightarrow> dict" where
  "query_result_json uuid_text iso_text r =
     [(''event_id'', PStr (uuid_text (ev_id r))), (''event_type'', PStr ''query_result''),
      (''timestamp'', PStr (iso_text (ev_timestamp r))), (''site_id'', PStr (ev_site_id r)),
      (''trace_id'', opt_json (\<lambda>u. PStr (uuid_text u)) (ev_trace_id r)),
      (''parent_event_id'', opt_json (\<lambda>u. PStr (uuid_text u)) (ev_parent_event_id r)),
      (''metadata'', PDict (ev_metadata r)),
      (''request_id'', PStr (uuid_text (qr_request_id r))), (''question'', PStr (qr_question r)),
      (''answer_text'', PStr (qr_answer_text r)), (''sql_executed'', opt_json PStr (qr_sql_executed r)),
      (''chart_spec'', opt_json PDict (qr_chart_spec r)), (''sources'', PList (map PDict (qr_sources r))),
      (''llm_cost_usd'', PFloat (qr_llm_cost_usd r))]"

text \<open>The results among what the handler did that reach the Operator's own subscription, as events.\<close>

definition own_results :: "(string \<Rightarrow> string \<Rightarrow> bool) \<Rightarrow> ('s, 'c) operator_env \<Rightarrow> (real \<Rightarrow> string) \<Rightarrow> operator_action list \<Rightarrow> pyval list" where
  "own_results glob env iso_text acts =
     List.map_filter (\<lambda>a. case a of
         Send (Publish topic (MQueryResult r)) \<Rightarrow>
           if oe_ok env (Publish topic (MQueryResult r)) \<and> glob operator_topic topic
           then Some (PDict (query_result_json (oe_uuid_text env) iso_text r)) else None
       | _ \<Rightarrow> None) acts"

text \<open>\<open>n\<close> events handled from a queue to which the handler's own results come back.\<close>

fun operator_rounds :: "(string \<Rightarrow> string \<Rightarrow> bool) \<Rightarrow> operator_config \<Rightarrow> ('s, 'c) operator_env \<Rightarrow> (real \<Rightarrow> string) \<Rightarrow>
    (nat \<Rightarrow> real) \<Rightarrow> nat \<Rightarrow> pyval list \<Rightarrow> ('s, 'c) operator_state \<Rightarrow> operator_action list \<times> pyval list" where
  "operator_rounds glob cfg env iso_text clock 0 queue st = ([], queue)"
| "operator_rounds glob cfg env iso_text clock (Suc n) [] st = ([], [])"
| "operator_rounds glob cfg env iso_text clock (Suc n) (event # queue) st =
     (let (acts, st1, err) = operator_handle cfg env (clock n) event st;
          (later, left) = operator_rounds glob cfg env iso_text clock n (queue @ own_results glob env iso_text acts) st1
      in (acts @ later, left))"

section \<open>Lemmas\<close>

lemma serve_loop_append:
  "serve_loop handle stop i s (xs @ ys) =
     (if \<exists>j < length xs. stop (i + j) then serve_loop handle stop i s xs
      else let (acts, s1) = serve_loop handle stop i s xs;
               (acts2, s2) = serve_loop handle stop (i + length xs) s1 ys
           in (acts @ acts2, s2))"
proof (induction xs arbitrary: i s)
  case (Cons x xs)
  have "(\<exists>j < length (x # xs). stop (i + j)) \<longleftrightarrow> stop i \<or> (\<exists>j < length xs. stop (Suc i + j))"
    by (metis (no_types, lifting) Nat.add_0_right add_Suc_right add_Suc_shift length_Cons less_Suc_eq_0_disj)
  then show ?case by (auto simp: Cons.IH split_beta Let_def)
qed simp

lemma subscribe_append: "subscribe loads model (xs @ ys) = subscribe loads model xs @ subscribe loads model ys"
  by (simp add: subscribe_def)

lemma subscribe_unparsed: "(\<forall>m \<in> set xs. bus_yield loads model m = None) \<Longrightarrow> subscribe loads model xs = []"
  by (simp add: subscribe_def map_filter_def filter_empty_conv)

lemma strip_strip [simp]: "strip (strip s) = strip s"
proof -
  have l: "lstrip (lstrip t) = lstrip t" for t
    by (simp add: lstrip_def dropWhile_idem)
  have "lstrip (rstrip (lstrip t)) = rstrip (lstrip t)" for t
  proof (cases "lstrip t")
    case Nil
    then show ?thesis unfolding Nil by (simp add: lstrip_def rstrip_def)
  next
    case (Cons a u)
    then have "\<not> is_space a" by (metis hd_dropWhile list.discI list.sel(1) lstrip_def)
    then show ?thesis unfolding Cons by (auto simp: lstrip_def rstrip_def dropWhile_append)
  qed
  then show ?thesis by (simp add: strip_def rstrip_def)
qed

lemma receivers_concat:
  "receivers glob topic = concat (map (\<lambda>(agent, pattern). if glob pattern topic then [agent] else []) subscriptions)"
proof -
  have "map fst (filter (\<lambda>(agent, pattern). glob pattern topic) xs) =
      concat (map (\<lambda>(agent, pattern). if glob pattern topic then [agent] else []) xs)"
    for xs :: "(string \<times> string) list" by (induction xs) auto
  then show ?thesis by (simp add: receivers_def)
qed

lemma receivers_plain_topics:
  assumes "redis_patterns glob"
  shows "receivers glob topic =
     (if prefix ''telemetry.'' topic then [''sentinel''] else []) @
     (if topic = ''predictions.failure'' then [''forensic''] else []) @
     (if prefix ''query.'' topic then [''operator''] else []) @
     (if topic = ''incidents.report'' then [''optimizer''] else []) @
     (if prefix ''recommendations.'' topic then [''executor''] else []) @
     (if topic = ''actions.executed'' then [''rollback''] else []) @
     (if topic = ''vision.request'' then [''vision''] else []) @
     (if topic = ''predictions.failure'' then [''correlator''] else []) @
     (if prefix ''telemetry.'' topic then [''writer''] else [])"
proof -
  have lit: "plain_pattern ''telemetry.''" "plain_pattern ''query.''" "plain_pattern ''recommendations.''"
    "plain_pattern ''predictions.failure''" "plain_pattern ''incidents.report''"
    "plain_pattern ''actions.executed''" "plain_pattern ''vision.request''"
    by (simp_all add: plain_pattern_def)
  note star = redis_patterns.glob_star [OF assms]
  have "glob ''telemetry.*'' topic \<longleftrightarrow> prefix ''telemetry.'' topic"
    "glob ''query.*'' topic \<longleftrightarrow> prefix ''query.'' topic"
    "glob ''recommendations.*'' topic \<longleftrightarrow> prefix ''recommendations.'' topic"
    using star [OF lit(1), of topic] star [OF lit(2), of topic] star [OF lit(3), of topic]
    by (simp_all only: append.simps)
  moreover note lit(4-7) [THEN redis_patterns.glob_plain [OF assms], of topic]
  ultimately show ?thesis
    by (simp only: receivers_concat subscriptions_def sentinel_topic_def forensic_topic_def operator_topic_def
        optimizer_topic_def executor_topic_def rollback_topic_def vision_topic_def correlator_topic_def
        writer_topic_def topic_value.simps list.map concat.simps case_prod_conv append_Nil2)
qed

lemma serve_loop_never: "serve_loop handle (\<lambda>_. False) i s xs = serve_loop handle (\<lambda>_. False) j s xs"
proof (induction xs arbitrary: i j s)
  case (Cons x xs)
  then show ?case by (auto simp: split_beta Let_def) (metis Cons.IH)+
qed simp

text \<open>A stop before the \<open>n\<close>-th event leaves the run of the first \<open>n\<close>.\<close>

lemma serve_loop_stopped:
  "serve_loop handle (\<lambda>j. i + n \<le> j) i s xs = serve_loop handle (\<lambda>_. False) i s (take n xs)"
proof (induction xs arbitrary: i n s)
  case (Cons x xs)
  show ?case
  proof (cases n)
    case (Suc m)
    have "(\<lambda>j. i + n \<le> j) = (\<lambda>j. Suc i + m \<le> j)" using Suc by auto
    then show ?thesis using Suc Cons.IH [of "Suc i" m] by simp
  qed simp
qed simp

section \<open>Properties\<close>


text \<open>A handler that counts its events and fails on the word \<open>no\<close>.\<close>

definition count_words :: "nat \<Rightarrow> string delivered \<Rightarrow> nat list \<times> nat \<times> py_error option" where
  "count_words n e =
     (case e of Model ''no'' \<Rightarrow> ([n], Suc n, Some (ValueError ''no'')) | _ \<Rightarrow> ([n], Suc n, None))"

definition word :: "string \<Rightarrow> bus_message" where
  "word w = \<lparr>bm_type = ''pmessage'', bm_channel = ''c'', bm_data = w\<rparr>"


text \<open>The Operator with a model that always answers, ids that print and parse back, and a bus that takes
  its results.\<close>

definition keeps_answering :: "operator_config \<Rightarrow> ('s, 'c) operator_env \<Rightarrow> bool" where
  "keeps_answering cfg env \<longleftrightarrow>
     (\<forall>q st. \<exists>a src st1 chart. operator_answer_to cfg env q st = (Inr (a, src), st1) \<and>
        chart_spec (oe_py_str env) (oe_set_order env) (fst (execute_sql (oe_ts env) (oa_sql a))) q = Inr chart) \<and>
     (\<forall>u. oe_uuid_text env u \<noteq> [] \<and> oe_parse_uuid env (oe_uuid_text env u) = Some u) \<and> (\<forall>e. oe_ok env e)"

definition answers :: "string \<Rightarrow> uuid \<Rightarrow> operator_action \<Rightarrow> bool" where
  "answers q rid act \<longleftrightarrow>
     (\<exists>r. act = Send (Publish (topic_value QUERY_RESULT) (MQueryResult r)) \<and> qr_question r = q \<and> qr_request_id r = rid)"

lemma query_event_sel [simp]:
  "qr_question (query_event cfg now eid rid q ans rows chart src) = q"
  "qr_request_id (query_event cfg now eid rid q ans rows chart src) = rid"
  by (simp_all add: query_event_def query_result.defs bus_event.defs envelope_def)

lemma extracted_question:
  assumes "extract_request env event nid = (Some (q, rid), nid')" shows "q \<noteq> []" "strip q = q"
  using assms by (auto simp: extract_request_def Let_def split: pyval.splits option.splits if_splits)

lemma extract_own_result:
  assumes "keeps_answering cfg env" "q \<noteq> []" "strip q = q" "qr_question r = q" "qr_request_id r = rid"
  shows "extract_request env (PDict (query_result_json (oe_uuid_text env) iso_text r)) nid = (Some (q, rid), nid)"
proof -
  have "oe_uuid_text env rid \<noteq> []" "oe_parse_uuid env (oe_uuid_text env rid) = Some rid"
    using assms(1) by (auto simp: keeps_answering_def)
  then show ?thesis
    using assms(2-5) by (simp add: extract_request_def query_result_json_def get_str_def shown_def)
qed

lemma execute_sql_no_send: "Send p \<notin> set (snd (execute_sql ts sql))"
  by (auto simp: execute_sql_def split: if_splits prod.splits sum.splits)

lemma handled_question:
  assumes "keeps_answering cfg env" and "extract_request env event (or_next_id st) = (Some (q, rid), nid)"
  shows "\<exists>run r st1. operator_handle cfg env now event st =
      (run @ [Send (Publish (topic_value QUERY_RESULT) (MQueryResult r))], st1, None) \<and>
    (\<forall>p. Send p \<notin> set run) \<and> qr_question r = q \<and> qr_request_id r = rid"
proof -
  let ?st0 = "st\<lparr>or_next_id := nid\<rparr>"
  from assms(1) obtain a src st1 chart where
    a: "operator_answer_to cfg env q ?st0 = (Inr (a, src), st1)"
       "chart_spec (oe_py_str env) (oe_set_order env) (fst (execute_sql (oe_ts env) (oa_sql a))) q = Inr chart"
    unfolding keeps_answering_def by blast
  obtain rows run where e: "execute_sql (oe_ts env) (oa_sql a) = (rows, run)" by fastforce
  have "Send p \<notin> set run" for p using execute_sql_no_send [of p "oe_ts env" "oa_sql a"] e by simp
  moreover have "operator_handle cfg env now event st =
      (run @ [Send (Publish (topic_value QUERY_RESULT) (MQueryResult
          (query_event cfg now (or_next_id st1) rid q a rows chart src)))],
       st1\<lparr>or_next_id := Suc (or_next_id st1)\<rparr>, None)"
    using assms(2) a e by (simp add: operator_handle_def)
  ultimately show ?thesis by (intro exI conjI) auto
qed

lemma own_results_sole:
  assumes "redis_patterns glob" "keeps_answering cfg env" "\<forall>p. Send p \<notin> set run"
  shows "own_results glob env iso_text (run @ [Send (Publish (topic_value QUERY_RESULT) (MQueryResult r))]) =
    [PDict (query_result_json (oe_uuid_text env) iso_text r)]"
proof -
  have "plain_pattern ''query.''" by (simp add: plain_pattern_def)
  from redis_patterns.glob_family [OF assms(1) this, of "''result''"]
  have "glob operator_topic (topic_value QUERY_RESULT)" by (simp add: operator_topic_def)
  moreover have "own_results glob env iso_text run = []"
    using assms(3) by (auto simp: own_results_def map_filter_def filter_empty_conv split: operator_action.splits)
  moreover have "oe_ok env e" for e using assms(2) by (simp add: keeps_answering_def)
  ultimately show ?thesis by (simp add: own_results_def List.map_filter_simps)
qed

text \<open>C24: the Operator answers itself: its subscription \<open>query.*\<close> also matches the topic its results go to,
  and a result carries the question and the request id that make it a request. So after one question,
  as long as the model answers and Redis delivers, there is an event to handle after any number of
  rounds, and each round has published the same answer again.\<close>

theorem operator_answers_itself:
  assumes "redis_patterns glob" and "keeps_answering cfg env"
    and "extract_request env event (or_next_id st) = (Some (q, rid), nid)"
  shows "\<exists>acts next. operator_rounds glob cfg env iso_text clock n [event] st = (acts, [next]) \<and>
    length (filter (answers q rid) acts) = n"
  using assms(3)
proof (induction n arbitrary: event st nid)
  case (Suc n)
  from handled_question [OF assms(2) Suc.prems, of "clock n"] obtain run r st1 where
    h: "operator_handle cfg env (clock n) event st = (run @ [Send (Publish (topic_value QUERY_RESULT) (MQueryResult r))], st1, None)"
    and run: "\<forall>p. Send p \<notin> set run" and r: "qr_question r = q" "qr_request_id r = rid" by blast
  let ?event = "PDict (query_result_json (oe_uuid_text env) iso_text r)"
  from extract_own_result [OF assms(2) extracted_question [OF Suc.prems] r, of iso_text "or_next_id st1"]
  have "extract_request env ?event (or_next_id st1) = (Some (q, rid), or_next_id st1)" .
  from Suc.IH [OF this] obtain acts nxt where
    "operator_rounds glob cfg env iso_text clock n [?event] st1 = (acts, [nxt])"
    "length (filter (answers q rid) acts) = n" by blast
  moreover have "filter (answers q rid) run = []" using run by (auto simp: filter_empty_conv answers_def)
  moreover have "answers q rid (Send (Publish (topic_value QUERY_RESULT) (MQueryResult r)))"
    using r by (simp add: answers_def)
  ultimately show ?case
    using h own_results_sole [OF assms(1,2) run] by simp
qed simp

definition steady_operator_env :: "(nat, nat) operator_env" where
  "steady_operator_env =
     \<lparr>oe_call = (\<lambda>rq s. (fst (scripted rq [''fan.rpm'']), s)),
      oe_chroma = \<lparr>ch_query = (\<lambda>q n c. None), ch_upsert = (\<lambda>i d m c. None)\<rparr>,
      oe_cache = \<lparr>sc_threshold = 97 / 100, sc_enabled = False\<rparr>, oe_sha256 = (\<lambda>s. s), oe_runbooks = None,
      oe_predict = None,
      oe_ts = \<lparr>ts_connected = False, ts_recent = (\<lambda>d w l. None), ts_select = (\<lambda>q. None), ts_insert_ok = True\<rparr>,
      oe_parse = (\<lambda>t. Inr (sample_operator_answer t)), oe_dump = oa_answer_text, oe_schema = PNone,
      oe_schema_json = [], oe_parse_uuid = (\<lambda>s. Some (length s - 1)), oe_uuid_text = (\<lambda>u. replicate (Suc u) (CHR ''0'')),
      oe_py_str = (\<lambda>v. []), oe_set_order = (\<lambda>xs. xs), oe_ok = (\<lambda>e. True)\<rparr>"

lemma steady_answers: "keeps_answering operator_defaults steady_operator_env"
proof -
  have "\<exists>src st1. operator_answer_to operator_defaults steady_operator_env q st = (Inr (sample_operator_answer ''fan.rpm'', src), st1)" for q st
  proof -
    have c: "cached_answer steady_operator_env q (or_cache st) = None"
      by (simp add: cached_answer_def cache_get_def steady_operator_env_def)
    have r: "retrieve_runbooks operator_defaults steady_operator_env q = Inr []"
      by (simp add: retrieve_runbooks_def steady_operator_env_def)
    have k: "\<exists>res. ask steady_operator_env msgs 2 s = (Inr (sample_operator_answer ''fan.rpm'', res), s)" for msgs s
      using extract_words(1) sample_answer_ok [of "''fan.rpm''"]
      by (simp add: ask_def call_structured_def eval_nat_numeral scripted_def steady_operator_env_def validate_answer_def)
    have "ground_metrics operator_defaults steady_operator_env msgs (sample_operator_answer ''fan.rpm'') s =
        (Inr (sample_operator_answer ''fan.rpm''), s)" for msgs s
      by (simp add: ground_metrics_def sample_operator_answer_def sample_metrics)
    moreover obtain res where "ask steady_operator_env [message ''user'' (build_context steady_operator_env q [])] 2 (or_llm st) =
        (Inr (sample_operator_answer ''fan.rpm'', res), or_llm st)" using k by blast
    ultimately show ?thesis by (simp add: operator_answer_to_def c r)
  qed
  moreover have "chart_spec (oe_py_str steady_operator_env) (oe_set_order steady_operator_env)
      (fst (execute_sql (oe_ts steady_operator_env) sql)) q = Inr None" for sql q
    by (simp add: execute_sql_def steady_operator_env_def chart_spec_def)
  ultimately show ?thesis
    unfolding keeps_answering_def by (simp add: steady_operator_env_def) blast
qed

theorem operator_answers_itself_witness:
  "\<exists>acts next. operator_rounds star_match operator_defaults steady_operator_env (\<lambda>t. []) (\<lambda>n. 0) 1000 [PStr ''why?'']
       \<lparr>or_llm = 0, or_cache = 0, or_next_id = 0\<rparr> = (acts, [next]) \<and>
     length (filter (answers ''why?'' 0) acts) = 1000"
proof -
  have "strip ''why?'' = ''why?''" by code_simp
  then have "extract_request steady_operator_env (PStr ''why?'') (or_next_id \<lparr>or_llm = 0, or_cache = 0, or_next_id = 0\<rparr>) =
      (Some (''why?'', 0), 1)"
    by (simp add: extract_request_def)
  from operator_answers_itself [OF star.redis_patterns_axioms steady_answers this] show ?thesis .
qed

end
