(* ===== verification/AuditSink.thy ===== *)
theory AuditSink
  imports Interfaces
begin

text \<open>
  The audit sink (\<open>apps/audit/sink.py\<close>) and the object store behind it
  (\<open>apps/agents/shared/blob_client.py\<close>).

  The sink reads the stream \<open>audit.events\<close> through a consumer group, stores each payload under its
  hash and acknowledges it. The Redis commands are the argument \<open>stream_ops\<close>; \<open>consumer_group\<close> states
  their documented behaviour, in terms of what the group has not been given yet (\<open>unread\<close>) and what
  it has been given and not acknowledged (\<open>pending\<close>). MinIO is the map of its objects; each call of it
  may fail. SHA-256 and the printed day are parameters. The sink as a process is the step relation
  \<open>sink_step\<close>: publications, reads, entries processed, crashes and restarts in any order.
\<close>

section \<open>The object store\<close>

record blob_object =
  bo_data :: string
  bo_content_type :: string
  bo_metadata :: "(string \<times> string) list"

type_synonym objects = "string \<times> string \<Rightarrow> blob_object option"

text \<open>\<open>_client\<close> is set exactly by a \<open>connect\<close> whose server answers.\<close>

definition blob_connect :: "bool \<Rightarrow> bool \<Rightarrow> bool \<Rightarrow> bool \<times> bool" where
  "blob_connect importable server_ok client =
     (if client then (True, True)
      else if \<not> importable then (False, client)
      else if server_ok then (True, True) else (False, False))"

definition blob_close :: "bool \<Rightarrow> bool" where
  "blob_close client = False"

text \<open>\<open>None\<close> is a call that raises.\<close>

definition ensure_bucket :: "bool \<Rightarrow> (string \<Rightarrow> bool option) \<Rightarrow> (string \<Rightarrow> bool) \<Rightarrow> string \<Rightarrow> bool \<times> string list" where
  "ensure_bucket client bucket_exists make_ok bucket =
     (if \<not> client then (False, [])
      else case bucket_exists bucket of
             None \<Rightarrow> (False, [])
           | Some True \<Rightarrow> (True, [])
           | Some False \<Rightarrow> if make_ok bucket then (True, [bucket]) else (False, []))"

definition put_bytes :: "bool \<Rightarrow> bool \<Rightarrow> string \<Rightarrow> string \<Rightarrow> string \<Rightarrow> string \<Rightarrow> (string \<times> string) list \<Rightarrow> objects \<Rightarrow>
    bool \<times> objects" where
  "put_bytes client server_ok bucket key data content_type metadata objects =
     (if \<not> client then (False, objects)
      else if server_ok then (True, objects((bucket, key) \<mapsto> \<lparr>bo_data = data, bo_content_type = content_type, bo_metadata = metadata\<rparr>))
      else (False, objects))"

definition get_bytes :: "bool \<Rightarrow> bool \<Rightarrow> string \<Rightarrow> string \<Rightarrow> objects \<Rightarrow> string option" where
  "get_bytes client server_ok bucket key objects =
     (if \<not> client \<or> \<not> server_ok then None else map_option bo_data (objects (bucket, key)))"

definition blob_head :: "bool \<Rightarrow> bool \<Rightarrow> string \<Rightarrow> string \<Rightarrow> objects \<Rightarrow> nat option" where
  "blob_head client server_ok bucket key objects =
     (if \<not> client \<or> \<not> server_ok then None else map_option (\<lambda>b. length (bo_data b)) (objects (bucket, key)))"

section \<open>The stream\<close>

type_synonym entry = "nat \<times> pyval"

record 's stream_ops =
  so_xadd :: "pyval \<Rightarrow> 's \<Rightarrow> 's"
  so_xread :: "nat \<Rightarrow> 's \<Rightarrow> entry list \<times> 's"
  so_xack :: "nat \<Rightarrow> 's \<Rightarrow> 's"

text \<open>
  Documented behaviour of a stream with one consumer group: XADD appends an entry with a fresh id;
  XREADGROUP with \<open>>\<close> returns the first entries never delivered to the group and makes them pending;
  XACK removes an id from the pending ones. \<open>entries\<close> is the stream itself.
\<close>

locale consumer_group =
  fixes ops :: "'s stream_ops" and wf :: "'s \<Rightarrow> bool"
    and entries unread pending :: "'s \<Rightarrow> entry list"
  assumes wf_xadd: "wf s \<Longrightarrow> wf (so_xadd ops f s)"
    and wf_xread: "wf s \<Longrightarrow> wf (snd (so_xread ops n s))"
    and wf_xack: "wf s \<Longrightarrow> wf (so_xack ops i s)"
    and distinct_entries: "wf s \<Longrightarrow> distinct (map fst (entries s))"
    and apart: "wf s \<Longrightarrow> set (unread s) \<inter> set (pending s) = {}"
    and within: "wf s \<Longrightarrow> suffix (unread s) (entries s) \<and> set (pending s) \<subseteq> set (entries s)"
    and xadd: "wf s \<Longrightarrow> \<exists>i. entries (so_xadd ops f s) = entries s @ [(i, f)] \<and>
        unread (so_xadd ops f s) = unread s @ [(i, f)] \<and> pending (so_xadd ops f s) = pending s"
    and xread: "wf s \<Longrightarrow> fst (so_xread ops n s) = take n (unread s) \<and>
        entries (snd (so_xread ops n s)) = entries s \<and> unread (snd (so_xread ops n s)) = drop n (unread s) \<and>
        set (pending (snd (so_xread ops n s))) = set (pending s) \<union> set (take n (unread s))"
    and xack: "wf s \<Longrightarrow> entries (so_xack ops i s) = entries s \<and> unread (so_xack ops i s) = unread s \<and>
        set (pending (so_xack ops i s)) = {e \<in> set (pending s). fst e \<noteq> i}"

text \<open>The stream in memory: the entries, how many of them the group has been given, the ids pending.\<close>

record mem_stream =
  ms_entries :: "entry list"
  ms_given :: nat
  ms_pel :: "nat list"

definition mem_xadd :: "pyval \<Rightarrow> mem_stream \<Rightarrow> mem_stream" where
  "mem_xadd f s = s\<lparr>ms_entries := ms_entries s @ [(length (ms_entries s), f)]\<rparr>"

definition mem_unread :: "mem_stream \<Rightarrow> entry list" where
  "mem_unread s = drop (ms_given s) (ms_entries s)"

definition mem_pending :: "mem_stream \<Rightarrow> entry list" where
  "mem_pending s = filter (\<lambda>e. fst e \<in> set (ms_pel s)) (ms_entries s)"

definition mem_xread :: "nat \<Rightarrow> mem_stream \<Rightarrow> entry list \<times> mem_stream" where
  "mem_xread n s =
     (let new = take n (mem_unread s)
      in (new, s\<lparr>ms_given := ms_given s + length new, ms_pel := ms_pel s @ map fst new\<rparr>))"

definition mem_xack :: "nat \<Rightarrow> mem_stream \<Rightarrow> mem_stream" where
  "mem_xack i s = s\<lparr>ms_pel := filter (\<lambda>j. j \<noteq> i) (ms_pel s)\<rparr>"

definition mem_ops :: "mem_stream stream_ops" where
  "mem_ops = \<lparr>so_xadd = mem_xadd, so_xread = mem_xread, so_xack = mem_xack\<rparr>"

definition mem_wf :: "mem_stream \<Rightarrow> bool" where
  "mem_wf s \<longleftrightarrow> map fst (ms_entries s) = [0..<length (ms_entries s)] \<and> ms_given s \<le> length (ms_entries s) \<and>
     set (ms_pel s) \<subseteq> {0..<ms_given s}"

lemma entries_below:
  assumes "mem_wf s" "e \<in> set (drop k (ms_entries s))" shows "k \<le> fst e" "fst e < length (ms_entries s)"
proof -
  from assms(1) have m: "map fst (ms_entries s) = [0..<length (ms_entries s)]" by (simp add: mem_wf_def)
  from assms(2) have "fst e \<in> set (map fst (drop k (ms_entries s)))" by simp
  also have "map fst (drop k (ms_entries s)) = drop k [0..<length (ms_entries s)]"
    unfolding drop_map [symmetric] m ..
  finally show "k \<le> fst e" "fst e < length (ms_entries s)" by auto
qed

lemma entry_at:
  assumes "mem_wf s" "e \<in> set (ms_entries s)" shows "fst e < length (ms_entries s)" "ms_entries s ! fst e = e"
proof -
  from assms(1) have m: "map fst (ms_entries s) = [0..<length (ms_entries s)]" by (simp add: mem_wf_def)
  from assms(2) obtain i where i: "i < length (ms_entries s)" "e = ms_entries s ! i" by (metis in_set_conv_nth)
  with m have "fst e = i" by (metis add_0 nth_map nth_upt)
  with i show "fst e < length (ms_entries s)" "ms_entries s ! fst e = e" by auto
qed

lemma given_entries:
  assumes "mem_wf s"
  shows "set (ms_entries s) = {e \<in> set (ms_entries s). fst e < ms_given s} \<union> set (mem_unread s)"
    and "fst e < ms_given s + n \<Longrightarrow> e \<in> set (mem_unread s) \<Longrightarrow> e \<in> set (take n (mem_unread s))"
proof -
  have *: "e \<in> set (take n (drop k (ms_entries s)))"
    if e: "e \<in> set (ms_entries s)" "k \<le> fst e" "fst e < k + n" for e k n
  proof -
    note at = entry_at [OF assms e(1)]
    with e have "take n (drop k (ms_entries s)) ! (fst e - k) = e" "fst e - k < length (take n (drop k (ms_entries s)))"
      by auto
    then show ?thesis by (metis nth_mem)
  qed
  have "e \<in> set (mem_unread s)" if "e \<in> set (ms_entries s)" "\<not> fst e < ms_given s" for e
    using * [of e "ms_given s" "length (ms_entries s)"] that entry_at(1) [OF assms that(1)]
    by (auto simp: mem_unread_def dest: in_set_takeD)
  then show "set (ms_entries s) = {e \<in> set (ms_entries s). fst e < ms_given s} \<union> set (mem_unread s)"
    by (auto simp: mem_unread_def dest: in_set_dropD)
  show "e \<in> set (take n (mem_unread s))" if "fst e < ms_given s + n" "e \<in> set (mem_unread s)"
    using * [of e "ms_given s" n] entries_below(1) [OF assms, of e "ms_given s"] that
    by (auto simp: mem_unread_def dest: in_set_dropD)
qed

lemma mem_wf_xread: "mem_wf s \<Longrightarrow> mem_wf (snd (mem_xread n s))"
proof -
  assume w: "mem_wf s"
  have "fst e < ms_given s + min (length (mem_unread s)) n" if e: "e \<in> set (take n (mem_unread s))" for e
  proof -
    obtain i where i: "i < length (take n (mem_unread s))" "e = take n (mem_unread s) ! i"
      using e by (metis in_set_conv_nth)
    then have "e = ms_entries s ! (ms_given s + i)" "ms_given s + i < length (ms_entries s)"
      by (auto simp: mem_unread_def)
    moreover have "map fst (ms_entries s) = [0..<length (ms_entries s)]" using w by (simp add: mem_wf_def)
    ultimately have "fst e = ms_given s + i" by (metis add_0 nth_map nth_upt)
    with i(1) show ?thesis by simp
  qed
  then have "set (map fst (take n (mem_unread s))) \<subseteq> {0..<ms_given s + length (take n (mem_unread s))}"
    by auto
  moreover have "ms_given s + length (take n (mem_unread s)) \<le> length (ms_entries s)"
    using w by (auto simp: mem_unread_def mem_wf_def)
  moreover have "set (ms_pel s) \<subseteq> {0..<ms_given s + length (take n (mem_unread s))}"
    using w by (auto simp: mem_wf_def)
  moreover have "map fst (ms_entries s) = [0..<length (ms_entries s)]" using w by (simp add: mem_wf_def)
  ultimately show ?thesis
    unfolding mem_wf_def mem_xread_def Let_def by auto
qed

lemma mem_read_pending:
  assumes "mem_wf s"
  shows "set (mem_pending (snd (mem_xread n s))) = set (mem_pending s) \<union> set (take n (mem_unread s))"
proof -
  have "e \<in> set (take n (mem_unread s))" if "e \<in> set (ms_entries s)" "e' \<in> set (take n (mem_unread s))" "fst e = fst e'" for e e'
  proof -
    have "e' \<in> set (ms_entries s)" using that(2) by (auto simp: mem_unread_def dest: in_set_takeD in_set_dropD)
    with entry_at [OF assms] that have "e = e'" by metis
    with that(2) show ?thesis by simp
  qed
  moreover have "set (take n (mem_unread s)) \<subseteq> set (ms_entries s)"
    by (auto simp: mem_unread_def dest: in_set_takeD in_set_dropD)
  ultimately show ?thesis
    by (auto simp: mem_pending_def mem_xread_def Let_def image_iff)
qed

interpretation mem: consumer_group mem_ops mem_wf ms_entries mem_unread mem_pending
proof
  fix s f n i
  assume w: "mem_wf s"
  show "mem_wf (so_xadd mem_ops f s)" using w by (auto simp: mem_ops_def mem_xadd_def mem_wf_def)
  show "mem_wf (snd (so_xread mem_ops n s))" using mem_wf_xread [OF w] by (simp add: mem_ops_def)
  show "mem_wf (so_xack mem_ops i s)" using w by (auto simp: mem_ops_def mem_xack_def mem_wf_def)
  show "distinct (map fst (ms_entries s))" using w by (simp add: mem_wf_def)
  show "set (mem_unread s) \<inter> set (mem_pending s) = {}"
    using w entries_below(1) [OF w, of _ "ms_given s"] by (fastforce simp: mem_wf_def mem_unread_def mem_pending_def)
  show "suffix (mem_unread s) (ms_entries s) \<and> set (mem_pending s) \<subseteq> set (ms_entries s)"
    by (auto simp: mem_unread_def mem_pending_def suffix_drop)
  have "length (ms_entries s) \<notin> set (ms_pel s)" using w by (auto simp: mem_wf_def)
  then show "\<exists>i. ms_entries (so_xadd mem_ops f s) = ms_entries s @ [(i, f)] \<and>
      mem_unread (so_xadd mem_ops f s) = mem_unread s @ [(i, f)] \<and> mem_pending (so_xadd mem_ops f s) = mem_pending s"
    using w by (auto simp: mem_ops_def mem_xadd_def mem_wf_def mem_unread_def mem_pending_def)
  show "fst (so_xread mem_ops n s) = take n (mem_unread s) \<and>
      ms_entries (snd (so_xread mem_ops n s)) = ms_entries s \<and>
      mem_unread (snd (so_xread mem_ops n s)) = drop n (mem_unread s) \<and>
      set (mem_pending (snd (so_xread mem_ops n s))) = set (mem_pending s) \<union> set (take n (mem_unread s))"
    using mem_read_pending [OF w, of n]
    by (auto simp: mem_ops_def mem_xread_def Let_def mem_unread_def min_def add.commute)
  show "ms_entries (so_xack mem_ops i s) = ms_entries s \<and> mem_unread (so_xack mem_ops i s) = mem_unread s \<and>
      set (mem_pending (so_xack mem_ops i s)) = {e \<in> set (mem_pending s). fst e \<noteq> i}"
    by (auto simp: mem_ops_def mem_xack_def mem_unread_def mem_pending_def)
qed

section \<open>The sink\<close>

definition STREAM_KEY :: string where "STREAM_KEY = ''audit.events''"
definition KEY_PREFIX :: string where "KEY_PREFIX = ''audit''"

record audit_config =
  ac_group :: string
  ac_bucket :: string
  ac_batch :: nat
  ac_sha256 :: "string \<Rightarrow> string"
  ac_day :: "real \<Rightarrow> string"

definition audit_defaults :: "(string \<Rightarrow> string) \<Rightarrow> (real \<Rightarrow> string) \<Rightarrow> audit_config" where
  "audit_defaults sha256 day =
     \<lparr>ac_group = ''audit-sink'', ac_bucket = ''dcops-artifacts'', ac_batch = 64, ac_sha256 = sha256, ac_day = day\<rparr>"

definition object_key :: "audit_config \<Rightarrow> string \<Rightarrow> real \<Rightarrow> string" where
  "object_key cfg payload ts = KEY_PREFIX @ ''/'' @ ac_day cfg ts @ ''/'' @ ac_sha256 cfg payload @ ''.json''"

text \<open>A reply of XGROUP CREATE: done, or the text of the exception.\<close>

definition ensure_group :: "string option \<Rightarrow> py_error option" where
  "ensure_group reply =
     (case reply of
        None \<Rightarrow> None
      | Some exc \<Rightarrow> if sublist ''BUSYGROUP'' exc then None else Some (RuntimeError exc))"

text \<open>Redis returns texts (\<open>decode_responses\<close>), so a field that is there is one; a text is its UTF-8 bytes.\<close>

definition payload_of :: "pyval \<Rightarrow> string" where
  "payload_of flds =
     (case flds of
        PDict d \<Rightarrow> (case get_def d ''data'' (PStr []) of PStr s \<Rightarrow> s | _ \<Rightarrow> [])
      | _ \<Rightarrow> [])"

definition entry_object :: "audit_config \<Rightarrow> nat \<Rightarrow> string \<Rightarrow> blob_object" where
  "entry_object cfg msg_id body =
     \<lparr>bo_data = body, bo_content_type = ''application/json'', bo_metadata = [(''stream-entry-id'', str_of_nat msg_id)]\<rparr>"

text \<open>The acknowledgement may raise (\<open>ack_ok\<close>); what was stored stays stored.\<close>

definition process_entry :: "audit_config \<Rightarrow> 's stream_ops \<Rightarrow> bool \<Rightarrow> bool \<Rightarrow> bool \<Rightarrow> real \<Rightarrow> entry \<Rightarrow> 's \<times> objects \<Rightarrow>
    bool res \<times> 's \<times> objects" where
  "process_entry cfg ops client server_ok ack_ok now = (\<lambda>(msg_id, flds) (s, objects).
     let ack = (\<lambda>objects. if ack_ok then (Inr True, so_xack ops msg_id s, objects)
                          else (Inl (RuntimeError ''xack''), s, objects));
         body = payload_of flds
     in if body = [] then ack objects
        else let (ok, stored) = put_bytes client server_ok (ac_bucket cfg) (object_key cfg body now) body
                   ''application/json'' [(''stream-entry-id'', str_of_nat msg_id)] objects
             in if ok then ack stored else (Inr False, s, stored))"

text \<open>The entries of one read, in order; an exception leaves the loop.\<close>

fun process_batch :: "audit_config \<Rightarrow> 's stream_ops \<Rightarrow> bool \<Rightarrow> bool \<Rightarrow> bool \<Rightarrow> real \<Rightarrow> entry list \<Rightarrow> 's \<times> objects \<Rightarrow>
    py_error option \<times> 's \<times> objects" where
  "process_batch cfg ops client server_ok ack_ok now [] st = (None, st)"
| "process_batch cfg ops client server_ok ack_ok now (e # es) st =
     (case process_entry cfg ops client server_ok ack_ok now e st of
        (Inl err, st1) \<Rightarrow> (Some err, st1)
      | (Inr _, st1) \<Rightarrow> process_batch cfg ops client server_ok ack_ok now es st1)"

text \<open>\<open>n\<close> rounds of the loop whose reads succeed, with the store and Redis up or down throughout.\<close>

fun consume_loop :: "audit_config \<Rightarrow> 's stream_ops \<Rightarrow> bool \<Rightarrow> bool \<Rightarrow> bool \<Rightarrow> real \<Rightarrow> nat \<Rightarrow> 's \<times> objects \<Rightarrow>
    py_error option \<times> 's \<times> objects" where
  "consume_loop cfg ops client server_ok ack_ok now 0 st = (None, st)"
| "consume_loop cfg ops client server_ok ack_ok now (Suc n) (s, objects) =
     (let (es, s1) = so_xread ops (ac_batch cfg) s
      in case process_batch cfg ops client server_ok ack_ok now es (s1, objects) of
           (Some err, st1) \<Rightarrow> (Some err, st1)
         | (None, st1) \<Rightarrow> consume_loop cfg ops client server_ok ack_ok now n st1)"

section \<open>The process\<close>

record 's sink =
  sk_stream :: 's
  sk_objects :: objects
  sk_batch :: "entry list"
  sk_client :: bool

text \<open>\<open>sk_batch\<close> is what is left of the batch in hand. A crash loses it; a restart connects to the store or
  fails to.\<close>

inductive sink_step :: "audit_config \<Rightarrow> 's stream_ops \<Rightarrow> 's sink \<Rightarrow> 's sink \<Rightarrow> bool" for cfg ops where
  publish: "sink_step cfg ops k (k\<lparr>sk_stream := so_xadd ops f (sk_stream k)\<rparr>)"
| read: "sk_batch k = [] \<Longrightarrow> so_xread ops (ac_batch cfg) (sk_stream k) = (es, s1) \<Longrightarrow>
    sink_step cfg ops k (k\<lparr>sk_stream := s1, sk_batch := es\<rparr>)"
| process: "sk_batch k = e # es \<Longrightarrow>
    process_entry cfg ops (sk_client k) server_ok ack_ok now e (sk_stream k, sk_objects k) = (Inr done, s1, objects) \<Longrightarrow>
    sink_step cfg ops k (k\<lparr>sk_stream := s1, sk_objects := objects, sk_batch := es\<rparr>)"
| raises: "sk_batch k = e # es \<Longrightarrow>
    process_entry cfg ops (sk_client k) server_ok ack_ok now e (sk_stream k, sk_objects k) = (Inl err, s1, objects) \<Longrightarrow>
    sink_step cfg ops k (k\<lparr>sk_stream := s1, sk_objects := objects, sk_batch := [], sk_client := blob_close (sk_client k)\<rparr>)"
| restart: "sink_step cfg ops k (k\<lparr>sk_batch := [], sk_client := snd (blob_connect importable server_ok False)\<rparr>)"

inductive_cases sink_stepE: "sink_step cfg ops k k'"

abbreviation sink_steps :: "audit_config \<Rightarrow> 's stream_ops \<Rightarrow> 's sink \<Rightarrow> 's sink \<Rightarrow> bool" where
  "sink_steps cfg ops \<equiv> (sink_step cfg ops)\<^sup>*\<^sup>*"


section \<open>Lemmas\<close>

text \<open>Payloads do not collide, and a printed day has ten characters.\<close>

definition content_addressed :: "audit_config \<Rightarrow> bool" where
  "content_addressed cfg \<longleftrightarrow> inj (ac_sha256 cfg) \<and> (\<forall>t. length (ac_day cfg t) = 10)"

lemma object_key_inj:
  assumes "content_addressed cfg" "object_key cfg a t = object_key cfg b u" shows "a = b"
proof -
  have "ac_day cfg t @ ''/'' @ ac_sha256 cfg a = ac_day cfg u @ ''/'' @ ac_sha256 cfg b"
    using assms(2) by (simp add: object_key_def)
  then have "ac_sha256 cfg a = ac_sha256 cfg b" using assms(1) by (simp add: content_addressed_def)
  then show ?thesis using assms(1) by (auto simp: content_addressed_def dest: injD)
qed

definition stored :: "audit_config \<Rightarrow> objects \<Rightarrow> string \<Rightarrow> bool" where
  "stored cfg objects body \<longleftrightarrow>
     (\<exists>t b. objects (ac_bucket cfg, object_key cfg body t) = Some b \<and> bo_data b = body)"

lemma stored_put:
  assumes "content_addressed cfg" "stored cfg objects body"
  shows "stored cfg (snd (put_bytes client server_ok (ac_bucket cfg) (object_key cfg body' t) body' c m objects)) body"
  using assms object_key_inj [OF assms(1)] unfolding stored_def put_bytes_def by fastforce

text \<open>The outcomes of an entry: not stored and left pending; acknowledged, being empty or stored; or an
  exception after the store.\<close>

lemma process_entry_cases:
  assumes "process_entry cfg ops client server_ok ack_ok now (i, f) (s, objects) = (r, s', objects')"
  shows "s' = s \<and> (\<forall>b. stored cfg objects b \<longrightarrow> content_addressed cfg \<longrightarrow> stored cfg objects' b) \<or>
    s' = so_xack ops i s \<and> r = Inr True \<and> (payload_of f = [] \<or> stored cfg objects' (payload_of f)) \<and>
      (\<forall>b. stored cfg objects b \<longrightarrow> content_addressed cfg \<longrightarrow> stored cfg objects' b)"
proof (cases "payload_of f = []")
  case True
  then show ?thesis using assms by (cases ack_ok) (simp_all add: process_entry_def Let_def)
next
  case False
  let ?put = "put_bytes client server_ok (ac_bucket cfg) (object_key cfg (payload_of f) now) (payload_of f)
    ''application/json'' [(''stream-entry-id'', str_of_nat i)] objects"
  obtain ok new where p: "?put = (ok, new)" by fastforce
  have keeps: "\<forall>b. stored cfg objects b \<longrightarrow> content_addressed cfg \<longrightarrow> stored cfg new b"
    using stored_put p by (metis snd_conv)
  show ?thesis
  proof (cases ok)
    case True
    with p have "new = objects((ac_bucket cfg, object_key cfg (payload_of f) now) \<mapsto>
        \<lparr>bo_data = payload_of f, bo_content_type = ''application/json'', bo_metadata = [(''stream-entry-id'', str_of_nat i)]\<rparr>)"
      by (simp add: put_bytes_def split: if_splits)
    then have "stored cfg new (payload_of f)"
      unfolding stored_def by (intro exI [of _ now] exI conjI) auto
    with keeps False p True assms show ?thesis
      by (cases ack_ok) (simp_all add: process_entry_def Let_def)
  next
    case False
    with keeps \<open>payload_of f \<noteq> []\<close> p assms show ?thesis by (simp add: process_entry_def Let_def)
  qed
qed

context consumer_group
begin

definition sink_inv :: "audit_config \<Rightarrow> 's sink \<Rightarrow> bool" where
  "sink_inv cfg k \<longleftrightarrow> wf (sk_stream k) \<and> distinct (map fst (sk_batch k)) \<and>
     set (sk_batch k) \<subseteq> set (pending (sk_stream k)) \<and>
     (\<forall>e \<in> set (entries (sk_stream k)). e \<notin> set (unread (sk_stream k)) \<and> e \<notin> set (pending (sk_stream k)) \<longrightarrow>
        payload_of (snd e) = [] \<or> stored cfg (sk_objects k) (payload_of (snd e)))"

lemma same_id:
  assumes "wf s" "e \<in> set (pending s)" "e' \<in> set (pending s)" "fst e = fst e'" shows "e = e'"
proof -
  have "e \<in> set (entries s)" "e' \<in> set (entries s)" using within [OF assms(1)] assms(2,3) by auto
  then show ?thesis
    using eq_key_imp_eq_value [OF distinct_entries [OF assms(1)]] assms(4) by (metis prod.collapse)
qed

lemma processed_inv:
  assumes "sink_inv cfg k" "content_addressed cfg" "sk_batch k = e # es"
    and "process_entry cfg ops (sk_client k) server_ok ack_ok now e (sk_stream k, sk_objects k) = (r, s1, objects)"
  shows "sink_inv cfg (k\<lparr>sk_stream := s1, sk_objects := objects, sk_batch := es\<rparr>)"
proof -
  obtain i f where e: "e = (i, f)" by (cases e)
  have w: "wf (sk_stream k)" and d: "distinct (map fst (e # es))" and b: "set (e # es) \<subseteq> set (pending (sk_stream k))"
    and st: "\<And>x. x \<in> set (entries (sk_stream k)) \<Longrightarrow> x \<notin> set (unread (sk_stream k)) \<Longrightarrow>
      x \<notin> set (pending (sk_stream k)) \<Longrightarrow> payload_of (snd x) = [] \<or> stored cfg (sk_objects k) (payload_of (snd x))"
    using assms(1,3) by (auto simp: sink_inv_def)
  from process_entry_cases [OF assms(4) [unfolded e]] show ?thesis
  proof (rule disjE, elim conjE)
    assume "s1 = sk_stream k" and keeps: "\<forall>b. stored cfg (sk_objects k) b \<longrightarrow> content_addressed cfg \<longrightarrow> stored cfg objects b"
    with w d b st assms(2) show ?thesis by (fastforce simp: sink_inv_def)
  next
    assume "s1 = so_xack ops i (sk_stream k) \<and> r = Inr True \<and> (payload_of f = [] \<or> stored cfg objects (payload_of f)) \<and>
      (\<forall>b. stored cfg (sk_objects k) b \<longrightarrow> content_addressed cfg \<longrightarrow> stored cfg objects b)"
    then have acked: "s1 = so_xack ops i (sk_stream k)" "payload_of f = [] \<or> stored cfg objects (payload_of f)"
      and keeps: "\<forall>b. stored cfg (sk_objects k) b \<longrightarrow> content_addressed cfg \<longrightarrow> stored cfg objects b" by auto
    have "set es \<subseteq> set (pending s1)"
      using xack [OF w, of i] acked(1) b d e by (auto simp: image_iff)
    moreover have "payload_of (snd x) = [] \<or> stored cfg objects (payload_of (snd x))"
      if x: "x \<in> set (entries s1)" "x \<notin> set (unread s1)" "x \<notin> set (pending s1)" for x
    proof (cases "x = e")
      case True
      with acked(2) e show ?thesis by auto
    next
      case False
      have "x \<notin> set (pending (sk_stream k))"
        using x(3) xack [OF w, of i] acked(1) same_id [OF w, of x e] b e False by auto
      with st [of x] x xack [OF w, of i] acked(1) keeps assms(2) show ?thesis by auto
    qed
    ultimately show ?thesis
      using acked(1) wf_xack [OF w] d by (auto simp: sink_inv_def)
  qed
qed

lemma sink_inv_step:
  assumes "sink_step cfg ops k k'" "content_addressed cfg" "sink_inv cfg k"
  shows "sink_inv cfg k'"
  using assms(1)
proof cases
  case (publish f)
  have w: "wf (sk_stream k)" using assms(3) by (simp add: sink_inv_def)
  from xadd [OF w, of f] show ?thesis
    using assms(3) wf_xadd [OF w] by (auto simp: sink_inv_def publish)
next
  case (read es s1)
  have w: "wf (sk_stream k)" using assms(3) by (simp add: sink_inv_def)
  from read(3) have s1: "s1 = snd (so_xread ops (ac_batch cfg) (sk_stream k))"
    and es: "es = take (ac_batch cfg) (unread (sk_stream k))"
    using xread [OF w, of "ac_batch cfg"] by (metis snd_conv, metis fst_conv)
  have "distinct (map fst (unread (sk_stream k)))"
    using distinct_entries [OF w] within [OF w] by (auto simp: suffix_def)
  then have "distinct (map fst es)" unfolding es take_map [symmetric] by (rule distinct_take)
  moreover have "x \<in> set es \<or> x \<in> set (drop (ac_batch cfg) (unread (sk_stream k)))" if "x \<in> set (unread (sk_stream k))" for x
    using that unfolding es by (metis Un_iff append_take_drop_id set_append)
  ultimately show ?thesis
    using assms(3) wf_xread [OF w, of "ac_batch cfg"] xread [OF w, of "ac_batch cfg"]
    unfolding read(1) s1 [symmetric] es [symmetric] sink_inv_def by auto
next
  case (process e es server_ok ack_ok now don s1 objects)
  then show ?thesis using processed_inv [OF assms(3,2)] by simp
next
  case (raises e es server_ok ack_ok now err s1 objects)
  have "sink_inv cfg (k\<lparr>sk_stream := s1, sk_objects := objects, sk_batch := es\<rparr>)"
    using processed_inv [OF assms(3,2) raises(2,3)] .
  then show ?thesis by (simp add: sink_inv_def raises(1))
next
  case (restart importable server_ok)
  then show ?thesis using assms(3) by (simp add: sink_inv_def)
qed

text \<open>An entry that is pending and not in hand is never in hand again.\<close>

lemma stuck_step:
  assumes "sink_step cfg ops k k'" "sink_inv cfg k" "e \<in> set (pending (sk_stream k))" "e \<notin> set (sk_batch k)"
  shows "e \<in> set (pending (sk_stream k')) \<and> e \<notin> set (sk_batch k')"
proof -
  have w: "wf (sk_stream k)" and b: "set (sk_batch k) \<subseteq> set (pending (sk_stream k))"
    using assms(2) by (auto simp: sink_inv_def)
  have other: "e \<in> set (pending s1)"
    if "sk_batch k = x # es" "process_entry cfg ops c so ao now x (sk_stream k, sk_objects k) = (r, s1, ob)" for x es c so ao now r s1 ob
  proof -
    obtain i f where x: "x = (i, f)" by (cases x)
    have "x \<in> set (pending (sk_stream k))" "x \<noteq> e" using b that(1) assms(4) by auto
    then have "fst e \<noteq> i" using same_id [OF w assms(3), of x] x by auto
    then show ?thesis
      using process_entry_cases [OF that(2) [unfolded x]] assms(3) xack [OF w, of i] by auto
  qed
  from assms(1) show ?thesis
  proof cases
    case (publish f)
    then show ?thesis using xadd [OF w, of f] assms(3,4) by auto
  next
    case (read es s1)
    have "s1 = snd (so_xread ops (ac_batch cfg) (sk_stream k))"
      and "es = take (ac_batch cfg) (unread (sk_stream k))"
      using xread [OF w, of "ac_batch cfg"] read(3) by (metis snd_conv, metis fst_conv)
    then show ?thesis
      using xread [OF w, of "ac_batch cfg"] apart [OF w] assms(3) by (auto simp: read(1) dest: in_set_takeD)
  next
    case (process x es server_ok ack_ok now don s1 objects)
    then show ?thesis using other [OF process(2,3)] assms(4) by simp
  next
    case (raises x es server_ok ack_ok now err s1 objects)
    then show ?thesis using other [OF raises(2,3)] by simp
  next
    case (restart importable server_ok)
    then show ?thesis using assms(3) by simp
  qed
qed

lemma acked_one:
  assumes "wf s" "e \<in> set (pending s)" shows "set (pending (so_xack ops (fst e) s)) = set (pending s) - {e}"
proof -
  have "fst x \<noteq> fst e \<longleftrightarrow> x \<noteq> e" if "x \<in> set (pending s)" for x using same_id [OF assms that] by metis
  then have "{x \<in> set (pending s). fst x \<noteq> fst e} = set (pending s) - {e}" by blast
  with xack [OF assms(1), of "fst e"] show ?thesis by (simp only:)
qed

lemma processed_all:
  assumes "content_addressed cfg" "wf s" "distinct (map fst es)" "set es \<subseteq> set (pending s)"
  shows "\<exists>s' objects'. process_batch cfg ops True True True now es (s, objects) = (None, s', objects') \<and>
    wf s' \<and> unread s' = unread s \<and> set (pending s') = set (pending s) - set es \<and>
    (\<forall>e \<in> set es. payload_of (snd e) = [] \<or> stored cfg objects' (payload_of (snd e))) \<and>
    (\<forall>b. stored cfg objects b \<longrightarrow> stored cfg objects' b)"
  using assms(2-4)
proof (induction es arbitrary: s objects)
  case (Cons e es)
  obtain i f where e: "e = (i, f)" by (cases e)
  obtain r s1 o1 where p: "process_entry cfg ops True True True now (i, f) (s, objects) = (r, s1, o1)"
    by (metis prod_cases3)
  then have r: "r = Inr True" "s1 = so_xack ops i s"
    by (auto simp: process_entry_def Let_def put_bytes_def split: if_splits)
  have pend: "set (pending s1) = set (pending s) - {e}"
    using acked_one [OF Cons.prems(1), of e] Cons.prems(3) r e by simp
  then have "s1 \<noteq> s" using Cons.prems(3) by auto
  then have st: "payload_of f = [] \<or> stored cfg o1 (payload_of f)" "\<forall>b. stored cfg objects b \<longrightarrow> stored cfg o1 b"
    using process_entry_cases [OF p] assms(1) by auto
  have "wf s1" "unread s1 = unread s" using wf_xack [OF Cons.prems(1)] xack [OF Cons.prems(1), of i] r by auto
  moreover have "distinct (map fst es)" "set es \<subseteq> set (pending s1)" using Cons.prems pend e by (auto simp: image_iff)
  ultimately obtain s' o' where ih: "process_batch cfg ops True True True now es (s1, o1) = (None, s', o')"
    "wf s'" "unread s' = unread s1" "set (pending s') = set (pending s1) - set es"
    "\<forall>e \<in> set es. payload_of (snd e) = [] \<or> stored cfg o' (payload_of (snd e))"
    "\<forall>b. stored cfg o1 b \<longrightarrow> stored cfg o' b" using Cons.IH by metis
  then show ?case
    using p r st pend e \<open>unread s1 = unread s\<close> by auto
qed auto

lemma unconnected_batch:
  assumes "wf s" "distinct (map fst es)" "set es \<subseteq> set (pending s)"
  shows "\<exists>s'. process_batch cfg ops False server_ok True now es (s, objects) = (None, s', objects) \<and> wf s' \<and>
    unread s' = unread s \<and> (\<forall>e \<in> set (pending s). payload_of (snd e) \<noteq> [] \<longrightarrow> e \<in> set (pending s'))"
  using assms
proof (induction es arbitrary: s)
  case (Cons e es)
  obtain i f where e: "e = (i, f)" by (cases e)
  show ?case
  proof (cases "payload_of f = []")
    case True
    let ?s1 = "so_xack ops i s"
    have pend: "set (pending ?s1) = set (pending s) - {e}"
      using acked_one [OF Cons.prems(1), of e] Cons.prems(3) e by simp
    moreover have "e \<notin> set es" using Cons.prems(2) by auto
    ultimately have "set es \<subseteq> set (pending ?s1)" "distinct (map fst es)" using Cons.prems by auto
    from Cons.IH [OF wf_xack [OF Cons.prems(1), of i] this(2,1)] obtain s' where
      "process_batch cfg ops False server_ok True now es (?s1, objects) = (None, s', objects)" "wf s'"
      "unread s' = unread ?s1" "\<forall>x \<in> set (pending ?s1). payload_of (snd x) \<noteq> [] \<longrightarrow> x \<in> set (pending s')" by blast
    moreover have "process_entry cfg ops False server_ok True now e (s, objects) = (Inr True, ?s1, objects)"
      using True e by (simp add: process_entry_def Let_def)
    moreover have "payload_of (snd e) = []" using True e by simp
    ultimately show ?thesis
      using pend xack [OF Cons.prems(1), of i] by (intro exI [of _ s']) auto
  next
    case False
    then show ?thesis using Cons e by (auto simp: process_entry_def Let_def put_bytes_def)
  qed
qed auto

lemma read_batch:
  assumes "wf s" "so_xread ops n s = (es, s1)"
  shows "es = take n (unread s)" "unread s1 = drop n (unread s)" "wf s1" "distinct (map fst es)"
    "set (pending s1) = set (pending s) \<union> set es" "set es \<inter> set (pending s) = {}"
proof -
  note x = xread [OF assms(1), of n] wf_xread [OF assms(1), of n]
  show es: "es = take n (unread s)" and "unread s1 = drop n (unread s)" "wf s1"
    and "set (pending s1) = set (pending s) \<union> set es"
    using x assms(2) by simp_all
  have "distinct (map fst (unread s))"
    using distinct_entries [OF assms(1)] within [OF assms(1)] by (auto simp: suffix_def)
  then show "distinct (map fst es)" unfolding es take_map [symmetric] by (rule distinct_take)
  show "set es \<inter> set (pending s) = {}" using apart [OF assms(1)] es by (auto dest: in_set_takeD)
qed

lemma in_take_or_drop: "x \<in> set xs \<Longrightarrow> x \<in> set (take n xs) \<or> x \<in> set (drop n xs)"
  by (metis Un_iff append_take_drop_id set_append)

lemma consumed_all:
  assumes "content_addressed cfg" "wf s" "length (unread s) \<le> n * ac_batch cfg"
  shows "\<exists>s' objects'. consume_loop cfg ops True True True now n (s, objects) = (None, s', objects') \<and>
    unread s' = [] \<and> set (pending s') = set (pending s) \<and>
    (\<forall>e \<in> set (unread s). payload_of (snd e) = [] \<or> stored cfg objects' (payload_of (snd e))) \<and>
    (\<forall>b. stored cfg objects b \<longrightarrow> stored cfg objects' b)"
  using assms(2,3)
proof (induction n arbitrary: s objects)
  case (Suc n)
  obtain es s1 where rd: "so_xread ops (ac_batch cfg) s = (es, s1)" by fastforce
  note r = read_batch [OF Suc.prems(1) rd]
  have "set es \<subseteq> set (pending s1)" using r by auto
  from processed_all [OF assms(1) r(3,4) this] obtain s2 o2 where p:
    "process_batch cfg ops True True True now es (s1, objects) = (None, s2, o2)" "wf s2" "unread s2 = unread s1"
    "set (pending s2) = set (pending s1) - set es"
    "\<forall>e \<in> set es. payload_of (snd e) = [] \<or> stored cfg o2 (payload_of (snd e))"
    "\<forall>b. stored cfg objects b \<longrightarrow> stored cfg o2 b" by blast
  have "length (unread s2) \<le> n * ac_batch cfg" using p(3) r(2) Suc.prems(2) by simp
  from Suc.IH [OF p(2) this] obtain s' o' where ih:
    "consume_loop cfg ops True True True now n (s2, o2) = (None, s', o')" "unread s' = []"
    "set (pending s') = set (pending s2)"
    "\<forall>e \<in> set (unread s2). payload_of (snd e) = [] \<or> stored cfg o' (payload_of (snd e))"
    "\<forall>b. stored cfg o2 b \<longrightarrow> stored cfg o' b" by blast
  have "payload_of (snd e) = [] \<or> stored cfg o' (payload_of (snd e))" if "e \<in> set (unread s)" for e
    using in_take_or_drop [OF that, of "ac_batch cfg"] p(3,5) ih(4,5) r(1,2) by auto
  moreover have "set (pending s') = set (pending s)" using ih(3) p(4) r(5,6) by auto
  ultimately show ?case using rd p(1,6) ih(1,2,5) by (intro exI [of _ s'] exI [of _ o']) simp
qed simp

lemma unconnected_loop:
  assumes "wf s"
  shows "\<exists>s'. consume_loop cfg ops False server_ok True now n (s, objects) = (None, s', objects) \<and> wf s' \<and>
    unread s' = drop (n * ac_batch cfg) (unread s) \<and>
    (\<forall>e \<in> set (pending s) \<union> set (take (n * ac_batch cfg) (unread s)). payload_of (snd e) \<noteq> [] \<longrightarrow> e \<in> set (pending s'))"
  using assms
proof (induction n arbitrary: s)
  case (Suc n)
  obtain es s1 where rd: "so_xread ops (ac_batch cfg) s = (es, s1)" by fastforce
  note r = read_batch [OF Suc.prems(1) rd]
  have "set es \<subseteq> set (pending s1)" using r by auto
  from unconnected_batch [OF r(3,4) this, of cfg server_ok now objects] obtain s2 where p:
    "process_batch cfg ops False server_ok True now es (s1, objects) = (None, s2, objects)" "wf s2" "unread s2 = unread s1"
    "\<forall>e \<in> set (pending s1). payload_of (snd e) \<noteq> [] \<longrightarrow> e \<in> set (pending s2)" by blast
  from Suc.IH [OF p(2)] obtain s' where ih:
    "consume_loop cfg ops False server_ok True now n (s2, objects) = (None, s', objects)" "wf s'"
    "unread s' = drop (n * ac_batch cfg) (unread s2)"
    "\<forall>e \<in> set (pending s2) \<union> set (take (n * ac_batch cfg) (unread s2)). payload_of (snd e) \<noteq> [] \<longrightarrow> e \<in> set (pending s')"
    by blast
  have "take (Suc n * ac_batch cfg) (unread s) = es @ take (n * ac_batch cfg) (unread s2)"
    using p(3) r(1,2) by (simp add: take_add)
  moreover have "unread s' = drop (Suc n * ac_batch cfg) (unread s)"
    using ih(3) p(3) r(2) by (simp add: add.commute)
  ultimately show ?case
    using rd p(1,4) ih(1,2,4) r(5) by (intro exI [of _ s']) (simp, blast)
qed simp

lemma sink_inv_steps:
  assumes "sink_steps cfg ops k k'" "content_addressed cfg" "sink_inv cfg k"
  shows "sink_inv cfg k'"
  using assms(1,3) by (induction rule: rtranclp_induct) (auto dest: sink_inv_step [OF _ assms(2)])

end


section \<open>Properties\<close>

text \<open>A sink whose group has acknowledged nothing, with no batch in hand.\<close>

definition fresh_sink :: "('s \<Rightarrow> bool) \<Rightarrow> ('s \<Rightarrow> entry list) \<Rightarrow> ('s \<Rightarrow> entry list) \<Rightarrow> ('s \<Rightarrow> entry list) \<Rightarrow> 's sink \<Rightarrow> bool" where
  "fresh_sink good entries unread pending k \<longleftrightarrow> good (sk_stream k) \<and> sk_batch k = [] \<and>
     set (entries (sk_stream k)) \<subseteq> set (unread (sk_stream k)) \<union> set (pending (sk_stream k))"

text \<open>C26: no audit record is acknowledged before it is stored: in every state the sink can reach, through any
  interleaving of publications, reads, stores that fail, acknowledgements that raise, crashes and
  restarts, an entry of the stream that the group has been given and no longer holds pending is either
  empty or in the bucket, under a key made of the day and the hash of its payload, with that content.\<close>

theorem acknowledged_is_stored:
  assumes "consumer_group ops good entries unread pending" and "content_addressed cfg"
    and "fresh_sink good entries unread pending k0" and "sink_steps cfg ops k0 k"
    and "(i, f) \<in> set (entries (sk_stream k))" "(i, f) \<notin> set (unread (sk_stream k))" "(i, f) \<notin> set (pending (sk_stream k))"
  shows "payload_of f = [] \<or>
    (\<exists>t b. sk_objects k (ac_bucket cfg, object_key cfg (payload_of f) t) = Some b \<and> bo_data b = payload_of f)"
proof -
  note inv = consumer_group.sink_inv_def [OF assms(1)]
  have "consumer_group.sink_inv good entries unread pending cfg k0"
    using assms(3) by (auto simp: inv fresh_sink_def)
  from consumer_group.sink_inv_steps [OF assms(1,4,2) this] assms(5-7) show ?thesis
    by (fastforce simp: inv stored_def)
qed

text \<open>What the sink failed to store is not tried again: an entry that is pending and not in the batch in
  hand stays pending, and out of every later batch, for ever, whatever happens: the loop reads only
  entries the group was never given.\<close>

lemma unacknowledged_never_retried:
  assumes "consumer_group ops good entries unread pending" and "content_addressed cfg"
    and "fresh_sink good entries unread pending k0" and "sink_steps cfg ops k0 k"
    and "e \<in> set (pending (sk_stream k))" "e \<notin> set (sk_batch k)" and "sink_steps cfg ops k k'"
  shows "e \<in> set (pending (sk_stream k')) \<and> e \<notin> set (sk_batch k')"
proof -
  note inv = consumer_group.sink_inv_def [OF assms(1)]
  have "consumer_group.sink_inv good entries unread pending cfg k0"
    using assms(3) by (auto simp: inv fresh_sink_def)
  note i = consumer_group.sink_inv_steps [OF assms(1,4,2) this]
  from assms(7) show ?thesis
  proof (induction rule: rtranclp_induct)
    case base
    with assms(5,6) show ?case by simp
  next
    case (step y z)
    then show ?case
      using consumer_group.stuck_step [OF assms(1) step.hyps(2)]
        consumer_group.sink_inv_steps [OF assms(1) step.hyps(1) assms(2) i] by blast
  qed
qed

text \<open>C27: the sink drains the stream: with the store and Redis up, as many rounds as there are batches leave
  nothing unread, add nothing to the pending entries and store every payload. A sink that was not
  connected when it started drains it just the same, but stores nothing, also when the store is up: it
  never connects again, and every record is left pending.\<close>

theorem sink_drains:
  assumes "consumer_group ops good entries unread pending" and "content_addressed cfg" and "good s"
    and "length (unread s) \<le> n * ac_batch cfg"
  shows "(\<exists>s' objects'. consume_loop cfg ops True True True now n (s, objects) = (None, s', objects') \<and>
      unread s' = [] \<and> set (pending s') = set (pending s) \<and>
      (\<forall>e \<in> set (unread s). payload_of (snd e) = [] \<or> stored cfg objects' (payload_of (snd e)))) \<and>
    (\<exists>s'. consume_loop cfg ops False True True now n (s, objects) = (None, s', objects) \<and> unread s' = [] \<and>
      (\<forall>e \<in> set (unread s). payload_of (snd e) \<noteq> [] \<longrightarrow> e \<in> set (pending s')))"
  using consumer_group.consumed_all [OF assms(1-4)] consumer_group.unconnected_loop [OF assms(1,3)] assms(4)
  by (intro conjI) (blast, fastforce)

definition sample_audit_config :: audit_config where
  "sample_audit_config = audit_defaults (\<lambda>s. s) (\<lambda>t. ''2025/01/01'')"

definition sample_record :: "string \<Rightarrow> pyval" where
  "sample_record s = PDict [(''data'', PStr s)]"

lemma sample_audit_addressed: "content_addressed sample_audit_config"
  by (simp add: content_addressed_def sample_audit_config_def audit_defaults_def)

definition sample_stream :: mem_stream where
  "sample_stream = \<lparr>ms_entries = [(0, sample_record ''a''), (1, sample_record ''b'')], ms_given = 0, ms_pel = []\<rparr>"

definition sample_sink :: "mem_stream sink" where
  "sample_sink = \<lparr>sk_stream = sample_stream, sk_objects = (\<lambda>k. None), sk_batch = [], sk_client = True\<rparr>"

lemma sample_fresh: "fresh_sink mem_wf ms_entries mem_unread mem_pending sample_sink"
  by (simp add: fresh_sink_def sample_sink_def sample_stream_def mem_wf_def mem_unread_def upt_rec)

text \<open>The first record is stored, the second is not.\<close>

definition sample_sink_at :: "nat \<Rightarrow> mem_stream sink" where
  "sample_sink_at n =
     \<lparr>sk_stream = sample_stream\<lparr>ms_given := 2, ms_pel := drop (min n 1) [0, 1]\<rparr>,
      sk_objects = (if n = 0 then (\<lambda>k. None)
        else [(''dcops-artifacts'', object_key sample_audit_config ''a'' 0) \<mapsto>
          \<lparr>bo_data = ''a'', bo_content_type = ''application/json'', bo_metadata = [(''stream-entry-id'', ''0'')]\<rparr>]),
      sk_batch = drop n [(0, sample_record ''a''), (1, sample_record ''b'')], sk_client = True\<rparr>"

lemma sample_payloads: "payload_of (sample_record x) = x"
  by (simp add: payload_of_def sample_record_def)

lemma sample_bucket: "ac_bucket sample_audit_config = ''dcops-artifacts''"
  by (simp add: sample_audit_config_def audit_defaults_def)

lemma sample_sink_run: "sink_steps sample_audit_config mem_ops sample_sink (sample_sink_at 2)"
proof -
  have b: "ac_batch sample_audit_config = 64" by (simp add: sample_audit_config_def audit_defaults_def)
  have "sink_step sample_audit_config mem_ops sample_sink (sample_sink_at 0)"
    using sink_step.read [of sample_sink mem_ops sample_audit_config
        "[(0, sample_record ''a''), (1, sample_record ''b'')]" "sk_stream (sample_sink_at 0)"]
    by (simp add: b sample_sink_def sample_sink_at_def sample_stream_def mem_ops_def mem_xread_def mem_unread_def Let_def
        eval_nat_numeral)
  moreover have "sink_step sample_audit_config mem_ops (sample_sink_at 0) (sample_sink_at 1)"
  proof -
    have z: "str_of_nat 0 = ''0''" by code_simp
    have "process_entry sample_audit_config mem_ops (sk_client (sample_sink_at 0)) True True 0 (0, sample_record ''a'')
        (sk_stream (sample_sink_at 0), sk_objects (sample_sink_at 0)) =
        (Inr True, sk_stream (sample_sink_at 1), sk_objects (sample_sink_at 1))"
      using sample_payloads sample_bucket
      by (simp add: process_entry_def put_bytes_def Let_def sample_sink_at_def mem_ops_def mem_xack_def
          sample_stream_def z)
    from sink_step.process [OF _ this] show ?thesis by (simp add: sample_sink_at_def)
  qed
  moreover have "sink_step sample_audit_config mem_ops (sample_sink_at 1) (sample_sink_at 2)"
  proof -
    have "process_entry sample_audit_config mem_ops (sk_client (sample_sink_at 1)) False True 0 (1, sample_record ''b'')
        (sk_stream (sample_sink_at 1), sk_objects (sample_sink_at 1)) =
        (Inr False, sk_stream (sample_sink_at 2), sk_objects (sample_sink_at 2))"
      using sample_payloads by (simp add: process_entry_def put_bytes_def Let_def sample_sink_at_def)
    from sink_step.process [OF _ this] show ?thesis by (simp add: sample_sink_at_def)
  qed
  ultimately show ?thesis by (meson converse_rtranclp_into_rtranclp rtranclp.rtrancl_refl)
qed

lemma sample_sink_stream:
  "ms_entries (sk_stream (sample_sink_at 2)) = [(0, sample_record ''a''), (1, sample_record ''b'')]"
  "mem_unread (sk_stream (sample_sink_at 2)) = []"
  "mem_pending (sk_stream (sample_sink_at 2)) = [(1, sample_record ''b'')]" "sk_batch (sample_sink_at 2) = []"
  by (simp_all add: sample_sink_at_def sample_stream_def mem_unread_def mem_pending_def)

theorem acknowledged_is_stored_witness:
  "\<exists>t b. sk_objects (sample_sink_at 2) (''dcops-artifacts'', object_key sample_audit_config ''a'' t) = Some b \<and> bo_data b = ''a''"
  using acknowledged_is_stored [OF mem.consumer_group_axioms sample_audit_addressed sample_fresh sample_sink_run,
      of 0 "sample_record ''a''"]
  unfolding sample_payloads sample_sink_stream sample_bucket by (simp add: sample_record_def)

lemma unacknowledged_never_retried_witness:
  "(1, sample_record ''b'') \<in> set (mem_pending (sk_stream
     ((sample_sink_at 2)\<lparr>sk_batch := [], sk_client := snd (blob_connect True True False)\<rparr>)))"
proof -
  have "sink_steps sample_audit_config mem_ops (sample_sink_at 2)
      ((sample_sink_at 2)\<lparr>sk_batch := [], sk_client := snd (blob_connect True True False)\<rparr>)"
    by (rule r_into_rtranclp) (rule sink_step.restart)
  from unacknowledged_never_retried [OF mem.consumer_group_axioms sample_audit_addressed sample_fresh sample_sink_run
      _ _ this, of "(1, sample_record ''b'')"]
  show ?thesis by (simp add: sample_sink_stream)
qed

theorem sink_drains_witness:
  "\<exists>s' objects'. consume_loop sample_audit_config mem_ops True True True 0 1 (sample_stream, \<lambda>k. None) = (None, s', objects') \<and>
     mem_unread s' = [] \<and> stored sample_audit_config objects' ''b''"
proof -
  have "mem_wf sample_stream" using sample_fresh by (simp add: fresh_sink_def sample_sink_def)
  moreover have "length (mem_unread sample_stream) \<le> 1 * ac_batch sample_audit_config"
    by (simp add: mem_unread_def sample_stream_def sample_audit_config_def audit_defaults_def)
  moreover have "(1, sample_record ''b'') \<in> set (mem_unread sample_stream)" "payload_of (sample_record ''b'') = ''b''"
    by (simp_all add: mem_unread_def sample_stream_def payload_of_def sample_record_def)
  ultimately show ?thesis
    using sink_drains [OF mem.consumer_group_axioms sample_audit_addressed, of sample_stream 1 0 "\<lambda>k. None"] by fastforce
qed

end
