(* ===== verification/Ingestion.thy ===== *)
theory Ingestion
  imports Grounding Interfaces
begin

text \<open>
  The ingestion service (\<open>apps/ingestion/main.py\<close>): the pollers, which publish what a normalizer
  yields, and the writer, which batches what is on the bus into the database.

  The writer's two coroutines share the batch, and each gives up control while it waits for an insert.
  \<open>writer_step\<close> is one turn of the event loop: an event arrives at the consumer, the ticker wakes, or an
  insert of one of the two returns. \<open>insert_telemetry\<close> makes its rows when it is called; whether the
  database takes them is part of the step that returns. \<open>dict(event)\<close> of a payload that is not an
  object is a parameter.
\<close>

section \<open>Pollers\<close>

definition source_topic :: "string \<Rightarrow> telemetry_event \<Rightarrow> string" where
  "source_topic name event = ''telemetry.'' @ name @ ''.'' @ device_type_value (te_device_type event)"

text \<open>One cycle of a source, from what its generator yields and how it ends: an exception of the generator
  or of the bus ends the cycle only.\<close>

definition source_cycle :: "string \<Rightarrow> (bus_msg effect \<Rightarrow> bool) \<Rightarrow> telemetry_event list \<times> py_error option \<Rightarrow> bus_msg effect list" where
  "source_cycle name ok = (\<lambda>(events, err). attempt ok (map (\<lambda>e. Publish (source_topic name e) (MTelemetry e)) events))"

definition run_source :: "string \<Rightarrow> (bus_msg effect \<Rightarrow> bool) \<Rightarrow> (telemetry_event list \<times> py_error option) list \<Rightarrow> bus_msg effect list" where
  "run_source name ok polls = concat (map (source_cycle name ok) polls)"

record ingestion_config =
  ic_redfish_s :: real
  ic_dcgm_s :: real
  ic_ipmi_s :: real
  ic_snmp_s :: real
  ic_env_s :: real

definition ingestion_defaults :: ingestion_config where
  "ingestion_defaults = \<lparr>ic_redfish_s = 30, ic_dcgm_s = 5, ic_ipmi_s = 30, ic_snmp_s = 15, ic_env_s = 10\<rparr>"

definition ingestion_sources :: "ingestion_config \<Rightarrow> (string \<times> real) list" where
  "ingestion_sources cfg =
     [(''redfish'', ic_redfish_s cfg), (''dcgm'', ic_dcgm_s cfg), (''ipmi'', ic_ipmi_s cfg),
      (''snmp'', ic_snmp_s cfg), (''env'', ic_env_s cfg)]"

section \<open>The writer\<close>

record writer_config =
  wc_flush_max :: int
  wc_flush_interval_s :: real
  wc_as_dict :: "pyval \<Rightarrow> dict res"

definition writer_defaults :: "(pyval \<Rightarrow> dict res) \<Rightarrow> writer_config" where
  "writer_defaults as_dict = \<lparr>wc_flush_max = 500, wc_flush_interval_s = 2, wc_as_dict = as_dict\<rparr>"

text \<open>\<open>wr_consumer\<close> and \<open>wr_ticker\<close> are the rows of an insert the coroutine waits for.\<close>

record writer =
  wr_batch :: "dict list"
  wr_last_flush :: real
  wr_consumer :: "telemetry_row list option"
  wr_ticker :: "telemetry_row list option"
  wr_stored :: "telemetry_row list"
  wr_crashed :: "py_error option"

definition writer_start :: "real \<Rightarrow> writer" where
  "writer_start now =
     \<lparr>wr_batch = [], wr_last_flush = now, wr_consumer = None, wr_ticker = None, wr_stored = [], wr_crashed = None\<rparr>"

datatype writer_event =
    Arrive pyval
  | Tick real
  | ConsumerFlushed bool real
  | TickerFlushed bool real

text \<open>\<open>_flush\<close> up to its \<open>await\<close>: the rows of the batch, or \<open>None\<close> where it returns at once; and what it
  does when the insert has returned.\<close>

definition flush_begin :: "dict list \<Rightarrow> telemetry_row list option" where
  "flush_begin batch = (if batch = [] then None else Some (map telemetry_row_of batch))"

definition flush_end :: "bool \<Rightarrow> real \<Rightarrow> telemetry_row list \<Rightarrow> writer \<Rightarrow> writer" where
  "flush_end ok now rows w =
     w\<lparr>wr_stored := wr_stored w @ (if ok then rows else []), wr_batch := [], wr_last_flush := now\<rparr>"

definition consume_event :: "writer_config \<Rightarrow> pyval \<Rightarrow> writer \<Rightarrow> writer" where
  "consume_event cfg event w =
     (case (case event of PDict d \<Rightarrow> Inr d | _ \<Rightarrow> wc_as_dict cfg event) of
        Inl e \<Rightarrow> w\<lparr>wr_crashed := Some e\<rparr>
      | Inr d \<Rightarrow>
          let w1 = w\<lparr>wr_batch := wr_batch w @ [d]\<rparr>
          in if wc_flush_max cfg \<le> int (length (wr_batch w1))
             then w1\<lparr>wr_consumer := flush_begin (wr_batch w1)\<rparr> else w1)"

definition tick_writer :: "writer_config \<Rightarrow> real \<Rightarrow> writer \<Rightarrow> writer" where
  "tick_writer cfg now w =
     (if wr_batch w \<noteq> [] \<and> wc_flush_interval_s cfg \<le> now - wr_last_flush w
      then w\<lparr>wr_ticker := flush_begin (wr_batch w)\<rparr> else w)"

text \<open>A step that is not enabled (the coroutine waits, or has ended) changes nothing.\<close>

fun writer_step :: "writer_config \<Rightarrow> writer \<Rightarrow> writer_event \<Rightarrow> writer" where
  "writer_step cfg w (Arrive event) =
     (if wr_consumer w = None \<and> wr_crashed w = None then consume_event cfg event w else w)"
| "writer_step cfg w (Tick now) = (if wr_ticker w = None then tick_writer cfg now w else w)"
| "writer_step cfg w (ConsumerFlushed ok now) =
     (case wr_consumer w of None \<Rightarrow> w | Some rows \<Rightarrow> (flush_end ok now rows w)\<lparr>wr_consumer := None\<rparr>)"
| "writer_step cfg w (TickerFlushed ok now) =
     (case wr_ticker w of None \<Rightarrow> w | Some rows \<Rightarrow> (flush_end ok now rows w)\<lparr>wr_ticker := None\<rparr>)"

definition writer_run :: "writer_config \<Rightarrow> writer \<Rightarrow> writer_event list \<Rightarrow> writer" where
  "writer_run cfg w events = foldl (writer_step cfg) w events"

text \<open>\<open>run_writer\<close>, from the database's connection to the flush at the end.\<close>

definition run_writer :: "writer_config \<Rightarrow> bool \<Rightarrow> real \<Rightarrow> writer_event list \<Rightarrow> bool \<Rightarrow> telemetry_row list" where
  "run_writer cfg enabled now events ok =
     (if \<not> enabled then []
      else let w = writer_run cfg (writer_start now) events
           in wr_stored w @ (case flush_begin (wr_batch w) of Some rows \<Rightarrow> if ok then rows else [] | None \<Rightarrow> []))"

section \<open>Lemmas\<close>

lemma writer_run_Cons [simp]: "writer_run cfg w (e # es) = writer_run cfg (writer_step cfg w e) es"
  by (simp add: writer_run_def)

lemma writer_run_Nil [simp]: "writer_run cfg w [] = w"
  by (simp add: writer_run_def)

text \<open>The objects among the arrivals, as the rows they become.\<close>

definition arrived :: "writer_event list \<Rightarrow> telemetry_row list" where
  "arrived events = List.map_filter (\<lambda>e. case e of Arrive (PDict d) \<Rightarrow> Some (telemetry_row_of d) | _ \<Rightarrow> None) events"

text \<open>A run in which nothing happens between the start of an insert and its end, every payload is an
  object and every insert succeeds.\<close>

definition waiting :: "writer \<Rightarrow> bool" where
  "waiting w \<longleftrightarrow> wr_consumer w \<noteq> None \<or> wr_ticker w \<noteq> None"

fun undisturbed :: "writer_config \<Rightarrow> writer \<Rightarrow> writer_event list \<Rightarrow> bool" where
  "undisturbed cfg w [] \<longleftrightarrow> True"
| "undisturbed cfg w (e # es) \<longleftrightarrow>
     (case e of Arrive (PDict d) \<Rightarrow> \<not> waiting w | Arrive _ \<Rightarrow> False | Tick now \<Rightarrow> \<not> waiting w
      | ConsumerFlushed ok now \<Rightarrow> ok | TickerFlushed ok now \<Rightarrow> ok) \<and>
     undisturbed cfg (writer_step cfg w e) es"

text \<open>What holds of the writer in such a run: what is stored and what is in the batch is what arrived.\<close>

definition accounts :: "writer \<Rightarrow> telemetry_row list \<Rightarrow> bool" where
  "accounts w rows \<longleftrightarrow> wr_stored w @ map telemetry_row_of (wr_batch w) = rows \<and> wr_crashed w = None \<and>
     (wr_consumer w = None \<or> wr_ticker w = None) \<and>
     (\<forall>r. wr_consumer w = Some r \<or> wr_ticker w = Some r \<longrightarrow> r = map telemetry_row_of (wr_batch w))"

lemma accounts_step:
  assumes "accounts w rows" "undisturbed cfg w (e # es)"
  shows "accounts (writer_step cfg w e) (rows @ arrived [e])"
proof (cases e)
  case (Arrive p)
  with assms obtain d where "p = PDict d" by (cases p) auto
  with assms Arrive show ?thesis
    by (auto simp: accounts_def waiting_def arrived_def consume_event_def flush_begin_def Let_def List.map_filter_simps)
next
  case (Tick now)
  with assms show ?thesis
    by (auto simp: accounts_def waiting_def arrived_def tick_writer_def flush_begin_def List.map_filter_simps)
next
  case (ConsumerFlushed ok now)
  with assms show ?thesis
    by (auto simp: accounts_def arrived_def flush_end_def List.map_filter_simps split: option.splits)
next
  case (TickerFlushed ok now)
  with assms show ?thesis
    by (auto simp: accounts_def arrived_def flush_end_def List.map_filter_simps split: option.splits)
qed

lemma arrived_Cons: "arrived (e # es) = arrived [e] @ arrived es"
  by (simp add: arrived_def map_filter_def)

lemma accounts_run:
  "accounts w rows \<Longrightarrow> undisturbed cfg w es \<Longrightarrow> accounts (writer_run cfg w es) (rows @ arrived es)"
proof (induction es arbitrary: w rows)
  case Nil
  then show ?case by (simp add: arrived_def List.map_filter_simps)
next
  case (Cons e es)
  from Cons.IH [OF accounts_step [OF Cons.prems]] Cons.prems(2) show ?case
    by (simp add: arrived_Cons [of e es])
qed

lemma accounts_start: "accounts (writer_start now) []"
  by (simp add: accounts_def writer_start_def)

text \<open>The batch never outgrows the flush limit, and is full exactly while the consumer waits.\<close>

definition bounded_batch :: "writer_config \<Rightarrow> writer \<Rightarrow> bool" where
  "bounded_batch cfg w \<longleftrightarrow> int (length (wr_batch w)) \<le> max 1 (wc_flush_max cfg) \<and>
     (wr_consumer w = None \<longrightarrow> wr_batch w = [] \<or> int (length (wr_batch w)) < wc_flush_max cfg)"

lemma bounded_batch_step: "bounded_batch cfg w \<Longrightarrow> bounded_batch cfg (writer_step cfg w e)"
  by (cases "(cfg, w, e)" rule: writer_step.cases)
    (auto simp: bounded_batch_def consume_event_def tick_writer_def flush_begin_def flush_end_def Let_def
      split: option.splits sum.splits)

lemma bounded_batch_run: "bounded_batch cfg w \<Longrightarrow> bounded_batch cfg (writer_run cfg w es)"
  by (induction es arbitrary: w) (auto dest: bounded_batch_step)

section \<open>Properties\<close>

text \<open>C28: the writer stores every event once and in order: in a run in which nothing happens between the start
  of an insert and its end, and the inserts succeed, what it has stored when it is shut down are the
  rows of the objects that arrived; and in every run at all the batch stays within the flush limit.\<close>

theorem writer_stores_once:
  assumes "undisturbed cfg (writer_start now) events"
  shows "run_writer cfg True now events True = arrived events \<and>
    (\<forall>es. int (length (wr_batch (writer_run cfg (writer_start now) es))) \<le> max 1 (wc_flush_max cfg))"
proof
  from accounts_run [OF accounts_start assms]
  show "run_writer cfg True now events True = arrived events"
    by (auto simp: run_writer_def accounts_def flush_begin_def Let_def)
  have "bounded_batch cfg (writer_start now)" by (simp add: bounded_batch_def writer_start_def)
  then show "\<forall>es. int (length (wr_batch (writer_run cfg (writer_start now) es))) \<le> max 1 (wc_flush_max cfg)"
    using bounded_batch_run by (simp add: bounded_batch_def)
qed

definition sample_event :: "string \<Rightarrow> dict" where
  "sample_event v = [(''device_id'', PStr ''d''), (''value'', PStr v)]"

definition refuse_dict :: "pyval \<Rightarrow> dict res" where
  "refuse_dict v = Inl (TypeError ''dict'')"

theorem writer_stores_once_witness:
  "run_writer (writer_defaults refuse_dict) True 0
     [Arrive (PDict (sample_event ''a'')), Tick 1, Tick 3, TickerFlushed True 4, Arrive (PDict (sample_event ''b''))] True =
   map telemetry_row_of [sample_event ''a'', sample_event ''b'']"
proof -
  let ?es = "[Arrive (PDict (sample_event ''a'')), Tick 1, Tick 3, TickerFlushed True 4, Arrive (PDict (sample_event ''b''))]"
  have "undisturbed (writer_defaults refuse_dict) (writer_start 0) ?es"
    by (simp add: writer_start_def writer_defaults_def waiting_def consume_event_def tick_writer_def flush_begin_def
        flush_end_def Let_def)
  moreover have "arrived ?es = map telemetry_row_of [sample_event ''a'', sample_event ''b'']"
    by (simp add: arrived_def List.map_filter_simps)
  ultimately show ?thesis using writer_stores_once by metis
qed



end
