(* ===== verification/Normalizers.thy ===== *)
theory Normalizers
  imports Schema
begin

text \<open>
  The normalizers (\<open>apps/ingestion/normalizers\<close>): what each source's \<open>poll\<close> yields for the answers of
  its endpoint.

  The HTTP client is a parameter: the body at a URL, \<open>None\<close> on any error. A generator is the list of
  what it has yielded and the exception it ends with, if any (\<open>yields\<close>); the accesses to the decoded
  JSON raise what Python's do. Regular expressions are written out as the scanners they are. A body
  is its UTF-8 bytes, so the digits and letters of the patterns are the ASCII ones.
\<close>

section \<open>Generators\<close>

type_synonym yields = "telemetry_event list \<times> py_error option"

definition y_done :: yields where "y_done = ([], None)"

definition y_then :: "yields \<Rightarrow> yields \<Rightarrow> yields" where
  "y_then a b = (case a of (es, None) \<Rightarrow> (es @ fst b, snd b) | (es, Some e) \<Rightarrow> (es, Some e))"

fun y_for :: "('a \<Rightarrow> yields) \<Rightarrow> 'a list \<Rightarrow> yields" where
  "y_for body [] = y_done"
| "y_for body (x # xs) = y_then (body x) (y_for body xs)"

definition y_let :: "'a res \<Rightarrow> ('a \<Rightarrow> yields) \<Rightarrow> yields" where
  "y_let r f = (case r of Inl e \<Rightarrow> ([], Some e) | Inr a \<Rightarrow> f a)"

text \<open>\<open>yield TelemetryEvent(...)\<close>.\<close>

definition y_emit :: "telemetry_event res \<Rightarrow> yields" where
  "y_emit e = y_let (res_bind e mk_telemetry_event) (\<lambda>x. ([x], None))"

section \<open>Decoded JSON\<close>

definition j_get :: "pyval \<Rightarrow> string \<Rightarrow> pyval \<Rightarrow> pyval res" where
  "j_get v k default_value = (case v of PDict d \<Rightarrow> Inr (get_def d k default_value) | _ \<Rightarrow> Inl (AttributeError ''get''))"

text \<open>\<open>for x in v\<close>.\<close>

definition j_iter :: "pyval \<Rightarrow> pyval list res" where
  "j_iter v =
     (case v of
        PList xs \<Rightarrow> Inr xs
      | PDict d \<Rightarrow> Inr (map (PStr \<circ> fst) d)
      | PStr s \<Rightarrow> Inr (map (\<lambda>c. PStr [c]) s)
      | _ \<Rightarrow> Inl (TypeError ''not iterable''))"

text \<open>\<open>v or w\<close>, and a key of a \<open>dict\<close> or element of a \<open>set\<close>, which must be hashable.\<close>

definition j_or :: "pyval \<Rightarrow> pyval \<Rightarrow> pyval" where
  "j_or v w = (if truthy v then v else w)"

definition j_key :: "pyval \<Rightarrow> string option res" where
  "j_key v =
     (case v of
        PStr s \<Rightarrow> Inr (Some s)
      | PList xs \<Rightarrow> Inl (TypeError ''unhashable type'')
      | PDict d \<Rightarrow> Inl (TypeError ''unhashable type'')
      | _ \<Rightarrow> Inr None)"

text \<open>\<open>w in v\<close> for a text \<open>w\<close>.\<close>

definition j_contains :: "string \<Rightarrow> pyval \<Rightarrow> bool res" where
  "j_contains w v =
     (case v of
        PStr s \<Rightarrow> Inr (sublist w s)
      | PList xs \<Rightarrow> Inr (PStr w \<in> set xs)
      | PDict d \<Rightarrow> Inr (w \<in> fst ` set d)
      | _ \<Rightarrow> Inl (TypeError ''not iterable''))"

text \<open>What Pydantic makes of a field declared \<open>str\<close>, and \<open>str | None\<close>.\<close>

definition as_str :: "pyval \<Rightarrow> string res" where
  "as_str v = (case v of PStr s \<Rightarrow> Inr s | _ \<Rightarrow> Inl (ValueError ''string_type''))"

definition as_opt_str :: "pyval \<Rightarrow> string option res" where
  "as_opt_str v = (case v of PNone \<Rightarrow> Inr None | PStr s \<Rightarrow> Inr (Some s) | _ \<Rightarrow> Inl (ValueError ''string_type''))"

section \<open>Configuration\<close>

record norm_config =
  nc_site :: string
  nc_mocks :: "string option"
  nc_redfish :: "string option"
  nc_dcgm :: "string option"
  nc_ipmi :: "string option"
  nc_snmp :: "string option"
  nc_env :: "string option"

definition base_url :: "norm_config \<Rightarrow> string option" where
  "base_url cfg = nc_mocks cfg"

definition set_text :: "string option \<Rightarrow> bool" where
  "set_text s \<longleftrightarrow> (case s of None \<Rightarrow> False | Some t \<Rightarrow> t \<noteq> [])"

text \<open>\<open>explicit\<close> when set and not empty, else a path below the base URL; a root that is \<open>None\<close> or empty
  yields nothing.\<close>

definition root_at :: "string option \<Rightarrow> norm_config \<Rightarrow> string \<Rightarrow> string option" where
  "root_at explicit cfg path =
     (if set_text explicit then explicit
      else case base_url cfg of Some bu \<Rightarrow> if bu = [] then None else Some (bu @ path) | None \<Rightarrow> None)"

definition redfish_root :: "norm_config \<Rightarrow> string option" where
  "redfish_root cfg = (if set_text (nc_redfish cfg) then nc_redfish cfg else base_url cfg)"

definition dcgm_root :: "norm_config \<Rightarrow> string option" where
  "dcgm_root cfg = root_at (nc_dcgm cfg) cfg ''/metrics/dcgm''"

definition ipmi_root :: "norm_config \<Rightarrow> string option" where
  "ipmi_root cfg = root_at (nc_ipmi cfg) cfg ''/ipmi/sensors''"

definition snmp_root :: "norm_config \<Rightarrow> string option" where
  "snmp_root cfg = root_at (nc_snmp cfg) cfg ''/snmp/walk''"

definition env_root :: "norm_config \<Rightarrow> string option" where
  "env_root cfg = root_at (nc_env cfg) cfg ''/env/sensors''"

text \<open>The hall and the rack of a device named \<open>site-h1-r07-srv03\<close>.\<close>

definition hall_rack :: "string \<Rightarrow> string \<times> string" where
  "hall_rack device_id =
     (case split_on (CHR ''-'') device_id of
        p0 # p1 # p2 # p3 # ps \<Rightarrow>
          if prefix ''h'' p1 \<and> prefix ''r'' p2 then (p0 @ ''-'' @ p1, p0 @ ''-'' @ p1 @ ''-'' @ p2)
          else (''unknown'', ''unknown'')
      | _ \<Rightarrow> (''unknown'', ''unknown''))"

text \<open>The event of a numeric reading.\<close>

definition reading :: "norm_config \<Rightarrow> real \<Rightarrow> string \<times> string \<Rightarrow> string \<Rightarrow> device_type \<Rightarrow> canonical_metric \<Rightarrow> real \<Rightarrow>
    string option \<Rightarrow> severity \<Rightarrow> dict \<Rightarrow> telemetry_event" where
  "reading cfg now loc device_id dtype metric val unit sev md =
     \<lparr>te_timestamp = Aware now, te_site_id = nc_site cfg, te_hall_id = fst loc, te_rack_id = snd loc,
      te_device_id = device_id, te_device_type = dtype, te_metric = metric, te_value = PFloat val,
      te_unit = unit, te_severity = sev, te_metadata = md\<rparr>"

section \<open>IPMI\<close>

definition IPMI_METRIC_MAP :: "(string \<times> canonical_metric) list" where
  "IPMI_METRIC_MAP =
     [(''cpu.temp.celsius'', CPU_TEMP_CELSIUS), (''fan.rpm'', FAN_RPM), (''power.draw.watts'', POWER_DRAW_WATTS),
      (''psu.efficiency.percent'', PSU_EFFICIENCY_PERCENT)]"

definition ipmi_sensor :: "norm_config \<Rightarrow> real \<Rightarrow> string \<Rightarrow> pyval \<Rightarrow> yields" where
  "ipmi_sensor cfg now device_id sensor =
     y_let (j_get sensor ''metric'' PNone) (\<lambda>name.
     y_let (j_key name) (\<lambda>key.
     y_let (j_get sensor ''value'' PNone) (\<lambda>val.
       case (Option.bind key (map_of IPMI_METRIC_MAP), num_of val) of
         (Some canonical, Some x) \<Rightarrow>
           y_let (j_get sensor ''unit'' PNone) (\<lambda>unit.
           y_let (j_get sensor ''name'' (PStr [])) (\<lambda>sensor_name.
             y_emit (res_bind (as_opt_str unit) (\<lambda>u.
               Inr (reading cfg now (hall_rack device_id) device_id SERVER canonical x u INFO
                      [(''source'', PStr ''ipmi''), (''sensor_name'', sensor_name)])))))
       | _ \<Rightarrow> y_done)))"

definition ipmi_device :: "norm_config \<Rightarrow> real \<Rightarrow> pyval \<Rightarrow> yields" where
  "ipmi_device cfg now entry =
     y_let (j_get entry ''device_id'' PNone) (\<lambda>device_id.
       case device_id of
         PStr d \<Rightarrow>
           y_let (j_get entry ''sensors'' (PList [])) (\<lambda>sensors.
           y_let (j_iter sensors) (\<lambda>xs. y_for (ipmi_sensor cfg now d) xs))
       | _ \<Rightarrow> y_done)"

definition ipmi_poll :: "norm_config \<Rightarrow> (string \<Rightarrow> pyval option) \<Rightarrow> real \<Rightarrow> yields" where
  "ipmi_poll cfg get_json now =
     (if \<not> set_text (ipmi_root cfg) then y_done
      else case get_json (the (ipmi_root cfg)) of
             None \<Rightarrow> y_done
           | Some payload \<Rightarrow>
               if \<not> truthy payload then y_done
               else y_let (j_get payload ''devices'' (PList [])) (\<lambda>devices.
                    y_let (j_iter devices) (\<lambda>xs. y_for (ipmi_device cfg now) xs)))"

section \<open>SNMP\<close>

text \<open>One counter of a device: nothing where the reading is not a number.\<close>

definition snmp_reading :: "norm_config \<Rightarrow> real \<Rightarrow> string \<Rightarrow> pyval \<Rightarrow> string \<Rightarrow> (real \<Rightarrow> telemetry_event) \<Rightarrow> yields" where
  "snmp_reading cfg now device_id oids oid event =
     y_let (j_get oids oid PNone) (\<lambda>v.
       case num_of v of None \<Rightarrow> y_done | Some x \<Rightarrow> y_emit (Inr (event x)))"

definition snmp_switch :: "norm_config \<Rightarrow> real \<Rightarrow> string \<Rightarrow> pyval \<Rightarrow> yields" where
  "snmp_switch cfg now d oids =
     (let at_rack = hall_rack d;
          md = (\<lambda>oid. [(''source'', PStr ''snmp''), (''oid'', PStr oid)]);
          switch = (\<lambda>metric unit oid x. reading cfg now at_rack d SWITCH metric x unit INFO (md oid))
      in y_then (snmp_reading cfg now d oids ''ifInOctets.1'' (switch NET_BPS_IN (Some ''bps'') ''ifInOctets.1''))
        (y_then (snmp_reading cfg now d oids ''ifOutOctets.1'' (switch NET_BPS_OUT (Some ''bps'') ''ifOutOctets.1''))
        (y_then (snmp_reading cfg now d oids ''ifInErrors.1'' (switch NET_ERR_IN (Some ''count'') ''ifInErrors.1''))
          (snmp_reading cfg now d oids ''ifOperStatus.1'' (\<lambda>x.
             reading cfg now at_rack d SWITCH NET_PORT_UP (if py_trunc x = 1 then 1 else 0) None
               (if py_trunc x = 1 then INFO else ERROR) (md ''ifOperStatus.1''))))))"

definition snmp_pdu :: "norm_config \<Rightarrow> real \<Rightarrow> string \<Rightarrow> pyval \<Rightarrow> yields" where
  "snmp_pdu cfg now d oids =
     snmp_reading cfg now d oids ''rPDU2PhaseStatusLoadState.1'' (\<lambda>x.
       reading cfg now (hall_rack d) d PDU PDU_LOAD_PERCENT x (Some ''percent'') INFO
         [(''source'', PStr ''snmp''), (''oid'', PStr ''rPDU2PhaseStatusLoadState.1'')])"

definition snmp_device :: "norm_config \<Rightarrow> real \<Rightarrow> pyval \<Rightarrow> yields" where
  "snmp_device cfg now entry =
     y_let (j_get entry ''device_id'' PNone) (\<lambda>device_id.
       case device_id of
         PStr d \<Rightarrow>
           y_let (j_get entry ''device_type'' (PStr ''switch'')) (\<lambda>dtype.
           y_let (j_get entry ''oids'' (PDict [])) (\<lambda>raw.
             let oids = j_or raw (PDict [])
             in if dtype = PStr ''switch'' then snmp_switch cfg now d oids
                else if dtype = PStr ''pdu'' then snmp_pdu cfg now d oids else y_done))
       | _ \<Rightarrow> y_done)"

definition snmp_poll :: "norm_config \<Rightarrow> (string \<Rightarrow> pyval option) \<Rightarrow> real \<Rightarrow> yields" where
  "snmp_poll cfg get_json now =
     (if \<not> set_text (snmp_root cfg) then y_done
      else case get_json (the (snmp_root cfg)) of
             None \<Rightarrow> y_done
           | Some payload \<Rightarrow>
               if \<not> truthy payload then y_done
               else y_let (j_get payload ''devices'' (PList [])) (\<lambda>devices.
                    y_let (j_iter devices) (\<lambda>xs. y_for (snmp_device cfg now) xs)))"

section \<open>Environment\<close>

text \<open>A device type that is not one of the names is a sensor.\<close>

definition env_device_type :: "pyval \<Rightarrow> device_type" where
  "env_device_type v =
     (case Option.bind (str_of v) device_type_of of None \<Rightarrow> SENSOR | Some t \<Rightarrow> t)"

definition env_sensor :: "norm_config \<Rightarrow> real \<Rightarrow> pyval \<Rightarrow> yields" where
  "env_sensor cfg now sensor =
     y_let (j_get sensor ''metric'' PNone) (\<lambda>metric_name.
     y_let (j_get sensor ''value'' PNone) (\<lambda>val.
     y_let (j_key metric_name) (\<lambda>key.
       case (Option.bind key metric_of, num_of val) of
         (Some metric, Some x) \<Rightarrow>
           y_let (j_get sensor ''device_id'' PNone) (\<lambda>device.
           y_let (j_get sensor ''location'' PNone) (\<lambda>location.
           y_let (j_get sensor ''device_type'' (PStr ''sensor'')) (\<lambda>dtype.
           y_let (j_get sensor ''hall_id'' PNone) (\<lambda>hall.
           y_let (j_get sensor ''rack_id'' PNone) (\<lambda>rack.
           y_let (j_get sensor ''unit'' PNone) (\<lambda>unit.
             y_emit (res_bind (as_str (j_or hall (PStr ''unknown''))) (\<lambda>h.
                     res_bind (as_str (j_or rack (PStr ''unknown''))) (\<lambda>r.
                     res_bind (as_str (j_or (j_or device location) (PStr ''env-unknown''))) (\<lambda>d.
                     res_bind (as_opt_str unit) (\<lambda>u.
                       Inr (reading cfg now (h, r) d (env_device_type dtype) metric x u INFO
                              [(''source'', PStr ''env'')])))))))))))) 
       | _ \<Rightarrow> y_done)))"

definition env_poll :: "norm_config \<Rightarrow> (string \<Rightarrow> pyval option) \<Rightarrow> real \<Rightarrow> yields" where
  "env_poll cfg get_json now =
     (if \<not> set_text (env_root cfg) then y_done
      else case get_json (the (env_root cfg)) of
             None \<Rightarrow> y_done
           | Some payload \<Rightarrow>
               if \<not> truthy payload then y_done
               else y_let (j_get payload ''sensors'' (PList [])) (\<lambda>sensors.
                    y_let (j_iter sensors) (\<lambda>xs. y_for (env_sensor cfg now) xs)))"

section \<open>Redfish\<close>

definition severity_from_redfish :: "pyval \<Rightarrow> severity res" where
  "severity_from_redfish status =
     res_bind (j_get (j_or status (PDict [])) ''Health'' (PStr ''OK'')) (\<lambda>health.
       Inr (if health = PStr ''Critical'' then CRITICAL else if health = PStr ''Warning'' then WARN else INFO))"

text \<open>\<open>oid.rstrip("/").rsplit("/", 1)[-1]\<close>.\<close>

definition last_segment :: "string \<Rightarrow> string" where
  "last_segment oid =
     last (split_on (CHR ''/'') (rev (dropWhile (\<lambda>c. c = CHR ''/'') (rev oid))))"

definition redfish_temperature_metric :: "pyval \<Rightarrow> pyval \<Rightarrow> canonical_metric option res" where
  "redfish_temperature_metric t name =
     res_bind (j_contains ''CPU'' name) (\<lambda>cpu.
       if cpu then Inr (Some CPU_TEMP_CELSIUS)
       else res_bind (j_contains ''Inlet'' name) (\<lambda>inlet.
            res_bind (j_get t ''PhysicalContext'' PNone) (\<lambda>ctx.
              if inlet \<or> ctx = PStr ''Intake'' then Inr (Some ENV_INLET_CELSIUS)
              else res_bind (j_contains ''Outlet'' name) (\<lambda>outlet.
                   Inr (if outlet \<or> ctx = PStr ''Exhaust'' then Some ENV_OUTLET_CELSIUS else None)))))"

definition redfish_temperature :: "norm_config \<Rightarrow> real \<Rightarrow> string \<Rightarrow> pyval \<Rightarrow> yields" where
  "redfish_temperature cfg now d t =
     y_let (j_get t ''ReadingCelsius'' PNone) (\<lambda>val.
     y_let (j_get t ''Name'' (PStr [])) (\<lambda>name.
       case num_of val of
         None \<Rightarrow> y_done
       | Some x \<Rightarrow>
           y_let (redfish_temperature_metric t name) (\<lambda>metric.
             case metric of
               None \<Rightarrow> y_done
             | Some m \<Rightarrow>
                 y_let (j_get t ''Status'' (PDict [])) (\<lambda>status.
                 y_let (severity_from_redfish status) (\<lambda>sev.
                   y_emit (Inr (reading cfg now (hall_rack d) d SERVER m x (Some ''celsius'') sev
                     [(''sensor'', name), (''source'', PStr ''redfish'')])))))))"

definition redfish_fan :: "norm_config \<Rightarrow> real \<Rightarrow> string \<Rightarrow> pyval \<Rightarrow> yields" where
  "redfish_fan cfg now d f =
     y_let (j_get f ''Reading'' PNone) (\<lambda>rpm.
       case num_of rpm of
         None \<Rightarrow> y_done
       | Some x \<Rightarrow>
           y_let (j_get f ''Status'' (PDict [])) (\<lambda>status.
           y_let (severity_from_redfish status) (\<lambda>sev.
           y_let (j_get f ''Name'' (PStr [])) (\<lambda>name.
             y_emit (Inr (reading cfg now (hall_rack d) d SERVER FAN_RPM x (Some ''RPM'') sev
               [(''sensor'', name), (''source'', PStr ''redfish'')]))))))"

definition redfish_power_control :: "norm_config \<Rightarrow> real \<Rightarrow> string \<Rightarrow> pyval \<Rightarrow> yields" where
  "redfish_power_control cfg now d pc =
     y_let (j_get pc ''PowerConsumedWatts'' PNone) (\<lambda>watts.
       case num_of watts of
         None \<Rightarrow> y_done
       | Some x \<Rightarrow>
           y_emit (Inr (reading cfg now (hall_rack d) d SERVER POWER_DRAW_WATTS x (Some ''watts'') INFO
             [(''source'', PStr ''redfish'')])))"

definition redfish_power_supply :: "norm_config \<Rightarrow> real \<Rightarrow> string \<Rightarrow> pyval \<Rightarrow> yields" where
  "redfish_power_supply cfg now d ps =
     y_let (j_get ps ''EfficiencyPercent'' PNone) (\<lambda>eff.
       case num_of eff of
         None \<Rightarrow> y_done
       | Some x \<Rightarrow>
           y_let (j_get ps ''Status'' (PDict [])) (\<lambda>status.
           y_let (severity_from_redfish status) (\<lambda>sev.
           y_let (j_get ps ''Name'' (PStr [])) (\<lambda>name.
             y_emit (Inr (reading cfg now (hall_rack d) d SERVER PSU_EFFICIENCY_PERCENT x (Some ''percent'') sev
               [(''sensor'', name), (''source'', PStr ''redfish'')]))))))"

text \<open>The loop over the list at a key of a sub-resource.\<close>

definition redfish_each :: "pyval \<Rightarrow> string \<Rightarrow> (pyval \<Rightarrow> yields) \<Rightarrow> yields" where
  "redfish_each v k body =
     y_let (j_get v k (PList [])) (\<lambda>items. y_let (j_iter items) (\<lambda>xs. y_for body xs))"

definition redfish_member :: "norm_config \<Rightarrow> (string \<Rightarrow> pyval option) \<Rightarrow> real \<Rightarrow> string \<Rightarrow> pyval \<Rightarrow> yields" where
  "redfish_member cfg get_json now url member =
     y_let (j_get member ''@odata.id'' PNone) (\<lambda>oid.
       case oid of
         PStr p \<Rightarrow>
           let d = last_segment p;
               sub = (\<lambda>name. case get_json (url @ ''/redfish/v1/Chassis/'' @ d @ ''/'' @ name) of
                        None \<Rightarrow> None | Some v \<Rightarrow> if truthy v then Some v else None)
           in y_then
                (case sub ''Thermal'' of
                   None \<Rightarrow> y_done
                 | Some thermal \<Rightarrow>
                     y_then (redfish_each thermal ''Temperatures'' (redfish_temperature cfg now d))
                            (redfish_each thermal ''Fans'' (redfish_fan cfg now d)))
                (case sub ''Power'' of
                   None \<Rightarrow> y_done
                 | Some supply \<Rightarrow>
                     y_then (redfish_each supply ''PowerControl'' (redfish_power_control cfg now d))
                            (redfish_each supply ''PowerSupplies'' (redfish_power_supply cfg now d)))
       | _ \<Rightarrow> y_done)"

definition redfish_poll :: "norm_config \<Rightarrow> (string \<Rightarrow> pyval option) \<Rightarrow> real \<Rightarrow> yields" where
  "redfish_poll cfg get_json now =
     (if \<not> set_text (redfish_root cfg) then y_done
      else let url = the (redfish_root cfg)
           in case get_json (url @ ''/redfish/v1/Systems'') of
                None \<Rightarrow> y_done
              | Some listing \<Rightarrow>
                  if \<not> truthy listing then y_done
                  else redfish_each listing ''Members'' (redfish_member cfg get_json now url))"

section \<open>DCGM\<close>

definition DCGM_METRIC_MAP :: "(string \<times> canonical_metric) list" where
  "DCGM_METRIC_MAP =
     [(''DCGM_FI_DEV_GPU_TEMP'', GPU_TEMP_CELSIUS), (''DCGM_FI_DEV_POWER_USAGE'', GPU_POWER_WATTS),
      (''DCGM_FI_DEV_GPU_UTIL'', GPU_UTIL_PERCENT), (''DCGM_FI_DEV_FB_USED'', GPU_MEM_USED_BYTES),
      (''DCGM_FI_DEV_XID_ERRORS'', GPU_XID_CODE)]"

definition DCGM_UNIT_MAP :: "canonical_metric \<Rightarrow> string option" where
  "DCGM_UNIT_MAP m =
     map_of [(GPU_TEMP_CELSIUS, ''celsius''), (GPU_POWER_WATTS, ''watts''), (GPU_UTIL_PERCENT, ''percent''),
             (GPU_MEM_USED_BYTES, ''MiB''), (GPU_XID_CODE, ''count'')] m"

definition letter :: "char \<Rightarrow> bool" where
  "letter c \<longleftrightarrow> (65 \<le> (of_char c :: nat) \<and> (of_char c :: nat) \<le> 90) \<or> (97 \<le> (of_char c :: nat) \<and> (of_char c :: nat) \<le> 122)"

definition label_start :: "char \<Rightarrow> bool" where "label_start c \<longleftrightarrow> letter c \<or> c = CHR ''_''"
definition label_char :: "char \<Rightarrow> bool" where "label_char c \<longleftrightarrow> label_start c \<or> is_digit c"
definition name_start :: "char \<Rightarrow> bool" where "name_start c \<longleftrightarrow> label_start c \<or> c = CHR '':''"
definition name_char :: "char \<Rightarrow> bool" where "name_char c \<longleftrightarrow> name_start c \<or> is_digit c"

text \<open>A number as the pattern has it: sign, digits with at most one point, exponent; the rest of the text.\<close>

definition scan_sign :: "string \<Rightarrow> bool \<times> string" where
  "scan_sign s = (case s of c # cs \<Rightarrow> if c = CHR ''-'' then (True, cs) else if c = CHR ''+'' then (False, cs) else (False, s) | [] \<Rightarrow> (False, []))"

definition scan_mantissa :: "string \<Rightarrow> (string \<times> string \<times> string) option" where
  "scan_mantissa s =
     (let whole = takeWhile is_digit s; rest = dropWhile is_digit s
      in case rest of
           c # cs \<Rightarrow>
             if c = CHR ''.''
             then (let fraction = takeWhile is_digit cs
                   in if whole = [] \<and> fraction = [] then None else Some (whole, fraction, dropWhile is_digit cs))
             else if whole = [] then None else Some (whole, [], rest)
         | [] \<Rightarrow> if whole = [] then None else Some (whole, [], []))"

definition scan_exponent :: "string \<Rightarrow> int \<times> string" where
  "scan_exponent s =
     (case s of
        c # cs \<Rightarrow>
          if c = CHR ''e'' \<or> c = CHR ''E''
          then (let (neg, ds) = scan_sign cs
                in if takeWhile is_digit ds = [] then (0, s)
                   else ((if neg then - int (nat_of_digits (takeWhile is_digit ds)) else int (nat_of_digits (takeWhile is_digit ds))),
                         dropWhile is_digit ds))
          else (0, s)
      | [] \<Rightarrow> (0, []))"

text \<open>\<open>float\<close> of a decimal text.\<close>

definition decimal_value :: "bool \<Rightarrow> string \<Rightarrow> string \<Rightarrow> int \<Rightarrow> real" where
  "decimal_value neg whole fraction e =
     (let m = real (nat_of_digits (whole @ fraction)) / 10 ^ length fraction;
          x = (if 0 \<le> e then m * 10 ^ nat e else m / 10 ^ nat (- e))
      in if neg then - x else x)"

definition scan_value :: "string \<Rightarrow> (real \<times> string) option" where
  "scan_value s =
     (let (neg, s1) = scan_sign s
      in case scan_mantissa s1 of
           None \<Rightarrow> None
         | Some (whole, fraction, s2) \<Rightarrow>
             let (e, s3) = scan_exponent s2 in Some (decimal_value neg whole fraction e, s3))"

text \<open>\<open>_LINE_RE.match\<close>: the name, the text between the braces, the value. No shorter match of the name, of
  the blanks or of the number can succeed where the longest does not.\<close>

definition match_line :: "string \<Rightarrow> (string \<times> string option \<times> real) option" where
  "match_line line =
     (case line of
        [] \<Rightarrow> None
      | c # cs \<Rightarrow>
          if \<not> name_start c then None
          else let name = c # takeWhile name_char cs; rest = dropWhile name_char cs;
                   (labels, after) =
                     (case rest of
                        b # bs \<Rightarrow>
                          if b = CHR ''{'' then
                            (case dropWhile (\<lambda>x. x \<noteq> CHR ''}'') bs of
                               [] \<Rightarrow> (None, rest)
                             | e # es \<Rightarrow> (Some (takeWhile (\<lambda>x. x \<noteq> CHR ''}'') bs), es))
                          else (None, rest)
                      | [] \<Rightarrow> (None, rest))
               in if after = [] \<or> \<not> is_space (hd after) then None
                  else case scan_value (lstrip after) of
                         None \<Rightarrow> None
                       | Some (x, tail) \<Rightarrow> if lstrip tail = [] then Some (name, labels, x) else None)"

text \<open>\<open>_LABEL_RE.findall\<close>: at each position a label, or the next position.\<close>

definition match_label :: "string \<Rightarrow> (string \<times> string \<times> string) option" where
  "match_label s =
     (case s of
        [] \<Rightarrow> None
      | c # cs \<Rightarrow>
          if \<not> label_start c then None
          else case dropWhile label_char cs of
                 e # q # rest \<Rightarrow>
                   if e = CHR ''='' \<and> q = CHR 0x22 then
                     (case dropWhile (\<lambda>x. x \<noteq> CHR 0x22) rest of
                        [] \<Rightarrow> None
                      | q2 # after \<Rightarrow> Some (c # takeWhile label_char cs, takeWhile (\<lambda>x. x \<noteq> CHR 0x22) rest, after))
                   else None
               | _ \<Rightarrow> None)"

lemma match_label_shorter: "match_label s = Some (k, v, after) \<Longrightarrow> length after < length s"
proof -
  assume m: "match_label s = Some (k, v, after)"
  then obtain c cs e q rest q2 where s: "s = c # cs" "dropWhile label_char cs = e # q # rest"
    "dropWhile (\<lambda>x. x \<noteq> CHR 0x22) rest = q2 # after"
    by (auto simp: match_label_def split: list.splits if_splits)
  have "length (dropWhile (\<lambda>x. x \<noteq> CHR 0x22) rest) \<le> length rest"
    "length (dropWhile label_char cs) \<le> length cs" by (simp_all add: length_dropWhile_le)
  with s show ?thesis by simp
qed

function find_labels :: "string \<Rightarrow> (string \<times> string) list" where
  "find_labels s =
     (case match_label s of
        Some (k, v, after) \<Rightarrow> (k, v) # find_labels after
      | None \<Rightarrow> (case s of [] \<Rightarrow> [] | c # cs \<Rightarrow> find_labels cs))"
  by auto
termination by (relation "measure length") (auto dest: match_label_shorter)

declare find_labels.simps [simp del]

definition dict_of :: "('k \<times> 'v) list \<Rightarrow> ('k \<times> 'v) list" where
  "dict_of kvs = foldl (\<lambda>d (k, v). AList.update k v d) [] kvs"

definition parse_labels :: "string option \<Rightarrow> (string \<times> string) list" where
  "parse_labels s = (case s of None \<Rightarrow> [] | Some t \<Rightarrow> if t = [] then [] else dict_of (find_labels t))"

definition or_text :: "string option \<Rightarrow> string option \<Rightarrow> string option" where
  "or_text a b = (if set_text a then a else b)"

text \<open>\<open>str.splitlines\<close> on the ASCII line boundaries.\<close>

definition line_break :: "char \<Rightarrow> bool" where
  "line_break c \<longleftrightarrow> (of_char c :: nat) \<in> {10, 11, 12, 13, 28, 29, 30}"

fun splitlines_from :: "string \<Rightarrow> string \<Rightarrow> string list" where
  "splitlines_from acc [] = (if acc = [] then [] else [rev acc])"
| "splitlines_from acc (c # cs) =
     (if \<not> line_break c then splitlines_from (c # acc) cs
      else if c = CHR 13 \<and> cs \<noteq> [] \<and> hd cs = CHR 10 then rev acc # splitlines_from [] (tl cs)
      else rev acc # splitlines_from [] cs)"

definition splitlines :: "string \<Rightarrow> string list" where
  "splitlines s = splitlines_from [] s"

definition dcgm_line :: "norm_config \<Rightarrow> real \<Rightarrow> string \<Rightarrow> yields" where
  "dcgm_line cfg now raw =
     (let line = strip raw
      in if line = [] \<or> prefix ''#'' line then y_done
         else case match_line line of
                None \<Rightarrow> y_done
              | Some (metric_name, label_text, val) \<Rightarrow>
                  (case map_of DCGM_METRIC_MAP metric_name of
                     None \<Rightarrow> y_done
                   | Some canonical \<Rightarrow>
                       let labels = parse_labels label_text;
                           gpu_id = or_text (map_of labels ''gpu'') (or_text (map_of labels ''UUID'') (map_of labels ''device''))
                       in if \<not> set_text gpu_id then y_done
                          else let d = the gpu_id
                               in y_emit (Inr (reading cfg now (hall_rack d) d GPU canonical val (DCGM_UNIT_MAP canonical)
                                    (if canonical = GPU_XID_CODE \<and> 0 < val then CRITICAL else INFO)
                                    (foldl (\<lambda>m (k, v). AList.update k (PStr v) m)
                                       [(''source'', PStr ''dcgm''), (''exporter_metric'', PStr metric_name)] labels)))))"

definition dcgm_poll :: "norm_config \<Rightarrow> (string \<Rightarrow> string option) \<Rightarrow> real \<Rightarrow> yields" where
  "dcgm_poll cfg get_text now =
     (if \<not> set_text (dcgm_root cfg) then y_done
      else case get_text (the (dcgm_root cfg)) of
             None \<Rightarrow> y_done
           | Some body \<Rightarrow> if body = [] then y_done else y_for (dcgm_line cfg now) (splitlines body))"

section \<open>Lemmas\<close>

text \<open>Everything a generator yields has a property.\<close>

definition yields_all :: "(telemetry_event \<Rightarrow> bool) \<Rightarrow> yields \<Rightarrow> bool" where
  "yields_all P y \<longleftrightarrow> (\<forall>e \<in> set (fst y). P e)"

lemma yields_done: "yields_all P y_done"
  by (simp add: yields_all_def y_done_def)

lemma yields_then: "yields_all P a \<Longrightarrow> yields_all P b \<Longrightarrow> yields_all P (y_then a b)"
  by (auto simp: yields_all_def y_then_def split: prod.splits option.splits)

lemma yields_for: "(\<And>x. yields_all P (body x)) \<Longrightarrow> yields_all P (y_for body xs)"
  by (induction xs) (simp_all add: yields_done yields_then)

lemma yields_let: "(\<And>a. r = Inr a \<Longrightarrow> yields_all P (f a)) \<Longrightarrow> yields_all P (y_let r f)"
  by (auto simp: yields_all_def y_let_def split: sum.splits)

lemma yields_emit: "(\<And>x. e = Inr x \<Longrightarrow> telemetry_ok x \<Longrightarrow> P x) \<Longrightarrow> yields_all P (y_emit e)"
  by (auto simp: yields_all_def y_emit_def y_let_def mk_telemetry_event_Inr split: sum.splits)

lemma yields_redfish_each: "(\<And>x. yields_all P (body x)) \<Longrightarrow> yields_all P (redfish_each v k body)"
  unfolding redfish_each_def by (intro yields_let yields_for)

lemmas yields_intros = yields_done yields_then yields_for yields_let yields_emit yields_redfish_each

lemma reading_sel [simp]:
  "te_site_id (reading cfg now loc d dt m x u sev md) = nc_site cfg"
  "te_device_id (reading cfg now loc d dt m x u sev md) = d"
  "te_device_type (reading cfg now loc d dt m x u sev md) = dt"
  "te_metric (reading cfg now loc d dt m x u sev md) = m"
  "te_value (reading cfg now loc d dt m x u sev md) = PFloat x"
  "te_hall_id (reading cfg now loc d dt m x u sev md) = fst loc"
  "te_rack_id (reading cfg now loc d dt m x u sev md) = snd loc"
  "te_timestamp (reading cfg now loc d dt m x u sev md) = Aware now"
  "te_severity (reading cfg now loc d dt m x u sev md) = sev"
  "te_unit (reading cfg now loc d dt m x u sev md) = u"
  by (simp_all add: reading_def)

text \<open>What a source may say: a valid event of the configured site, now, with a number, whose place is the one
  its name gives (unless \<open>free\<close>), about a metric and a type of device of the source.\<close>

definition source_event :: "norm_config \<Rightarrow> real \<Rightarrow> bool \<Rightarrow> canonical_metric list \<Rightarrow> device_type list \<Rightarrow> telemetry_event \<Rightarrow> bool" where
  "source_event cfg now free metrics types e \<longleftrightarrow> telemetry_ok e \<and> te_site_id e = nc_site cfg \<and> te_timestamp e = Aware now \<and>
     (\<exists>x. te_value e = PFloat x) \<and> te_metric e \<in> set metrics \<and> te_device_type e \<in> set types \<and>
     (free \<or> (te_hall_id e, te_rack_id e) = hall_rack (te_device_id e))"

lemma ipmi_source: "yields_all (source_event cfg now False (map snd IPMI_METRIC_MAP) [SERVER]) (ipmi_poll cfg gj now)"
proof -
  have "m \<in> snd ` set IPMI_METRIC_MAP" if "map_of IPMI_METRIC_MAP n = Some m" for n m
    using map_of_SomeD [OF that] by force
  then have s: "yields_all (source_event cfg now False (map snd IPMI_METRIC_MAP) [SERVER]) (ipmi_sensor cfg now d v)" for d v
    unfolding ipmi_sensor_def by (auto simp: source_event_def bind_eq_Some_conv split: option.splits intro!: yields_intros)
  show ?thesis
    unfolding ipmi_poll_def ipmi_device_def
    by (auto split: option.splits pyval.splits intro!: yields_intros s)
qed

lemma snmp_source:
  "yields_all (source_event cfg now False [NET_BPS_IN, NET_BPS_OUT, NET_ERR_IN, NET_PORT_UP, PDU_LOAD_PERCENT] [SWITCH, PDU])
     (snmp_poll cfg gj now)"
  unfolding snmp_poll_def snmp_device_def snmp_switch_def snmp_pdu_def snmp_reading_def Let_def
  by (auto simp: source_event_def split: option.splits pyval.splits intro!: yields_intros)

lemma env_source: "yields_all (source_event cfg now True all_metrics [SERVER, GPU, SWITCH, PDU, CRAC, SENSOR]) (env_poll cfg gj now)"
proof -
  have t: "t \<in> {SERVER, GPU, SWITCH, PDU, CRAC, SENSOR}" for t :: device_type by (cases t) auto
  have m: "m \<in> set all_metrics" for m by (cases m) (auto simp: all_metrics_def)
  show ?thesis
    unfolding env_poll_def env_sensor_def
    using t m by (auto simp: source_event_def split: option.splits intro!: yields_intros)
qed

lemma redfish_source:
  "yields_all (source_event cfg now False
      [CPU_TEMP_CELSIUS, ENV_INLET_CELSIUS, ENV_OUTLET_CELSIUS, FAN_RPM, POWER_DRAW_WATTS, PSU_EFFICIENCY_PERCENT] [SERVER])
     (redfish_poll cfg gj now)" (is "yields_all ?P _")
proof -
  have "yields_all ?P (redfish_temperature cfg now d t)" for d t
    unfolding redfish_temperature_def redfish_temperature_metric_def
    by (auto simp: source_event_def split: option.splits if_splits intro!: yields_intros)
  moreover have "yields_all ?P (redfish_fan cfg now d f)" "yields_all ?P (redfish_power_control cfg now d f)"
    "yields_all ?P (redfish_power_supply cfg now d f)" for d f
    unfolding redfish_fan_def redfish_power_control_def redfish_power_supply_def
    by (auto simp: source_event_def split: option.splits intro!: yields_intros)
  ultimately have "yields_all ?P (redfish_member cfg gj now url member)" for url member
    unfolding redfish_member_def Let_def
    by (auto split: option.splits pyval.splits intro!: yields_intros)
  then show ?thesis
    unfolding redfish_poll_def Let_def by (auto split: option.splits intro!: yields_intros)
qed

lemma dcgm_source:
  "yields_all (\<lambda>e. source_event cfg now False (map snd DCGM_METRIC_MAP) [GPU] e \<and>
      (te_severity e = CRITICAL \<longleftrightarrow> te_metric e = GPU_XID_CODE \<and> (\<exists>x > 0. te_value e = PFloat x)))
     (dcgm_poll cfg gt now)" (is "yields_all ?P _")
proof -
  have "m \<in> snd ` set DCGM_METRIC_MAP" if "map_of DCGM_METRIC_MAP n = Some m" for n m
    using map_of_SomeD [OF that] by force
  then have "yields_all ?P (dcgm_line cfg now raw)" for raw
    unfolding dcgm_line_def Let_def by (auto simp: source_event_def split: option.splits intro!: yields_intros)
  then show ?thesis
    unfolding dcgm_poll_def by (auto split: option.splits intro!: yields_intros)
qed

section \<open>Properties\<close>



end
