(* ===== verification/Mocks.thy ===== *)
theory Mocks
  imports Normalizers Rollback
begin

text \<open>
  The mock vendor service (\<open>apps/mocks/main.py\<close>, \<open>apps/mocks/topology.py\<close>): its inventory, the answers of
  its endpoints and its action log. It is what the normalizers and the Executor talk to in the demo.

  \<open>hash\<close> of a text, which CPython salts per process, is a parameter; the clock is read once per request.
  A handler that raises an \<open>HTTPException\<close> returns its status.
\<close>

section \<open>Inventory\<close>

record mock_device =
  md_id :: string
  md_type :: string
  md_rack_id :: string
  md_hall_id :: string
  md_site_id :: string
  md_model :: string
  md_vendor :: string
  md_parent_id :: "string option"

record mock_topology =
  mt_site_id :: string
  mt_devices :: "mock_device list"

definition by_id :: "mock_topology \<Rightarrow> string \<Rightarrow> mock_device option" where
  "by_id topo device_id = find (\<lambda>d. md_id d = device_id) (mt_devices topo)"

definition by_type :: "mock_topology \<Rightarrow> string \<Rightarrow> mock_device list" where
  "by_type topo kind = filter (\<lambda>d. md_type d = kind) (mt_devices topo)"

definition has_gpus :: "(string \<Rightarrow> int) \<Rightarrow> real \<Rightarrow> string \<Rightarrow> bool" where
  "has_gpus py_hash gpu_density srv_id \<longleftrightarrow> of_int (py_hash srv_id mod 65536) / 65535 < gpu_density"

definition server_devices :: "(string \<Rightarrow> int) \<Rightarrow> real \<Rightarrow> string \<Rightarrow> string \<Rightarrow> string \<Rightarrow> nat \<Rightarrow> mock_device list" where
  "server_devices py_hash gpu_density site_id hall_id rack_id s =
     (let srv_id = rack_id @ ''-srv'' @ two_digits (s + 1)
      in \<lparr>md_id = srv_id, md_type = ''server'', md_rack_id = rack_id, md_hall_id = hall_id, md_site_id = site_id,
          md_model = ''Dell-R760xa'', md_vendor = ''Dell'', md_parent_id = None\<rparr>
         # (if has_gpus py_hash gpu_density srv_id
            then map (\<lambda>g. \<lparr>md_id = srv_id @ ''-gpu'' @ str_of_nat (g + 1), md_type = ''gpu'', md_rack_id = rack_id,
                    md_hall_id = hall_id, md_site_id = site_id, md_model = ''NVIDIA-H100-80GB'',
                    md_vendor = ''NVIDIA'', md_parent_id = Some srv_id\<rparr>) [0..<2]
            else []))"

definition rack_devices :: "(string \<Rightarrow> int) \<Rightarrow> real \<Rightarrow> nat \<Rightarrow> string \<Rightarrow> string \<Rightarrow> nat \<Rightarrow> mock_device list" where
  "rack_devices py_hash gpu_density servers_per_rack site_id hall_id r =
     (let rack_id = hall_id @ ''-r'' @ two_digits (r + 1)
      in \<lparr>md_id = rack_id @ ''-tor'', md_type = ''switch'', md_rack_id = rack_id, md_hall_id = hall_id,
          md_site_id = site_id, md_model = ''Arista-7050X3'', md_vendor = ''Arista'', md_parent_id = None\<rparr>
         # map (\<lambda>pdu_letter. \<lparr>md_id = rack_id @ ''-pdu-'' @ pdu_letter, md_type = ''pdu'', md_rack_id = rack_id,
               md_hall_id = hall_id, md_site_id = site_id, md_model = ''APC-AP8959'', md_vendor = ''APC'',
               md_parent_id = None\<rparr>) [''a'', ''b'']
         @ concat (map (server_devices py_hash gpu_density site_id hall_id rack_id) [0..<servers_per_rack]))"

definition hall_devices :: "(string \<Rightarrow> int) \<Rightarrow> real \<Rightarrow> nat \<Rightarrow> nat \<Rightarrow> string \<Rightarrow> nat \<Rightarrow> mock_device list" where
  "hall_devices py_hash gpu_density servers_per_rack racks_per_hall site_id h =
     (let hall_id = site_id @ ''-h'' @ str_of_nat (h + 1)
      in \<lparr>md_id = hall_id @ ''-crac1'', md_type = ''crac'', md_rack_id = [], md_hall_id = hall_id,
          md_site_id = site_id, md_model = ''Vertiv-Liebert-DSE-080'', md_vendor = ''Vertiv'', md_parent_id = None\<rparr>
         # concat (map (rack_devices py_hash gpu_density servers_per_rack site_id hall_id) [0..<racks_per_hall]))"

definition build_topology :: "(string \<Rightarrow> int) \<Rightarrow> string \<Rightarrow> nat \<Rightarrow> nat \<Rightarrow> nat \<Rightarrow> real \<Rightarrow> mock_topology" where
  "build_topology py_hash site_id halls racks_per_hall servers_per_rack gpu_density =
     \<lparr>mt_site_id = site_id,
      mt_devices = concat (map (hall_devices py_hash gpu_density servers_per_rack racks_per_hall site_id) [0..<halls])\<rparr>"

definition mocks_topology :: "(string \<Rightarrow> int) \<Rightarrow> string \<Rightarrow> mock_topology" where
  "mocks_topology py_hash site_id = build_topology py_hash site_id 2 3 4 (1 / 2)"

section \<open>Values\<close>

record mock_env =
  mk_hash :: "string \<Rightarrow> int"
  mk_topology :: mock_topology

text \<open>\<open>round(x, k)\<close>.\<close>

definition round_to :: "nat \<Rightarrow> real \<Rightarrow> real" where
  "round_to k x = of_int (py_round (x * 10 ^ k)) / 10 ^ k"

definition wave :: "real \<Rightarrow> real \<Rightarrow> real \<Rightarrow> real \<Rightarrow> real" where
  "wave now amplitude period_s phase = amplitude * sin (2 * pi * (now / period_s) + phase)"

definition device_phase :: "mock_env \<Rightarrow> string \<Rightarrow> real" where
  "device_phase env device_id = of_int (mk_hash env device_id mod 65536) / 65535 * (2 * pi)"

definition server_temp_c :: "mock_env \<Rightarrow> real \<Rightarrow> string \<Rightarrow> real" where
  "server_temp_c env now d = 62 + wave now 4 120 (device_phase env d)"

definition mock_gpu_temp_c :: "mock_env \<Rightarrow> real \<Rightarrow> string \<Rightarrow> real" where
  "mock_gpu_temp_c env now d = 68 + wave now 6 80 (device_phase env d)"

definition mock_gpu_power_w :: "mock_env \<Rightarrow> real \<Rightarrow> string \<Rightarrow> real" where
  "mock_gpu_power_w env now d = 380 + wave now 120 60 (device_phase env d)"

definition server_power_w :: "mock_env \<Rightarrow> real \<Rightarrow> string \<Rightarrow> real" where
  "server_power_w env now d = 480 + wave now 80 90 (device_phase env d)"

definition mock_inlet_c :: "real \<Rightarrow> real" where "mock_inlet_c now = 22 + wave now (5 / 2) 300 0"
definition mock_outlet_c :: "real \<Rightarrow> real" where "mock_outlet_c now = 31 + wave now 3 300 (pi / 4)"
definition mock_humidity_pct :: "real \<Rightarrow> real" where "mock_humidity_pct now = 45 + wave now 10 600 0"

section \<open>Vendor endpoints\<close>

definition odata :: "string \<Rightarrow> dict" where "odata path = [(''@odata.id'', PStr path)]"
definition ok_status :: "string \<times> pyval" where "ok_status = (''Status'', PDict [(''Health'', PStr ''OK'')])"

definition redfish_list_systems :: "mock_env \<Rightarrow> pyval" where
  "redfish_list_systems env =
     (let servers = by_type (mk_topology env) ''server''
      in PDict (odata ''/redfish/v1/Systems'' @
           [(''Name'', PStr ''Computer System Collection''), (''Members@odata.count'', PInt (int (length servers))),
            (''Members'', PList (map (\<lambda>d. PDict (odata (''/redfish/v1/Systems/'' @ md_id d))) servers))]))"

text \<open>404 where there is no such device of the type.\<close>

definition require_device :: "mock_env \<Rightarrow> string \<Rightarrow> string option \<Rightarrow> nat + mock_device" where
  "require_device env device_id kind =
     (case by_id (mk_topology env) device_id of
        None \<Rightarrow> Inl 404
      | Some d \<Rightarrow> if (case kind of None \<Rightarrow> False | Some t \<Rightarrow> md_type d \<noteq> t) then Inl 404 else Inr d)"

definition redfish_system :: "mock_device \<Rightarrow> pyval" where
  "redfish_system d =
     PDict (odata (''/redfish/v1/Systems/'' @ md_id d) @
       [(''Id'', PStr (md_id d)), (''Name'', PStr (md_id d)), (''Manufacturer'', PStr (md_vendor d)),
        (''Model'', PStr (md_model d)), (''PowerState'', PStr ''On''),
        (''Status'', PDict [(''Health'', PStr ''OK''), (''State'', PStr ''Enabled'')]),
        (''ProcessorSummary'', PDict [(''Count'', PInt 2), (''Model'', PStr ''Intel Xeon Platinum'')]),
        (''MemorySummary'', PDict [(''TotalSystemMemoryGiB'', PInt 512), ok_status]),
        (''Links'', PDict [(''Chassis'', PList [PDict (odata (''/redfish/v1/Chassis/'' @ md_id d))])])])"

definition fan_wave :: "mock_env \<Rightarrow> real \<Rightarrow> string \<Rightarrow> int \<Rightarrow> real" where
  "fan_wave env now d k = wave now 150 30 (of_int (mk_hash env d + k))"

definition redfish_thermal :: "mock_env \<Rightarrow> real \<Rightarrow> mock_device \<Rightarrow> pyval" where
  "redfish_thermal env now d =
     (let base_t = server_temp_c env now (md_id d);
          temp = (\<lambda>name x ctx. PDict [(''Name'', PStr name), (''ReadingCelsius'', PFloat x), ok_status,
                                     (''PhysicalContext'', PStr ctx)]);
          fan = (\<lambda>name n. PDict [(''Name'', PStr name), (''Reading'', PInt n), (''ReadingUnits'', PStr ''RPM''), ok_status])
      in PDict (odata (''/redfish/v1/Chassis/'' @ md_id d @ ''/Thermal'') @
           [(''Temperatures'', PList
               [temp ''CPU 1 Temp'' (round_to 1 base_t) ''CPU'', temp ''CPU 2 Temp'' (round_to 1 (base_t - 3 / 2)) ''CPU'',
                temp ''Inlet Temp'' (round_to 1 (mock_inlet_c now)) ''Intake'']),
            (''Fans'', PList
               [fan ''Fan 1'' (py_trunc (4200 + fan_wave env now (md_id d) 0)),
                fan ''Fan 2'' (py_trunc (4150 + fan_wave env now (md_id d) 1))])]))"

definition redfish_power :: "mock_env \<Rightarrow> real \<Rightarrow> mock_device \<Rightarrow> pyval" where
  "redfish_power env now d =
     (let watts = round_to 1 (server_power_w env now (md_id d));
          supply = (\<lambda>name k. PDict [(''Name'', PStr name), (''PowerOutputWatts'', PFloat (round_to 1 (watts / 2))),
              (''EfficiencyPercent'', PFloat (187 / 2 + wave now (4 / 10) 600 (of_int (mk_hash env (md_id d) + k)))), ok_status])
      in PDict (odata (''/redfish/v1/Chassis/'' @ md_id d @ ''/Power'') @
           [(''PowerControl'', PList
               [PDict [(''Name'', PStr ''System Power Control''), (''PowerConsumedWatts'', PFloat watts),
                       (''PowerCapacityWatts'', PFloat 1000), ok_status]]),
            (''PowerSupplies'', PList [supply ''PS1 Status'' 0, supply ''PS2 Status'' 1])]))"

definition snmp_walk :: "mock_env \<Rightarrow> real \<Rightarrow> pyval" where
  "snmp_walk env now =
     PDict [(''devices'', PList (
       map (\<lambda>sw.
         let bps_in = 1000000000 + py_trunc (wave now 200000000 30 (of_int (mk_hash env (md_id sw))));
             bps_out = 800000000 + py_trunc (wave now 200000000 30 (of_int (mk_hash env (md_id sw) + 1)))
         in PDict [(''device_id'', PStr (md_id sw)), (''device_type'', PStr ''switch''),
              (''oids'', PDict [(''ifInOctets.1'', PInt bps_in), (''ifOutOctets.1'', PInt bps_out),
                 (''ifInErrors.1'', PInt 0), (''ifOperStatus.1'', PInt 1),
                 (''ifHCInOctets.aggregate'', PInt (bps_in * 48))])]) (by_type (mk_topology env) ''switch'') @
       map (\<lambda>pdu.
         PDict [(''device_id'', PStr (md_id pdu)), (''device_type'', PStr ''pdu''),
           (''oids'', PDict
              [(''rPDU2PhaseStatusLoadState.1'', PFloat (55 + wave now 15 120 (of_int (mk_hash env (md_id pdu))))),
               (''rPDU2DeviceConfigName.1'', PStr (md_model pdu))])]) (by_type (mk_topology env) ''pdu'')))]"

definition ipmi_row :: "string \<Rightarrow> string \<Rightarrow> pyval \<Rightarrow> string \<Rightarrow> pyval" where
  "ipmi_row name metric v unit =
     PDict [(''name'', PStr name), (''metric'', PStr metric), (''value'', v), (''unit'', PStr unit)]"

definition ipmi_sensors :: "mock_env \<Rightarrow> real \<Rightarrow> pyval" where
  "ipmi_sensors env now =
     PDict [(''devices'', PList (map (\<lambda>srv.
       let d = md_id srv; temp = server_temp_c env now d; watts = server_power_w env now d
       in PDict [(''device_id'', PStr d), (''device_type'', PStr ''server''),
            (''sensors'', PList
              [ipmi_row ''CPU1 Temp'' ''cpu.temp.celsius'' (PFloat (round_to 1 temp)) ''celsius'',
               ipmi_row ''CPU2 Temp'' ''cpu.temp.celsius'' (PFloat (round_to 1 (temp - 3 / 2))) ''celsius'',
               ipmi_row ''Fan1'' ''fan.rpm'' (PInt (py_trunc (4200 + fan_wave env now d 0))) ''RPM'',
               ipmi_row ''PowerDraw'' ''power.draw.watts'' (PFloat (round_to 1 watts)) ''watts'',
               ipmi_row ''PSU1Eff'' ''psu.efficiency.percent''
                 (PFloat (round_to 2 (187 / 2 + wave now (4 / 10) 600 (of_int (mk_hash env d))))) ''percent''])])
       (by_type (mk_topology env) ''server'')))]"

definition env_row :: "string \<Rightarrow> string \<Rightarrow> string \<Rightarrow> string \<Rightarrow> real \<Rightarrow> string \<Rightarrow> pyval" where
  "env_row device_id device_type hall_id metric x unit =
     PDict [(''device_id'', PStr device_id), (''device_type'', PStr device_type), (''rack_id'', PStr []),
            (''hall_id'', PStr hall_id), (''metric'', PStr metric), (''value'', PFloat x), (''unit'', PStr unit)]"

definition env_sensors :: "mock_env \<Rightarrow> real \<Rightarrow> pyval" where
  "env_sensors env now =
     (let halls = sorted_set (filter (\<lambda>h. h \<noteq> []) (map md_hall_id (mt_devices (mk_topology env))))
      in PDict [(''sensors'', PList (concat (map (\<lambda>h.
           [env_row (h @ ''-sensor-inlet'') ''sensor'' h ''env.inlet.celsius'' (round_to 2 (mock_inlet_c now)) ''celsius'',
            env_row (h @ ''-sensor-outlet'') ''sensor'' h ''env.outlet.celsius'' (round_to 2 (mock_outlet_c now)) ''celsius'',
            env_row (h @ ''-sensor-humidity'') ''sensor'' h ''env.humidity.percent'' (round_to 2 (mock_humidity_pct now)) ''percent'',
            env_row (h @ ''-crac1'') ''crac'' h ''crac.supply.celsius'' (round_to 2 (mock_inlet_c now - 4)) ''celsius'',
            env_row (h @ ''-crac1'') ''crac'' h ''crac.return.celsius'' (round_to 2 (mock_outlet_c now + 1)) ''celsius'',
            env_row (h @ ''-crac1'') ''crac'' h ''crac.fan.percent''
              (round_to 1 (55 + wave now 8 240 (of_int (mk_hash env h)))) ''percent'']) halls)))])"

section \<open>The exposition of the GPU metrics\<close>

text \<open>\<open>{x:.1f}\<close>.\<close>

definition fixed1 :: "real \<Rightarrow> string" where
  "fixed1 x =
     (let n = nat (py_round (10 * \<bar>x\<bar>))
      in (if x < 0 then ''-'' else []) @ str_of_nat (n div 10) @ ''.'' @ str_of_nat (n mod 10))"

definition gpu_line :: "string \<Rightarrow> string \<Rightarrow> string option \<Rightarrow> string \<Rightarrow> string" where
  "gpu_line metric gpu model val =
     metric @ ''{gpu='' @ [CHR 0x22] @ gpu @ [CHR 0x22]
     @ (case model of None \<Rightarrow> [] | Some m \<Rightarrow> '',modelName='' @ [CHR 0x22] @ m @ [CHR 0x22]) @ ''} '' @ val"

definition dcgm_help :: "string \<Rightarrow> string \<Rightarrow> string \<Rightarrow> string list" where
  "dcgm_help metric text kind = [''# HELP '' @ metric @ '' '' @ text, ''# TYPE '' @ metric @ '' '' @ kind]"

definition dcgm_lines :: "mock_env \<Rightarrow> real \<Rightarrow> string list" where
  "dcgm_lines env now =
     (let gpus = by_type (mk_topology env) ''gpu'';
          hw = (\<lambda>a p g. wave now a p (of_int (mk_hash env (md_id g))))
      in dcgm_help ''DCGM_FI_DEV_GPU_TEMP'' ''GPU temperature (in C).'' ''gauge'' @
         map (\<lambda>g. gpu_line ''DCGM_FI_DEV_GPU_TEMP'' (md_id g) (Some (md_model g)) (fixed2 (mock_gpu_temp_c env now (md_id g)))) gpus @
         dcgm_help ''DCGM_FI_DEV_POWER_USAGE'' ''GPU power usage in watts.'' ''gauge'' @
         map (\<lambda>g. gpu_line ''DCGM_FI_DEV_POWER_USAGE'' (md_id g) (Some (md_model g)) (fixed2 (mock_gpu_power_w env now (md_id g)))) gpus @
         dcgm_help ''DCGM_FI_DEV_GPU_UTIL'' ''GPU utilization (in %).'' ''gauge'' @
         map (\<lambda>g. gpu_line ''DCGM_FI_DEV_GPU_UTIL'' (md_id g) (Some (md_model g)) (fixed1 (70 + hw 20 45 g))) gpus @
         dcgm_help ''DCGM_FI_DEV_XID_ERRORS'' ''Count of XID errors observed.'' ''counter'' @
         map (\<lambda>g. gpu_line ''DCGM_FI_DEV_XID_ERRORS'' (md_id g) None ''0'') gpus @
         dcgm_help ''DCGM_FI_DEV_FB_USED'' ''GPU framebuffer (mem) used in MiB.'' ''gauge'' @
         map (\<lambda>g. gpu_line ''DCGM_FI_DEV_FB_USED'' (md_id g) None (str_of_int (32000 + py_trunc (hw 5000 60 g)))) gpus)"

definition dcgm_metrics :: "mock_env \<Rightarrow> real \<Rightarrow> string" where
  "dcgm_metrics env now = join_with [CHR 10] (dcgm_lines env now) @ [CHR 10]"

section \<open>Actions\<close>

text \<open>A POST: 400 or the body, and the log after it.\<close>

definition migrate_workload :: "real \<Rightarrow> dict \<Rightarrow> dict list \<Rightarrow> (nat + dict) \<times> dict list" where
  "migrate_workload now payload action_log =
     (let raw = get_def payload ''moves'' PNone; moves = (if truthy raw then raw else PList [])
      in case moves of
           PList ms \<Rightarrow>
             (Inr [(''status'', PStr ''ok''), (''n_moves'', PInt (int (length ms))),
                   (''action_id'', get_def payload ''action_id'' PNone)],
              action_log @ [[(''kind'', PStr ''migrate_workload''), (''ts'', PFloat now), (''n_moves'', PInt (int (length ms))),
                      (''payload'', PDict payload), (''status'', PStr ''ok'')]])
         | _ \<Rightarrow> (Inl 400, action_log))"

definition fan_speed_adjust :: "real \<Rightarrow> dict \<Rightarrow> dict list \<Rightarrow> (nat + dict) \<times> dict list" where
  "fan_speed_adjust now payload action_log =
     (case (get_def payload ''device_id'' PNone, num_of (get_def payload ''target_fan_percent'' PNone)) of
        (PStr d, Some pct) \<Rightarrow>
          (Inr [(''status'', PStr ''ok''), (''applied'', PBool True), (''action_id'', get_def payload ''action_id'' PNone)],
           action_log @ [[(''kind'', PStr ''fan_speed_adjust''), (''ts'', PFloat now), (''device_id'', PStr d),
                   (''target_fan_percent'', PFloat pct), (''payload'', PDict payload), (''status'', PStr ''ok'')]])
      | _ \<Rightarrow> (Inl 400, action_log))"

definition revert_action :: "real \<Rightarrow> dict \<Rightarrow> dict list \<Rightarrow> (nat + dict) \<times> dict list" where
  "revert_action now payload action_log =
     (case get_def payload ''original_action_id'' PNone of
        PStr a \<Rightarrow>
          (Inr [(''status'', PStr ''ok''), (''reverted_action_id'', PStr a)],
           action_log @ [[(''kind'', PStr ''revert''), (''ts'', PFloat now), (''reverted_action_id'', PStr a),
                   (''payload'', PDict payload), (''status'', PStr ''ok'')]])
      | _ \<Rightarrow> (Inl 400, action_log))"

text \<open>\<open>_ACTION_LOG[-limit:]\<close>.\<close>

definition actions_log :: "int \<Rightarrow> dict list \<Rightarrow> pyval" where
  "actions_log limit action_log =
     PDict [(''actions'', PList (map PDict
       (if limit \<le> 0 then drop (nat (- limit)) action_log else last_n (nat limit) action_log)))]"

definition mock_health :: "mock_env \<Rightarrow> pyval" where
  "mock_health env =
     PDict [(''status'', PStr ''ok''), (''site_id'', PStr (mt_site_id (mk_topology env))),
            (''n_devices'', PInt (int (length (mt_devices (mk_topology env)))))]"

section \<open>The service\<close>

text \<open>The answers to GET at the paths the normalizers ask for.\<close>

definition mock_routes :: "mock_env \<Rightarrow> real \<Rightarrow> (string \<times> pyval) list" where
  "mock_routes env now =
     [(''/health'', mock_health env), (''/redfish/v1/Systems'', redfish_list_systems env), (''/snmp/walk'', snmp_walk env now),
      (''/ipmi/sensors'', ipmi_sensors env now), (''/env/sensors'', env_sensors env now)] @
     concat (map (\<lambda>d.
       [(''/redfish/v1/Systems/'' @ md_id d, redfish_system d),
        (''/redfish/v1/Chassis/'' @ md_id d @ ''/Thermal'', redfish_thermal env now d),
        (''/redfish/v1/Chassis/'' @ md_id d @ ''/Power'', redfish_power env now d)]) (by_type (mk_topology env) ''server''))"

definition mock_get :: "mock_env \<Rightarrow> real \<Rightarrow> string \<Rightarrow> string \<Rightarrow> pyval option" where
  "mock_get env now base url =
     (if prefix base url then map_of (mock_routes env now) (drop (length base) url) else None)"

definition mock_get_text :: "mock_env \<Rightarrow> real \<Rightarrow> string \<Rightarrow> string \<Rightarrow> string option" where
  "mock_get_text env now base url =
     (if url = base @ ''/metrics/dcgm'' then Some (dcgm_metrics env now) else None)"

definition mock_post :: "real \<Rightarrow> dict list \<Rightarrow> string \<Rightarrow> string \<Rightarrow> dict \<Rightarrow> (nat + dict) \<times> dict list" where
  "mock_post now action_log base url payload =
     (if url = base @ ''/actions/migrate_workload'' then migrate_workload now payload action_log
      else if url = base @ ''/actions/fan_speed_adjust'' then fan_speed_adjust now payload action_log
      else if url = base @ ''/actions/revert'' then revert_action now payload action_log
      else (Inl 404, action_log))"

section \<open>Lemmas\<close>

lemma two_digits_digits: "c \<in> set (two_digits n) \<Longrightarrow> is_digit c"
proof -
  have "is_digit (CHR ''0'')" by code_simp
  then show "c \<in> set (two_digits n) \<Longrightarrow> is_digit c" by (auto simp: two_digits_def dest: str_of_nat_digits split: if_splits)
qed

lemma no_dash: "CHR ''-'' \<notin> set (str_of_nat n)" "CHR ''-'' \<notin> set (two_digits n)"
proof -
  have "\<not> is_digit (CHR ''-'')" by code_simp
  then show "CHR ''-'' \<notin> set (str_of_nat n)" "CHR ''-'' \<notin> set (two_digits n)"
    using str_of_nat_digits two_digits_digits by blast+
qed

lemma hall_rack_named:
  assumes "CHR ''-'' \<notin> set p0" "CHR ''-'' \<notin> set p1" "CHR ''-'' \<notin> set p2"
  shows "hall_rack (p0 @ ''-h'' @ p1 @ ''-r'' @ p2 @ ''-'' @ rest) =
    (p0 @ ''-h'' @ p1, p0 @ ''-h'' @ p1 @ ''-r'' @ p2)"
proof -
  have "split_on (CHR ''-'') (p0 @ ''-h'' @ p1 @ ''-r'' @ p2 @ ''-'' @ rest) =
      p0 # (CHR ''h'' # p1) # (CHR ''r'' # p2) # split_on (CHR ''-'') rest"
    using split_on_append [of "CHR ''-''" p0 "''h'' @ p1 @ ''-r'' @ p2 @ ''-'' @ rest"]
      split_on_append [of "CHR ''-''" "''h'' @ p1" "''r'' @ p2 @ ''-'' @ rest"]
      split_on_append [of "CHR ''-''" "''r'' @ p2" rest] assms by simp
  then show ?thesis
    by (cases "split_on (CHR ''-'') rest") (simp_all add: hall_rack_def)
qed

text \<open>The name of a rack device gives its place.\<close>

definition placed :: "mock_device \<Rightarrow> bool" where
  "placed d \<longleftrightarrow> hall_rack (md_id d) = (md_hall_id d, md_rack_id d)"

lemma rack_devices_placed:
  assumes "CHR ''-'' \<notin> set site_id" "hall_id = site_id @ ''-h'' @ str_of_nat h"
    and "d \<in> set (rack_devices py_hash density n site_id hall_id r)"
  shows "placed d"
proof -
  note hr = hall_rack_named [OF assms(1) no_dash(1) [of h] no_dash(2) [of "r + 1"]]
  have x: "\<exists>rest. md_id d = hall_id @ ''-r'' @ two_digits (r + 1) @ ''-'' @ rest \<and> md_hall_id d = hall_id \<and>
      md_rack_id d = hall_id @ ''-r'' @ two_digits (r + 1)"
    using assms(3) by (auto simp: rack_devices_def server_devices_def Let_def split: if_splits)
  then show ?thesis
    using hr assms(2) by (auto simp: placed_def)
qed

lemma devices_placed:
  assumes "CHR ''-'' \<notin> set site_id" "d \<in> set (mt_devices (build_topology py_hash site_id halls racks servers density))"
    and "md_type d \<noteq> ''crac''"
  shows "placed d"
proof -
  from assms(2,3) obtain h r where
    "d \<in> set (rack_devices py_hash density servers site_id (site_id @ ''-h'' @ str_of_nat (h + 1)) r)"
    by (auto simp: build_topology_def hall_devices_def Let_def)
  from rack_devices_placed [OF assms(1) refl this] show ?thesis .
qed

lemma devices_named: "d \<in> set (mt_devices (build_topology py_hash site_id halls racks servers density)) \<Longrightarrow> md_id d \<noteq> []"
  by (auto simp: build_topology_def hall_devices_def rack_devices_def server_devices_def Let_def split: if_splits)

lemma hall_rack_nonempty: "fst (hall_rack d) \<noteq> []" "snd (hall_rack d) \<noteq> []"
  by (auto simp: hall_rack_def split: list.splits)

lemma y_for_map:
  assumes "\<And>x. x \<in> set xs \<Longrightarrow> body (g x) = (f x, None)"
  shows "y_for body (map g xs) = (concat (map f xs), None)"
  using assms by (induction xs) (auto simp: y_done_def y_then_def)

lemma emit_reading:
  assumes "nc_site cfg \<noteq> []" "d \<noteq> []"
  shows "y_emit (Inr (reading cfg now (hall_rack d) d dt m x u sev md)) = ([reading cfg now (hall_rack d) d dt m x u sev md], None)"
  using assms hall_rack_nonempty [of d]
  by (simp add: y_emit_def y_let_def mk_telemetry_event_def reading_def)

text \<open>What a reader of the telemetry is told.\<close>

definition seen :: "telemetry_event \<Rightarrow> string \<times> string \<times> string \<times> canonical_metric \<times> pyval" where
  "seen e = (te_device_id e, te_hall_id e, te_rack_id e, te_metric e, te_value e)"

definition told :: "mock_device \<Rightarrow> canonical_metric \<Rightarrow> real \<Rightarrow> string \<times> string \<times> string \<times> canonical_metric \<times> pyval" where
  "told d m x = (md_id d, md_hall_id d, md_rack_id d, m, PFloat x)"

lemma seen_reading: "placed d \<Longrightarrow> seen (reading cfg now (hall_rack (md_id d)) (md_id d) dt m x u sev md) = told d m x"
  by (simp add: seen_def told_def placed_def)

lemma ipmi_row_read:
  assumes "nc_site cfg \<noteq> []" "d \<noteq> []" "map_of IPMI_METRIC_MAP metric = Some m" "num_of v = Some x"
  shows "ipmi_sensor cfg now d (ipmi_row name metric v unit) =
    ([reading cfg now (hall_rack d) d SERVER m x (Some unit) INFO [(''source'', PStr ''ipmi''), (''sensor_name'', PStr name)]], None)"
  using assms emit_reading [OF assms(1,2)]
  by (simp add: ipmi_sensor_def ipmi_row_def y_let_def j_get_def j_key_def as_opt_str_def)

lemma ipmi_metrics:
  "map_of IPMI_METRIC_MAP ''cpu.temp.celsius'' = Some CPU_TEMP_CELSIUS"
  "map_of IPMI_METRIC_MAP ''fan.rpm'' = Some FAN_RPM"
  "map_of IPMI_METRIC_MAP ''power.draw.watts'' = Some POWER_DRAW_WATTS"
  "map_of IPMI_METRIC_MAP ''psu.efficiency.percent'' = Some PSU_EFFICIENCY_PERCENT"
  by (simp_all add: IPMI_METRIC_MAP_def)

lemma mock_get_at: "mock_get env now base (base @ path) = map_of (mock_routes env now) path"
  by (simp add: mock_get_def)

lemma mock_route_values:
  "map_of (mock_routes env now) ''/ipmi/sensors'' = Some (ipmi_sensors env now)"
  "map_of (mock_routes env now) ''/snmp/walk'' = Some (snmp_walk env now)"
  "map_of (mock_routes env now) ''/env/sensors'' = Some (env_sensors env now)"
  "map_of (mock_routes env now) ''/redfish/v1/Systems'' = Some (redfish_list_systems env)"
  by (simp_all add: mock_routes_def)

text \<open>What the sensor table tells of a server.\<close>

definition ipmi_told :: "mock_env \<Rightarrow> real \<Rightarrow> mock_device \<Rightarrow> (string \<times> string \<times> string \<times> canonical_metric \<times> pyval) list" where
  "ipmi_told env now d =
     [told d CPU_TEMP_CELSIUS (round_to 1 (server_temp_c env now (md_id d))),
      told d CPU_TEMP_CELSIUS (round_to 1 (server_temp_c env now (md_id d) - 3 / 2)),
      told d FAN_RPM (of_int (py_trunc (4200 + fan_wave env now (md_id d) 0))),
      told d POWER_DRAW_WATTS (round_to 1 (server_power_w env now (md_id d))),
      told d PSU_EFFICIENCY_PERCENT (round_to 2 (187 / 2 + wave now (4 / 10) 600 (of_int (mk_hash env (md_id d)))))]"

lemma ipmi_read_back:
  assumes "nc_site cfg \<noteq> []" "nc_mocks cfg = Some base" "base \<noteq> []" "nc_ipmi cfg = None"
    and "\<And>d. d \<in> set (by_type (mk_topology env) ''server'') \<Longrightarrow> placed d \<and> md_id d \<noteq> []"
  shows "snd (ipmi_poll cfg (mock_get env now base) now) = None"
    and "map seen (fst (ipmi_poll cfg (mock_get env now base) now)) =
      concat (map (ipmi_told env now) (by_type (mk_topology env) ''server''))"
proof -
  define device where "device srv =
       (let d = md_id srv; temp = server_temp_c env now d; watts = server_power_w env now d
       in PDict [(''device_id'', PStr d), (''device_type'', PStr ''server''),
            (''sensors'', PList
              [ipmi_row ''CPU1 Temp'' ''cpu.temp.celsius'' (PFloat (round_to 1 temp)) ''celsius'',
               ipmi_row ''CPU2 Temp'' ''cpu.temp.celsius'' (PFloat (round_to 1 (temp - 3 / 2))) ''celsius'',
               ipmi_row ''Fan1'' ''fan.rpm'' (PInt (py_trunc (4200 + fan_wave env now d 0))) ''RPM'',
               ipmi_row ''PowerDraw'' ''power.draw.watts'' (PFloat (round_to 1 watts)) ''watts'',
               ipmi_row ''PSU1Eff'' ''psu.efficiency.percent''
                 (PFloat (round_to 2 (187 / 2 + wave now (4 / 10) 600 (of_int (mk_hash env d))))) ''percent''])])" for srv :: mock_device
  define out where "out srv =
     (let ev = (\<lambda>name m x u. reading cfg now (hall_rack (md_id srv)) (md_id srv) SERVER m x (Some u) INFO
                  [(''source'', PStr ''ipmi''), (''sensor_name'', PStr name)])
      in [ev ''CPU1 Temp'' CPU_TEMP_CELSIUS (round_to 1 (server_temp_c env now (md_id srv))) ''celsius'',
          ev ''CPU2 Temp'' CPU_TEMP_CELSIUS (round_to 1 (server_temp_c env now (md_id srv) - 3 / 2)) ''celsius'',
          ev ''Fan1'' FAN_RPM (of_int (py_trunc (4200 + fan_wave env now (md_id srv) 0))) ''RPM'',
          ev ''PowerDraw'' POWER_DRAW_WATTS (round_to 1 (server_power_w env now (md_id srv))) ''watts'',
          ev ''PSU1Eff'' PSU_EFFICIENCY_PERCENT (round_to 2 (187 / 2 + wave now (4 / 10) 600 (of_int (mk_hash env (md_id srv))))) ''percent''])"
    for srv :: mock_device
  let ?srvs = "by_type (mk_topology env) ''server''"
  have dev: "ipmi_device cfg now (device srv) = (out srv, None)" if "srv \<in> set ?srvs" for srv
  proof -
    have "md_id srv \<noteq> []" using assms(5) [OF that] by simp
    then show ?thesis
      using ipmi_row_read [OF assms(1)] ipmi_metrics
      by (simp add: ipmi_device_def device_def out_def y_let_def j_get_def j_iter_def y_then_def y_done_def Let_def)
  qed
  have s: "ipmi_sensors env now = PDict [(''devices'', PList (map device ?srvs))]"
    unfolding ipmi_sensors_def device_def ..
  have f: "y_for (ipmi_device cfg now) (map device ?srvs) = (concat (map out ?srvs), None)"
    using dev by (rule y_for_map)
  have r: "set_text (ipmi_root cfg)" "ipmi_root cfg = Some (base @ ''/ipmi/sensors'')"
    using assms(2-4) by (simp_all add: ipmi_root_def root_at_def base_url_def set_text_def)
  have "ipmi_poll cfg (mock_get env now base) now = (concat (map out ?srvs), None)"
    using r f by (simp add: ipmi_poll_def mock_get_at mock_route_values s y_let_def j_get_def j_iter_def)
  moreover have "map seen (out srv) = ipmi_told env now srv"
    if "srv \<in> set ?srvs" for srv
    using seen_reading assms(5) [OF that] by (simp add: out_def ipmi_told_def Let_def)
  ultimately show "snd (ipmi_poll cfg (mock_get env now base) now) = None"
    "map seen (fst (ipmi_poll cfg (mock_get env now base) now)) =
      concat (map (ipmi_told env now) (by_type (mk_topology env) ''server''))"
    by (simp_all add: map_concat comp_def cong: map_cong)
qed

section \<open>Numbers in texts\<close>

lemma nat_of_digits_append: "nat_of_digits (s @ t) = nat_of_digits s * 10 ^ length t + nat_of_digits t"
proof (induction t rule: rev_induct)
  case (snoc c t)
  then show ?case by (simp add: nat_of_digits_def append_assoc [symmetric] algebra_simps del: append_assoc)
qed (simp add: nat_of_digits_def)

lemma nat_of_digit [simp]: "n < 10 \<Longrightarrow> nat_of_digits [digit n] = n"
  by (simp add: nat_of_digits_def digit_def)

lemma nat_of_str [simp]: "nat_of_digits (str_of_nat n) = n"
proof (induction n rule: str_of_nat.induct)
  case (1 n)
  then show ?case by (cases "n < 10") (simp_all add: str_of_nat.simps [of n] nat_of_digits_append)
qed

lemma nat_of_two_digits [simp]: "nat_of_digits (two_digits n) = n"
proof -
  have "nat_of_digits (CHR ''0'' # s) = nat_of_digits s" for s
    by (simp add: nat_of_digits_def)
  then show ?thesis by (simp add: two_digits_def)
qed

lemma length_two_digits: "n < 100 \<Longrightarrow> length (two_digits n) = 2"
  by (auto simp: two_digits_def str_of_nat.simps)

lemma str_of_nat_not_Nil [simp]: "str_of_nat n \<noteq> []"
  by (simp add: str_of_nat.simps [of n])

lemma take_digits:
  assumes "\<And>c. c \<in> set s \<Longrightarrow> is_digit c"
  shows "\<not> is_digit x \<Longrightarrow> takeWhile is_digit (s @ x # t) = s" "\<not> is_digit x \<Longrightarrow> dropWhile is_digit (s @ x # t) = x # t"
    "takeWhile is_digit s = s" "dropWhile is_digit s = []"
  using assms by (induction s) auto

lemma scan_decimal:
  assumes "\<And>c. c \<in> set w \<Longrightarrow> is_digit c" "\<And>c. c \<in> set f \<Longrightarrow> is_digit c" "w \<noteq> []"
  shows "scan_value ((if neg then ''-'' else []) @ w @ ''.'' @ f) =
    Some (if neg then - (nat_of_digits (w @ f) / 10 ^ length f) else nat_of_digits (w @ f) / 10 ^ length f, [])"
    "scan_value ((if neg then ''-'' else []) @ w) = Some (if neg then - nat_of_digits w else nat_of_digits w, [])"
proof -
  obtain c cs where w: "w = c # cs" using assms(3) by (cases w) auto
  have "is_digit c" using assms(1) w by simp
  then have "c \<noteq> CHR ''-''" "c \<noteq> CHR ''+''" by (auto simp: is_digit_def)
  then have s: "scan_sign ((if neg then ''-'' else []) @ w @ t) = (neg, w @ t)" for t
    using w by (simp add: scan_sign_def)
  have d: "\<not> is_digit (CHR ''.'')" by code_simp
  have "scan_mantissa (w @ ''.'' @ f) = Some (w, f, [])"
    using take_digits(1,2) [of w "CHR ''.''" f] take_digits(3,4) [of f] assms d
    by (simp add: scan_mantissa_def Let_def)
  then show "scan_value ((if neg then ''-'' else []) @ w @ ''.'' @ f) =
    Some (if neg then - (nat_of_digits (w @ f) / 10 ^ length f) else nat_of_digits (w @ f) / 10 ^ length f, [])"
    using s [of "''.'' @ f"] by (simp add: scan_value_def scan_exponent_def decimal_value_def Let_def)
  have t: "takeWhile is_digit w = w" "dropWhile is_digit w = []"
    using assms(1) by (auto simp: takeWhile_eq_all_conv)
  have "scan_mantissa w = Some (w, [], [])"
    unfolding scan_mantissa_def Let_def t using assms(3) by simp
  then show "scan_value ((if neg then ''-'' else []) @ w) = Some (if neg then - nat_of_digits w else nat_of_digits w, [])"
    using s [of "[]"] by (simp add: scan_value_def scan_exponent_def decimal_value_def Let_def)
qed

text \<open>What is left of a number printed with \<open>k\<close> decimals.\<close>

definition fixed_value :: "nat \<Rightarrow> real \<Rightarrow> real" where
  "fixed_value k x = (let n = real (nat (py_round (10 ^ k * \<bar>x\<bar>))) / 10 ^ k in if x < 0 then - n else n)"

lemma scan_fixed: "scan_value (fixed2 x) = Some (fixed_value 2 x, [])" "scan_value (fixed1 x) = Some (fixed_value 1 x, [])"
proof -
  define n where "n = nat (py_round (100 * \<bar>x\<bar>))"
  define m where "m = nat (py_round (10 * \<bar>x\<bar>))"
  have "nat_of_digits (str_of_nat (n div 100) @ two_digits (n mod 100)) = n"
    by (simp add: nat_of_digits_append length_two_digits)
  then show "scan_value (fixed2 x) = Some (fixed_value 2 x, [])"
    using scan_decimal(1) [of "str_of_nat (n div 100)" "two_digits (n mod 100)" "x < 0"]
    unfolding fixed2_def fixed_value_def Let_def
    by (auto simp: n_def [symmetric] str_of_nat_digits two_digits_digits length_two_digits) (auto simp: n_def)
  have d: "str_of_nat (m mod 10) = [digit (m mod 10)]" by (simp add: str_of_nat.simps)
  have "nat_of_digits (str_of_nat (m div 10) @ str_of_nat (m mod 10)) = m"
    by (simp add: nat_of_digits_append d)
  then show "scan_value (fixed1 x) = Some (fixed_value 1 x, [])"
    using scan_decimal(1) [of "str_of_nat (m div 10)" "str_of_nat (m mod 10)" "x < 0"]
    unfolding fixed1_def fixed_value_def Let_def
    by (auto simp: m_def [symmetric] str_of_nat_digits d digit_plain) (auto simp: m_def)
qed

lemma scan_int: "scan_value (str_of_int i) = Some (of_int i, [])"
  using scan_decimal(2) [of "str_of_nat (nat \<bar>i\<bar>)" "[]" "i < 0"]
  by (auto simp: str_of_int_def str_of_nat_digits split: if_splits)

section \<open>The exposition read back\<close>

lemma match_line_of:
  assumes "name_start c" "\<And>x. x \<in> set cs \<Longrightarrow> name_char x" "CHR ''}'' \<notin> set labels"
    and "scan_value val = Some (x, [])" "val \<noteq> []" "\<not> is_space (hd val)"
  shows "match_line ((c # cs) @ ''{'' @ labels @ ''} '' @ val) = Some (c # cs, Some labels, x)"
proof -
  have b: "\<not> name_char (CHR ''{'')" "is_space (CHR '' '')" by code_simp+
  have n: "takeWhile name_char (cs @ CHR ''{'' # t) = cs" "dropWhile name_char (cs @ CHR ''{'' # t) = CHR ''{'' # t" for t
    using assms(2) b(1) by (induction cs) auto
  have l: "takeWhile (\<lambda>x. x \<noteq> CHR ''}'') (labels @ CHR ''}'' # t) = labels"
    "dropWhile (\<lambda>x. x \<noteq> CHR ''}'') (labels @ CHR ''}'' # t) = CHR ''}'' # t" for t
    using assms(3) by (induction labels) auto
  have "lstrip (CHR '' '' # val) = val"
    using assms(5,6) b(2) by (cases val) (simp_all add: lstrip_def)
  then show ?thesis
    using assms(1,4) n l b(2) by (simp add: match_line_def Let_def lstrip_def [of "[]"])
qed

lemma match_label_of:
  assumes "label_start c" "\<And>x. x \<in> set cs \<Longrightarrow> label_char x" "CHR 0x22 \<notin> set v"
  shows "match_label ((c # cs) @ CHR ''='' # CHR 0x22 # v @ CHR 0x22 # after) = Some (c # cs, v, after)"
proof -
  have "\<not> label_char (CHR ''='')" by code_simp
  then have "takeWhile label_char (cs @ CHR ''='' # t) = cs" "dropWhile label_char (cs @ CHR ''='' # t) = CHR ''='' # t" for t
    using assms(2) by (induction cs) auto
  moreover have "takeWhile (\<lambda>x. x \<noteq> CHR 0x22) (v @ CHR 0x22 # t) = v"
    "dropWhile (\<lambda>x. x \<noteq> CHR 0x22) (v @ CHR 0x22 # t) = CHR 0x22 # t" for t
    using assms(3) by (induction v) auto
  ultimately show ?thesis using assms(1) by (simp add: match_label_def)
qed

lemma find_labels_of:
  assumes "CHR 0x22 \<notin> set g" "CHR 0x22 \<notin> set m"
  shows "find_labels (''gpu='' @ [CHR 0x22] @ g @ [CHR 0x22]) = [(''gpu'', g)]"
    "find_labels (''gpu='' @ [CHR 0x22] @ g @ [CHR 0x22] @ '',modelName='' @ [CHR 0x22] @ m @ [CHR 0x22]) =
      [(''gpu'', g), (''modelName'', m)]"
proof -
  have e: "find_labels [] = []" by (simp add: find_labels.simps [of "[]"] match_label_def)
  have gs: "label_start (CHR ''g'')" "\<forall>x \<in> set ''pu''. label_char x"
    and ms: "label_start (CHR ''m'')" "\<forall>x \<in> set ''odelName''. label_char x"
    and c: "\<not> label_start (CHR '','')"
    by (auto simp: label_start_def label_char_def letter_def)
  have "match_label (''gpu='' @ [CHR 0x22] @ g @ CHR 0x22 # after) = Some (''gpu'', g, after)" for after
    using match_label_of [of "CHR ''g''" "''pu''" g after] gs assms(1) by simp
  then have 1: "find_labels (''gpu='' @ [CHR 0x22] @ g @ CHR 0x22 # after) = (''gpu'', g) # find_labels after" for after
    by (simp add: find_labels.simps [of "CHR ''g'' # _"])
  have "match_label (''modelName='' @ [CHR 0x22] @ m @ CHR 0x22 # after) = Some (''modelName'', m, after)" for after
    using match_label_of [of "CHR ''m''" "''odelName''" m after] ms assms(2) by simp
  then have 2: "find_labels (''modelName='' @ [CHR 0x22] @ m @ CHR 0x22 # after) = (''modelName'', m) # find_labels after" for after
    by (simp add: find_labels.simps [of "CHR ''m'' # _"])
  have 3: "find_labels (CHR '','' # s) = find_labels s" for s
    using c by (simp add: find_labels.simps [of "CHR '','' # s"] match_label_def)
  show "find_labels (''gpu='' @ [CHR 0x22] @ g @ [CHR 0x22]) = [(''gpu'', g)]"
    using 1 [of "[]"] e by simp
  show "find_labels (''gpu='' @ [CHR 0x22] @ g @ [CHR 0x22] @ '',modelName='' @ [CHR 0x22] @ m @ [CHR 0x22]) =
      [(''gpu'', g), (''modelName'', m)]"
    using 1 [of "CHR '','' # ''modelName='' @ [CHR 0x22] @ m @ [CHR 0x22]"] 2 [of "[]"] 3 e by simp
qed

lemma splitlines_line:
  assumes "\<And>c. c \<in> set l \<Longrightarrow> \<not> line_break c"
  shows "splitlines_from acc (l @ CHR 10 # rest) = (rev acc @ l) # splitlines_from [] rest"
proof -
  have "line_break (CHR 10)" by code_simp
  then show ?thesis using assms by (induction l arbitrary: acc) auto
qed

lemma splitlines_joined:
  assumes "\<And>l c. l \<in> set ls \<Longrightarrow> c \<in> set l \<Longrightarrow> \<not> line_break c" "ls \<noteq> []"
  shows "splitlines (join_with [CHR 10] ls @ [CHR 10]) = ls"
  using assms
proof (induction ls)
  case (Cons l ls)
  show ?case
  proof (cases ls)
    case Nil
    then show ?thesis using splitlines_line [of l "[]" "[]"] Cons.prems(1) by (simp add: splitlines_def)
  next
    case (Cons l2 ls2)
    have "splitlines (join_with [CHR 10] ls @ [CHR 10]) = ls"
      by (rule Cons.IH) (use Cons.prems(1) Cons in auto)
    moreover have "splitlines_from [] (l @ CHR 10 # join_with [CHR 10] ls @ [CHR 10]) =
        (rev [] @ l) # splitlines_from [] (join_with [CHR 10] ls @ [CHR 10])"
      by (rule splitlines_line) (use Cons.prems(1) in auto)
    ultimately show ?thesis
      using Cons by (simp add: splitlines_def)
  qed
qed simp

text \<open>A number as the service prints it.\<close>

definition prints :: "string \<Rightarrow> real \<Rightarrow> bool" where
  "prints v x \<longleftrightarrow> scan_value v = Some (x, []) \<and> v \<noteq> [] \<and> (\<forall>c \<in> set v. is_digit c \<or> c = CHR ''.'' \<or> c = CHR ''-'')"

lemma prints_printed:
  "prints (fixed2 x) (fixed_value 2 x)" "prints (fixed1 x) (fixed_value 1 x)" "prints (str_of_int i) (of_int i)"
  "prints ''0'' 0"
proof -
  show "prints (fixed2 x) (fixed_value 2 x)" "prints (fixed1 x) (fixed_value 1 x)"
    using scan_fixed [of x] by (auto simp: prints_def fixed2_def fixed1_def Let_def dest: str_of_nat_digits two_digits_digits split: if_splits)
  show "prints (str_of_int i) (of_int i)"
    using scan_int [of i] by (auto simp: prints_def str_of_int_def dest: str_of_nat_digits split: if_splits)
  have "str_of_int 0 = ''0''" by code_simp
  then show "prints ''0'' 0" using scan_int [of 0] by (simp add: prints_def) code_simp
qed

lemma printed_chars:
  assumes "is_digit c \<or> c = CHR ''.'' \<or> c = CHR ''-''" shows "\<not> is_space c" "\<not> line_break c"
  using assms by (auto simp: is_digit_def is_space_def line_break_def Let_def)

lemma strip_id:
  assumes "s \<noteq> []" "\<not> is_space (hd s)" "\<not> is_space (last s)" shows "strip s = s"
proof -
  have "lstrip s = s" using assms(1,2) by (cases s) (simp_all add: lstrip_def)
  moreover obtain t z where "s = t @ [z]" using assms(1) by (metis rev_exhaust)
  ultimately show ?thesis using assms(3) by (simp add: strip_def rstrip_def)
qed

text \<open>Texts that cannot end a label or a line.\<close>

definition label_safe :: "string \<Rightarrow> bool" where
  "label_safe s \<longleftrightarrow> (\<forall>c \<in> set s. c \<noteq> CHR 0x22 \<and> c \<noteq> CHR ''}'' \<and> \<not> line_break c)"

definition gpu_labels :: "string \<Rightarrow> string option \<Rightarrow> (string \<times> string) list" where
  "gpu_labels g model = (''gpu'', g) # (case model of None \<Rightarrow> [] | Some m \<Rightarrow> [(''modelName'', m)])"

lemma gpu_line_read:
  assumes "metric = c # cs" "name_start c" "\<forall>x \<in> set cs. name_char x" "prints v x" "label_safe g"
    and "case model of None \<Rightarrow> True | Some m \<Rightarrow> label_safe m"
  shows "strip (gpu_line metric g model v) = gpu_line metric g model v"
    and "\<not> prefix ''#'' (gpu_line metric g model v)" "gpu_line metric g model v \<noteq> []"
    and "\<exists>t. match_line (gpu_line metric g model v) = Some (metric, Some t, x) \<and> parse_labels (Some t) = gpu_labels g model"
proof -
  define t where "t = ''gpu='' @ [CHR 0x22] @ g @ [CHR 0x22] @
    (case model of None \<Rightarrow> [] | Some m \<Rightarrow> '',modelName='' @ [CHR 0x22] @ m @ [CHR 0x22])"
  have l: "gpu_line metric g model v = (c # cs) @ ''{'' @ t @ ''} '' @ v"
    by (simp add: gpu_line_def t_def assms(1))
  have v: "v \<noteq> []" "scan_value v = Some (x, [])" "\<not> is_space (hd v)" "\<not> is_space (last v)"
    using assms(4) printed_chars(1) by (auto simp: prints_def)
  have c: "\<not> is_space c" "c \<noteq> CHR ''#''"
    using assms(2) by (auto simp: name_start_def label_start_def letter_def is_space_def Let_def)
  show "strip (gpu_line metric g model v) = gpu_line metric g model v"
    by (rule strip_id) (use l c v in auto)
  show "\<not> prefix ''#'' (gpu_line metric g model v)" "gpu_line metric g model v \<noteq> []" using l c by auto
  have "CHR ''}'' \<notin> set t"
    using assms(5,6) by (auto simp: t_def label_safe_def split: option.splits)
  then have "match_line (gpu_line metric g model v) = Some (c # cs, Some t, x)"
    unfolding l using match_line_of [of c cs t v x] assms(2,3) v by simp
  moreover have "find_labels t = gpu_labels g model"
    using find_labels_of [of g] assms(5,6)
    by (cases model) (auto simp: t_def gpu_labels_def label_safe_def)
  then have "parse_labels (Some t) = gpu_labels g model"
    by (cases model) (simp_all add: parse_labels_def dict_of_def gpu_labels_def t_def)
  ultimately show "\<exists>t. match_line (gpu_line metric g model v) = Some (metric, Some t, x) \<and> parse_labels (Some t) = gpu_labels g model"
    using assms(1) by blast
qed

lemma dcgm_names:
  "map_of DCGM_METRIC_MAP metric = Some m \<Longrightarrow> \<exists>c cs. metric = c # cs \<and> name_start c \<and> (\<forall>x \<in> set cs. name_char x)"
proof -
  have "list_all (\<lambda>(n, m). n \<noteq> [] \<and> name_start (hd n) \<and> list_all name_char (tl n)) DCGM_METRIC_MAP" by code_simp
  then show "map_of DCGM_METRIC_MAP metric = Some m \<Longrightarrow> \<exists>c cs. metric = c # cs \<and> name_start c \<and> (\<forall>x \<in> set cs. name_char x)"
    by (cases metric) (auto dest!: map_of_SomeD simp: list_all_iff)
qed

lemma dcgm_gpu_line:
  assumes "map_of DCGM_METRIC_MAP metric = Some m" "prints v x" "label_safe (md_id g)" "md_id g \<noteq> []" "nc_site cfg \<noteq> []"
    and "case model of None \<Rightarrow> True | Some md \<Rightarrow> label_safe md" "placed g"
  shows "\<exists>e. dcgm_line cfg now (gpu_line metric (md_id g) model v) = ([e], None) \<and> seen e = told g m x"
proof -
  from dcgm_names [OF assms(1)] obtain c cs where n: "metric = c # cs" "name_start c" "\<forall>x \<in> set cs. name_char x" by blast
  note r = gpu_line_read [OF n assms(2,3,6)]
  from r(4) obtain t where t: "match_line (gpu_line metric (md_id g) model v) = Some (metric, Some t, x)"
    "parse_labels (Some t) = gpu_labels (md_id g) model" by blast
  have gpu: "map_of (gpu_labels (md_id g) model) ''gpu'' = Some (md_id g)" by (simp add: gpu_labels_def)
  then have "or_text (map_of (gpu_labels (md_id g) model) ''gpu'') z = Some (md_id g)" for z
    using assms(4) by (simp add: or_text_def set_text_def)
  then show ?thesis
    using r(1-3) t assms(1,4) emit_reading [OF assms(5,4)] seen_reading [OF assms(7)]
    by (simp add: dcgm_line_def Let_def set_text_def)
qed

lemma y_for_append: "y_for body (xs @ ys) = y_then (y_for body xs) (y_for body ys)"
proof -
  have "y_then (y_then a b) c = y_then a (y_then b c)" for a b c
    by (simp add: y_then_def split: prod.splits option.splits)
  moreover have "y_then y_done z = z" for z by (simp add: y_then_def y_done_def)
  ultimately show ?thesis by (induction xs) simp_all
qed

lemma read_lines:
  assumes "\<forall>g \<in> set gs. \<exists>e. body (line g) = ([e], None) \<and> seen e = f g"
  shows "\<exists>es. y_for body (map line gs) = (es, None) \<and> map seen es = map f gs"
  using assms
proof (induction gs)
  case (Cons g gs)
  then obtain e es where "body (line g) = ([e], None)" "seen e = f g"
    "y_for body (map line gs) = (es, None)" "map seen es = map f gs" by auto
  then show ?case by (simp add: y_then_def)
qed (simp add: y_done_def)

lemma comment_line: "dcgm_line cfg now (CHR ''#'' # t) = y_done"
proof -
  have s: "\<not> is_space (CHR ''#'')" by code_simp
  have "strip (CHR ''#'' # t) = CHR ''#'' # rev (dropWhile is_space (rev t))"
    using s by (simp add: strip_def lstrip_def rstrip_def dropWhile_append)
  then show ?thesis by (simp add: dcgm_line_def Let_def)
qed

lemma help_lines: "y_for (dcgm_line cfg now) (dcgm_help metric txt kind) = y_done"
  by (simp add: dcgm_help_def comment_line y_then_def y_done_def)

lemma y_then_read:
  assumes "y = (es, None)" "map seen es = xs" "z = (fs, None)" "map seen fs = ys"
  shows "\<exists>hs. y_then y z = (hs, None) \<and> map seen hs = xs @ ys"
  using assms by (simp add: y_then_def)

text \<open>What the exposition tells of the GPUs.\<close>

definition dcgm_told :: "mock_env \<Rightarrow> real \<Rightarrow> (string \<times> string \<times> string \<times> canonical_metric \<times> pyval) list" where
  "dcgm_told env now =
     (let gpus = by_type (mk_topology env) ''gpu'';
          hw = (\<lambda>a p g. wave now a p (of_int (mk_hash env (md_id g))))
      in map (\<lambda>g. told g GPU_TEMP_CELSIUS (fixed_value 2 (mock_gpu_temp_c env now (md_id g)))) gpus @
         map (\<lambda>g. told g GPU_POWER_WATTS (fixed_value 2 (mock_gpu_power_w env now (md_id g)))) gpus @
         map (\<lambda>g. told g GPU_UTIL_PERCENT (fixed_value 1 (70 + hw 20 45 g))) gpus @
         map (\<lambda>g. told g GPU_XID_CODE 0) gpus @
         map (\<lambda>g. told g GPU_MEM_USED_BYTES (of_int (32000 + py_trunc (hw 5000 60 g)))) gpus)"

lemma dcgm_metric_maps:
  "map_of DCGM_METRIC_MAP ''DCGM_FI_DEV_GPU_TEMP'' = Some GPU_TEMP_CELSIUS"
  "map_of DCGM_METRIC_MAP ''DCGM_FI_DEV_POWER_USAGE'' = Some GPU_POWER_WATTS"
  "map_of DCGM_METRIC_MAP ''DCGM_FI_DEV_GPU_UTIL'' = Some GPU_UTIL_PERCENT"
  "map_of DCGM_METRIC_MAP ''DCGM_FI_DEV_XID_ERRORS'' = Some GPU_XID_CODE"
  "map_of DCGM_METRIC_MAP ''DCGM_FI_DEV_FB_USED'' = Some GPU_MEM_USED_BYTES"
  by (simp_all add: DCGM_METRIC_MAP_def)

lemma dcgm_lines_read:
  assumes "nc_site cfg \<noteq> []"
    and "\<And>g. g \<in> set (by_type (mk_topology env) ''gpu'') \<Longrightarrow> placed g \<and> md_id g \<noteq> [] \<and> label_safe (md_id g) \<and> label_safe (md_model g)"
  shows "\<exists>es. y_for (dcgm_line cfg now) (dcgm_lines env now) = (es, None) \<and> map seen es = dcgm_told env now"
proof -
  let ?gpus = "by_type (mk_topology env) ''gpu''"
  have named: "\<exists>es. y_for (dcgm_line cfg now) (map (\<lambda>g. gpu_line metric (md_id g) (Some (md_model g)) (v g)) ?gpus) = (es, None) \<and>
      map seen es = map (\<lambda>g. told g m (x g)) ?gpus"
    if "map_of DCGM_METRIC_MAP metric = Some m" "\<And>g. prints (v g) (x g)" for metric m v x
    by (rule read_lines) (use dcgm_gpu_line [OF that(1) that(2)] assms in \<open>simp add: Ball_def\<close>)
  have bare: "\<exists>es. y_for (dcgm_line cfg now) (map (\<lambda>g. gpu_line metric (md_id g) None (v g)) ?gpus) = (es, None) \<and>
      map seen es = map (\<lambda>g. told g m (x g)) ?gpus"
    if "map_of DCGM_METRIC_MAP metric = Some m" "\<And>g. prints (v g) (x g)" for metric m v x
    by (rule read_lines) (use dcgm_gpu_line [OF that(1) that(2)] assms in \<open>simp add: Ball_def\<close>)
  have skip: "y_then y_done z = z" for z by (simp add: y_then_def y_done_def)
  let ?u = "\<lambda>g. 70 + wave now 20 45 (of_int (mk_hash env (md_id g)))"
  let ?f = "\<lambda>g. 32000 + py_trunc (wave now 5000 60 (of_int (mk_hash env (md_id g))))"
  from named [OF dcgm_metric_maps(1), of "\<lambda>g. fixed2 (mock_gpu_temp_c env now (md_id g))" "\<lambda>g. fixed_value 2 (mock_gpu_temp_c env now (md_id g))", OF prints_printed(1)]
  obtain e1 where e1: "y_for (dcgm_line cfg now) (map (\<lambda>g. gpu_line ''DCGM_FI_DEV_GPU_TEMP'' (md_id g) (Some (md_model g)) (fixed2 (mock_gpu_temp_c env now (md_id g)))) ?gpus) = (e1, None)"
    "map seen e1 = map (\<lambda>g. told g GPU_TEMP_CELSIUS (fixed_value 2 (mock_gpu_temp_c env now (md_id g)))) ?gpus" by blast
  from named [OF dcgm_metric_maps(2), of "\<lambda>g. fixed2 (mock_gpu_power_w env now (md_id g))" "\<lambda>g. fixed_value 2 (mock_gpu_power_w env now (md_id g))", OF prints_printed(1)]
  obtain e2 where e2: "y_for (dcgm_line cfg now) (map (\<lambda>g. gpu_line ''DCGM_FI_DEV_POWER_USAGE'' (md_id g) (Some (md_model g)) (fixed2 (mock_gpu_power_w env now (md_id g)))) ?gpus) = (e2, None)"
    "map seen e2 = map (\<lambda>g. told g GPU_POWER_WATTS (fixed_value 2 (mock_gpu_power_w env now (md_id g)))) ?gpus" by blast
  from named [OF dcgm_metric_maps(3), of "\<lambda>g. fixed1 (?u g)" "\<lambda>g. fixed_value 1 (?u g)", OF prints_printed(2)]
  obtain e3 where e3: "y_for (dcgm_line cfg now) (map (\<lambda>g. gpu_line ''DCGM_FI_DEV_GPU_UTIL'' (md_id g) (Some (md_model g)) (fixed1 (?u g))) ?gpus) = (e3, None)"
    "map seen e3 = map (\<lambda>g. told g GPU_UTIL_PERCENT (fixed_value 1 (?u g))) ?gpus" by blast
  from bare [OF dcgm_metric_maps(4), of "\<lambda>g. ''0''" "\<lambda>g. 0", OF prints_printed(4)]
  obtain e4 where e4: "y_for (dcgm_line cfg now) (map (\<lambda>g. gpu_line ''DCGM_FI_DEV_XID_ERRORS'' (md_id g) None ''0'') ?gpus) = (e4, None)"
    "map seen e4 = map (\<lambda>g. told g GPU_XID_CODE 0) ?gpus" by blast
  from bare [OF dcgm_metric_maps(5), of "\<lambda>g. str_of_int (?f g)" "\<lambda>g. of_int (?f g)", OF prints_printed(3)]
  obtain e5 where e5: "y_for (dcgm_line cfg now) (map (\<lambda>g. gpu_line ''DCGM_FI_DEV_FB_USED'' (md_id g) None (str_of_int (?f g))) ?gpus) = (e5, None)"
    "map seen e5 = map (\<lambda>g. told g GPU_MEM_USED_BYTES (of_int (?f g))) ?gpus" by blast
  have "y_for (dcgm_line cfg now) (dcgm_lines env now) = (e1 @ e2 @ e3 @ e4 @ e5, None)"
    unfolding dcgm_lines_def Let_def y_for_append help_lines skip e1(1) e2(1) e3(1) e4(1) e5(1)
    by (simp add: y_then_def)
  moreover have "map seen (e1 @ e2 @ e3 @ e4 @ e5) = dcgm_told env now"
    unfolding dcgm_told_def Let_def map_append e1(2) e2(2) e3(2) e4(2) e5(2) by simp
  ultimately show ?thesis by blast
qed

lemma dcgm_lines_safe:
  assumes "\<And>g. g \<in> set (by_type (mk_topology env) ''gpu'') \<Longrightarrow> label_safe (md_id g) \<and> label_safe (md_model g)"
    and "l \<in> set (dcgm_lines env now)" "c \<in> set l"
  shows "\<not> line_break c"
proof -
  have comments: "\<not> line_break c" if "l \<in> set (dcgm_help metric tx k)" "c \<in> set l"
    "list_all (\<lambda>z. \<not> line_break z) (metric @ tx @ k)" for metric tx k l c
  proof -
    have "list_all (\<lambda>z. \<not> line_break z) (''# HELP '' @ ''# TYPE '' @ '' '')" by code_simp
    with that show ?thesis by (auto simp: dcgm_help_def list_all_iff)
  qed
  have gpu: "\<not> line_break c" if "g \<in> set (by_type (mk_topology env) ''gpu'')" "model \<in> {None, Some (md_model g)}"
    "list_all (\<lambda>z. \<not> line_break z) metric" "prints v x" "c \<in> set (gpu_line metric (md_id g) model v)" for g model metric v x c
  proof -
    have "list_all (\<lambda>z. \<not> line_break z) (''{gpu='' @ [CHR 0x22] @ '',modelName='' @ ''} '')" by code_simp
    moreover have "list_all (\<lambda>z. \<not> line_break z) v"
      using that(4) printed_chars(2) by (auto simp: prints_def list_all_iff)
    ultimately show ?thesis
      using assms(1) [OF that(1)] that(2,3,5) by (auto simp: gpu_line_def list_all_iff label_safe_def)
  qed
  have names: "list_all (\<lambda>z. \<not> line_break z) (''DCGM_FI_DEV_GPU_TEMP'' @ ''DCGM_FI_DEV_POWER_USAGE'' @ ''DCGM_FI_DEV_GPU_UTIL''
      @ ''DCGM_FI_DEV_XID_ERRORS'' @ ''DCGM_FI_DEV_FB_USED'')" by code_simp
  have texts: "list_all (\<lambda>z. \<not> line_break z) (''GPU temperature (in C).'' @ ''GPU power usage in watts.'' @ ''GPU utilization (in %).''
      @ ''Count of XID errors observed.'' @ ''GPU framebuffer (mem) used in MiB.'' @ ''gauge'' @ ''counter'')" by code_simp
  from assms(2) have "(\<exists>metric tx k. l \<in> set (dcgm_help metric tx k) \<and> list_all (\<lambda>z. \<not> line_break z) (metric @ tx @ k)) \<or>
      (\<exists>g model metric v x. g \<in> set (by_type (mk_topology env) ''gpu'') \<and> model \<in> {None, Some (md_model g)} \<and>
         list_all (\<lambda>z. \<not> line_break z) metric \<and> prints v x \<and> l = gpu_line metric (md_id g) model v)"
    unfolding dcgm_lines_def Let_def set_append set_map
    using names texts prints_printed unfolding list_all_append by blast
  then show ?thesis using comments gpu assms(3) by blast
qed

lemma dcgm_read_back:
  assumes "nc_site cfg \<noteq> []" "nc_mocks cfg = Some base" "base \<noteq> []" "nc_dcgm cfg = None"
    and "\<And>g. g \<in> set (by_type (mk_topology env) ''gpu'') \<Longrightarrow> placed g \<and> md_id g \<noteq> [] \<and> label_safe (md_id g) \<and> label_safe (md_model g)"
  shows "\<exists>es. dcgm_poll cfg (mock_get_text env now base) now = (es, None) \<and> map seen es = dcgm_told env now"
proof -
  have "dcgm_lines env now \<noteq> []" by (simp add: dcgm_lines_def dcgm_help_def Let_def)
  then have "splitlines (dcgm_metrics env now) = dcgm_lines env now"
    unfolding dcgm_metrics_def using splitlines_joined dcgm_lines_safe assms(5) by (metis (no_types, lifting))
  moreover have "set_text (dcgm_root cfg)" "dcgm_root cfg = Some (base @ ''/metrics/dcgm'')"
    using assms(2-4) by (simp_all add: dcgm_root_def root_at_def base_url_def set_text_def)
  ultimately have "dcgm_poll cfg (mock_get_text env now base) now = y_for (dcgm_line cfg now) (dcgm_lines env now)"
    by (simp add: dcgm_poll_def mock_get_text_def dcgm_metrics_def)
  with dcgm_lines_read [OF assms(1,5)] show ?thesis by metis
qed

lemma label_safe_append: "label_safe (s @ t) \<longleftrightarrow> label_safe s \<and> label_safe t"
  by (auto simp: label_safe_def)

lemma label_safe_digits: "label_safe (str_of_nat n)" "label_safe (two_digits n)"
proof -
  have "is_digit c \<Longrightarrow> c \<noteq> CHR 0x22 \<and> c \<noteq> CHR ''}'' \<and> \<not> line_break c" for c
    by (auto simp: is_digit_def line_break_def Let_def)
  then show "label_safe (str_of_nat n)" "label_safe (two_digits n)"
    using str_of_nat_digits two_digits_digits unfolding label_safe_def by blast+
qed

lemma gpu_devices_safe:
  assumes "label_safe site_id" "g \<in> set (mt_devices (build_topology py_hash site_id halls racks servers density))"
    "md_type g = ''gpu''"
  shows "label_safe (md_id g) \<and> label_safe (md_model g)"
proof -
  have c: "label_safe ''-h''" "label_safe ''-r''" "label_safe ''-srv''" "label_safe ''-gpu''" "label_safe ''NVIDIA-H100-80GB''"
    by code_simp+
  from assms(2,3) obtain h r s k where
    "md_id g = ((site_id @ ''-h'' @ str_of_nat (h + 1)) @ ''-r'' @ two_digits (r + 1)) @ ''-srv'' @ two_digits (s + 1) @ ''-gpu'' @ str_of_nat (k + 1)"
    "md_model g = ''NVIDIA-H100-80GB''"
    by (auto simp: build_topology_def hall_devices_def rack_devices_def server_devices_def Let_def split: if_splits)
  then show ?thesis
    using assms(1) c label_safe_digits by (simp only: label_safe_append simp_thms)
qed

section \<open>Properties\<close>

text \<open>C31: what the mock service serves the normalizers read back: for a site whose name has no dash, quote,
  brace or line break, polling its sensor table and its GPU exposition ends without an exception and
  yields, in order, exactly the readings it printed (rounded as it prints them), each attributed to its
  device and to the hall and rack the inventory has it in.\<close>

theorem mock_telemetry_read_back:
  assumes "CHR ''-'' \<notin> set site" "label_safe site" "mk_topology env = mocks_topology py_hash site"
    and "nc_site cfg \<noteq> []" "nc_mocks cfg = Some base" "base \<noteq> []" "nc_ipmi cfg = None" "nc_dcgm cfg = None"
  shows "snd (ipmi_poll cfg (mock_get env now base) now) = None \<and>
    map seen (fst (ipmi_poll cfg (mock_get env now base) now)) =
      concat (map (ipmi_told env now) (by_type (mk_topology env) ''server'')) \<and>
    snd (dcgm_poll cfg (mock_get_text env now base) now) = None \<and>
    map seen (fst (dcgm_poll cfg (mock_get_text env now base) now)) = dcgm_told env now"
proof -
  have d: "placed d \<and> md_id d \<noteq> []" if "d \<in> set (by_type (mk_topology env) t)" "t \<noteq> ''crac''" for d t
  proof -
    from that have "d \<in> set (mt_devices (build_topology py_hash site 2 3 4 (1 / 2)))" "md_type d \<noteq> ''crac''"
      by (simp_all add: by_type_def assms(3) mocks_topology_def)
    then show ?thesis using devices_placed [OF assms(1)] devices_named by blast
  qed
  have s: "label_safe (md_id g) \<and> label_safe (md_model g)" if "g \<in> set (by_type (mk_topology env) ''gpu'')" for g
    using that gpu_devices_safe [OF assms(2), of g py_hash 2 3 4 "1 / 2"]
    by (simp add: by_type_def assms(3) mocks_topology_def)
  from ipmi_read_back [OF assms(4-7), of env now] d [of _ "''server''"] have
    "snd (ipmi_poll cfg (mock_get env now base) now) = None"
    "map seen (fst (ipmi_poll cfg (mock_get env now base) now)) =
      concat (map (ipmi_told env now) (by_type (mk_topology env) ''server''))" by simp_all
  moreover from dcgm_read_back [OF assms(4-6,8), of env now] d [of _ "''gpu''"] s obtain es where
    "dcgm_poll cfg (mock_get_text env now base) now = (es, None)" "map seen es = dcgm_told env now" by auto
  ultimately show ?thesis by simp
qed

definition sample_mocks :: mock_env where
  "sample_mocks = \<lparr>mk_hash = (\<lambda>s. 0), mk_topology = mocks_topology (\<lambda>s. 0) ''frankfurt''\<rparr>"

theorem mock_telemetry_read_back_witness:
  "snd (dcgm_poll \<lparr>nc_site = ''frankfurt'', nc_mocks = Some ''http://mocks'', nc_redfish = None, nc_dcgm = None,
      nc_ipmi = None, nc_snmp = None, nc_env = None\<rparr> (mock_get_text sample_mocks 0 ''http://mocks'') 0) = None \<and>
   (''frankfurt-h1-r01-srv01-gpu1'', ''frankfurt-h1'', ''frankfurt-h1-r01'', GPU_XID_CODE, PFloat 0) \<in>
   seen ` set (fst (dcgm_poll \<lparr>nc_site = ''frankfurt'', nc_mocks = Some ''http://mocks'', nc_redfish = None, nc_dcgm = None,
      nc_ipmi = None, nc_snmp = None, nc_env = None\<rparr> (mock_get_text sample_mocks 0 ''http://mocks'') 0))"
proof -
  let ?cfg = "\<lparr>nc_site = ''frankfurt'', nc_mocks = Some ''http://mocks'', nc_redfish = None, nc_dcgm = None,
      nc_ipmi = None, nc_snmp = None, nc_env = None\<rparr>"
  let ?g = "\<lparr>md_id = ''frankfurt-h1-r01-srv01-gpu1'', md_type = ''gpu'', md_rack_id = ''frankfurt-h1-r01'',
      md_hall_id = ''frankfurt-h1'', md_site_id = ''frankfurt'', md_model = ''NVIDIA-H100-80GB'', md_vendor = ''NVIDIA'',
      md_parent_id = Some ''frankfurt-h1-r01-srv01''\<rparr>"
  have n: "str_of_nat 1 = ''1''" "two_digits 1 = ''01''" by code_simp+
  have "?g \<in> set (server_devices (\<lambda>s. 0) (1 / 2) ''frankfurt'' ''frankfurt-h1'' ''frankfurt-h1-r01'' 0)"
    using n by (simp add: server_devices_def has_gpus_def Let_def upt_rec)
  then have "?g \<in> set (rack_devices (\<lambda>s. 0) (1 / 2) 4 ''frankfurt'' ''frankfurt-h1'' 0)"
    using n by (auto simp: rack_devices_def Let_def intro!: bexI [of _ 0])
  then have "?g \<in> set (hall_devices (\<lambda>s. 0) (1 / 2) 4 3 ''frankfurt'' 0)"
    using n by (auto simp: hall_devices_def Let_def intro!: bexI [of _ 0])
  then have "?g \<in> set (mt_devices (mocks_topology (\<lambda>s. 0) ''frankfurt''))"
    by (auto simp: mocks_topology_def build_topology_def intro!: bexI [of _ 0])
  then have "?g \<in> set (by_type (mocks_topology (\<lambda>s. 0) ''frankfurt'') ''gpu'')"
    by (simp add: by_type_def)
  then have "told ?g GPU_XID_CODE 0 \<in> set (dcgm_told sample_mocks 0)"
    by (simp add: dcgm_told_def Let_def sample_mocks_def)
  then have g: "(''frankfurt-h1-r01-srv01-gpu1'', ''frankfurt-h1'', ''frankfurt-h1-r01'', GPU_XID_CODE, PFloat 0)
      \<in> set (dcgm_told sample_mocks 0)"
    by (simp add: told_def)
  have a: "CHR ''-'' \<notin> set ''frankfurt''" "label_safe ''frankfurt''"
    "mk_topology sample_mocks = mocks_topology (\<lambda>s. 0) ''frankfurt''"
    by simp (code_simp, simp add: sample_mocks_def)
  have b: "nc_site ?cfg \<noteq> []" "nc_mocks ?cfg = Some ''http://mocks''" "''http://mocks'' \<noteq> []"
    "nc_ipmi ?cfg = None" "nc_dcgm ?cfg = None" by simp_all
  note r = mock_telemetry_read_back [OF a b, of 0]
  show ?thesis
  proof
    from r show "snd (dcgm_poll ?cfg (mock_get_text sample_mocks 0 ''http://mocks'') 0) = None" by (elim conjE)
    from r have e: "map seen (fst (dcgm_poll ?cfg (mock_get_text sample_mocks 0 ''http://mocks'') 0)) = dcgm_told sample_mocks 0"
      by (elim conjE)
    show "(''frankfurt-h1-r01-srv01-gpu1'', ''frankfurt-h1'', ''frankfurt-h1-r01'', GPU_XID_CODE, PFloat 0) \<in>
        seen ` set (fst (dcgm_poll ?cfg (mock_get_text sample_mocks 0 ''http://mocks'') 0))"
      using g unfolding e [symmetric] set_map .
  qed
qed

text \<open>The Executor's HTTP client when its base URL is the mock service.\<close>

definition mock_http :: "real \<Rightarrow> dict list \<Rightarrow> string \<Rightarrow> string \<Rightarrow> dict \<Rightarrow> string + pyval" where
  "mock_http now action_log base url payload =
     (case fst (mock_post now action_log base url payload) of
        Inl status \<Rightarrow> Inl (''HTTP status '' @ str_of_nat status)
      | Inr body \<Rightarrow> Inr (PDict body))"

text \<open>The Executor and the mock service understand each other: a migration succeeds unless its moves are
  something else than a list, a fan adjustment whenever the recommendation has a target, a revert
  always; the service logs each request it accepts with its payload and nothing else; and none of its
  replies names a device, so that the Rollback agent compares a site-wide average with the KPIs of the
  targets after every action.\<close>

lemma executor_requests_accepted:
  assumes "xe_http env = mock_http now action_log base" "base \<noteq> []" "rstrip_slash base = base"
  shows "(\<forall>acts ok body. handle_workload_migration env (Some base) rec action_id = Inr (acts, ok, body) \<longrightarrow>
      (ok \<longleftrightarrow> \<not> truthy (get_def (rec_parameters rec) ''moves'' PNone) \<or>
         (\<exists>ms. get_def (rec_parameters rec) ''moves'' PNone = PList ms)) \<and>
      (ok \<longrightarrow> PDict (ae_response_payload event) = body \<longrightarrow> extract_devices event = [])) \<and>
    (\<forall>acts ok body. handle_fan_speed env (Some base) rec action_id = Inr (acts, ok, body) \<longrightarrow>
      (ok \<longleftrightarrow> rec_target_device_ids rec \<noteq> []) \<and>
      (ok \<longrightarrow> PDict (ae_response_payload event) = body \<longrightarrow> extract_devices event = [])) \<and>
    fst (snd (revert env (Some base) original reason)) \<and>
    (case mock_post now action_log base url payload of
       (Inl status, log') \<Rightarrow> log' = action_log
     | (Inr body, log') \<Rightarrow> \<exists>r. log' = action_log @ [r] \<and> map_of r ''payload'' = Some (PDict payload))"
proof -
  have p: "post_action env (Some base) path pl =
      ([HttpPost (base @ path) pl],
       case mock_http now action_log base (base @ path) pl of Inl exc \<Rightarrow> (False, error_payload exc) | Inr body \<Rightarrow> (True, body))" for path pl
    using assms by (simp add: post_action_def Let_def)
  have m: "mock_http now action_log base (base @ ''/actions/migrate_workload'') pl =
      (case fst (migrate_workload now pl action_log) of Inl s \<Rightarrow> Inl (''HTTP status '' @ str_of_nat s) | Inr b \<Rightarrow> Inr (PDict b))"
    "mock_http now action_log base (base @ ''/actions/fan_speed_adjust'') pl =
      (case fst (fan_speed_adjust now pl action_log) of Inl s \<Rightarrow> Inl (''HTTP status '' @ str_of_nat s) | Inr b \<Rightarrow> Inr (PDict b))"
    "mock_http now action_log base (base @ ''/actions/revert'') pl =
      (case fst (revert_action now pl action_log) of Inl s \<Rightarrow> Inl (''HTTP status '' @ str_of_nat s) | Inr b \<Rightarrow> Inr (PDict b))" for pl
    by (simp_all add: mock_http_def mock_post_def)
  show ?thesis
  proof (intro conjI allI impI)
    fix acts ok body
    assume h: "handle_workload_migration env (Some base) rec action_id = Inr (acts, ok, body)"
    let ?mv = "get_def (rec_parameters rec) ''moves'' PNone"
    show "ok \<longleftrightarrow> \<not> truthy ?mv \<or> (\<exists>ms. ?mv = PList ms)"
      using h by (cases "truthy ?mv"; cases ?mv) (auto simp: handle_workload_migration_def p m migrate_workload_def Let_def)
    assume "ok" "PDict (ae_response_payload event) = body"
    then show "extract_devices event = []"
      using h by (cases "truthy ?mv"; cases ?mv)
        (auto simp: handle_workload_migration_def p m migrate_workload_def Let_def eq_commute [of _ "ae_response_payload event"]
          extract_devices_def get_str_def)
  next
    fix acts ok body
    assume h: "handle_fan_speed env (Some base) rec action_id = Inr (acts, ok, body)"
    show "ok \<longleftrightarrow> rec_target_device_ids rec \<noteq> []"
      using h by (auto simp: handle_fan_speed_def p m fan_speed_adjust_def split: list.splits)
    assume "ok" "PDict (ae_response_payload event) = body"
    then show "extract_devices event = []"
      using h by (auto simp: handle_fan_speed_def p m fan_speed_adjust_def eq_commute [of _ "ae_response_payload event"]
          extract_devices_def get_str_def split: list.splits)
  next
    show "fst (snd (revert env (Some base) original reason))"
      by (simp add: revert_def p m revert_action_def)
  next
    show "case mock_post now action_log base url payload of
       (Inl status, log') \<Rightarrow> log' = action_log
     | (Inr body, log') \<Rightarrow> \<exists>r. log' = action_log @ [r] \<and> map_of r ''payload'' = Some (PDict payload)"
      by (auto simp: mock_post_def migrate_workload_def fan_speed_adjust_def revert_action_def Let_def
          split: pyval.splits option.splits)
  qed
qed

lemma executor_requests_accepted_witness:
  "fst (snd (revert (sample_env\<lparr>xe_http := mock_http 0 [] ''http://mocks''\<rparr>) (Some ''http://mocks'') ''a1'' ''hot''))"
proof -
  have "rstrip_slash ''http://mocks'' = ''http://mocks''" by code_simp
  then show ?thesis
    using executor_requests_accepted [of "sample_env\<lparr>xe_http := mock_http 0 [] ''http://mocks''\<rparr>" 0 "[]" "''http://mocks''"]
    by simp
qed

end
