(* ===== verification/Physics.thy ===== *)
theory Physics
  imports Prelude
begin

text \<open>
  The digital twin (\<open>apps/physics\<close>): the devices of a hall, the power and thermal models that update
  them once per tick, and the injection of failures.

  The class hierarchy is the record \<open>device\<close> with one extension per subclass, and \<open>dev\<close> is a device of
  one of them. A hall owns its devices (each object is in one list), so an update in place is an
  update of the list. A handler that raises has changed what it had changed before.
\<close>

section \<open>Entities\<close>

datatype device_state = HEALTHY | DEGRADED | FAILING | FAILED | OFFLINE

datatype failure_mode =
    MODE_NONE | GPU_ECC_RUNAWAY | GPU_THERMAL_THROTTLE | GPU_XID_43 | PSU_EFFICIENCY_DRIFT | PSU_FAIL
  | FAN_STUCK | CRAC_FAIL | SWITCH_PORT_FLAP | DISK_REALLOC_RAMP | NIC_PACKET_LOSS

fun failure_mode_value :: "failure_mode \<Rightarrow> string" where
  "failure_mode_value MODE_NONE = ''none''"
| "failure_mode_value GPU_ECC_RUNAWAY = ''gpu_ecc_runaway''"
| "failure_mode_value GPU_THERMAL_THROTTLE = ''gpu_thermal_throttle''"
| "failure_mode_value GPU_XID_43 = ''gpu_xid_43''"
| "failure_mode_value PSU_EFFICIENCY_DRIFT = ''psu_efficiency_drift''"
| "failure_mode_value PSU_FAIL = ''psu_fail''"
| "failure_mode_value FAN_STUCK = ''fan_stuck''"
| "failure_mode_value CRAC_FAIL = ''crac_fail''"
| "failure_mode_value SWITCH_PORT_FLAP = ''switch_port_flap''"
| "failure_mode_value DISK_REALLOC_RAMP = ''disk_realloc_ramp''"
| "failure_mode_value NIC_PACKET_LOSS = ''nic_packet_loss''"

definition failure_modes :: "failure_mode list" where
  "failure_modes = [MODE_NONE, GPU_ECC_RUNAWAY, GPU_THERMAL_THROTTLE, GPU_XID_43, PSU_EFFICIENCY_DRIFT, PSU_FAIL,
     FAN_STUCK, CRAC_FAIL, SWITCH_PORT_FLAP, DISK_REALLOC_RAMP, NIC_PACKET_LOSS]"

definition failure_mode_of :: "string \<Rightarrow> failure_mode option" where
  "failure_mode_of s = find (\<lambda>m. failure_mode_value m = s) failure_modes"

record device =
  dv_id :: string
  dv_type :: string
  dv_model :: string
  dv_vendor :: string
  dv_rack_id :: string
  dv_state :: device_state
  dv_failure_mode :: failure_mode
  dv_inlet_temp_c :: real
  dv_outlet_temp_c :: real
  dv_power_draw_w :: real
  dv_rated_power_w :: real
  dv_metadata :: dict

record server = device +
  sr_cpu_util_percent :: real
  sr_cpu_temp_c :: real
  sr_mem_used_bytes :: int
  sr_mem_total_bytes :: int
  sr_fan_rpm :: int
  sr_psu_efficiency_percent :: real

record gpu = device +
  gp_parent_server_id :: string
  gp_temp_c :: real
  gp_util_percent :: real
  gp_mem_used_bytes :: int
  gp_mem_total_bytes :: int
  gp_ecc_correctable_count :: int
  gp_ecc_uncorrectable_count :: int
  gp_last_xid_code :: "int option"

record switch = device +
  sw_port_count :: int
  sw_port_up_count :: int
  sw_bps_in :: int
  sw_bps_out :: int
  sw_err_in_count :: int

record pdu = device +
  pd_load_percent :: real
  pd_capacity_w :: real
  pd_powered_device_ids :: "string list"

record crac_unit = device +
  cr_hall_id_serves :: string
  cr_supply_temp_c :: real
  cr_return_temp_c :: real
  cr_fan_percent :: real
  cr_capacity_kw :: real

datatype dev = Server server | Gpu gpu | Switch switch | Pdu pdu | Crac crac_unit

record twin_rack =
  rk_id :: string
  rk_hall_id :: string
  rk_position :: "int \<times> int"
  rk_capacity_u :: int
  rk_devices :: "dev list"

record data_hall =
  hl_id :: string
  hl_site_id :: string
  hl_capacity_kw :: real
  hl_racks :: "twin_rack list"
  hl_crac_units :: "crac_unit list"
  hl_ambient_inlet_c :: real

text \<open>The defaults of the base class's fields.\<close>

definition new_device :: "string \<Rightarrow> string \<Rightarrow> string \<Rightarrow> string \<Rightarrow> string \<Rightarrow> real \<Rightarrow> device" where
  "new_device device_id kind model vendor rack_id rated =
     \<lparr>dv_id = device_id, dv_type = kind, dv_model = model, dv_vendor = vendor, dv_rack_id = rack_id, dv_state = HEALTHY,
      dv_failure_mode = MODE_NONE, dv_inlet_temp_c = 22, dv_outlet_temp_c = 30, dv_power_draw_w = 0,
      dv_rated_power_w = rated, dv_metadata = []\<rparr>"

text \<open>The attributes every device has.\<close>

fun dev_base :: "dev \<Rightarrow> device" where
  "dev_base (Server s) = device.truncate s"
| "dev_base (Gpu g) = device.truncate g"
| "dev_base (Switch s) = device.truncate s"
| "dev_base (Pdu p) = device.truncate p"
| "dev_base (Crac c) = device.truncate c"

abbreviation dev_id :: "dev \<Rightarrow> string" where "dev_id d \<equiv> dv_id (dev_base d)"
abbreviation dev_power :: "dev \<Rightarrow> real" where "dev_power d \<equiv> dv_power_draw_w (dev_base d)"

fun set_state :: "device_state \<Rightarrow> dev \<Rightarrow> dev" where
  "set_state st (Server s) = Server (s\<lparr>dv_state := st\<rparr>)"
| "set_state st (Gpu g) = Gpu (g\<lparr>dv_state := st\<rparr>)"
| "set_state st (Switch s) = Switch (s\<lparr>dv_state := st\<rparr>)"
| "set_state st (Pdu p) = Pdu (p\<lparr>dv_state := st\<rparr>)"
| "set_state st (Crac c) = Crac (c\<lparr>dv_state := st\<rparr>)"

fun set_mode :: "failure_mode \<Rightarrow> dev \<Rightarrow> dev" where
  "set_mode m (Server s) = Server (s\<lparr>dv_failure_mode := m\<rparr>)"
| "set_mode m (Gpu g) = Gpu (g\<lparr>dv_failure_mode := m\<rparr>)"
| "set_mode m (Switch s) = Switch (s\<lparr>dv_failure_mode := m\<rparr>)"
| "set_mode m (Pdu p) = Pdu (p\<lparr>dv_failure_mode := m\<rparr>)"
| "set_mode m (Crac c) = Crac (c\<lparr>dv_failure_mode := m\<rparr>)"

fun set_air :: "real \<Rightarrow> real \<Rightarrow> dev \<Rightarrow> dev" where
  "set_air i out (Server s) = Server (s\<lparr>dv_inlet_temp_c := i, dv_outlet_temp_c := out\<rparr>)"
| "set_air i out (Gpu g) = Gpu (g\<lparr>dv_inlet_temp_c := i, dv_outlet_temp_c := out\<rparr>)"
| "set_air i out (Switch s) = Switch (s\<lparr>dv_inlet_temp_c := i, dv_outlet_temp_c := out\<rparr>)"
| "set_air i out (Pdu p) = Pdu (p\<lparr>dv_inlet_temp_c := i, dv_outlet_temp_c := out\<rparr>)"
| "set_air i out (Crac c) = Crac (c\<lparr>dv_inlet_temp_c := i, dv_outlet_temp_c := out\<rparr>)"

definition rack_dev_list :: "data_hall \<Rightarrow> dev list" where
  "rack_dev_list hall = concat (map rk_devices (hl_racks hall))"

definition map_devices :: "(dev \<Rightarrow> dev) \<Rightarrow> data_hall \<Rightarrow> data_hall" where
  "map_devices f hall = hall\<lparr>hl_racks := map (\<lambda>r. r\<lparr>rk_devices := map f (rk_devices r)\<rparr>) (hl_racks hall)\<rparr>"

section \<open>Power\<close>

definition server_draw :: "server \<Rightarrow> real" where
  "server_draw s =
     (let cpu_load_fraction = sr_cpu_util_percent s / 100;
          dc_draw = 4 / 10 * dv_rated_power_w s + 6 / 10 * dv_rated_power_w s * cpu_load_fraction
      in dc_draw / max (1 / 2) (sr_psu_efficiency_percent s / 100))"

definition gpu_draw :: "gpu \<Rightarrow> real" where
  "gpu_draw g = 15 / 100 * dv_rated_power_w g + 85 / 100 * dv_rated_power_w g * (gp_util_percent g / 100)"

fun own_draw :: "dev \<Rightarrow> dev" where
  "own_draw (Server s) = Server (s\<lparr>dv_power_draw_w := server_draw s\<rparr>)"
| "own_draw (Gpu g) = Gpu (g\<lparr>dv_power_draw_w := gpu_draw g\<rparr>)"
| "own_draw (Crac c) = Crac (c\<lparr>dv_power_draw_w := dv_rated_power_w c * (cr_fan_percent c / 100) ^ 2\<rparr>)"
| "own_draw d = d"

text \<open>\<open>powered_index[k]\<close>: the draws of the devices the PDUs of that id power.\<close>

definition powered_index :: "dev list \<Rightarrow> string \<Rightarrow> real list" where
  "powered_index devices k =
     (let pdus = List.map_filter (\<lambda>d. case d of Pdu p \<Rightarrow> Some p | _ \<Rightarrow> None) devices
      in concat (map (\<lambda>d. map (\<lambda>p. dev_power d) (filter (\<lambda>p. dv_id p = k \<and> dev_id d \<in> set (pd_powered_device_ids p)) pdus)) devices))"

fun pdu_load :: "dev list \<Rightarrow> dev \<Rightarrow> dev" where
  "pdu_load devices (Pdu p) =
     Pdu (p\<lparr>pd_load_percent :=
       min 100 (if pd_capacity_w p \<noteq> 0 then sum_list (powered_index devices (dv_id p)) / pd_capacity_w p * 100 else 0)\<rparr>)"
| "pdu_load devices d = d"

definition compute_power_draw :: "data_hall \<Rightarrow> data_hall" where
  "compute_power_draw hall =
     (let drawn = map_devices own_draw hall in map_devices (pdu_load (rack_dev_list drawn)) drawn)"

section \<open>Air\<close>

definition HEAT_RECIRCULATION_FACTOR :: real where "HEAT_RECIRCULATION_FACTOR = 15 / 100"
definition DEVICE_DELTA_T_PER_KW :: real where "DEVICE_DELTA_T_PER_KW = 8"
definition AMBIENT_CEILING_C :: real where "AMBIENT_CEILING_C = 45"

definition delta_t_for_device :: "dev \<Rightarrow> real" where
  "delta_t_for_device d = 4 + dev_power d / 1000 * DEVICE_DELTA_T_PER_KW * (1 / 4)"

definition rack_delta_t :: "twin_rack \<Rightarrow> real" where
  "rack_delta_t r =
     sum_list (map dev_power (rk_devices r)) / 1000 * DEVICE_DELTA_T_PER_KW / real (max 1 (length (rk_devices r)))"

definition update_rack :: "real \<Rightarrow> twin_rack \<Rightarrow> twin_rack" where
  "update_rack base_inlet_c r =
     (let inlet = base_inlet_c + HEAT_RECIRCULATION_FACTOR * rack_delta_t r
      in r\<lparr>rk_devices := map (\<lambda>d. set_air inlet (inlet + delta_t_for_device d) d) (rk_devices r)\<rparr>)"

definition base_inlet :: "data_hall \<Rightarrow> real" where
  "base_inlet hall =
     (let total_heat_kw = sum_list (map dev_power (rack_dev_list hall)) / 1000;
          cooling_capacity_kw = sum_list (map (\<lambda>c. cr_capacity_kw c * (cr_fan_percent c / 100)) (hl_crac_units hall));
          cooling_deficit_kw = max 0 (total_heat_kw - cooling_capacity_kw);
          extra_c = min (AMBIENT_CEILING_C - hl_ambient_inlet_c hall) (cooling_deficit_kw * (4 / 10))
      in hl_ambient_inlet_c hall + extra_c)"

definition compute_thermal_state :: "data_hall \<Rightarrow> data_hall" where
  "compute_thermal_state hall = hall\<lparr>hl_racks := map (update_rack (base_inlet hall)) (hl_racks hall)\<rparr>"

section \<open>Failures\<close>

text \<open>The first device with the id, in the racks, then among the CRAC units; where it is.\<close>

fun find_rack_pos :: "twin_rack list \<Rightarrow> string \<Rightarrow> (nat \<times> nat \<times> dev) option" where
  "find_rack_pos [] device_id = None"
| "find_rack_pos (r # rs) device_id =
     (case find (\<lambda>i. dev_id (rk_devices r ! i) = device_id) [0..<length (rk_devices r)] of
        Some i \<Rightarrow> Some (0, i, rk_devices r ! i)
      | None \<Rightarrow> map_option (\<lambda>(k, i, d). (Suc k, i, d)) (find_rack_pos rs device_id))"

datatype place = InRack nat nat | AtCrac nat

definition find_device :: "data_hall \<Rightarrow> string \<Rightarrow> (place \<times> dev) option" where
  "find_device hall device_id =
     (case find_rack_pos (hl_racks hall) device_id of
        Some (k, i, d) \<Rightarrow> Some (InRack k i, d)
      | None \<Rightarrow>
          map_option (\<lambda>i. (AtCrac i, Crac (hl_crac_units hall ! i)))
            (find (\<lambda>i. dv_id (hl_crac_units hall ! i) = device_id) [0..<length (hl_crac_units hall)]))"

fun put_device :: "data_hall \<Rightarrow> place \<Rightarrow> dev \<Rightarrow> data_hall" where
  "put_device hall (InRack k i) d =
     (let r = hl_racks hall ! k in hall\<lparr>hl_racks := (hl_racks hall)[k := r\<lparr>rk_devices := (rk_devices r)[i := d]\<rparr>]\<rparr>)"
| "put_device hall (AtCrac i) d =
     (case d of Crac c \<Rightarrow> hall\<lparr>hl_crac_units := (hl_crac_units hall)[i := c]\<rparr> | _ \<Rightarrow> hall)"

type_synonym injector = "dev \<Rightarrow> dev \<times> py_error option"

definition for_gpu :: "string \<Rightarrow> (gpu \<Rightarrow> gpu) \<Rightarrow> injector" where
  "for_gpu name f d =
     (case d of Gpu g \<Rightarrow> (Gpu (f g), None) | _ \<Rightarrow> (d, Some (TypeError (name @ '' requires a GPU device''))))"

definition for_server :: "string \<Rightarrow> (server \<Rightarrow> server) \<Rightarrow> injector" where
  "for_server name f d =
     (case d of Server s \<Rightarrow> (Server (f s), None) | _ \<Rightarrow> (d, Some (TypeError (name @ '' requires a Server device''))))"

definition gpu_ecc_runaway :: injector where
  "gpu_ecc_runaway = for_gpu ''GPU_ECC_RUNAWAY'' (\<lambda>g. g\<lparr>dv_state := FAILING,
     gp_ecc_correctable_count := gp_ecc_correctable_count g + 50000,
     gp_ecc_uncorrectable_count := gp_ecc_uncorrectable_count g + 5, gp_temp_c := gp_temp_c g + 8\<rparr>)"

definition gpu_thermal_throttle :: injector where
  "gpu_thermal_throttle = for_gpu ''GPU_THERMAL_THROTTLE'' (\<lambda>g. g\<lparr>dv_state := DEGRADED, gp_temp_c := 92,
     gp_util_percent := max 0 (gp_util_percent g - 30)\<rparr>)"

definition gpu_xid_43 :: injector where
  "gpu_xid_43 = for_gpu ''GPU_XID_43'' (\<lambda>g. g\<lparr>dv_state := FAILING, gp_last_xid_code := Some 43\<rparr>)"

definition psu_efficiency_drift :: injector where
  "psu_efficiency_drift = for_server ''PSU_EFFICIENCY_DRIFT'' (\<lambda>s. s\<lparr>dv_state := DEGRADED,
     sr_psu_efficiency_percent := max 70 (sr_psu_efficiency_percent s - 12)\<rparr>)"

definition psu_fail :: injector where
  "psu_fail = for_server ''PSU_FAIL'' (\<lambda>s. s\<lparr>dv_state := FAILED, dv_power_draw_w := 0\<rparr>)"

definition fan_stuck :: injector where
  "fan_stuck = for_server ''FAN_STUCK'' (\<lambda>s. s\<lparr>dv_state := DEGRADED, sr_fan_rpm := 0, sr_cpu_temp_c := sr_cpu_temp_c s + 12\<rparr>)"

definition crac_fail :: injector where
  "crac_fail d =
     (case d of Crac c \<Rightarrow> (Crac (c\<lparr>dv_state := FAILED, cr_fan_percent := 0\<rparr>), None)
      | _ \<Rightarrow> (d, Some (TypeError ''CRAC_FAIL requires a CRACUnit device'')))"

definition switch_port_flap :: injector where
  "switch_port_flap d =
     (case d of
        Switch s \<Rightarrow> (Switch (s\<lparr>dv_state := DEGRADED, sw_port_up_count := max 0 (sw_port_up_count s - 4),
                        sw_err_in_count := sw_err_in_count s + 10000\<rparr>), None)
      | _ \<Rightarrow> (d, Some (TypeError ''SWITCH_PORT_FLAP requires a Switch device'')))"

definition disk_realloc_ramp :: injector where
  "disk_realloc_ramp d =
     (case d of
        Server s0 \<Rightarrow>
          let s = s0\<lparr>dv_state := DEGRADED\<rparr>
          in (case py_int (get_def (dv_metadata s) ''disk_reallocated_sectors'' (PInt 0)) of
                Inl e \<Rightarrow> (Server s, Some e)
              | Inr n \<Rightarrow>
                  (Server (s\<lparr>dv_metadata := AList.update ''disk_reallocated_sectors'' (PInt (n + 500)) (dv_metadata s)\<rparr>), None))
      | _ \<Rightarrow> (d, Some (TypeError ''DISK_REALLOC_RAMP requires a Server device'')))"

definition nic_packet_loss :: injector where
  "nic_packet_loss = for_server ''NIC_PACKET_LOSS'' (\<lambda>s. s\<lparr>dv_state := DEGRADED,
     dv_metadata := AList.update ''nic_drop_rate'' (PFloat (5 / 100)) (dv_metadata s)\<rparr>)"

definition pdu_overload :: injector where
  "pdu_overload d =
     (case d of Pdu p \<Rightarrow> (Pdu (p\<lparr>dv_state := DEGRADED, pd_load_percent := 95\<rparr>), None)
      | _ \<Rightarrow> (d, Some (TypeError ''PDU overload requires a PDU device'')))"

fun INJECT_HANDLERS :: "failure_mode \<Rightarrow> injector option" where
  "INJECT_HANDLERS GPU_ECC_RUNAWAY = Some gpu_ecc_runaway"
| "INJECT_HANDLERS GPU_THERMAL_THROTTLE = Some gpu_thermal_throttle"
| "INJECT_HANDLERS GPU_XID_43 = Some gpu_xid_43"
| "INJECT_HANDLERS PSU_EFFICIENCY_DRIFT = Some psu_efficiency_drift"
| "INJECT_HANDLERS PSU_FAIL = Some psu_fail"
| "INJECT_HANDLERS FAN_STUCK = Some fan_stuck"
| "INJECT_HANDLERS CRAC_FAIL = Some crac_fail"
| "INJECT_HANDLERS SWITCH_PORT_FLAP = Some switch_port_flap"
| "INJECT_HANDLERS DISK_REALLOC_RAMP = Some disk_realloc_ramp"
| "INJECT_HANDLERS NIC_PACKET_LOSS = Some nic_packet_loss"
| "INJECT_HANDLERS MODE_NONE = None"

definition inject :: "data_hall \<Rightarrow> string \<Rightarrow> failure_mode \<Rightarrow> dev res \<times> data_hall" where
  "inject hall device_id mode =
     (case find_device hall device_id of
        None \<Rightarrow> (Inl (LookupError (''Device '' @ device_id @ '' not found in hall '' @ hl_id hall)), hall)
      | Some (pl, d) \<Rightarrow>
          (case INJECT_HANDLERS mode of
             None \<Rightarrow> (Inl (NotImplementedError (''No injector handler for '' @ failure_mode_value mode)), hall)
           | Some handler \<Rightarrow>
               (case handler d of
                  (d1, Some e) \<Rightarrow> (Inl e, put_device hall pl d1)
                | (d1, None) \<Rightarrow> (Inr (set_mode mode d1), put_device hall pl (set_mode mode d1)))))"

definition clear_failure :: "data_hall \<Rightarrow> string \<Rightarrow> dev res \<times> data_hall" where
  "clear_failure hall device_id =
     (case find_device hall device_id of
        None \<Rightarrow> (Inl (LookupError (''Device '' @ device_id @ '' not found in hall '' @ hl_id hall)), hall)
      | Some (pl, d) \<Rightarrow>
          let d1 = set_mode MODE_NONE (set_state HEALTHY d) in (Inr d1, put_device hall pl d1))"

section \<open>Workloads\<close>

datatype workload_tier = PRODUCTION_CRITICAL | PRODUCTION_STANDARD | BATCH | DEV

fun workload_tier_value :: "workload_tier \<Rightarrow> string" where
  "workload_tier_value PRODUCTION_CRITICAL = ''production_critical''"
| "workload_tier_value PRODUCTION_STANDARD = ''production_standard''"
| "workload_tier_value BATCH = ''batch''"
| "workload_tier_value DEV = ''dev''"

record twin_workload =
  tw_id :: string
  tw_name :: string
  tw_tier :: workload_tier
  tw_owner :: string
  tw_placed_on_device_ids :: "string list"
  tw_requested_cpu_cores :: real
  tw_requested_mem_bytes :: int
  tw_requested_gpu_count :: int
  tw_requested_power_w :: real
  tw_anti_affinity_group :: "string option"

section \<open>Lemmas\<close>

lemma base_simps [simp]:
  "dv_id (dev_base (set_state st d)) = dev_id d" "dv_id (dev_base (set_mode m d)) = dev_id d"
  "dv_failure_mode (dev_base (set_mode m d)) = m" "dv_state (dev_base (set_mode m d)) = dv_state (dev_base d)"
  "dv_state (dev_base (set_state st d)) = st"
  "dv_id (dev_base (set_air i out d)) = dev_id d" "dv_power_draw_w (dev_base (set_air i out d)) = dev_power d"
  "dv_inlet_temp_c (dev_base (set_air i out d)) = i" "dv_outlet_temp_c (dev_base (set_air i out d)) = out"
  "dv_id (dev_base (own_draw d)) = dev_id d" "dv_id (dev_base (pdu_load ds d)) = dev_id d"
  "dv_power_draw_w (dev_base (pdu_load ds d)) = dev_power d"
  by (cases d; simp add: device.defs)+

lemma rack_dev_list_map [simp]: "rack_dev_list (map_devices f hall) = map f (rack_dev_list hall)"
  by (simp add: rack_dev_list_def map_devices_def map_concat comp_def)

lemma map_devices_map_devices: "map_devices f (map_devices g hall) = map_devices (f \<circ> g) hall"
  by (simp add: map_devices_def comp_def)

lemma find_rack_pos_Some:
  "find_rack_pos rs x = Some (k, i, d) \<Longrightarrow> k < length rs \<and> i < length (rk_devices (rs ! k)) \<and>
    d = rk_devices (rs ! k) ! i \<and> dev_id d = x"
proof (induction rs arbitrary: k)
  case (Cons r rs)
  show ?case
  proof (cases "find (\<lambda>i. dev_id (rk_devices r ! i) = x) [0..<length (rk_devices r)]")
    case None
    with Cons.prems obtain k0 where "k = Suc k0" "find_rack_pos rs x = Some (k0, i, d)" by auto
    with Cons.IH show ?thesis by auto
  next
    case (Some j)
    with Cons.prems show ?thesis by (auto simp: find_Some_iff)
  qed
qed simp

lemma find_index_None: "find (\<lambda>i. P (xs ! i)) [0..<length xs] = None \<longleftrightarrow> (\<forall>x \<in> set xs. \<not> P x)"
  by (simp add: find_None_iff all_set_conv_all_nth)

lemma find_rack_pos_None: "find_rack_pos rs x = None \<longleftrightarrow> (\<forall>r \<in> set rs. \<forall>d \<in> set (rk_devices r). dev_id d \<noteq> x)"
proof (induction rs)
  case (Cons r rs)
  have "find (\<lambda>i. dev_id (rk_devices r ! i) = x) [0..<length (rk_devices r)] = None \<longleftrightarrow>
      (\<forall>d \<in> set (rk_devices r). dev_id d \<noteq> x)"
    by (rule find_index_None)
  with Cons.IH show ?case by (auto split: option.splits)
qed simp

text \<open>The devices and the units of a hall.\<close>

definition hall_ids :: "data_hall \<Rightarrow> string set" where
  "hall_ids hall = dev_id ` set (rack_dev_list hall) \<union> dv_id ` set (hl_crac_units hall)"

definition valid_place :: "data_hall \<Rightarrow> place \<Rightarrow> dev \<Rightarrow> bool" where
  "valid_place hall pl d \<longleftrightarrow>
     (case pl of
        InRack k i \<Rightarrow> k < length (hl_racks hall) \<and> i < length (rk_devices (hl_racks hall ! k)) \<and> d = rk_devices (hl_racks hall ! k) ! i
      | AtCrac i \<Rightarrow> i < length (hl_crac_units hall) \<and> d = Crac (hl_crac_units hall ! i))"

lemma find_device_Some: "find_device hall x = Some (pl, d) \<Longrightarrow> valid_place hall pl d \<and> dev_id d = x"
  by (auto simp: find_device_def valid_place_def find_Some_iff device.defs
      dest!: find_rack_pos_Some split: option.splits)

lemma find_device_None: "find_device hall x = None \<longleftrightarrow> x \<notin> hall_ids hall"
proof -
  have "find (\<lambda>i. dv_id (hl_crac_units hall ! i) = x) [0..<length (hl_crac_units hall)] = None \<longleftrightarrow>
      x \<notin> dv_id ` set (hl_crac_units hall)"
    by (subst find_index_None) auto
  then show ?thesis
    using find_rack_pos_None [of "hl_racks hall" x]
    by (auto simp: find_device_def hall_ids_def rack_dev_list_def split: option.splits)
qed

lemma put_same: "valid_place hall pl d \<Longrightarrow> put_device hall pl d = hall"
  by (cases pl) (auto simp: valid_place_def Let_def)

text \<open>What a mode can be applied to.\<close>

fun mode_applies :: "failure_mode \<Rightarrow> dev \<Rightarrow> bool" where
  "mode_applies m (Gpu g) \<longleftrightarrow> m \<in> {GPU_ECC_RUNAWAY, GPU_THERMAL_THROTTLE, GPU_XID_43}"
| "mode_applies m (Server s) \<longleftrightarrow> m \<in> {PSU_EFFICIENCY_DRIFT, PSU_FAIL, FAN_STUCK, DISK_REALLOC_RAMP, NIC_PACKET_LOSS}"
| "mode_applies m (Crac c) \<longleftrightarrow> m = CRAC_FAIL"
| "mode_applies m (Switch s) \<longleftrightarrow> m = SWITCH_PORT_FLAP"
| "mode_applies m (Pdu p) \<longleftrightarrow> False"

lemmas injector_defs = gpu_ecc_runaway_def gpu_thermal_throttle_def gpu_xid_43_def psu_efficiency_drift_def psu_fail_def
  fan_stuck_def crac_fail_def switch_port_flap_def disk_realloc_ramp_def nic_packet_loss_def for_gpu_def for_server_def

lemma handler_applies:
  assumes "INJECT_HANDLERS mode = Some h" "mode_applies mode d"
    and "mode = DISK_REALLOC_RAMP \<Longrightarrow> \<exists>n. py_int (get_def (dv_metadata (dev_base d)) ''disk_reallocated_sectors'' (PInt 0)) = Inr n"
  shows "\<exists>d1. h d = (d1, None) \<and> dev_id d1 = dev_id d \<and> dv_state (dev_base d1) \<noteq> HEALTHY"
  using assms by (cases d; cases mode) (auto simp: injector_defs device.defs Let_def)

lemma handler_refuses:
  assumes "INJECT_HANDLERS mode = Some h" "\<not> mode_applies mode d"
  shows "\<exists>t. h d = (d, Some (TypeError t))"
  using assms by (cases d; cases mode) (auto simp: injector_defs)


text \<open>What is found is what was put there.\<close>

fun same_kind :: "dev \<Rightarrow> dev \<Rightarrow> bool" where
  "same_kind (Server s) d \<longleftrightarrow> (\<exists>s1. d = Server s1)"
| "same_kind (Gpu g) d \<longleftrightarrow> (\<exists>g1. d = Gpu g1)"
| "same_kind (Switch s) d \<longleftrightarrow> (\<exists>s1. d = Switch s1)"
| "same_kind (Pdu p) d \<longleftrightarrow> (\<exists>p1. d = Pdu p1)"
| "same_kind (Crac c) d \<longleftrightarrow> (\<exists>c1. d = Crac c1)"

lemma find_index_upd:
  assumes "find (\<lambda>i. f (xs ! i) = y) [0..<length xs] = Some i" "f x1 = y"
  shows "find (\<lambda>j. f (xs[i := x1] ! j) = y) [0..<length xs] = Some i"
  using assms by (auto simp: find_Some_iff nth_list_update)

lemma find_rack_pos_put:
  assumes "find_rack_pos rs x = Some (k, i, d)" "dev_id d1 = x"
  shows "find_rack_pos (rs[k := (rs ! k)\<lparr>rk_devices := (rk_devices (rs ! k))[i := d1]\<rparr>]) x = Some (k, i, d1)"
  using assms(1)
proof (induction rs arbitrary: k)
  case (Cons r rs)
  show ?case
  proof (cases "find (\<lambda>i. dev_id (rk_devices r ! i) = x) [0..<length (rk_devices r)]")
    case None
    with Cons.prems obtain k0 where k: "k = Suc k0" and f: "find_rack_pos rs x = Some (k0, i, d)" by auto
    from Cons.IH [OF f] None k show ?thesis by simp
  next
    case (Some j)
    with Cons.prems have e: "k = 0" "j = i" "i < length (rk_devices r)" by (auto simp: find_Some_iff)
    have "find (\<lambda>j. dev_id ((rk_devices r)[i := d1] ! j) = x) [0..<length (rk_devices r)] = Some i"
      using Some e(2) assms(2) by (intro find_index_upd) simp_all
    with e show ?thesis by simp
  qed
qed simp

lemma find_device_put:
  assumes "find_device hall x = Some (pl, d)" "dev_id d1 = x" "same_kind d d1"
  shows "find_device (put_device hall pl d1) x = Some (pl, d1)"
proof (cases "find_rack_pos (hl_racks hall) x")
  case (Some a)
  obtain k i d0 where a: "a = (k, i, d0)" by (cases a)
  with Some assms(1) have e: "pl = InRack k i" "d0 = d" by (auto simp: find_device_def)
  have "find_rack_pos (hl_racks (put_device hall pl d1)) x = Some (k, i, d1)"
    using find_rack_pos_put [of "hl_racks hall" x k i d d1] Some a e assms(2) by (simp add: Let_def)
  then show ?thesis by (simp add: find_device_def e)
next
  case None
  with assms(1) obtain i where i: "pl = AtCrac i" "d = Crac (hl_crac_units hall ! i)"
      "find (\<lambda>i. dv_id (hl_crac_units hall ! i) = x) [0..<length (hl_crac_units hall)] = Some i"
    by (auto simp: find_device_def)
  with assms(3) obtain c1 where c: "d1 = Crac c1" by auto
  have "dv_id c1 = x" using assms(2) c by (simp add: device.defs)
  with i(3) have "find (\<lambda>j. dv_id ((hl_crac_units hall)[i := c1] ! j) = x) [0..<length (hl_crac_units hall)] = Some i"
    by (rule find_index_upd)
  moreover have "i < length (hl_crac_units hall)" using i(3) by (auto simp: find_Some_iff)
  ultimately show ?thesis using None i(1) c by (simp add: find_device_def)
qed

lemma same_kind_base [simp]: "same_kind d (set_mode m d1) = same_kind d d1" "same_kind d (set_state st d1) = same_kind d d1"
  by (cases d; cases d1; simp)+


text \<open>The error of \<open>int()\<close> on the metadata, raised after the state has been set.\<close>

definition sectors_error :: "failure_mode \<Rightarrow> dev \<Rightarrow> py_error option" where
  "sectors_error mode d =
     (if mode = DISK_REALLOC_RAMP
      then (case py_int (get_def (dv_metadata (dev_base d)) ''disk_reallocated_sectors'' (PInt 0)) of
              Inl e \<Rightarrow> Some e | Inr n \<Rightarrow> None)
      else None)"

lemma handler_cases:
  assumes "INJECT_HANDLERS mode = Some h" "mode_applies mode d"
  shows "case sectors_error mode d of
           Some e \<Rightarrow> h d = (set_state DEGRADED d, Some e)
         | None \<Rightarrow> \<exists>d1. h d = (d1, None) \<and> dev_id d1 = dev_id d \<and> same_kind d d1 \<and> dv_state (dev_base d1) \<noteq> HEALTHY"
  using assms by (cases d; cases mode) (auto simp: injector_defs device.defs Let_def sectors_error_def split: sum.splits)

lemma handlers_total: "mode \<noteq> MODE_NONE \<longleftrightarrow> (\<exists>h. INJECT_HANDLERS mode = Some h)"
  by (cases mode) auto


text \<open>\<open>clear\<close> resets the state and the mode, nothing else.\<close>

definition unmarked :: "dev \<Rightarrow> dev" where
  "unmarked d = set_mode MODE_NONE (set_state HEALTHY d)"

text \<open>Clearing a failure does not undo it: on a device whose mode was injected, \<open>clear\<close> answers a
  healthy device without a mode, and apart from these two marks the device is the one the handler
  left: the counters, temperatures, fan speeds and efficiencies it set stay as they are.\<close>

lemma clear_keeps_the_damage:
  assumes "find_device hall x = Some (pl, d)" and "INJECT_HANDLERS mode = Some h" and "h d = (d1, None)"
    and "inject hall x mode = (r, hall1)" and "clear_failure hall1 x = (r2, hall2)"
  shows "r2 = Inr (unmarked d1) \<and> hall2 = put_device hall1 pl (unmarked d1) \<and>
    dv_state (dev_base (unmarked d1)) = HEALTHY \<and> dv_failure_mode (dev_base (unmarked d1)) = MODE_NONE"
proof -
  from find_device_Some [OF assms(1)] have x: "dev_id d = x" by simp
  have "mode_applies mode d" using handler_refuses [OF assms(2), of d] assms(3) by (cases "mode_applies mode d") auto
  from handler_cases [OF assms(2) this] assms(3) have k: "dev_id d1 = dev_id d" "same_kind d d1"
    by (auto split: option.splits)
  from assms(1-4) have h1: "hall1 = put_device hall pl (set_mode mode d1)" by (auto simp: inject_def)
  have "find_device hall1 x = Some (pl, set_mode mode d1)"
    unfolding h1 using assms(1) k x by (intro find_device_put) simp_all
  moreover have "set_mode MODE_NONE (set_state HEALTHY (set_mode mode d1)) = unmarked d1"
    by (cases d1) (simp_all add: unmarked_def)
  moreover have "dv_state (dev_base (unmarked d1)) = HEALTHY" "dv_failure_mode (dev_base (unmarked d1)) = MODE_NONE"
    by (simp_all add: unmarked_def)
  ultimately show ?thesis using assms(5) by (simp add: clear_failure_def Let_def)
qed

definition sample_crac :: crac_unit where
  "sample_crac = device.extend (new_device ''c1'' ''crac'' ''m'' ''v'' [] 8000)
     (crac_unit.fields ''h1'' 18 27 60 80)"

definition sample_hall :: data_hall where
  "sample_hall = \<lparr>hl_id = ''h1'', hl_site_id = ''s'', hl_capacity_kw = 400, hl_racks = [],
     hl_crac_units = [sample_crac], hl_ambient_inlet_c = 22\<rparr>"

lemma clear_keeps_the_damage_witness:
  "\<exists>hall1 d1 hall2. clear_failure hall1 ''c1'' = (Inr (unmarked (Crac d1)), hall2) \<and> cr_fan_percent d1 = 0 \<and>
     hall1 = snd (inject sample_hall ''c1'' CRAC_FAIL)"
proof -
  let ?d1 = "sample_crac\<lparr>dv_state := FAILED, cr_fan_percent := 0\<rparr>"
  have f: "find_device sample_hall ''c1'' = Some (AtCrac 0, Crac sample_crac)"
    by (simp add: find_device_def sample_hall_def sample_crac_def new_device_def device.defs crac_unit.defs)
  obtain r hall1 where i: "inject sample_hall ''c1'' CRAC_FAIL = (r, hall1)" by (meson prod.exhaust)
  obtain r2 hall2 where c: "clear_failure hall1 ''c1'' = (r2, hall2)" by (meson prod.exhaust)
  have h: "INJECT_HANDLERS CRAC_FAIL = Some crac_fail" by simp
  have d: "crac_fail (Crac sample_crac) = (Crac ?d1, None)" by (simp add: crac_fail_def)
  from clear_keeps_the_damage [OF f h d i c] c have "clear_failure hall1 ''c1'' = (Inr (unmarked (Crac ?d1)), hall2)" by simp
  moreover have "cr_fan_percent ?d1 = 0" by simp
  ultimately show ?thesis using i by (metis snd_conv)
qed


section \<open>The twin over time\<close>

text \<open>What the twin keeps of a device and of a hall.\<close>

fun device_ok :: "dev \<Rightarrow> bool" where
  "device_ok (Server s) \<longleftrightarrow> 0 \<le> dv_power_draw_w s \<and> 0 \<le> dv_rated_power_w s \<and> 0 \<le> sr_cpu_util_percent s"
| "device_ok (Gpu g) \<longleftrightarrow> 0 \<le> dv_power_draw_w g \<and> 0 \<le> dv_rated_power_w g \<and> 0 \<le> gp_util_percent g"
| "device_ok (Switch s) \<longleftrightarrow> 0 \<le> dv_power_draw_w s"
| "device_ok (Pdu p) \<longleftrightarrow> 0 \<le> dv_power_draw_w p \<and> 0 \<le> pd_capacity_w p"
| "device_ok (Crac c) \<longleftrightarrow> 0 \<le> dv_power_draw_w c \<and> 0 \<le> dv_rated_power_w c"

definition hall_ok :: "data_hall \<Rightarrow> bool" where
  "hall_ok hall \<longleftrightarrow> (\<forall>d \<in> set (rack_dev_list hall). device_ok d) \<and> hl_ambient_inlet_c hall \<le> AMBIENT_CEILING_C"

fun load_ok :: "dev \<Rightarrow> bool" where
  "load_ok (Pdu p) \<longleftrightarrow> 0 \<le> pd_load_percent p \<and> pd_load_percent p \<le> 100"
| "load_ok d \<longleftrightarrow> True"

definition air_ok :: "data_hall \<Rightarrow> dev \<Rightarrow> bool" where
  "air_ok hall d \<longleftrightarrow> hl_ambient_inlet_c hall \<le> dv_inlet_temp_c (dev_base d) \<and>
     dv_inlet_temp_c (dev_base d) + 4 \<le> dv_outlet_temp_c (dev_base d)"

lemma device_ok_power: "device_ok d \<Longrightarrow> 0 \<le> dev_power d"
  by (cases d) (auto simp: device.defs)

lemma device_ok_own_draw: "device_ok d \<Longrightarrow> device_ok (own_draw d)"
  by (cases d) (auto simp: server_draw_def gpu_draw_def Let_def intro!: divide_nonneg_pos mult_nonneg_nonneg add_nonneg_nonneg)

lemma device_ok_pdu_load: "device_ok (pdu_load ds d) = device_ok d"
  by (cases d) auto

lemma device_ok_set_air: "device_ok (set_air i out d) = device_ok d"
  by (cases d) auto

lemma load_ok_set_air: "load_ok (set_air i out d) = load_ok d"
  by (cases d) auto

lemma powered_index_nonneg:
  assumes "\<forall>d \<in> set ds. device_ok d"
  shows "0 \<le> sum_list (powered_index ds k)"
  by (rule sum_list_nonneg) (use assms device_ok_power in \<open>auto simp: powered_index_def Let_def\<close>)

lemma load_ok_pdu_load:
  assumes "\<forall>d \<in> set ds. device_ok d" "device_ok d"
  shows "load_ok (pdu_load ds d)"
  using powered_index_nonneg [OF assms(1)] assms(2) by (cases d) auto

lemma compute_power_draw_devices:
  "rack_dev_list (compute_power_draw hall) = map (pdu_load (map own_draw (rack_dev_list hall)) \<circ> own_draw) (rack_dev_list hall)"
  by (simp add: compute_power_draw_def Let_def)

lemma map_devices_fields [simp]:
  "hl_ambient_inlet_c (map_devices f hall) = hl_ambient_inlet_c hall" "hl_crac_units (map_devices f hall) = hl_crac_units hall"
  "hl_id (map_devices f hall) = hl_id hall" "hl_site_id (map_devices f hall) = hl_site_id hall"
  by (simp_all add: map_devices_def)

lemma compute_power_draw_fields [simp]:
  "hl_ambient_inlet_c (compute_power_draw hall) = hl_ambient_inlet_c hall"
  "hl_crac_units (compute_power_draw hall) = hl_crac_units hall"
  "hl_id (compute_power_draw hall) = hl_id hall" "hl_site_id (compute_power_draw hall) = hl_site_id hall"
  by (simp_all add: compute_power_draw_def Let_def)

lemma compute_power_draw_ok:
  assumes "hall_ok hall"
  shows "hall_ok (compute_power_draw hall) \<and> (\<forall>d \<in> set (rack_dev_list (compute_power_draw hall)). load_ok d)"
proof -
  let ?ds = "map own_draw (rack_dev_list hall)"
  have ds: "\<forall>d \<in> set ?ds. device_ok d" using assms device_ok_own_draw by (auto simp: hall_ok_def)
  have "device_ok (pdu_load ?ds d) \<and> load_ok (pdu_load ?ds d)" if "d \<in> set ?ds" for d
    using ds that load_ok_pdu_load [OF ds, of d] by (auto simp: device_ok_pdu_load)
  with assms show ?thesis by (auto simp: hall_ok_def compute_power_draw_devices)
qed

lemma rack_devices_in: "r \<in> set (hl_racks hall) \<Longrightarrow> d \<in> set (rk_devices r) \<Longrightarrow> d \<in> set (rack_dev_list hall)"
  by (auto simp: rack_dev_list_def)

lemma compute_thermal_state_devices:
  "d \<in> set (rack_dev_list (compute_thermal_state hall)) \<longleftrightarrow>
     (\<exists>r \<in> set (hl_racks hall). \<exists>d0 \<in> set (rk_devices r).
        d = (let inlet = base_inlet hall + HEAT_RECIRCULATION_FACTOR * rack_delta_t r in set_air inlet (inlet + delta_t_for_device d0) d0))"
  by (auto simp: compute_thermal_state_def rack_dev_list_def update_rack_def Let_def)

lemma base_inlet_bounds: "hl_ambient_inlet_c hall \<le> AMBIENT_CEILING_C \<Longrightarrow>
    hl_ambient_inlet_c hall \<le> base_inlet hall \<and> base_inlet hall \<le> AMBIENT_CEILING_C"
  by (auto simp: base_inlet_def Let_def min_def max_def)

lemma compute_thermal_state_ok:
  assumes "hall_ok hall"
  shows "hall_ok (compute_thermal_state hall) \<and> (\<forall>d \<in> set (rack_dev_list (compute_thermal_state hall)). air_ok hall d)"
proof -
  have amb: "hl_ambient_inlet_c (compute_thermal_state hall) = hl_ambient_inlet_c hall" by (simp add: compute_thermal_state_def)
  have "device_ok d \<and> air_ok hall d" if "d \<in> set (rack_dev_list (compute_thermal_state hall))" for d
  proof -
    from that obtain r d0 where r: "r \<in> set (hl_racks hall)" and d0: "d0 \<in> set (rk_devices r)"
      and d: "d = (let inlet = base_inlet hall + HEAT_RECIRCULATION_FACTOR * rack_delta_t r
                   in set_air inlet (inlet + delta_t_for_device d0) d0)"
      by (auto simp: compute_thermal_state_devices)
    have ok: "device_ok e" if "e \<in> set (rk_devices r)" for e
      using assms rack_devices_in [OF r that] by (auto simp: hall_ok_def)
    have "0 \<le> rack_delta_t r"
      unfolding rack_delta_t_def DEVICE_DELTA_T_PER_KW_def
      by (intro divide_nonneg_nonneg mult_nonneg_nonneg sum_list_nonneg) (use ok device_ok_power in auto)
    moreover have "4 \<le> delta_t_for_device d0"
      using device_ok_power [OF ok [OF d0]] by (simp add: delta_t_for_device_def DEVICE_DELTA_T_PER_KW_def)
    ultimately show ?thesis
      using base_inlet_bounds [of hall] assms ok [OF d0]
      by (simp add: d Let_def device_ok_set_air air_ok_def hall_ok_def HEAT_RECIRCULATION_FACTOR_def)
  qed
  with assms amb show ?thesis by (simp add: hall_ok_def)
qed


definition physics_step :: "data_hall \<Rightarrow> data_hall" where
  "physics_step hall = compute_thermal_state (compute_power_draw hall)"

lemma physics_step_ambient [simp]: "hl_ambient_inlet_c (physics_step hall) = hl_ambient_inlet_c hall"
  by (simp add: physics_step_def compute_thermal_state_def)

text \<open>The twin stays physical: from a hall whose draws, ratings, utilisations and PDU capacities are not
  negative and whose ambient is at most the ceiling, a step of the power and the thermal model leads to
  such a hall, in which every PDU is loaded between 0 and 100 per cent, no inlet is colder than the ambient
  and every outlet is at least four degrees warmer than its inlet. The base inlet, before the
  recirculation of a rack's own heat, is at most the ceiling.\<close>

lemma twin_stays_physical:
  assumes "hall_ok hall"
  shows "hall_ok (physics_step hall) \<and> base_inlet (compute_power_draw hall) \<le> AMBIENT_CEILING_C \<and>
    (\<forall>d \<in> set (rack_dev_list (physics_step hall)). load_ok d \<and> air_ok hall d)"
proof -
  let ?h = "compute_power_draw hall"
  from compute_power_draw_ok [OF assms] have ok: "hall_ok ?h" and load: "\<forall>d \<in> set (rack_dev_list ?h). load_ok d" by auto
  from compute_thermal_state_ok [OF ok] have h2: "hall_ok (physics_step hall)"
    and air: "\<forall>d \<in> set (rack_dev_list (physics_step hall)). air_ok ?h d"
    by (auto simp: physics_step_def)
  have "load_ok d" if "d \<in> set (rack_dev_list (physics_step hall))" for d
    using that load rack_devices_in
    by (auto simp: physics_step_def compute_thermal_state_devices Let_def load_ok_set_air)
  moreover have "air_ok ?h d = air_ok hall d" for d by (simp add: air_ok_def)
  ultimately show ?thesis
    using h2 air ok base_inlet_bounds [of ?h] by (auto simp: hall_ok_def)
qed

text \<open>The order and the repetition of the two models.\<close>

lemma own_draw_idem [simp]: "own_draw (own_draw d) = own_draw d"
  by (cases d) (simp_all add: server_draw_def gpu_draw_def)

lemma own_draw_pdu_load: "own_draw (pdu_load ds d) = pdu_load ds (own_draw d)"
  by (cases d) simp_all

lemma pdu_load_twice: "pdu_load ds (pdu_load ds' d) = pdu_load ds d"
  by (cases d) simp_all

lemma powered_index_pdu_load: "powered_index (map (pdu_load ds') ds) = powered_index ds"
proof -
  have 1: "List.map_filter (\<lambda>d. case d of Pdu p \<Rightarrow> Some p | _ \<Rightarrow> None) (map (pdu_load ds') ds)
      = map (\<lambda>p. p\<lparr>pd_load_percent := pd_load_percent (case pdu_load ds' (Pdu p) of Pdu q \<Rightarrow> q)\<rparr>)
          (List.map_filter (\<lambda>d. case d of Pdu p \<Rightarrow> Some p | _ \<Rightarrow> None) ds)"
  proof (induction ds)
    case (Cons d ds)
    then show ?case by (cases d) (simp_all add: map_filter_simps)
  qed (simp add: map_filter_simps)
  show ?thesis
    by (rule ext) (simp add: powered_index_def Let_def 1 filter_map comp_def)
qed

lemma pdu_load_cong: "powered_index ds = powered_index ds' \<Longrightarrow> pdu_load ds = pdu_load ds'"
proof (rule ext)
  fix d
  assume "powered_index ds = powered_index ds'"
  then show "pdu_load ds d = pdu_load ds' d" by (cases d) simp_all
qed

end
