(* ===== verification/Simulator.thy ===== *)
theory Simulator
  imports Physics Normalizers
begin

text \<open>
  The telemetry simulator (\<open>apps/simulator\<close>): the sites, the devices built for a site, the load patterns,
  the failure scenarios and the tick that advances a hall and publishes its telemetry.

  A \<open>random.Random\<close> is a state \<open>'r\<close> and the operations of \<open>rng\<close>, which draw from it in the order the code
  draws; \<open>thread\<close> runs a loop that draws. A clock rdg is a parameter; \<open>wall\<close> is the clock rdg a
  \<open>datetime\<close> shows (seconds since the epoch on its own clock), which is all the patterns read of it and
  which \<open>replace(tzinfo=...)\<close> leaves alone.
\<close>

section \<open>Random numbers\<close>

record 'r rng =
  rg_random :: "'r \<Rightarrow> real \<times> 'r"
  rg_index :: "nat \<Rightarrow> 'r \<Rightarrow> nat \<times> 'r"
  rg_uniform :: "real \<Rightarrow> real \<Rightarrow> 'r \<Rightarrow> real \<times> 'r"
  rg_gauss :: "real \<Rightarrow> real \<Rightarrow> 'r \<Rightarrow> real \<times> 'r"

text \<open>What the module documents of them.\<close>

definition rng_lawful :: "'r rng \<Rightarrow> bool" where
  "rng_lawful g \<longleftrightarrow>
     (\<forall>r. 0 \<le> fst (rg_random g r) \<and> fst (rg_random g r) < 1) \<and>
     (\<forall>n r. 0 < n \<longrightarrow> fst (rg_index g n r) < n) \<and>
     (\<forall>a b r. a \<le> b \<longrightarrow> a \<le> fst (rg_uniform g a b r) \<and> fst (rg_uniform g a b r) \<le> b)"

definition rg_choice :: "'r rng \<Rightarrow> 'a list \<Rightarrow> 'r \<Rightarrow> 'a \<times> 'r" where
  "rg_choice g xs r = (let (i, r1) = rg_index g (length xs) r in (xs ! i, r1))"

fun thread :: "('a \<Rightarrow> 'r \<Rightarrow> 'b \<times> 'r) \<Rightarrow> 'a list \<Rightarrow> 'r \<Rightarrow> 'b list \<times> 'r" where
  "thread f [] r = ([], r)"
| "thread f (x # xs) r = (let (y, r1) = f x r; (ys, r2) = thread f xs r1 in (y # ys, r2))"

section \<open>Sites\<close>

record site_spec =
  ss_id :: string
  ss_region :: string
  ss_timezone :: string
  ss_ambient_inlet_c :: real
  ss_halls :: nat
  ss_racks_per_hall :: nat
  ss_gpu_density_percent :: real

definition SITES :: "site_spec list" where
  "SITES =
    [\<lparr>ss_id = ''frankfurt'', ss_region = ''eu-central-1'', ss_timezone = ''Europe/Berlin'', ss_ambient_inlet_c = 20,
      ss_halls = 2, ss_racks_per_hall = 10, ss_gpu_density_percent = 35 / 100\<rparr>,
     \<lparr>ss_id = ''singapore'', ss_region = ''ap-southeast-1'', ss_timezone = ''Asia/Singapore'', ss_ambient_inlet_c = 24,
      ss_halls = 2, ss_racks_per_hall = 10, ss_gpu_density_percent = 65 / 100\<rparr>,
     \<lparr>ss_id = ''mumbai'', ss_region = ''ap-south-1'', ss_timezone = ''Asia/Kolkata'', ss_ambient_inlet_c = 23,
      ss_halls = 2, ss_racks_per_hall = 10, ss_gpu_density_percent = 45 / 100\<rparr>]"

definition get_site :: "string \<Rightarrow> site_spec res" where
  "get_site site_id =
     (case find (\<lambda>s. ss_id s = site_id) SITES of
        None \<Rightarrow> Inl (LookupError (''Unknown site: '' @ site_id)) | Some s \<Rightarrow> Inr s)"

section \<open>Devices\<close>

definition build_gpu :: "'r rng \<Rightarrow> string \<Rightarrow> string \<Rightarrow> nat \<Rightarrow> 'r \<Rightarrow> dev \<times> 'r" where
  "build_gpu g rack_id srv_id g_idx r =
     (let (model, r1) = rg_choice g [''NVIDIA-H100-80GB'', ''NVIDIA-A100-80GB''] r;
          (util, r2) = rg_uniform g 40 90 r1
      in (Gpu (device.extend (new_device (srv_id @ ''-gpu'' @ str_of_nat (g_idx + 1)) ''gpu'' model ''NVIDIA'' rack_id 700)
                 (gpu.fields srv_id 65 util 0 (80 * 1024 ^ 3) 0 0 None)), r2))"

definition server_id :: "string \<Rightarrow> nat \<Rightarrow> string" where
  "server_id rack_id s_idx = rack_id @ ''-srv'' @ two_digits (s_idx + 1)"

text \<open>A server and, where the density of the site says so, its GPUs.\<close>

definition build_server :: "'r rng \<Rightarrow> site_spec \<Rightarrow> string \<Rightarrow> nat \<Rightarrow> 'r \<Rightarrow> dev list \<times> 'r" where
  "build_server g site rack_id s_idx r =
     (let srv_id = server_id rack_id s_idx;
          (model, r1) = rg_choice g [''Dell-R760xa'', ''HPE-DL380-Gen11'', ''Supermicro-SYS-821GE''] r;
          (vendor, r2) = rg_choice g [''Dell'', ''HPE'', ''Supermicro''] r1;
          (cpu, r3) = rg_uniform g 20 60 r2;
          (rated, r4) = rg_choice g [600, 800, 1000] r3;
          (psu, r5) = rg_uniform g 92 96 r4;
          srv = Server (device.extend (new_device srv_id ''server'' model vendor rack_id rated)
                  (server.fields cpu 55 0 (256 * 1024 ^ 3) 5000 psu));
          (p, r6) = rg_random g r5
      in if p < ss_gpu_density_percent site
         then (let (n, r7) = rg_choice g [1, 2, 4, 8] r6;
                   (gpus, r8) = thread (build_gpu g rack_id srv_id) [0..<n] r7
               in (srv # gpus, r8))
         else ([srv], r6))"

definition rack_name :: "string \<Rightarrow> nat \<Rightarrow> string" where
  "rack_name hall_id r_idx = hall_id @ ''-r'' @ two_digits (r_idx + 1)"

definition build_pdu :: "string \<Rightarrow> string \<Rightarrow> string list \<Rightarrow> dev" where
  "build_pdu rack_id tag powered =
     Pdu (device.extend (new_device (rack_id @ tag) ''pdu'' ''APC-AP8959'' ''APC'' rack_id 20) (pdu.fields 50 15000 powered))"

definition build_tor :: "string \<Rightarrow> dev" where
  "build_tor rack_id =
     Switch (device.extend (new_device (rack_id @ ''-tor'') ''switch'' ''Arista-7050X3'' ''Arista'' rack_id 250)
               (switch.fields 48 44 0 0 0))"

text \<open>One switch, two PDUs, of which the first powers the servers, and ten servers.\<close>

definition build_rack :: "'r rng \<Rightarrow> site_spec \<Rightarrow> string \<Rightarrow> nat \<Rightarrow> 'r \<Rightarrow> twin_rack \<times> 'r" where
  "build_rack g site hall_id r_idx r =
     (let rack_id = rack_name hall_id r_idx;
          (groups, r1) = thread (build_server g site rack_id) [0..<10] r
      in (\<lparr>rk_id = rack_id, rk_hall_id = hall_id, rk_position = (int (r_idx div 5), int (r_idx mod 5)), rk_capacity_u = 42,
           rk_devices = [build_tor rack_id, build_pdu rack_id ''-pdu-a'' (map (server_id rack_id) [0..<10]), build_pdu rack_id ''-pdu-b'' []]
             @ concat groups\<rparr>, r1))"

definition hall_name :: "site_spec \<Rightarrow> nat \<Rightarrow> string" where
  "hall_name site h_idx = ss_id site @ ''-h'' @ str_of_nat (h_idx + 1)"

definition build_crac :: "site_spec \<Rightarrow> string \<Rightarrow> crac_unit" where
  "build_crac site hall_id =
     device.extend (new_device (hall_id @ ''-crac1'') ''crac'' ''Vertiv-Liebert-DSE-080'' ''Vertiv'' [] 8000)
       (crac_unit.fields hall_id (ss_ambient_inlet_c site - 4) (ss_ambient_inlet_c site + 8) 55 80)"

definition build_hall :: "'r rng \<Rightarrow> site_spec \<Rightarrow> nat \<Rightarrow> 'r \<Rightarrow> data_hall \<times> 'r" where
  "build_hall g site h_idx r =
     (let hall_id = hall_name site h_idx;
          (racks, r1) = thread (build_rack g site hall_id) [0..<ss_racks_per_hall site] r
      in (\<lparr>hl_id = hall_id, hl_site_id = ss_id site, hl_capacity_kw = 400, hl_racks = racks,
           hl_crac_units = [build_crac site hall_id], hl_ambient_inlet_c = ss_ambient_inlet_c site\<rparr>, r1))"

definition build_halls :: "'r rng \<Rightarrow> 'r \<Rightarrow> site_spec \<Rightarrow> data_hall list" where
  "build_halls g seeded site = fst (thread (build_hall g site) [0..<ss_halls site] seeded)"

section \<open>Load patterns\<close>

definition hour_of :: "real \<Rightarrow> int" where "hour_of wall = \<lfloor>wall / 3600\<rfloor> mod 24"
definition minute_of :: "real \<Rightarrow> int" where "minute_of wall = \<lfloor>wall / 60\<rfloor> mod 60"

text \<open>\<open>weekday()\<close>: Monday is 0; the epoch was a Thursday.\<close>

definition weekday_of :: "real \<Rightarrow> int" where "weekday_of wall = (\<lfloor>wall / 86400\<rfloor> + 3) mod 7"

definition diurnal_load :: "real \<Rightarrow> real \<Rightarrow> real \<Rightarrow> real" where
  "diurnal_load wall base_load amplitude =
     (let hours = of_int (hour_of wall) + of_int (minute_of wall) / 60
      in max 0 (min 1 (base_load + amplitude * sin ((hours - 8) / 24 * 2 * pi))))"

definition weekly_modulation :: "real \<Rightarrow> real \<Rightarrow> real" where
  "weekly_modulation wall weekday_amp = (if 5 \<le> weekday_of wall then - weekday_amp else 0)"

definition jitter :: "'r rng \<Rightarrow> real \<Rightarrow> 'r \<Rightarrow> real \<times> 'r" where
  "jitter g std r = rg_gauss g 0 std r"

definition load_multiplier :: "'r rng \<Rightarrow> real \<Rightarrow> 'r \<Rightarrow> real \<times> 'r" where
  "load_multiplier g wall r =
     (let (noise, r1) = jitter g (4 / 100) r
      in (diurnal_load wall (1 / 2) (25 / 100) + weekly_modulation wall (1 / 10) + noise, r1))"

definition apply_load_modulation :: "'r rng \<Rightarrow> real \<Rightarrow> real \<Rightarrow> real \<Rightarrow> 'r \<Rightarrow> real \<times> 'r" where
  "apply_load_modulation g swing_fraction base_value wall r =
     (let (multiplier, r1) = load_multiplier g wall r;
          swing = base_value * swing_fraction
      in (max 0 (base_value + swing * (multiplier - 1 / 2) * 2), r1))"

section \<open>One tick\<close>

fun device_type_of_dev :: "dev \<Rightarrow> device_type" where
  "device_type_of_dev (Server s) = SERVER"
| "device_type_of_dev (Gpu g) = GPU"
| "device_type_of_dev (Switch s) = SWITCH"
| "device_type_of_dev (Pdu p) = PDU"
| "device_type_of_dev (Crac c) = CRAC"

text \<open>\<open>round(x, n)\<close>.\<close>

definition rounded :: "nat \<Rightarrow> real \<Rightarrow> pyval" where
  "rounded n x = PFloat (of_int (py_round (x * 10 ^ n)) / 10 ^ n)"

fun device_readings :: "dev \<Rightarrow> (canonical_metric \<times> pyval \<times> string \<times> severity) list" where
  "device_readings (Server s) =
    [(CPU_UTIL_PERCENT, rounded 2 (sr_cpu_util_percent s), ''percent'', INFO),
     (CPU_TEMP_CELSIUS, rounded 2 (sr_cpu_temp_c s), ''celsius'', INFO),
     (POWER_DRAW_WATTS, rounded 1 (dv_power_draw_w s), ''watts'', INFO),
     (PSU_EFFICIENCY_PERCENT, rounded 2 (sr_psu_efficiency_percent s), ''percent'', INFO),
     (FAN_RPM, PInt (sr_fan_rpm s), ''rpm'', INFO)]"
| "device_readings (Gpu g) =
    [(GPU_UTIL_PERCENT, rounded 2 (gp_util_percent g), ''percent'', INFO),
     (GPU_TEMP_CELSIUS, rounded 2 (gp_temp_c g), ''celsius'', INFO),
     (GPU_POWER_WATTS, rounded 1 (dv_power_draw_w g), ''watts'', INFO),
     (GPU_ECC_CORRECTABLE, PInt (gp_ecc_correctable_count g), ''count'', INFO),
     (GPU_ECC_UNCORRECTABLE, PInt (gp_ecc_uncorrectable_count g), ''count'', INFO)]
    @ (case gp_last_xid_code g of None \<Rightarrow> [] | Some x \<Rightarrow> [(GPU_XID_CODE, PInt x, ''code'', ERROR)])"
| "device_readings (Switch s) =
    [(NET_BPS_IN, PInt (sw_bps_in s), ''bps'', INFO),
     (NET_BPS_OUT, PInt (sw_bps_out s), ''bps'', INFO),
     (NET_ERR_IN, PInt (sw_err_in_count s), ''count'', INFO),
     (NET_PORT_UP, PInt (sw_port_up_count s), ''count'', INFO)]"
| "device_readings (Pdu p) = [(PDU_LOAD_PERCENT, rounded 2 (pd_load_percent p), ''percent'', INFO)]"
| "device_readings (Crac c) =
    [(CRAC_SUPPLY_CELSIUS, rounded 2 (cr_supply_temp_c c), ''celsius'', INFO),
     (CRAC_RETURN_CELSIUS, rounded 2 (cr_return_temp_c c), ''celsius'', INFO),
     (CRAC_FAN_PERCENT, rounded 2 (cr_fan_percent c), ''percent'', INFO)]"

text \<open>The events built so far, and the error that ends a loop.\<close>

fun collect :: "('a \<Rightarrow> 'b list res) \<Rightarrow> 'a list \<Rightarrow> 'b list res" where
  "collect f [] = Inr []"
| "collect f (x # xs) = res_bind (f x) (\<lambda>ys. res_bind (collect f xs) (\<lambda>zs. Inr (ys @ zs)))"

definition device_event :: "data_hall \<Rightarrow> real \<Rightarrow> dev \<Rightarrow> canonical_metric \<times> pyval \<times> string \<times> severity \<Rightarrow> telemetry_event" where
  "device_event hall ts d rdg =
     (case rdg of (metric, val, unit, sev) \<Rightarrow>
       \<lparr>te_timestamp = Aware ts, te_site_id = hl_site_id hall, te_hall_id = hl_id hall,
        te_rack_id = (if dv_rack_id (dev_base d) = [] then hl_id hall else dv_rack_id (dev_base d)),
        te_device_id = dev_id d, te_device_type = device_type_of_dev d, te_metric = metric, te_value = val,
        te_unit = Some unit, te_severity = sev, te_metadata = []\<rparr>)"

definition emit_for_device :: "data_hall \<Rightarrow> real \<Rightarrow> dev \<Rightarrow> telemetry_event list res" where
  "emit_for_device hall ts d =
     collect (\<lambda>rdg. res_bind (mk_telemetry_event (device_event hall ts d rdg)) (\<lambda>e. Inr [e])) (device_readings d)"

fun modulate :: "'r rng \<Rightarrow> real \<Rightarrow> dev \<Rightarrow> 'r \<Rightarrow> dev \<times> 'r" where
  "modulate g wall (Server s) r =
     (let (u, r1) = apply_load_modulation g (4 / 10) (sr_cpu_util_percent s) wall r in (Server (s\<lparr>sr_cpu_util_percent := u\<rparr>), r1))"
| "modulate g wall (Gpu d) r =
     (let (u, r1) = apply_load_modulation g (4 / 10) (gp_util_percent d) wall r in (Gpu (d\<lparr>gp_util_percent := u\<rparr>), r1))"
| "modulate g wall d r = (d, r)"

definition modulate_rack :: "'r rng \<Rightarrow> real \<Rightarrow> twin_rack \<Rightarrow> 'r \<Rightarrow> twin_rack \<times> 'r" where
  "modulate_rack g wall rk r = (let (ds, r1) = thread (modulate g wall) (rk_devices rk) r in (rk\<lparr>rk_devices := ds\<rparr>, r1))"

definition modulate_hall :: "'r rng \<Rightarrow> real \<Rightarrow> data_hall \<Rightarrow> 'r \<Rightarrow> data_hall \<times> 'r" where
  "modulate_hall g wall hall r =
     (let (racks, r1) = thread (modulate_rack g wall) (hl_racks hall) r in (hall\<lparr>hl_racks := racks\<rparr>, r1))"

text \<open>The devices a tick reports, in order: those of the racks, then the CRAC units. \<open>stamp i\<close> is the clock
  read for the \<open>i\<close>-th of them.\<close>

definition reported :: "data_hall \<Rightarrow> dev list" where
  "reported hall = rack_dev_list hall @ map Crac (hl_crac_units hall)"

definition tick_events :: "(nat \<Rightarrow> real) \<Rightarrow> data_hall \<Rightarrow> telemetry_event list res" where
  "tick_events stamp hall = collect (\<lambda>(i, d). emit_for_device hall (stamp i) d) (enumerate 0 (reported hall))"

definition sim_topic :: "telemetry_event \<Rightarrow> string" where
  "sim_topic e = ''telemetry.simulator.'' @ device_type_value (te_device_type e)"

definition sim_tick :: "'r rng \<Rightarrow> real \<Rightarrow> (nat \<Rightarrow> real) \<Rightarrow> data_hall \<Rightarrow> 'r \<Rightarrow> bus_msg effect list res \<times> data_hall \<times> 'r" where
  "sim_tick g now stamp hall r =
     (let (hall1, r1) = modulate_hall g now hall r;
          hall2 = compute_thermal_state (compute_power_draw hall1)
      in (case tick_events stamp hall2 of
            Inl e \<Rightarrow> Inl e | Inr events \<Rightarrow> Inr (map (\<lambda>e. Publish (sim_topic e) (MTelemetry e)) events),
          hall2, r1))"

text \<open>One round of \<open>main\<close>'s loop over the halls, one clock rdg per hall; an error ends the program.\<close>

fun sim_round :: "'r rng \<Rightarrow> (nat \<Rightarrow> real) \<Rightarrow> (nat \<Rightarrow> nat \<Rightarrow> real) \<Rightarrow> nat \<Rightarrow> data_hall list \<Rightarrow> 'r \<Rightarrow>
    bus_msg effect list res \<times> data_hall list \<times> 'r" where
  "sim_round g now stamp i [] r = (Inr [], [], r)"
| "sim_round g now stamp i (hall # halls) r =
     (case sim_tick g (now i) (stamp i) hall r of
        (Inl e, hall1, r1) \<Rightarrow> (Inl e, hall1 # halls, r1)
      | (Inr acts, hall1, r1) \<Rightarrow>
          (case sim_round g now stamp (Suc i) halls r1 of
             (Inl e, halls1, r2) \<Rightarrow> (Inl e, hall1 # halls1, r2)
           | (Inr acts2, halls1, r2) \<Rightarrow> (Inr (acts @ acts2), hall1 # halls1, r2)))"


text \<open>The rounds of the program from a state; the first failure ends it.\<close>

fun sim_rounds :: "'r rng \<Rightarrow> (nat \<Rightarrow> nat \<Rightarrow> real) \<Rightarrow> (nat \<Rightarrow> nat \<Rightarrow> nat \<Rightarrow> real) \<Rightarrow> nat \<Rightarrow> data_hall list \<Rightarrow> 'r \<Rightarrow>
    bus_msg effect list res \<times> data_hall list \<times> 'r" where
  "sim_rounds g now stamp 0 halls r = (Inr [], halls, r)"
| "sim_rounds g now stamp (Suc n) halls r =
     (case sim_rounds g now stamp n halls r of
        (Inl e, halls1, r1) \<Rightarrow> (Inl e, halls1, r1)
      | (Inr acts, halls1, r1) \<Rightarrow>
          (case sim_round g (now n) (stamp n) 0 halls1 r1 of
             (Inl e, halls2, r2) \<Rightarrow> (Inl e, halls2, r2)
           | (Inr acts2, halls2, r2) \<Rightarrow> (Inr (acts @ acts2), halls2, r2)))"

section \<open>Failure scenarios\<close>

text \<open>\<open>dict(v)\<close>: a mapping, or an iterable of pairs (a text of two characters is one).\<close>

fun pair_of :: "pyval \<Rightarrow> (string \<times> pyval) res" where
  "pair_of (PList [PStr k, v]) = Inr (k, v)"
| "pair_of (PStr [a, b]) = Inr ([a], PStr [b])"
| "pair_of _ = Inl (ValueError ''dictionary update sequence element'')"

fun py_dict :: "pyval \<Rightarrow> dict res" where
  "py_dict (PDict d) = Inr d"
| "py_dict (PList xs) = res_bind (collect (\<lambda>v. res_bind (pair_of v) (\<lambda>kv. Inr [kv])) xs)
     (\<lambda>kvs. Inr (fold (\<lambda>(k, v) d. AList.update k v d) kvs []))"
| "py_dict (PStr s) = (if s = [] then Inr [] else Inl (ValueError ''dictionary update sequence element''))"
| "py_dict _ = Inl (TypeError ''object is not iterable'')"

record scenario_step =
  sp_delay_seconds :: real
  sp_device_selector :: dict
  sp_failure_mode :: failure_mode
  sp_duration_seconds :: pyval

record scenario =
  sn_name :: pyval
  sn_description :: pyval
  sn_steps :: "scenario_step list"
  sn_expected_detection :: pyval
  sn_expected_root_cause :: pyval
  sn_expected_actions :: pyval

definition item :: "dict \<Rightarrow> string \<Rightarrow> pyval res" where
  "item d k = (case map_of d k of None \<Rightarrow> Inl (KeyError k) | Some v \<Rightarrow> Inr v)"

definition load_step :: "(string \<Rightarrow> real option) \<Rightarrow> pyval \<Rightarrow> scenario_step res" where
  "load_step fos v =
     (case v of
        PDict s \<Rightarrow>
          res_bind (py_float fos (get_def s ''delay_seconds'' (PFloat 0))) (\<lambda>delay.
          res_bind (item s ''device_selector'') (\<lambda>sel. res_bind (py_dict sel) (\<lambda>selector.
          res_bind (item s ''failure_mode'') (\<lambda>m.
          case Option.bind (str_of m) failure_mode_of of
            None \<Rightarrow> Inl (ValueError ''not a valid FailureMode'')
          | Some mode \<Rightarrow> Inr \<lparr>sp_delay_seconds = delay, sp_device_selector = selector, sp_failure_mode = mode,
                             sp_duration_seconds = get_def s ''duration_seconds'' PNone\<rparr>))))
      | _ \<Rightarrow> Inl (AttributeError ''get''))"

text \<open>\<open>yaml_file\<close> is the document of the file of that name, \<open>None\<close> where there is no such file.\<close>

definition load_scenario :: "(string \<Rightarrow> real option) \<Rightarrow> (string \<Rightarrow> pyval option) \<Rightarrow> string \<Rightarrow> scenario res" where
  "load_scenario fos yaml_file name =
     (case yaml_file (name @ ''.yml'') of
        None \<Rightarrow> Inl (FileNotFoundError (''Scenario not found: '' @ name @ ''.yml''))
      | Some (PDict raw) \<Rightarrow>
          res_bind (item raw ''steps'') (\<lambda>sv. res_bind (j_iter sv) (\<lambda>vs.
          res_bind (collect (\<lambda>v. res_bind (load_step fos v) (\<lambda>st. Inr [st])) vs) (\<lambda>steps.
          res_bind (item raw ''name'') (\<lambda>nm.
            Inr \<lparr>sn_name = nm, sn_description = get_def raw ''description'' (PStr []), sn_steps = steps,
                 sn_expected_detection = get_def raw ''expected_detection'' (PDict []),
                 sn_expected_root_cause = get_def raw ''expected_root_cause'' (PStr []),
                 sn_expected_actions = get_def raw ''expected_actions'' (PList [])\<rparr>))))
      | Some _ \<Rightarrow> Inl (TypeError ''object is not subscriptable''))"

text \<open>\<open>p.stem\<close> of the names \<open>*.yml\<close> matches; a name that is all suffix has no other stem.\<close>

definition stem :: "string \<Rightarrow> string" where
  "stem name = (if name = ''.yml'' then name else take (length name - 4) name)"

definition list_available :: "string list \<Rightarrow> string list" where
  "list_available files = sort (map stem (filter (suffix ''.yml'') files))"

section \<open>Threaded loops\<close>

lemma in_thread: "y \<in> set (fst (thread f xs r)) \<Longrightarrow> \<exists>x \<in> set xs. \<exists>r1. y = fst (f x r1)"
  by (induction xs arbitrary: r) (fastforce simp: split_beta)+

lemma length_thread [simp]: "length (fst (thread f xs r)) = length xs"
  by (induction xs arbitrary: r) (simp_all add: split_beta)

lemma map_thread: "(\<forall>x \<in> set xs. \<forall>r1. h (fst (f x r1)) = k x) \<Longrightarrow> map h (fst (thread f xs r)) = map k xs"
  by (induction xs arbitrary: r) (simp_all add: split_beta)

lemma thread_map:
  assumes "\<And>x r. f (h x) r = (k (fst (f x r)), snd (f x r))"
  shows "thread f (map h xs) r = (map k (fst (thread f xs r)), snd (thread f xs r))"
  by (induction xs arbitrary: r) (simp_all add: assms split_beta)

section \<open>What a tick keeps\<close>

lemma apply_load_modulation_nonneg: "0 \<le> fst (apply_load_modulation g sw u wall r)"
  by (simp add: apply_load_modulation_def split_beta Let_def)

lemma modulate_keeps: "dev_id (fst (modulate g wall d r)) = dev_id d" "device_ok d \<Longrightarrow> device_ok (fst (modulate g wall d r))"
  by (cases d; simp add: split_beta Let_def device.defs apply_load_modulation_nonneg)+

lemma modulate_hall_devices:
  assumes "d1 \<in> set (rack_dev_list (fst (modulate_hall g wall hall r)))"
  shows "\<exists>d \<in> set (rack_dev_list hall). \<exists>r1. d1 = fst (modulate g wall d r1)"
proof -
  from assms obtain rk1 where rk1: "rk1 \<in> set (fst (thread (modulate_rack g wall) (hl_racks hall) r))" "d1 \<in> set (rk_devices rk1)"
    by (auto simp: rack_dev_list_def modulate_hall_def split_beta Let_def)
  from in_thread [OF rk1(1)] obtain rk r1 where rk: "rk \<in> set (hl_racks hall)" "rk1 = fst (modulate_rack g wall rk r1)" by blast
  with rk1(2) have "d1 \<in> set (fst (thread (modulate g wall) (rk_devices rk) r1))" by (simp add: modulate_rack_def split_beta Let_def)
  from in_thread [OF this] rk(1) show ?thesis using rack_devices_in by blast
qed

lemma modulate_hall_fields [simp]:
  "hl_ambient_inlet_c (fst (modulate_hall g wall hall r)) = hl_ambient_inlet_c hall"
  "hl_crac_units (fst (modulate_hall g wall hall r)) = hl_crac_units hall"
  "hl_id (fst (modulate_hall g wall hall r)) = hl_id hall" "hl_site_id (fst (modulate_hall g wall hall r)) = hl_site_id hall"
  by (simp_all add: modulate_hall_def split_beta Let_def)

lemma physics_step_fields [simp]:
  "hl_crac_units (physics_step hall) = hl_crac_units hall" "hl_id (physics_step hall) = hl_id hall"
  "hl_site_id (physics_step hall) = hl_site_id hall"
  by (simp_all add: physics_step_def compute_thermal_state_def)

lemma physics_step_ids:
  assumes "d \<in> set (rack_dev_list (physics_step hall))"
  shows "\<exists>d0 \<in> set (rack_dev_list hall). dev_id d = dev_id d0"
proof -
  from assms obtain d1 where "d1 \<in> set (rack_dev_list (compute_power_draw hall))" "dev_id d = dev_id d1"
    using rack_devices_in by (fastforce simp: physics_step_def compute_thermal_state_devices Let_def)
  then show ?thesis by (auto simp: compute_power_draw_devices)
qed

text \<open>A hall whose telemetry can be reported.\<close>

definition hall_named :: "string \<Rightarrow> data_hall \<Rightarrow> bool" where
  "hall_named site hall \<longleftrightarrow> site \<noteq> [] \<and> hl_site_id hall = site \<and> hl_id hall \<noteq> [] \<and> (\<forall>d \<in> set (reported hall). dev_id d \<noteq> [])"

definition evolved :: "'r rng \<Rightarrow> real \<Rightarrow> data_hall \<Rightarrow> 'r \<Rightarrow> data_hall" where
  "evolved g wall hall r = physics_step (fst (modulate_hall g wall hall r))"

lemma sim_tick_hall: "fst (snd (sim_tick g wall stamp hall r)) = evolved g wall hall r"
  by (simp add: sim_tick_def evolved_def physics_step_def split_beta Let_def)

lemma evolved_named:
  assumes "hall_named site hall"
  shows "hall_named site (evolved g wall hall r)"
proof -
  have "dev_id d \<noteq> []" if d: "d \<in> set (rack_dev_list (evolved g wall hall r))" for d
  proof -
    from physics_step_ids [OF d [unfolded evolved_def]] obtain d0
      where "d0 \<in> set (rack_dev_list (fst (modulate_hall g wall hall r)))" "dev_id d = dev_id d0" by blast
    moreover from modulate_hall_devices [OF this(1)] obtain d1 r1
      where "d1 \<in> set (rack_dev_list hall)" "d0 = fst (modulate g wall d1 r1)" by blast
    ultimately show ?thesis using assms modulate_keeps(1) [of g wall d1 r1] by (auto simp: hall_named_def reported_def)
  qed
  with assms show ?thesis by (auto simp: hall_named_def reported_def evolved_def)
qed

lemma evolved_ok:
  assumes "hall_ok hall"
  shows "hall_ok (evolved g wall hall r) \<and>
    (\<forall>d \<in> set (rack_dev_list (evolved g wall hall r)). load_ok d \<and> air_ok (evolved g wall hall r) d)"
proof -
  have "hall_ok (fst (modulate_hall g wall hall r))"
    using assms modulate_hall_devices modulate_keeps(2) by (fastforce simp: hall_ok_def)
  from twin_stays_physical [OF this] show ?thesis by (simp add: evolved_def air_ok_def)
qed

text \<open>A reported device's events are valid.\<close>

lemma collect_Inr: "(\<forall>x \<in> set xs. f x = Inr (h x)) \<Longrightarrow> collect f xs = Inr (concat (map h xs))"
  by (induction xs) auto

lemma collect_Inr_in:
  "collect f xs = Inr ys \<Longrightarrow> y \<in> set ys \<Longrightarrow> \<exists>x \<in> set xs. \<exists>zs. f x = Inr zs \<and> y \<in> set zs"
  by (induction xs arbitrary: ys) auto

lemma scalar_readings: "rdg \<in> set (device_readings d) \<Longrightarrow> scalar_value (fst (snd rdg))"
  by (cases d) (auto simp: rounded_def split: option.splits)

lemma device_event_ok:
  assumes "hall_named site hall" "dev_id d \<noteq> []" "rdg \<in> set (device_readings d)"
  shows "telemetry_ok (device_event hall ts d rdg)"
  using assms scalar_readings [OF assms(3)]
  by (cases rdg) (auto simp: telemetry_ok_def device_event_def hall_named_def)

lemma emit_for_device_named:
  assumes "hall_named site hall" "d \<in> set (reported hall)"
  shows "emit_for_device hall ts d = Inr (map (device_event hall ts d) (device_readings d))"
proof -
  have "mk_telemetry_event (device_event hall ts d rdg) = Inr (device_event hall ts d rdg)"
    if "rdg \<in> set (device_readings d)" for rdg
    using device_event_ok [OF assms(1) _ that] assms by (simp add: mk_telemetry_event_Inr hall_named_def)
  then have "emit_for_device hall ts d = Inr (concat (map (\<lambda>rd. [device_event hall ts d rd]) (device_readings d)))"
    unfolding emit_for_device_def by (intro collect_Inr) auto
  then show ?thesis by simp
qed

definition hall_events :: "(nat \<Rightarrow> real) \<Rightarrow> data_hall \<Rightarrow> telemetry_event list" where
  "hall_events stamp hall =
     concat (map (\<lambda>(i, d). map (device_event hall (stamp i) d) (device_readings d)) (enumerate 0 (reported hall)))"

lemma tick_events_named: "hall_named site hall \<Longrightarrow> tick_events stamp hall = Inr (hall_events stamp hall)"
  unfolding tick_events_def hall_events_def
  by (intro collect_Inr) (auto simp: emit_for_device_named in_set_enumerate_eq)


section \<open>A built site\<close>

lemma get_site_Inr: "get_site name = Inr site \<Longrightarrow> site \<in> set SITES \<and> ss_id site = name"
  by (auto simp: get_site_def find_Some_iff split: option.splits)

definition hall_fine :: "string \<Rightarrow> data_hall \<Rightarrow> bool" where
  "hall_fine site hall \<longleftrightarrow> hall_named site hall \<and> hall_ok hall"

lemma rg_choice_in: "rng_lawful g \<Longrightarrow> xs \<noteq> [] \<Longrightarrow> fst (rg_choice g xs r) \<in> set xs"
  by (simp add: rg_choice_def split_beta rng_lawful_def)

lemma build_gpu_fine:
  assumes "rng_lawful g" "d = fst (build_gpu g rack_id srv_id i r)"
  shows "device_ok d \<and> dev_id d = srv_id @ ''-gpu'' @ str_of_nat (i + 1)"
proof -
  have "(40::real) \<le> 90" by simp
  then have "40 \<le> fst (rg_uniform g 40 90 r1)" for r1 using assms(1) unfolding rng_lawful_def by blast
  then have "0 \<le> fst (rg_uniform g 40 90 r1)" for r1 by (meson dual_order.trans zero_le_numeral)
  then show ?thesis using assms(2)
    by (simp add: build_gpu_def split_beta Let_def new_device_def device.defs gpu.defs)
qed

lemma build_server_fine:
  assumes g: "rng_lawful g" and d: "d \<in> set (fst (build_server g site rack_id i r))"
  shows "device_ok d \<and> prefix (server_id rack_id i) (dev_id d)"
proof -
  have "(20::real) \<le> 60" by simp
  then have "20 \<le> fst (rg_uniform g 20 60 r1)" for r1 using g unfolding rng_lawful_def by blast
  then have u: "0 \<le> fst (rg_uniform g 20 60 r1)" for r1 by (meson dual_order.trans zero_le_numeral)
  have c: "0 \<le> fst (rg_choice g [600, 800, 1000::real] r1)" for r1 using rg_choice_in [OF g, of "[600, 800, 1000::real]" r1] by auto
  from d consider
      (srv) s where "d = Server s" "dv_id s = server_id rack_id i" "device_ok d"
    | (gpu) j r1 where "d = fst (build_gpu g rack_id (server_id rack_id i) j r1)"
    using u c
    by (fastforce simp: build_server_def split_beta Let_def new_device_def device.defs server.defs
        dest: in_thread split: if_splits)
  then show ?thesis
  proof cases
    case srv
    then show ?thesis by (simp add: device.defs)
  next
    case gpu
    from build_gpu_fine [OF g this] show ?thesis by simp
  qed
qed

lemma build_rack_fine:
  assumes g: "rng_lawful g" and d: "d \<in> set (rk_devices (fst (build_rack g site hall_id i r)))"
  shows "device_ok d \<and> dev_id d \<noteq> []"
proof -
  from d consider "d \<in> {build_tor (rack_name hall_id i), build_pdu (rack_name hall_id i) ''-pdu-a'' (map (server_id (rack_name hall_id i)) [0..<10]),
      build_pdu (rack_name hall_id i) ''-pdu-b'' []}"
    | k r1 where "d \<in> set (fst (build_server g site (rack_name hall_id i) k r1))"
    by (auto simp: build_rack_def split_beta Let_def dest: in_thread)
  then show ?thesis
  proof cases
    case 1
    then show ?thesis by (auto simp: build_tor_def build_pdu_def new_device_def device.defs switch.defs pdu.defs)
  next
    case 2
    from build_server_fine [OF g this] show ?thesis by (auto simp: server_id_def)
  qed
qed

lemma build_halls_fine:
  assumes g: "rng_lawful g" and s: "site \<in> set SITES" and h: "hall \<in> set (build_halls g seed site)"
  shows "hall_fine (ss_id site) hall"
proof -
  from h obtain i r where hall: "hall = fst (build_hall g site i r)" by (auto simp: build_halls_def dest: in_thread)
  have dev: "device_ok d \<and> dev_id d \<noteq> []" if d: "d \<in> set (rack_dev_list hall)" for d
  proof -
    from d obtain rk where "rk \<in> set (hl_racks hall)" "d \<in> set (rk_devices rk)" by (auto simp: rack_dev_list_def)
    then show ?thesis using build_rack_fine [OF g] by (auto simp: hall build_hall_def split_beta Let_def dest: in_thread)
  qed
  have "ss_id site \<noteq> [] \<and> ss_ambient_inlet_c site \<le> AMBIENT_CEILING_C"
    using s by (auto simp: SITES_def AMBIENT_CEILING_C_def)
  moreover have "hl_id hall \<noteq> []" "hl_site_id hall = ss_id site" "hl_ambient_inlet_c hall = ss_ambient_inlet_c site"
      "hl_crac_units hall = [build_crac site (hall_name site i)]"
    by (simp_all add: hall build_hall_def split_beta Let_def hall_name_def)
  moreover have "dev_id (Crac (build_crac site (hall_name site i))) \<noteq> []"
    by (simp add: build_crac_def new_device_def device.defs crac_unit.defs)
  ultimately show ?thesis using dev by (auto simp: hall_fine_def hall_named_def hall_ok_def reported_def)
qed

section \<open>The running program\<close>

definition settled :: "data_hall \<Rightarrow> bool" where
  "settled hall \<longleftrightarrow> (\<forall>d \<in> set (rack_dev_list hall). load_ok d \<and> air_ok hall d)"

definition sim_publish_ok :: "string \<Rightarrow> bus_msg effect \<Rightarrow> bool" where
  "sim_publish_ok site a \<longleftrightarrow> (\<exists>e. a = Publish (sim_topic e) (MTelemetry e) \<and> telemetry_ok e \<and> te_site_id e = site)"

lemma hall_events_ok:
  assumes "hall_named site hall" "e \<in> set (hall_events stamp hall)"
  shows "telemetry_ok e \<and> te_site_id e = site"
proof -
  from assms(2) obtain i d rd where "(i, d) \<in> set (enumerate 0 (reported hall))" and rd: "rd \<in> set (device_readings d)"
    and e: "e = device_event hall (stamp i) d rd"
    by (auto simp: hall_events_def)
  then have "d \<in> set (reported hall)" by (auto simp: in_set_enumerate_eq)
  moreover from this have "dev_id d \<noteq> []" using assms(1) by (simp add: hall_named_def)
  moreover note rd e
  ultimately show ?thesis
    using device_event_ok [OF assms(1)] assms(1) by (auto simp: hall_named_def device_event_def split: prod.splits)
qed

lemma sim_tick_fine:
  assumes "hall_fine site hall"
  shows "sim_tick g wall stamp hall r =
      (Inr (map (\<lambda>e. Publish (sim_topic e) (MTelemetry e)) (hall_events stamp (evolved g wall hall r))),
       evolved g wall hall r, snd (modulate_hall g wall hall r)) \<and>
    hall_fine site (evolved g wall hall r) \<and> settled (evolved g wall hall r)"
proof -
  from assms have n: "hall_named site (evolved g wall hall r)" by (intro evolved_named) (simp add: hall_fine_def)
  from tick_events_named [OF this, of stamp] show ?thesis
    using assms evolved_ok [of hall g wall r] n
    by (simp add: sim_tick_def evolved_def physics_step_def split_beta Let_def hall_fine_def settled_def)
qed

lemma sim_round_fine:
  assumes "\<forall>hall \<in> set halls. hall_fine site hall"
  shows "\<exists>acts halls1 r1. sim_round g now stamp i halls r = (Inr acts, halls1, r1) \<and> length halls1 = length halls \<and>
    (\<forall>hall \<in> set halls1. hall_fine site hall \<and> settled hall) \<and> (\<forall>a \<in> set acts. sim_publish_ok site a)"
  using assms
proof (induction halls arbitrary: i r)
  case (Cons hall halls)
  then have f: "hall_fine site hall" and fs: "\<forall>hall \<in> set halls. hall_fine site hall" by simp_all
  from sim_tick_fine [OF f, of g "now i" "stamp i" r] obtain r1
    where t: "sim_tick g (now i) (stamp i) hall r =
        (Inr (map (\<lambda>e. Publish (sim_topic e) (MTelemetry e)) (hall_events (stamp i) (evolved g (now i) hall r))), evolved g (now i) hall r, r1)"
      and e: "hall_fine site (evolved g (now i) hall r)" "settled (evolved g (now i) hall r)" by blast
  from Cons.IH [OF fs, of "Suc i" r1] obtain acts halls1 r2
    where u: "sim_round g now stamp (Suc i) halls r1 = (Inr acts, halls1, r2)" "length halls1 = length halls"
      "\<forall>hall \<in> set halls1. hall_fine site hall \<and> settled hall" "\<forall>a \<in> set acts. sim_publish_ok site a" by blast
  have "\<forall>ev \<in> set (hall_events (stamp i) (evolved g (now i) hall r)). sim_publish_ok site (Publish (sim_topic ev) (MTelemetry ev))"
    using hall_events_ok e(1) unfolding sim_publish_ok_def hall_fine_def by blast
  with t u e show ?case by auto
qed simp

lemma sim_rounds_fine:
  assumes "\<forall>hall \<in> set halls. hall_fine site hall"
  shows "\<exists>acts halls1 r1. sim_rounds g now stamp n halls r = (Inr acts, halls1, r1) \<and> length halls1 = length halls \<and>
    (\<forall>hall \<in> set halls1. hall_fine site hall \<and> (0 < n \<longrightarrow> settled hall)) \<and> (\<forall>a \<in> set acts. sim_publish_ok site a)"
proof (induction n)
  case (Suc n)
  then obtain acts halls1 r1 where 1: "sim_rounds g now stamp n halls r = (Inr acts, halls1, r1)" "length halls1 = length halls"
      "\<forall>hall \<in> set halls1. hall_fine site hall" "\<forall>a \<in> set acts. sim_publish_ok site a" by blast
  from sim_round_fine [OF 1(3), of g "now n" "stamp n" 0 r1] obtain acts2 halls2 r2
    where "sim_round g (now n) (stamp n) 0 halls1 r1 = (Inr acts2, halls2, r2)" "length halls2 = length halls1"
      "\<forall>hall \<in> set halls2. hall_fine site hall \<and> settled hall" "\<forall>a \<in> set acts2. sim_publish_ok site a" by blast
  with 1 show ?case by auto
qed (use assms in simp)



text \<open>A generator that always answers the lowest value, without noise.\<close>

definition low_rng :: "nat rng" where
  "low_rng = \<lparr>rg_random = \<lambda>r. (0, r + 1), rg_index = \<lambda>n r. (0, r + 1), rg_uniform = \<lambda>a b r. (a, r + 1),
     rg_gauss = \<lambda>mu sd r. (mu, r + 1)\<rparr>"

lemma low_rng_lawful: "rng_lawful low_rng"
  by (simp add: rng_lawful_def low_rng_def)


section \<open>A failure nobody sees\<close>

text \<open>A device without its marks, and without a server's draw, which the power model computes anew.\<close>

fun blind :: "dev \<Rightarrow> dev" where
  "blind (Server s) = unmarked (Server (s\<lparr>dv_power_draw_w := 0\<rparr>))"
| "blind d = unmarked d"

lemma unmarked_simps [simp]:
  "unmarked (Server s) = Server (s\<lparr>dv_state := HEALTHY, dv_failure_mode := MODE_NONE\<rparr>)"
  "unmarked (Gpu g) = Gpu (g\<lparr>dv_state := HEALTHY, dv_failure_mode := MODE_NONE\<rparr>)"
  "unmarked (Switch w) = Switch (w\<lparr>dv_state := HEALTHY, dv_failure_mode := MODE_NONE\<rparr>)"
  "unmarked (Pdu p) = Pdu (p\<lparr>dv_state := HEALTHY, dv_failure_mode := MODE_NONE\<rparr>)"
  "unmarked (Crac c) = Crac (c\<lparr>dv_state := HEALTHY, dv_failure_mode := MODE_NONE\<rparr>)"
  by (simp_all add: unmarked_def)

lemma dev_base_unmarked [simp]:
  "dv_id (dev_base (unmarked d)) = dev_id d" "dv_power_draw_w (dev_base (unmarked d)) = dev_power d"
  "dv_rack_id (dev_base (unmarked d)) = dv_rack_id (dev_base d)"
  by (cases d; simp add: device.defs)+

lemma modulate_blind: "modulate g wall (blind d) r = (blind (fst (modulate g wall d r)), snd (modulate g wall d r))"
  by (cases d) (simp_all add: split_beta Let_def)

lemma own_draw_blind: "own_draw (blind d) = unmarked (own_draw d)"
  by (cases d) (simp_all add: server_draw_def gpu_draw_def)

lemma pdu_load_unmarked: "pdu_load ds (unmarked d) = unmarked (pdu_load ds d)"
  by (cases d) simp_all

lemma set_air_unmarked: "set_air i out (unmarked d) = unmarked (set_air i out d)"
  by (cases d) simp_all

lemma blind_unmarked [simp]: "blind (unmarked d) = blind d"
  by (cases d) simp_all

lemma powered_index_unmarked: "powered_index (map unmarked ds) = powered_index ds"
proof -
  have 1: "List.map_filter (\<lambda>d. case d of Pdu p \<Rightarrow> Some p | _ \<Rightarrow> None) (map unmarked ds)
      = map (\<lambda>p. p\<lparr>dv_state := HEALTHY, dv_failure_mode := MODE_NONE\<rparr>)
          (List.map_filter (\<lambda>d. case d of Pdu p \<Rightarrow> Some p | _ \<Rightarrow> None) ds)"
  proof (induction ds)
    case (Cons d ds)
    then show ?case by (cases d) (simp_all add: map_filter_simps)
  qed (simp add: map_filter_simps)
  show ?thesis by (rule ext) (simp add: powered_index_def Let_def 1 filter_map comp_def)
qed

lemma modulate_hall_blind:
  "modulate_hall g wall (map_devices blind hall) r =
     (map_devices blind (fst (modulate_hall g wall hall r)), snd (modulate_hall g wall hall r))"
proof -
  have "modulate_rack g wall (rk\<lparr>rk_devices := map blind (rk_devices rk)\<rparr>) r =
      ((\<lambda>rk. rk\<lparr>rk_devices := map blind (rk_devices rk)\<rparr>) (fst (modulate_rack g wall rk r)), snd (modulate_rack g wall rk r))" for rk r
    by (simp add: modulate_rack_def thread_map [of "modulate g wall" blind blind, OF modulate_blind] split_beta Let_def)
  from thread_map [of "modulate_rack g wall" "\<lambda>rk. rk\<lparr>rk_devices := map blind (rk_devices rk)\<rparr>", OF this]
  show ?thesis by (simp add: modulate_hall_def map_devices_def split_beta Let_def)
qed

lemma compute_power_draw_blind: "compute_power_draw (map_devices blind hall) = map_devices unmarked (compute_power_draw hall)"
proof -
  have "pdu_load (map unmarked (map own_draw xs)) = pdu_load (map own_draw xs)" for xs
    by (rule pdu_load_cong) (rule powered_index_unmarked)
  then have "pdu_load (map (\<lambda>d. own_draw (blind d)) xs) (own_draw (blind d)) = unmarked (pdu_load (map own_draw xs) (own_draw d))" for xs d
    by (simp add: own_draw_blind comp_def pdu_load_unmarked)
  then show ?thesis by (simp add: compute_power_draw_def Let_def map_devices_map_devices comp_def)
qed

lemma compute_thermal_state_unmarked:
  "compute_thermal_state (map_devices unmarked hall) = map_devices unmarked (compute_thermal_state hall)"
proof -
  have "base_inlet (map_devices unmarked hall) = base_inlet hall"
    by (simp add: base_inlet_def comp_def)
  moreover have "update_rack b (rk\<lparr>rk_devices := map unmarked (rk_devices rk)\<rparr>) =
      (\<lambda>rk. rk\<lparr>rk_devices := map unmarked (rk_devices rk)\<rparr>) (update_rack b rk)" for b rk
    by (simp add: update_rack_def Let_def rack_delta_t_def delta_t_for_device_def set_air_unmarked comp_def)
  ultimately show ?thesis by (simp add: compute_thermal_state_def map_devices_def comp_def)
qed

lemma evolved_blind:
  "evolved g wall (map_devices blind hall) r = map_devices unmarked (evolved g wall hall r)"
  by (simp add: evolved_def physics_step_def modulate_hall_blind compute_power_draw_blind compute_thermal_state_unmarked)


text \<open>Halls that differ in marks and in the draws of servers only.\<close>

definition look_alike :: "data_hall \<Rightarrow> data_hall \<Rightarrow> bool" where
  "look_alike h h' \<longleftrightarrow> map_devices blind h = map_devices blind h'"

lemma emit_unmarked: "emit_for_device hall ts (unmarked d) = emit_for_device hall ts d"
proof -
  have "device_readings (unmarked d) = device_readings d" by (cases d) simp_all
  moreover have "device_event hall ts (unmarked d) = device_event hall ts d"
    by (rule ext) (cases d; simp add: device_event_def device.defs)
  ultimately show ?thesis by (simp add: emit_for_device_def)
qed

lemma collect_map: "collect f (map h xs) = collect (f \<circ> h) xs"
  by (induction xs) simp_all

lemma collect_cong: "(\<forall>x \<in> set xs. f x = g x) \<Longrightarrow> collect f xs = collect g xs"
  by (induction xs) simp_all

lemma emit_same_hall: "hl_site_id h = hl_site_id h' \<Longrightarrow> hl_id h = hl_id h' \<Longrightarrow> emit_for_device h = emit_for_device h'"
  by (intro ext) (simp add: emit_for_device_def device_event_def)

lemma tick_events_unmarked: "tick_events stamp (map_devices unmarked hall) = tick_events stamp hall"
proof -
  let ?n = "length (rack_dev_list hall)"
  have e: "emit_for_device (map_devices unmarked hall) = emit_for_device hall" by (rule emit_same_hall) simp_all
  have "map (\<lambda>(i, d). emit_for_device hall (stamp i) d) (enumerate 0 (map unmarked (rack_dev_list hall))) =
      map (\<lambda>(i, d). emit_for_device hall (stamp i) d) (enumerate 0 (rack_dev_list hall))"
    by (rule nth_equalityI) (simp_all add: nth_enumerate_eq emit_unmarked)
  then have "map (\<lambda>(i, d). emit_for_device hall (stamp i) d) (enumerate 0 (reported (map_devices unmarked hall))) =
      map (\<lambda>(i, d). emit_for_device hall (stamp i) d) (enumerate 0 (reported hall))"
    by (simp add: reported_def enumerate_append_eq)
  then have "collect id (map (\<lambda>(i, d). emit_for_device hall (stamp i) d) (enumerate 0 (reported (map_devices unmarked hall)))) =
      collect id (map (\<lambda>(i, d). emit_for_device hall (stamp i) d) (enumerate 0 (reported hall)))" by simp
  then show ?thesis by (simp add: tick_events_def e collect_map)
qed

lemma tick_look_alike:
  assumes "look_alike h h'"
  shows "fst (sim_tick g now stamp h r) = fst (sim_tick g now stamp h' r)"
    "look_alike (fst (snd (sim_tick g now stamp h r))) (fst (snd (sim_tick g now stamp h' r)))"
    "snd (snd (sim_tick g now stamp h r)) = snd (snd (sim_tick g now stamp h' r))"
proof -
  let ?e = "\<lambda>h. evolved g now h r"
  have e: "map_devices unmarked (?e h) = map_devices unmarked (?e h')"
    using assms evolved_blind by (metis look_alike_def)
  then have "tick_events stamp (?e h) = tick_events stamp (?e h')" by (metis tick_events_unmarked)
  then show "fst (sim_tick g now stamp h r) = fst (sim_tick g now stamp h' r)"
    by (simp add: sim_tick_def evolved_def physics_step_def split_beta Let_def)
  have "map_devices blind (map_devices unmarked x) = map_devices blind x" for x
    by (simp add: map_devices_map_devices comp_def)
  with e show "look_alike (fst (snd (sim_tick g now stamp h r))) (fst (snd (sim_tick g now stamp h' r)))"
    unfolding sim_tick_hall look_alike_def by metis
  have "snd (modulate_hall g now h r) = snd (modulate_hall g now h' r)"
    using assms modulate_hall_blind by (metis look_alike_def snd_conv)
  then show "snd (snd (sim_tick g now stamp h r)) = snd (snd (sim_tick g now stamp h' r))"
    by (simp add: sim_tick_def split_beta Let_def)
qed

lemma round_look_alike:
  assumes "list_all2 look_alike halls halls'"
  shows "fst (sim_round g now stamp i halls r) = fst (sim_round g now stamp i halls' r) \<and>
    list_all2 look_alike (fst (snd (sim_round g now stamp i halls r))) (fst (snd (sim_round g now stamp i halls' r))) \<and>
    snd (snd (sim_round g now stamp i halls r)) = snd (snd (sim_round g now stamp i halls' r))"
  using assms
proof (induction halls halls' arbitrary: i r rule: list_all2_induct)
  case (Cons h hs h' hs')
  note t = tick_look_alike [OF Cons.hyps(1), of g "now i" "stamp i" r]
  obtain a x r1 where 1: "sim_tick g (now i) (stamp i) h r = (a, x, r1)" by (metis prod_cases3)
  obtain x' where 2: "sim_tick g (now i) (stamp i) h' r = (a, x', r1)" and l: "look_alike x x'"
    using t 1 by (metis fst_conv snd_conv prod.collapse)
  note u = Cons.IH [of "Suc i" r1]
  obtain b y r2 where 3: "sim_round g now stamp (Suc i) hs r1 = (b, y, r2)" by (metis prod_cases3)
  obtain y' where 4: "sim_round g now stamp (Suc i) hs' r1 = (b, y', r2)" and m: "list_all2 look_alike y y'"
    using u 3 by (metis fst_conv snd_conv prod.collapse)
  show ?case using Cons.hyps(2) l m by (cases a; cases b) (simp_all add: 1 2 3 4)
qed simp

lemma rounds_look_alike:
  assumes "list_all2 look_alike halls halls'"
  shows "fst (sim_rounds g now stamp n halls r) = fst (sim_rounds g now stamp n halls' r) \<and>
    list_all2 look_alike (fst (snd (sim_rounds g now stamp n halls r))) (fst (snd (sim_rounds g now stamp n halls' r))) \<and>
    snd (snd (sim_rounds g now stamp n halls r)) = snd (snd (sim_rounds g now stamp n halls' r))"
proof (induction n)
  case (Suc n)
  obtain a x r1 where 1: "sim_rounds g now stamp n halls r = (a, x, r1)" by (metis prod_cases3)
  obtain x' where 2: "sim_rounds g now stamp n halls' r = (a, x', r1)" and l: "list_all2 look_alike x x'"
    using Suc 1 by (metis fst_conv snd_conv prod.collapse)
  note u = round_look_alike [OF l, of g "now n" "stamp n" 0 r1]
  obtain b y r2 where 3: "sim_round g (now n) (stamp n) 0 x r1 = (b, y, r2)" by (metis prod_cases3)
  obtain y' where 4: "sim_round g (now n) (stamp n) 0 x' r1 = (b, y', r2)" and m: "list_all2 look_alike y y'"
    using u 3 by (metis fst_conv snd_conv prod.collapse)
  show ?case using l m by (cases a; cases b) (simp_all add: 1 2 3 4)
qed (use assms in simp)


lemma map_update_same: "f y = f (xs ! k) \<Longrightarrow> map f (xs[k := y]) = map f xs"
  by (metis list_update_id map_update)

lemma psu_fail_look_alike: "look_alike (snd (inject hall x PSU_FAIL)) hall"
proof (cases "find_device hall x")
  case None
  then show ?thesis by (simp add: inject_def look_alike_def)
next
  case (Some a)
  obtain pl d where a: "a = (pl, d)" by (cases a)
  with Some have v: "valid_place hall pl d" using find_device_Some by blast
  show ?thesis
  proof (cases "\<exists>s. d = Server s")
    case False
    then have "psu_fail d = (d, Some (TypeError ''PSU_FAIL requires a Server device''))"
      by (cases d) (simp_all add: psu_fail_def for_server_def)
    with Some a put_same [OF v] show ?thesis by (simp add: inject_def look_alike_def)
  next
    case True
    then obtain s where d: "d = Server s" ..
    with v obtain k i where pl: "pl = InRack k i" by (cases pl) (auto simp: valid_place_def)
    let ?s = "Server (s\<lparr>dv_state := FAILED, dv_power_draw_w := 0, dv_failure_mode := PSU_FAIL\<rparr>)"
    let ?r = "hl_racks hall ! k"
    have e: "snd (inject hall x PSU_FAIL) = hall\<lparr>hl_racks := (hl_racks hall)[k := ?r\<lparr>rk_devices := (rk_devices ?r)[i := ?s]\<rparr>]\<rparr>"
      using Some a d pl by (simp add: inject_def psu_fail_def for_server_def Let_def)
    have "rk_devices ?r ! i = Server s" using v d pl by (simp add: valid_place_def)
    then have "blind ?s = blind (rk_devices ?r ! i)" by simp
    then have "map blind ((rk_devices ?r)[i := ?s]) = map blind (rk_devices ?r)" by (rule map_update_same)
    then have "map (\<lambda>r. r\<lparr>rk_devices := map blind (rk_devices r)\<rparr>) ((hl_racks hall)[k := ?r\<lparr>rk_devices := (rk_devices ?r)[i := ?s]\<rparr>]) =
        map (\<lambda>r. r\<lparr>rk_devices := map blind (rk_devices r)\<rparr>) (hl_racks hall)"
      by (intro map_update_same) simp
    then show ?thesis by (simp add: look_alike_def map_devices_def e)
  qed
qed

text \<open>A failed power supply never shows: whatever device \<open>PSU_FAIL\<close> is injected into, in whatever hall of a running
  simulator, every event it publishes from then on, round after round, is the one it would have published
  without the injection (the telemetry bears neither state nor mode, and the draw the injection sets to zero
  is computed anew from the utilisation before it is next reported).\<close>

lemma psu_fail_never_shows:
  "fst (sim_rounds g now stamp n (halls[k := snd (inject (halls ! k) x PSU_FAIL)]) r) = fst (sim_rounds g now stamp n halls r)"
proof -
  have "list_all2 look_alike (halls[k := snd (inject (halls ! k) x PSU_FAIL)]) halls"
    using psu_fail_look_alike [of "halls ! k" x]
    by (cases "k < length halls") (auto simp: list_all2_conv_all_nth nth_list_update look_alike_def)
  then show ?thesis by (rule rounds_look_alike [THEN conjunct1])
qed

section \<open>Load over time\<close>

text \<open>The utilisation of one device over \<open>n\<close> ticks: each starts from what the one before left.\<close>

fun utilisation :: "'r rng \<Rightarrow> (nat \<Rightarrow> real) \<Rightarrow> nat \<Rightarrow> real \<Rightarrow> 'r \<Rightarrow> real \<times> 'r" where
  "utilisation g wall 0 u r = (u, r)"
| "utilisation g wall (Suc n) u r =
     (let (u1, r1) = utilisation g wall n u r in apply_load_modulation g (4 / 10) u1 (wall n) r1)"

lemma modulation_factor:
  "fst (apply_load_modulation g (4 / 10) u wall r) = max 0 (u * (1 + 8 / 10 * (fst (load_multiplier g wall r) - 1 / 2)))"
  by (simp add: apply_load_modulation_def split_beta Let_def algebra_simps)

lemma utilisation_nonneg: "0 \<le> u \<Longrightarrow> 0 \<le> fst (utilisation g wall n u r)"
  by (cases n) (simp_all add: split_beta apply_load_modulation_nonneg)

lemma utilisation_grows:
  assumes "0 \<le> u" "0 \<le> c" "\<forall>i r. 1 / 2 + c \<le> fst (load_multiplier g (day i) r)"
  shows "u * (1 + 8 / 10 * c) ^ n \<le> fst (utilisation g day n u r)"
proof (induction n)
  case (Suc n)
  obtain v r1 where v: "utilisation g day n u r = (v, r1)" by fastforce
  with Suc have ge: "u * (1 + 8 / 10 * c) ^ n \<le> v" by simp
  let ?f = "1 + 8 / 10 * (fst (load_multiplier g (day n) r1) - 1 / 2)"
  have "c \<le> fst (load_multiplier g (day n) r1) - 1 / 2" using assms(3) by (smt (verit))
  then have "1 + 8 / 10 * c \<le> ?f" by simp
  with ge have "u * (1 + 8 / 10 * c) ^ n * (1 + 8 / 10 * c) \<le> v * ?f"
    using assms(1,2) utilisation_nonneg [OF assms(1), of g day n r] v by (intro mult_mono) auto
  moreover have "fst (utilisation g day (Suc n) u r) = max 0 (v * ?f)"
    by (simp only: utilisation.simps v Let_def prod.case modulation_factor)
  ultimately show ?case by (simp add: mult_ac)
qed simp

lemma utilisation_decays:
  assumes "0 \<le> u" "0 \<le> c" "c \<le> 1" "\<forall>i r. fst (load_multiplier g (night i) r) \<le> 1 / 2 - c"
  shows "fst (utilisation g night n u r) \<le> u * (1 - 8 / 10 * c) ^ n"
proof (induction n)
  case (Suc n)
  obtain v r1 where v: "utilisation g night n u r = (v, r1)" by fastforce
  have v0: "0 \<le> v" using utilisation_nonneg [OF assms(1), of g night n r] v by simp
  from Suc v have le: "v \<le> u * (1 - 8 / 10 * c) ^ n" by simp
  let ?f = "1 + 8 / 10 * (fst (load_multiplier g (night n) r1) - 1 / 2)"
  have "fst (load_multiplier g (night n) r1) - 1 / 2 \<le> - c" using assms(4) by (smt (verit))
  then have f: "?f \<le> 1 - 8 / 10 * c" by simp
  have c: "0 \<le> 1 - 8 / 10 * c" using assms(3) by simp
  have "v * ?f \<le> v * (1 - 8 / 10 * c)" using f v0 by (rule mult_left_mono)
  also have "\<dots> \<le> u * (1 - 8 / 10 * c) ^ n * (1 - 8 / 10 * c)" using le c by (rule mult_right_mono)
  finally have "v * ?f \<le> u * (1 - 8 / 10 * c) ^ Suc n" by (simp add: mult_ac)
  moreover have "0 \<le> u * (1 - 8 / 10 * c) ^ Suc n" using assms(1) c by simp
  moreover have "fst (utilisation g night (Suc n) u r) = max 0 (v * ?f)"
    by (simp only: utilisation.simps v Let_def prod.case modulation_factor)
  ultimately show ?case by simp
qed simp

text \<open>The load pattern compounds: it is applied to the utilisation it produced at the tick before, so while the
  multiplier stays at least \<open>c\<close> above one half, a utilisation grows at least by the factor \<open>1 + 0.8 c\<close> a tick
  and passes every bound, 100 per cent among them; while it stays at least \<open>c\<close> below one half, it decays
  geometrically and falls below every positive bound.\<close>

lemma utilisation_compounds:
  assumes "0 < u" and "0 < c" and "c \<le> 1" and "0 < b"
    and "\<forall>i r. 1 / 2 + c \<le> fst (load_multiplier g (day i) r)"
    and "\<forall>i r. fst (load_multiplier g (night i) r) \<le> 1 / 2 - c"
  shows "(\<forall>n. u * (1 + 8 / 10 * c) ^ n \<le> fst (utilisation g day n u r) \<and>
              fst (utilisation g night n u r) \<le> u * (1 - 8 / 10 * c) ^ n) \<and>
    (\<exists>n. B < fst (utilisation g day n u r)) \<and> (\<exists>n. fst (utilisation g night n u r) < b)"
proof -
  have up: "u * (1 + 8 / 10 * c) ^ n \<le> fst (utilisation g day n u r)" for n
    using assms by (intro utilisation_grows) auto
  have down: "fst (utilisation g night n u r) \<le> u * (1 - 8 / 10 * c) ^ n" for n
    using assms by (intro utilisation_decays) auto
  obtain n where "B / u < (1 + 8 / 10 * c) ^ n" using real_arch_pow [of "1 + 8 / 10 * c" "B / u"] assms(2) by auto
  then have n: "B < u * (1 + 8 / 10 * c) ^ n" using assms(1) by (simp add: pos_divide_less_eq mult.commute)
  obtain m where "(1 - 8 / 10 * c) ^ m < b / u" using real_arch_pow_inv [of "b / u" "1 - 8 / 10 * c"] assms(1,2,4) by auto
  then have m: "u * (1 - 8 / 10 * c) ^ m < b" using assms(1) by (simp add: pos_less_divide_eq mult.commute)
  from up down less_le_trans [OF n up] le_less_trans [OF down m] show ?thesis by blast
qed

text \<open>A Monday at two in the afternoon, and at two at night.\<close>

lemma afternoon: "fst (load_multiplier low_rng 396000 r) = 3 / 4"
  by (simp add: load_multiplier_def jitter_def low_rng_def diurnal_load_def hour_of_def minute_of_def weekly_modulation_def
      weekday_of_def)

lemma small_hours: "fst (load_multiplier low_rng 352800 r) = 1 / 4"
  by (simp add: load_multiplier_def jitter_def low_rng_def diurnal_load_def hour_of_def minute_of_def weekly_modulation_def
      weekday_of_def)

lemma utilisation_compounds_witness:
  "(\<exists>n. 100 < fst (utilisation low_rng (\<lambda>i. 396000) n 50 0)) \<and> (\<exists>n. fst (utilisation low_rng (\<lambda>i. 352800) n 50 0) < 1)"
proof -
  have 1: "\<forall>(i::nat) r. 1 / 2 + 1 / 4 \<le> fst (load_multiplier low_rng ((\<lambda>i. 396000) i) r)" by (simp add: afternoon)
  have 2: "\<forall>(i::nat) r. fst (load_multiplier low_rng ((\<lambda>i. 352800) i) r) \<le> 1 / 2 - 1 / 4" by (simp add: small_hours)
  have "(0::real) < 50" "(0::real) < 1 / 4" "1 / 4 \<le> (1::real)" "(0::real) < 1" by simp_all
  from utilisation_compounds [OF this 1 2, of 0 100] show ?thesis by blast
qed

section \<open>Names\<close>

lemma thread_all2: "(\<forall>x \<in> set xs. \<forall>r1. P x (fst (f x r1))) \<Longrightarrow> list_all2 P xs (fst (thread f xs r))"
  by (induction xs arbitrary: r) (simp_all add: split_beta)

lemma distinct_concat_prefix:
  assumes "list_all2 (\<lambda>p ys. distinct ys \<and> (\<forall>y \<in> set ys. prefix p y)) ps yss" "distinct ps" "\<forall>p \<in> set ps. length p = n"
  shows "distinct (concat yss)"
  using assms
proof (induction rule: list_all2_induct)
  case (Cons p ps ys yss)
  have "y \<notin> set (concat yss)" if y: "y \<in> set ys" for y
  proof
    assume "y \<in> set (concat yss)"
    then obtain zs where zs: "zs \<in> set yss" "y \<in> set zs" by auto
    then obtain i where i: "i < length yss" "yss ! i = zs" by (metis in_set_conv_nth)
    with Cons.hyps(2) zs have "prefix (ps ! i) y" "ps ! i \<in> set ps" by (auto simp: list_all2_conv_all_nth)
    moreover from y Cons.hyps(1) have "prefix p y" by simp
    ultimately have "ps ! i = p" using Cons.prems(2) by (auto simp: prefix_def append_eq_append_conv)
    with \<open>ps ! i \<in> set ps\<close> Cons.prems(1) show False by simp
  qed
  with Cons show ?case by auto
qed simp

text \<open>The last parts of the ids of a server and its GPUs, and of a rack with as many GPUs as it may have.\<close>

definition server_tags :: "nat \<Rightarrow> nat \<Rightarrow> string list" where
  "server_tags s n = (''-srv'' @ two_digits (s + 1)) # map (\<lambda>k. ''-srv'' @ two_digits (s + 1) @ ''-gpu'' @ str_of_nat (k + 1)) [0..<n]"

definition rack_tags :: "string list" where
  "rack_tags = [''-tor'', ''-pdu-a'', ''-pdu-b''] @ concat (map (\<lambda>s. server_tags s 8) [0..<10])"

lemma server_tags_mono: "n \<le> m \<Longrightarrow> subseq (server_tags s n) (server_tags s m)"
  using upt_add_eq_append [of 0 n "m - n"] by (simp add: server_tags_def prefix_imp_subseq)

lemma subseq_concat: "list_all2 subseq xss yss \<Longrightarrow> subseq (concat xss) (concat yss)"
  by (induction rule: list_all2_induct) (auto intro: list_emb_append_mono)

lemma distinct_rack_tags: "distinct rack_tags"
  by code_simp

lemma build_server_shape:
  "\<exists>srv b. fst (build_server g site rack_id s r) = Server srv # b \<and> dv_id srv = server_id rack_id s \<and>
     (b = [] \<or> (\<exists>r1 r2. b = fst (thread (build_gpu g rack_id (server_id rack_id s)) [0..<fst (rg_choice g [1, 2, 4, 8] r1)] r2)))"
  by (auto simp: build_server_def split_beta Let_def new_device_def device.defs server.defs)

lemma build_server_ids:
  assumes "rng_lawful g"
  shows "subseq (map dev_id (fst (build_server g site rack_id s r))) (map ((@) rack_id) (server_tags s 8))"
proof -
  obtain n where n: "n \<le> 8" and e: "map dev_id (fst (build_server g site rack_id s r)) = map ((@) rack_id) (server_tags s n)"
  proof -
    have c: "fst (rg_choice g [1, 2, 4, 8::nat] r1) \<le> 8" for r1 using rg_choice_in [OF assms, of "[1, 2, 4, 8::nat]" r1] by auto
    have m: "map dev_id (fst (thread (build_gpu g rack_id (server_id rack_id s)) [0..<n] r1)) =
        map (\<lambda>k. server_id rack_id s @ ''-gpu'' @ str_of_nat (k + 1)) [0..<n]" for n r1
      by (rule map_thread) (use build_gpu_fine [OF assms refl] in simp)
    obtain srv b where ab: "fst (build_server g site rack_id s r) = Server srv # b" "dv_id srv = server_id rack_id s"
      and b: "b = [] \<or> (\<exists>r1 r2. b = fst (thread (build_gpu g rack_id (server_id rack_id s)) [0..<fst (rg_choice g [1, 2, 4, 8] r1)] r2))"
      using build_server_shape [of g site rack_id s r] by blast
    from b obtain n where "n \<le> 8" "map dev_id b = map (\<lambda>k. server_id rack_id s @ ''-gpu'' @ str_of_nat (k + 1)) [0..<n]"
    proof (elim disjE exE conjE)
      assume "b = []"
      then show ?thesis using that [of 0] by simp
    next
      fix r1 r2
      assume "b = fst (thread (build_gpu g rack_id (server_id rack_id s)) [0..<fst (rg_choice g [1, 2, 4, 8] r1)] r2)"
      then show ?thesis using that [OF c] m by simp
    qed
    then show ?thesis using ab by (intro that [of n]) (simp_all add: server_tags_def server_id_def device.defs)
  qed
  show ?thesis unfolding e by (intro subseq_map server_tags_mono n)
qed

lemma build_rack_ids:
  assumes "rng_lawful g"
  shows "distinct (map dev_id (rk_devices (fst (build_rack g site hall_id i r)))) \<and>
    (\<forall>x \<in> set (map dev_id (rk_devices (fst (build_rack g site hall_id i r)))). prefix (rack_name hall_id i) x)"
proof -
  let ?id = "rack_name hall_id i" and ?groups = "fst (thread (build_server g site (rack_name hall_id i)) [0..<10] r)"
  have "list_all2 (\<lambda>s ds. subseq (map dev_id ds) (map ((@) ?id) (server_tags s 8))) [0..<10] ?groups"
    by (rule thread_all2) (use build_server_ids [OF assms] in blast)
  then have "list_all2 subseq (map (map dev_id) ?groups) (map (\<lambda>s. map ((@) ?id) (server_tags s 8)) [0..<10])"
    by (simp add: list_all2_conv_all_nth)
  from subseq_concat [OF this]
  have "subseq (map dev_id (concat ?groups)) (map ((@) ?id) (concat (map (\<lambda>s. server_tags s 8) [0..<10])))"
    by (simp add: map_concat comp_def)
  then have s: "subseq (map dev_id (rk_devices (fst (build_rack g site hall_id i r)))) (map ((@) ?id) rack_tags)"
    by (simp add: build_rack_def split_beta Let_def rack_tags_def build_tor_def build_pdu_def new_device_def
        device.defs switch.defs pdu.defs)
  have "distinct (map ((@) ?id) rack_tags)" using distinct_rack_tags by (simp add: distinct_map inj_on_def)
  with s have "distinct (map dev_id (rk_devices (fst (build_rack g site hall_id i r))))" by (rule distinct_subseq)
  moreover have "set (map dev_id (rk_devices (fst (build_rack g site hall_id i r)))) \<subseteq> set (map ((@) ?id) rack_tags)"
    by (rule subsetI) (use list_emb_set [OF s] in blast)
  ultimately show ?thesis by fastforce
qed


lemma build_hall_ids:
  assumes g: "rng_lawful g" and n: "ss_racks_per_hall site = 10"
  shows "distinct (map dev_id (reported (fst (build_hall g site h r)))) \<and>
    (\<forall>x \<in> set (map dev_id (reported (fst (build_hall g site h r)))). prefix (hall_name site h) x)"
proof -
  let ?id = "hall_name site h" and ?racks = "fst (thread (build_rack g site (hall_name site h)) [0..<10] r)"
  let ?names = "map (rack_name ?id) [0..<10]"
  have "list_all2 (\<lambda>i rk. distinct (map dev_id (rk_devices rk)) \<and> (\<forall>x \<in> set (map dev_id (rk_devices rk)). prefix (rack_name ?id i) x))
      [0..<10] ?racks"
    by (rule thread_all2) (use build_rack_ids [OF g] in blast)
  then have a2: "list_all2 (\<lambda>p ys. distinct ys \<and> (\<forall>y \<in> set ys. prefix p y)) ?names (map (\<lambda>rk. map dev_id (rk_devices rk)) ?racks)"
    by (simp add: list_all2_conv_all_nth)
  have tags: "distinct (map (\<lambda>i. two_digits (i + 1)) [0..<10]) \<and> (\<forall>t \<in> set (map (\<lambda>i. two_digits (i + 1)) [0..<10]). length t = 2)"
    by code_simp
  have "distinct ?names" using tags by (simp add: rack_name_def distinct_map inj_on_def)
  moreover have "\<forall>p \<in> set ?names. length p = length ?id + 4" using tags by (auto simp: rack_name_def)
  ultimately have d: "distinct (concat (map (\<lambda>rk. map dev_id (rk_devices rk)) ?racks))"
    by (rule distinct_concat_prefix [OF a2])
  have e: "map dev_id (reported (fst (build_hall g site h r))) =
      concat (map (\<lambda>rk. map dev_id (rk_devices rk)) ?racks) @ [?id @ ''-crac1'']"
    by (simp add: reported_def rack_dev_list_def build_hall_def split_beta Let_def n map_concat comp_def
        build_crac_def new_device_def device.defs crac_unit.defs)
  have p: "prefix (?id @ ''-r'') x" if x: "x \<in> set (concat (map (\<lambda>rk. map dev_id (rk_devices rk)) ?racks))" for x
  proof -
    from x obtain rk where "rk \<in> set ?racks" "x \<in> set (map dev_id (rk_devices rk))" by auto
    moreover from in_thread [OF this(1)] obtain i r1 where "rk = fst (build_rack g site ?id i r1)" by blast
    ultimately have "prefix (rack_name ?id i) x" using build_rack_ids [OF g] by blast
    then show ?thesis by (auto simp: rack_name_def prefix_def)
  qed
  have "?id @ ''-crac1'' \<notin> set (concat (map (\<lambda>rk. map dev_id (rk_devices rk)) ?racks))"
    using p [of "?id @ ''-crac1''"] by auto
  moreover have "prefix ?id x" if "x \<in> set (concat (map (\<lambda>rk. map dev_id (rk_devices rk)) ?racks))" for x
    using p [OF that] by (auto simp: prefix_def)
  ultimately show ?thesis unfolding e using d by auto
qed

text \<open>The devices of a shipped site have one id each, over all its halls, racks and CRAC units, so that what
  \<open>_find_device\<close> finds for an id is the only device with it. Every hall holds its racks and one CRAC unit.\<close>

lemma built_ids_unique:
  assumes "rng_lawful g" and "get_site name = Inr site"
  shows "distinct (map dev_id (concat (map reported (build_halls g seed site)))) \<and>
    length (build_halls g seed site) = ss_halls site \<and>
    (\<forall>hall \<in> set (build_halls g seed site). length (hl_racks hall) = ss_racks_per_hall site \<and> length (hl_crac_units hall) = 1)"
proof -
  from get_site_Inr [OF assms(2)] have s: "ss_racks_per_hall site = 10" "ss_halls site = 2"
    by (auto simp: SITES_def)
  let ?halls = "fst (thread (build_hall g site) [0..<2] seed)"
  have "list_all2 (\<lambda>h hall. distinct (map dev_id (reported hall)) \<and> (\<forall>x \<in> set (map dev_id (reported hall)). prefix (hall_name site h) x))
      [0..<2] ?halls"
    by (rule thread_all2) (use build_hall_ids [OF assms(1) s(1)] in blast)
  then have a2: "list_all2 (\<lambda>p ys. distinct ys \<and> (\<forall>y \<in> set ys. prefix p y)) (map (hall_name site) [0..<2])
      (map (\<lambda>hall. map dev_id (reported hall)) ?halls)"
    by (simp add: list_all2_conv_all_nth)
  have tags: "distinct (map (\<lambda>i. str_of_nat (i + 1)) [0..<2]) \<and> (\<forall>t \<in> set (map (\<lambda>i. str_of_nat (i + 1)) [0..<2]). length t = 1)"
    by code_simp
  have "distinct (map (hall_name site) [0..<2])" using tags by (simp add: hall_name_def distinct_map inj_on_def)
  moreover have "\<forall>p \<in> set (map (hall_name site) [0..<2]). length p = length (ss_id site) + 3" using tags by (auto simp: hall_name_def)
  ultimately have "distinct (concat (map (\<lambda>hall. map dev_id (reported hall)) ?halls))"
    by (rule distinct_concat_prefix [OF a2])
  then have "distinct (map dev_id (concat (map reported (build_halls g seed site))))"
    by (simp add: build_halls_def s(2) map_concat comp_def)
  moreover have "length (hl_racks hall) = ss_racks_per_hall site \<and> length (hl_crac_units hall) = 1"
    if "hall \<in> set (build_halls g seed site)" for hall
    using that by (auto simp: build_halls_def build_hall_def split_beta Let_def dest!: in_thread)
  ultimately show ?thesis by (simp add: build_halls_def)
qed

lemma built_ids_unique_witness:
  "\<exists>site. get_site ''mumbai'' = Inr site \<and> distinct (map dev_id (concat (map reported (build_halls low_rng 0 site))))"
proof -
  obtain site where s: "get_site ''mumbai'' = Inr site" by (simp add: get_site_def SITES_def)
  from built_ids_unique [OF low_rng_lawful s, of 0] s show ?thesis by blast
qed

end
