(* ===== verification/Vision.thy ===== *)
theory Vision
  imports Quality Retrieval Normalizers
begin

text \<open>
  The Vision agent (\<open>apps/agents/vision/main.py\<close>): images and a context become a structured finding, checked by a
  critic and against the knowledge graph, cached under a digest of the request and published.

  The state is that of the language model client and of the cache's collection, as for the Forensic agent.
  \<open>b64decode\<close> is the library's decoder in its strict mode (Python 3.11), where a text that is not Base64 is
  \<open>None\<close>; SHA-256 is a parameter, from bytes to the hexadecimal digest.
\<close>

record vision_config =
  vc_site_id :: string
  vc_verifier :: bool
  vc_kg_ground :: bool
  vc_critic_system :: string

record ('s, 'c) vision_env =
  ve_call :: "llm_request \<Rightarrow> 's \<Rightarrow> llm_result res \<times> 's"
  ve_chroma :: "'c chroma"
  ve_cache :: semantic_cache
  ve_sha256 :: "string \<Rightarrow> string"
  ve_kg :: knowledge_graph
  ve_parse :: "string \<Rightarrow> string + vision_finding"
  ve_dump :: "vision_finding \<Rightarrow> string"
  ve_schema :: pyval
  ve_schema_json :: string
  ve_py_str :: "pyval \<Rightarrow> string"
  ve_parse_uuid :: "string \<Rightarrow> uuid option"

record ('s, 'c) vision_state =
  vs_llm :: 's
  vs_cache :: 'c
  vs_next_id :: uuid

definition VISION_TOPIC_OUT :: string where "VISION_TOPIC_OUT = ''incidents.vision_addendum''"

definition VISION_SYSTEM :: string where
  "VISION_SYSTEM =
     ''You are the Vision agent. Inspect the supplied image plus incident ''
     @ ''context and produce a structured finding. Only reference device IDs ''
     @ ''that appear in the supplied context. Cite concrete visual observations ''
     @ ''(LEDs, smoke, deformation, panel readings) '' @ em_dash @ '' do not speculate.''"

section \<open>The request\<close>

definition vision_extract :: "pyval \<Rightarrow> dict option" where
  "vision_extract event =
     (case event of
        PDict d \<Rightarrow> if ''context'' \<notin> fst ` set d \<and> ''images'' \<notin> fst ` set d then None else Some d
      | _ \<Rightarrow> None)"

text \<open>Base64: the value of a digit, and the scan with the digits read of the group, the pads seen in a row,
  whether one has been seen at all, and the bits left over.\<close>

definition b64_value :: "char \<Rightarrow> nat option" where
  "b64_value c =
     (let n = of_char c :: nat
      in if 65 \<le> n \<and> n \<le> 90 then Some (n - 65)
         else if 97 \<le> n \<and> n \<le> 122 then Some (n - 71)
         else if 48 \<le> n \<and> n \<le> 57 then Some (n + 4)
         else if n = 43 then Some 62 else if n = 47 then Some 63 else None)"

fun b64_scan :: "nat \<Rightarrow> nat \<Rightarrow> bool \<Rightarrow> nat \<Rightarrow> string \<Rightarrow> string option" where
  "b64_scan quad pads padded left [] = (if quad = 0 then Some [] else None)"
| "b64_scan quad pads padded left (c # cs) =
     (if c = CHR ''=''
      then if 2 \<le> quad \<and> 4 \<le> quad + (pads + 1)
           then if cs = [] then Some [] else None
           else b64_scan quad (if 2 \<le> quad then pads + 1 else pads) True left cs
      else case b64_value c of
             None \<Rightarrow> None
           | Some v \<Rightarrow>
               if padded then None
               else if quad = 0 then b64_scan 1 0 False v cs
               else if quad = 1 then map_option ((#) (char_of (left * 4 + v div 16))) (b64_scan 2 0 False (v mod 16) cs)
               else if quad = 2 then map_option ((#) (char_of (left * 16 + v div 4))) (b64_scan 3 0 False (v mod 4) cs)
               else map_option ((#) (char_of (left * 64 + v))) (b64_scan 0 0 False 0 cs))"

definition b64decode :: "string \<Rightarrow> string option" where
  "b64decode s = (case s of c # cs \<Rightarrow> if c = CHR ''='' then None else b64_scan 0 0 False 0 s | [] \<Rightarrow> Some [])"

text \<open>\<open>n.to_bytes(8, "big")\<close>, for \<open>n\<close> below \<open>2 ^ 64\<close>.\<close>

definition be8 :: "nat \<Rightarrow> string" where
  "be8 n = map (\<lambda>i. char_of (n div 256 ^ (7 - i) mod 256)) [0..<8]"

text \<open>What is hashed: the context, a NUL, and every image that is a text, decoded where it is Base64, behind its
  length.\<close>

definition image_bytes :: "pyval \<Rightarrow> string option" where
  "image_bytes img = (case img of PStr s \<Rightarrow> Some (case b64decode s of Some raw \<Rightarrow> raw | None \<Rightarrow> s) | _ \<Rightarrow> None)"

definition frame :: "string \<Rightarrow> string" where
  "frame raw = be8 (length raw) @ raw"

definition digest_input :: "string \<Rightarrow> string list \<Rightarrow> string" where
  "digest_input ctx raws = ctx @ [CHR 0x00] @ concat (map frame raws)"

definition vision_cache_key :: "(string \<Rightarrow> string) \<Rightarrow> (pyval \<Rightarrow> string) \<Rightarrow> dict \<Rightarrow> string res" where
  "vision_cache_key sha256 py_str request =
     (let ctx = shown py_str (get_def request ''context'' (PStr []))
      in res_bind (j_iter (j_or (get_def request ''images'' PNone) (PList []))) (\<lambda>images.
           Inr (''vision:'' @ take 32 (sha256 (digest_input ctx (List.map_filter image_bytes images))))))"

section \<open>The analysis\<close>

definition vision_prompt :: "(pyval \<Rightarrow> string) \<Rightarrow> dict \<Rightarrow> pyval list res" where
  "vision_prompt py_str request =
     res_bind (j_iter (get_def request ''images'' (PList []))) (\<lambda>images.
       Inr [PDict [(''role'', PStr ''user''),
         (''content'', PList
            (PDict [(''type'', PStr ''text''),
                    (''text'', PStr (''Incident context:'' @ newline @ shown py_str (get_def request ''context'' (PStr []))))]
             # map (\<lambda>img. PDict [(''type'', PStr ''image''), (''image'', img)]) images))]])"

definition vision_request :: "pyval list \<Rightarrow> llm_request" where
  "vision_request msgs =
     \<lparr>rq_task_class = MULTIMODAL, rq_system = VISION_SYSTEM, rq_messages = msgs, rq_max_tokens = 1024,
      rq_force_tier = Some SONNET, rq_temperature = Some 0, rq_response_format = None\<rparr>"

definition ask_vision :: "('s, 'c) vision_env \<Rightarrow> pyval list \<Rightarrow> int \<Rightarrow> 's \<Rightarrow> (vision_finding \<times> llm_result) res \<times> 's" where
  "ask_vision env msgs max_retries s =
     call_structured (ve_call env) (validate_answer (ve_parse env) vision_finding_ok) (ve_schema env)
       (ve_schema_json env) (vision_request msgs) max_retries s"

definition verify_finding :: "vision_config \<Rightarrow> ('s, 'c) vision_env \<Rightarrow> vision_finding \<Rightarrow> pyval list \<Rightarrow> 's \<Rightarrow>
    vision_finding res \<times> 's" where
  "verify_finding cfg env finding msgs s =
     (let review = msgs @ [message ''assistant'' (ve_dump env finding),
            message ''user''
              (''Review the above finding against the image evidence. ''
               @ ''If anything is unsupported by what is actually visible, ''
               @ ''return a corrected JSON finding.'')]
      in case with_verifier (ve_call env) (ve_py_str env) \<lparr>cr_system = vc_critic_system cfg, cr_tier = None\<rparr>
                (vision_request review) 1 s of
           (Inl e, s1) \<Rightarrow> (Inl e, s1)
         | (Inr verified, s1) \<Rightarrow>
             (case validate_answer (ve_parse env) vision_finding_ok (lr_text verified) of
                Inl exc \<Rightarrow> (Inr finding, s1)
              | Inr better \<Rightarrow> (Inr better, s1)))"

definition ground_finding :: "('s, 'c) vision_env \<Rightarrow> vision_finding \<Rightarrow> pyval list \<Rightarrow> 's \<Rightarrow> vision_finding res \<times> 's" where
  "ground_finding env finding msgs s =
     (let unknown = kg_validate_device_ids (ve_kg env) (vf_affected_device_ids finding)
      in if unknown = [] then (Inr finding, s)
         else let hint = format_grounding_errors [] unknown []
              in case ask_vision env (msgs @ [message ''assistant'' (ve_dump env finding),
                            message ''user'' (case hint of None \<Rightarrow> [] | Some h \<Rightarrow> h)]) 1 s of
                   (Inr (revised, result), s1) \<Rightarrow> (Inr revised, s1)
                 | (Inl (StructuredOutputError exc), s1) \<Rightarrow> (Inr finding, s1)
                 | (Inl e, s1) \<Rightarrow> (Inl e, s1))"

definition cached_finding :: "('s, 'c) vision_env \<Rightarrow> string \<Rightarrow> 'c \<Rightarrow> vision_finding option" where
  "cached_finding env key c =
     (case cache_get (ve_chroma env) (ve_cache env) key c of
        None \<Rightarrow> None
      | Some text \<Rightarrow>
          (case validate_answer (ve_parse env) vision_finding_ok text of Inl exc \<Rightarrow> None | Inr f \<Rightarrow> Some f))"

text \<open>The three stages behind the cache.\<close>

definition produce_finding :: "vision_config \<Rightarrow> ('s, 'c) vision_env \<Rightarrow> pyval list \<Rightarrow> 's \<Rightarrow> vision_finding res \<times> 's" where
  "produce_finding cfg env msgs s =
     (case ask_vision env msgs 2 s of
        (Inl e, s1) \<Rightarrow> (Inl e, s1)
      | (Inr (finding, result), s1) \<Rightarrow>
          (case (if vc_verifier cfg then verify_finding cfg env finding msgs s1 else (Inr finding, s1)) of
             (Inl e, s2) \<Rightarrow> (Inl e, s2)
           | (Inr verified, s2) \<Rightarrow>
               if vc_kg_ground cfg \<and> vf_affected_device_ids verified \<noteq> []
               then ground_finding env verified msgs s2 else (Inr verified, s2)))"

definition vision_analyze :: "vision_config \<Rightarrow> ('s, 'c) vision_env \<Rightarrow> dict \<Rightarrow> ('s, 'c) vision_state \<Rightarrow>
    vision_finding res \<times> ('s, 'c) vision_state" where
  "vision_analyze cfg env request st =
     (case vision_cache_key (ve_sha256 env) (ve_py_str env) request of
        Inl e \<Rightarrow> (Inl e, st)
      | Inr key \<Rightarrow>
          (case cached_finding env key (vs_cache st) of
             Some finding \<Rightarrow> (Inr finding, st)
           | None \<Rightarrow>
               (case vision_prompt (ve_py_str env) request of
                  Inl e \<Rightarrow> (Inl e, st)
                | Inr msgs \<Rightarrow>
                    (case produce_finding cfg env msgs (vs_llm st) of
                       (Inl e, s1) \<Rightarrow> (Inl e, st\<lparr>vs_llm := s1\<rparr>)
                     | (Inr finding, s1) \<Rightarrow>
                         (Inr finding,
                          st\<lparr>vs_llm := s1,
                             vs_cache := cache_put (ve_sha256 env) (ve_chroma env) (ve_cache env) key (ve_dump env finding)
                               [(''agent'', PStr ''vision''), (''site_id'', PStr (vc_site_id cfg))] (vs_cache st)\<rparr>)))))"

section \<open>The addendum\<close>

definition incident_of_request :: "('s, 'c) vision_env \<Rightarrow> dict \<Rightarrow> uuid option" where
  "incident_of_request env request =
     (let raw = get_def request ''incident_id'' PNone
      in if truthy raw then ve_parse_uuid env (shown (ve_py_str env) raw) else None)"

definition vision_addendum :: "vision_config \<Rightarrow> ('s, 'c) vision_env \<Rightarrow> real \<Rightarrow> uuid \<Rightarrow> dict \<Rightarrow> vision_finding \<Rightarrow>
    incident_vision_addendum" where
  "vision_addendum cfg env now eid request finding =
     bus_event.extend
       (envelope eid now (vc_site_id cfg) None None
          (case map_of request ''request_id'' of Some (PStr rid) \<Rightarrow> [(''request_id'', PStr rid)] | _ \<Rightarrow> []))
       (incident_vision_addendum.fields (incident_of_request env request) (vf_finding_summary finding)
          (vf_affected_device_ids finding) (severity_value (vf_severity finding)) (vf_confidence finding)
          (vf_evidence_observations finding))"

definition vision_handle :: "vision_config \<Rightarrow> ('s, 'c) vision_env \<Rightarrow> real \<Rightarrow> pyval \<Rightarrow> ('s, 'c) vision_state \<Rightarrow>
    bus_msg effect list \<times> ('s, 'c) vision_state \<times> py_error option" where
  "vision_handle cfg env now event st =
     (case vision_extract event of
        None \<Rightarrow> ([], st, None)
      | Some request \<Rightarrow>
          (case vision_analyze cfg env request st of
             (Inl (StructuredOutputError exc), st1) \<Rightarrow> ([], st1, None)
           | (Inl e, st1) \<Rightarrow> ([], st1, Some e)
           | (Inr finding, st1) \<Rightarrow>
               ([Publish VISION_TOPIC_OUT (MVision (vision_addendum cfg env now (vs_next_id st1) request finding))],
                st1\<lparr>vs_next_id := Suc (vs_next_id st1)\<rparr>, None)))"


section \<open>Lemmas\<close>

lemma ask_vision_ok: "ask_vision env msgs k s = (Inr (a, r), s') \<Longrightarrow> vision_finding_ok a"
  unfolding ask_vision_def by (auto simp: validate_answer_Inr dest!: structured_validated)

lemma verify_finding_ok:
  "verify_finding cfg env f msgs s = (Inr a, s') \<Longrightarrow> vision_finding_ok f \<Longrightarrow> vision_finding_ok a"
  by (auto simp: verify_finding_def Let_def validate_answer_Inr split: prod.splits sum.splits)

lemma ground_finding_ok: "ground_finding env f msgs s = (Inr a, s') \<Longrightarrow> vision_finding_ok f \<Longrightarrow> vision_finding_ok a"
  by (auto simp: ground_finding_def Let_def split: prod.splits sum.splits if_splits py_error.splits dest: ask_vision_ok)

lemma produce_finding_ok: "produce_finding cfg env msgs s = (Inr a, s') \<Longrightarrow> vision_finding_ok a"
  by (auto simp: produce_finding_def split: prod.splits sum.splits if_splits
      dest: ask_vision_ok intro: ground_finding_ok verify_finding_ok)

lemma vision_analyze_ok: "vision_analyze cfg env request st = (Inr a, st') \<Longrightarrow> vision_finding_ok a"
  by (auto simp: vision_analyze_def cached_finding_def validate_answer_Inr
      split: prod.splits sum.splits option.splits dest: produce_finding_ok)

lemma vision_analyze_id: "vision_analyze cfg env request st = (r, st') \<Longrightarrow> vs_next_id st' = vs_next_id st"
  by (auto simp: vision_analyze_def split: prod.splits sum.splits option.splits)

context llm_client
begin

lemma ask_vision_calls:
  "ve_call env = call \<Longrightarrow> ask_vision env msgs k s = (x, s') \<Longrightarrow> extends_by (nat (k + 1)) (charges s) (charges s')"
  unfolding ask_vision_def by (rule structured_calls) simp

lemma verify_finding_calls:
  assumes call: "ve_call env = call" and v: "verify_finding cfg env f msgs s = (x, s')"
  shows "extends_by 3 (charges s) (charges s')"
proof -
  from v obtain shown cr rq z where "with_verifier call shown cr rq 1 s = (z, s')"
    unfolding verify_finding_def Let_def call [symmetric] by (auto split: sum.splits prod.splits)
  from verifier_calls [OF this] show ?thesis by (simp add: numeral_3_eq_3)
qed

lemma ground_finding_calls:
  assumes "ve_call env = call" "ground_finding env f msgs s = (x, s')"
  shows "extends_by 2 (charges s) (charges s')"
  using assms(2) ask_vision_calls [OF assms(1), of _ 1 s]
  by (fastforce simp: ground_finding_def Let_def split: if_splits prod.splits sum.splits py_error.splits)

lemma produce_finding_calls:
  assumes call: "ve_call env = call" and p: "produce_finding cfg env msgs s = (x, s')"
  shows "extends_by 8 (charges s) (charges s')"
proof -
  obtain y s1 where a: "ask_vision env msgs 2 s = (y, s1)" by fastforce
  have 3: "extends_by 3 (charges s) (charges s1)" using ask_vision_calls [OF call a] by simp
  show ?thesis
  proof (cases y)
    case (Inl e)
    with p a 3 show ?thesis by (auto simp: produce_finding_def extends_by_def)
  next
    case (Inr fr)
    obtain finding result where fr: "fr = (finding, result)" by (cases fr)
    obtain v s2 where v: "(if vc_verifier cfg then verify_finding cfg env finding msgs s1 else (Inr finding, s1)) = (v, s2)"
      by fastforce
    then have "extends_by 3 (charges s1) (charges s2)"
      using verify_finding_calls [OF call] by (fastforce simp: extends_by_def split: if_splits)
    from extends_by_trans [OF 3 this] have 6: "extends_by 6 (charges s) (charges s2)" by simp
    from p a Inr fr v have "s' = s2 \<or> (\<exists>f z. ground_finding env f msgs s2 = (z, s'))"
      by (auto simp: produce_finding_def split: sum.splits if_splits)
    then show ?thesis
      using 6 extends_by_trans [OF 6 ground_finding_calls [OF call]] by (fastforce simp: extends_by_def)
  qed
qed

lemma vision_calls:
  assumes "ve_call env = call" "vision_handle cfg env now event st = (acts, st', err)"
  shows "extends_by 8 (charges (vs_llm st)) (charges (vs_llm st'))"
proof (cases "vision_extract event")
  case None
  with assms(2) show ?thesis by (simp add: vision_handle_def)
next
  case (Some request)
  obtain r st1 where a: "vision_analyze cfg env request st = (r, st1)" by fastforce
  from assms(2) Some a have "vs_llm st' = vs_llm st1"
    by (auto simp: vision_handle_def split: sum.splits py_error.splits)
  moreover from a have "vs_llm st1 = vs_llm st \<or> (\<exists>msgs z. produce_finding cfg env msgs (vs_llm st) = (z, vs_llm st1))"
    by (auto simp: vision_analyze_def split: sum.splits prod.splits option.splits)
  ultimately show ?thesis using produce_finding_calls [OF assms(1)] by (auto simp: extends_by_def)
qed

end


text \<open>Framing.\<close>

lemma mod_pow_Suc: "(n::nat) mod 256 ^ Suc k = 256 ^ k * (n div 256 ^ k mod 256) + n mod 256 ^ k"
  using mod_mult2_eq [of n "256 ^ k" 256] by (simp add: mult.commute)

lemma digits_determine:
  "(\<forall>j < k. (n::nat) div 256 ^ j mod 256 = m div 256 ^ j mod 256) \<Longrightarrow> n mod 256 ^ k = m mod 256 ^ k"
proof (induction k)
  case (Suc k)
  then have "n mod 256 ^ k = m mod 256 ^ k" "n div 256 ^ k mod 256 = m div 256 ^ k mod 256" by simp_all
  then show ?case by (simp only: mod_pow_Suc)
qed simp

lemma be8_inject:
  assumes "be8 n = be8 m" "n < 2 ^ 64" "m < 2 ^ 64"
  shows "n = m"
proof -
  have "n div 256 ^ j mod 256 = m div 256 ^ j mod 256" if "j < 8" for j
  proof -
    from assms(1) have "(char_of (n div 256 ^ (7 - (7 - j)) mod 256) :: char) = char_of (m div 256 ^ (7 - (7 - j)) mod 256)"
      unfolding be8_def using that by (auto simp: list_eq_iff_nth_eq dest: spec [of _ "7 - j"])
    then have "of_char (char_of (n div 256 ^ j mod 256) :: char) = (of_char (char_of (m div 256 ^ j mod 256) :: char) :: nat)"
      using that by simp
    then show ?thesis by simp
  qed
  then have "n mod 256 ^ 8 = m mod 256 ^ 8" by (intro digits_determine) simp
  with assms(2,3) show ?thesis by simp
qed

lemma frame_inject:
  assumes "frame a @ s = frame b @ t" "length a < 2 ^ 64" "length b < 2 ^ 64"
  shows "a = b \<and> s = t"
proof -
  have "length (be8 (length a)) = length (be8 (length b))" by (simp add: be8_def)
  with assms(1) have "be8 (length a) = be8 (length b)" "a @ s = b @ t" by (auto simp: frame_def append_eq_append_conv)
  with be8_inject assms(2,3) show ?thesis by (auto simp: append_eq_append_conv)
qed

lemma frames_inject:
  assumes "concat (map frame xs) = concat (map frame ys)" "\<forall>x \<in> set xs. length x < 2 ^ 64" "\<forall>y \<in> set ys. length y < 2 ^ 64"
  shows "xs = ys"
  using assms
proof (induction xs arbitrary: ys)
  case Nil
  then show ?case by (cases ys) (simp_all add: frame_def be8_def)
next
  case (Cons x xs)
  then obtain y ys' where ys: "ys = y # ys'" by (cases ys) (auto simp: frame_def be8_def)
  with Cons.prems have "frame x @ concat (map frame xs) = frame y @ concat (map frame ys')" by simp
  from frame_inject [OF this] Cons ys show ?case by simp
qed

section \<open>Properties\<close>

text \<open>The cache key tells requests apart: as long as contexts hold no NUL, what is hashed for two requests is
  the same only when they have the same context and the same images after decoding, in the same order. (It is the digest that
  is looked up, so two requests share a key only through a collision of the shortened digest.)\<close>

lemma vision_key_separates:
  assumes "CHR 0x00 \<notin> set ctx1" and "CHR 0x00 \<notin> set ctx2"
    and "\<forall>raw \<in> set (raws1 @ raws2). length raw < 2 ^ 64"
  shows "digest_input ctx1 raws1 = digest_input ctx2 raws2 \<longleftrightarrow> ctx1 = ctx2 \<and> raws1 = raws2"
proof
  assume e: "digest_input ctx1 raws1 = digest_input ctx2 raws2"
  have "takeWhile (\<lambda>c. c \<noteq> CHR 0x00) (digest_input ctx raws) = ctx" if "CHR 0x00 \<notin> set ctx" for ctx raws
    using that by (induction ctx) (auto simp: digest_input_def)
  with e assms(1,2) have ctx: "ctx1 = ctx2" by metis
  with e have "concat (map frame raws1) = concat (map frame raws2)" by (simp add: digest_input_def)
  with assms(3) have "raws1 = raws2" by (intro frames_inject) auto
  with ctx show "ctx1 = ctx2 \<and> raws1 = raws2" ..
qed simp

lemma vision_key_separates_witness:
  "digest_input ''smoke'' [''AB'', ''C''] \<noteq> digest_input ''smoke'' [''A'', ''BC'']"
proof -
  have "CHR 0x00 \<notin> set ''smoke''" by simp
  moreover have "\<forall>raw \<in> set ([''AB'', ''C''] @ [''A'', ''BC'']). length raw < 2 ^ 64" by simp
  ultimately show ?thesis using vision_key_separates [of "''smoke''" "''smoke''" "[''AB'', ''C'']" "[''A'', ''BC'']"] by simp
qed

text \<open>A context with a NUL can spell what another context and an image hash to.\<close>

lemma nul_context_collides:
  "digest_input ''a'' [''zz'' @ [CHR 0x00]] = digest_input (''a'' @ [CHR 0x00] @ be8 3 @ ''zz'') []"
  by (simp add: digest_input_def frame_def numeral_3_eq_3)


end
