(* ===== verification/Api.thy ===== *)
theory Api
  imports Bus Vision Policy Optimizer
begin

text \<open>
  The HTTP API of the dashboard (\<open>apps/api/routes\<close>): what each route answers from Redis, TimescaleDB, the
  knowledge graph and the bus.

  FastAPI's part is the check of the declared bounds (a 422) and what it makes of an exception: an
  \<open>HTTPException\<close> is its status, any other one a 500 (\<open>Raised\<close>). A client on the application's state is \<open>None\<close>
  where it is missing. Redis answers a scan, a get or a range, \<open>None\<close> where it raises; \<open>loads\<close> is
  \<open>json.loads\<close>, \<open>None\<close> for a \<open>JSONDecodeError\<close>; a statement and its parameters go to the database separately.
\<close>

datatype api_error = Http int string | Raised py_error

type_synonym 'a api = "api_error + 'a"

fun raising :: "'a res \<Rightarrow> 'a api" where
  "raising (Inl e) = Inl (Raised e)"
| "raising (Inr v) = Inr v"

fun api_bind :: "'a api \<Rightarrow> ('a \<Rightarrow> 'b api) \<Rightarrow> 'b api" where
  "api_bind (Inl e) f = Inl e"
| "api_bind (Inr v) f = f v"

definition bounded :: "int \<Rightarrow> int \<Rightarrow> int \<Rightarrow> 'a api \<Rightarrow> 'a api" where
  "bounded lo hi n answer = (if lo \<le> n \<and> n \<le> hi then answer else Inl (Http 422 ''validation error''))"

record redis_reader =
  rr_scan :: "string \<Rightarrow> string list option"
  rr_get :: "string \<Rightarrow> string option option"
  rr_lrange :: "string \<Rightarrow> int \<Rightarrow> int \<Rightarrow> string list option"

definition opt_text :: "string option \<Rightarrow> pyval" where
  "opt_text s = (case s of None \<Rightarrow> PNone | Some t \<Rightarrow> PStr t)"

section \<open>Agents\<close>

definition heartbeat_entry :: "(string \<Rightarrow> real option) \<Rightarrow> real \<Rightarrow> dict \<Rightarrow> dict res" where
  "heartbeat_entry fos now payload =
     res_bind (py_float fos (get_def payload ''last_seen_ts'' (PFloat 0))) (\<lambda>last_seen.
       Inr [(''agent'', get_def payload ''agent'' (PStr ''unknown'')),
            (''site_id'', get_def payload ''site_id'' (PStr ''unknown'')),
            (''last_seen_ts'', PFloat last_seen), (''stale_seconds'', PFloat (max 0 (now - last_seen))),
            (''pid'', get_def payload ''pid'' PNone)])"

fun heartbeat_entries :: "redis_reader \<Rightarrow> (string \<Rightarrow> pyval option) \<Rightarrow> (string \<Rightarrow> real option) \<Rightarrow> real \<Rightarrow> string list \<Rightarrow> dict list res" where
  "heartbeat_entries rd loads fos now [] = Inr []"
| "heartbeat_entries rd loads fos now (key # keys) =
     (case Option.bind (rr_get rd key) (\<lambda>raw. Option.bind raw loads) of
        None \<Rightarrow> heartbeat_entries rd loads fos now keys
      | Some (PDict payload) \<Rightarrow>
          res_bind (heartbeat_entry fos now payload) (\<lambda>entry.
          res_bind (heartbeat_entries rd loads fos now keys) (\<lambda>out. Inr (entry # out)))
      | Some v \<Rightarrow> Inl (AttributeError ''get''))"

text \<open>\<open>out.sort(key=lambda x: (x["site_id"], x["agent"]))\<close>; what it does where a key is not a text is \<open>odd_sort\<close>.\<close>

definition entry_key :: "dict \<Rightarrow> string list" where
  "entry_key e = [the (get_str e ''site_id''), the (get_str e ''agent'')]"

definition entry_keyed :: "dict \<Rightarrow> bool" where
  "entry_keyed e \<longleftrightarrow> get_str e ''site_id'' \<noteq> None \<and> get_str e ''agent'' \<noteq> None"

definition agent_health :: "redis_reader option \<Rightarrow> (string \<Rightarrow> pyval option) \<Rightarrow> (string \<Rightarrow> real option) \<Rightarrow>
    (dict list \<Rightarrow> dict list res) \<Rightarrow> real \<Rightarrow> string option \<Rightarrow> dict api" where
  "agent_health client loads fos odd_sort now site =
     (let pattern = (if set_text site then ''agent:'' @ the site @ '':*:heartbeat'' else ''agent:*:*:heartbeat'');
          degraded = Inr [(''agents'', PList []), (''status'', PStr ''degraded'')]
      in case client of
           None \<Rightarrow> degraded
         | Some rd \<Rightarrow>
             (case rr_scan rd pattern of
                None \<Rightarrow> degraded
              | Some keys \<Rightarrow>
                  raising (res_bind (heartbeat_entries rd loads fos now keys) (\<lambda>out.
                    res_bind (if list_all entry_keyed out then Inr (sort_key entry_key out) else odd_sort out) (\<lambda>sorted.
                      Inr [(''agents'', PList (map PDict sorted))])))))"

section \<open>Federation, fleet and forecasts\<close>

definition list_candidates :: "redis_reader option \<Rightarrow> (string \<Rightarrow> pyval option) \<Rightarrow> string \<Rightarrow> int \<Rightarrow> dict api" where
  "list_candidates client loads site_id limit =
     bounded 1 200 limit
       (let degraded = Inr [(''site_id'', PStr site_id), (''candidates'', PList []), (''status'', PStr ''degraded'')]
        in case Option.bind client (\<lambda>rd. rr_lrange rd (''federation:candidates:'' @ site_id) 0 (limit - 1)) of
             None \<Rightarrow> degraded
           | Some raws \<Rightarrow> Inr [(''site_id'', PStr site_id), (''candidates'', PList (List.map_filter loads raws))])"

definition fleet_state :: "redis_reader option \<Rightarrow> (string \<Rightarrow> pyval option) \<Rightarrow> pyval" where
  "fleet_state client loads =
     (case Option.bind client (\<lambda>rd. rr_get rd ''fleet:snapshot'') of
        None \<Rightarrow> PDict [(''sites'', PList []), (''fleet_status'', PStr ''degraded'')]
      | Some None \<Rightarrow> PDict [(''sites'', PList []), (''fleet_status'', PStr ''empty''), (''hint'', PStr ''control-plane not running'')]
      | Some (Some raw) \<Rightarrow>
          (case loads raw of None \<Rightarrow> PDict [(''sites'', PList []), (''fleet_status'', PStr ''corrupt'')] | Some v \<Rightarrow> v))"

definition forecast_key :: "string \<Rightarrow> string \<Rightarrow> int \<Rightarrow> string" where
  "forecast_key site metric horizon_days = ''forecasts:'' @ site @ '':'' @ metric @ '':'' @ str_of_int horizon_days"

definition get_forecast :: "redis_reader option \<Rightarrow> (string \<Rightarrow> pyval option) \<Rightarrow> string \<Rightarrow> string \<Rightarrow> int \<Rightarrow> pyval api" where
  "get_forecast client loads site metric horizon_days =
     bounded 1 180 horizon_days
       (let shell = (\<lambda>status more. PDict ([(''site'', PStr site), (''metric'', PStr metric), (''horizon_days'', PInt horizon_days),
              (''series'', PDict []), (''status'', PStr status)] @ more))
        in Inr (case Option.bind client (\<lambda>rd. rr_get rd (forecast_key site metric horizon_days)) of
             None \<Rightarrow> shell ''degraded'' []
           | Some None \<Rightarrow> shell ''missing'' [(''hint'', PStr ''planner hasn't produced this forecast yet'')]
           | Some (Some raw) \<Rightarrow> (case loads raw of None \<Rightarrow> shell ''corrupt'' [] | Some v \<Rightarrow> v)))"

section \<open>Recommendations\<close>

definition RECENT_KEY :: string where "RECENT_KEY = ''recommendations:recent''"

fun select_entries :: "(string \<Rightarrow> pyval option) \<Rightarrow> string option \<Rightarrow> int \<Rightarrow> string list \<Rightarrow> pyval list \<Rightarrow> pyval list res" where
  "select_entries loads site limit [] out = Inr out"
| "select_entries loads site limit (raw # raws) out =
     (case loads raw of
        None \<Rightarrow> select_entries loads site limit raws out
      | Some entry \<Rightarrow>
          res_bind (case site of None \<Rightarrow> Inr True
                    | Some s \<Rightarrow> res_bind (j_get entry ''site_id'' PNone) (\<lambda>v. Inr (v = PStr s))) (\<lambda>keep.
            if \<not> keep then select_entries loads site limit raws out
            else if limit \<le> int (length (out @ [entry])) then Inr (out @ [entry])
            else select_entries loads site limit raws (out @ [entry])))"

definition list_recommendations :: "redis_reader option \<Rightarrow> (string \<Rightarrow> pyval option) \<Rightarrow> string option \<Rightarrow> int \<Rightarrow> dict api" where
  "list_recommendations client loads site limit =
     bounded 1 500 limit
       (case Option.bind client (\<lambda>rd. rr_lrange rd RECENT_KEY 0 (limit * 4)) of
          None \<Rightarrow> Inr [(''recommendations'', PList []), (''status'', PStr ''degraded'')]
        | Some raws \<Rightarrow>
            raising (res_bind (select_entries loads site limit raws []) (\<lambda>out.
              Inr [(''site'', opt_text site), (''limit'', PInt limit), (''recommendations'', PList out)])))"

fun find_recommendation :: "(string \<Rightarrow> pyval option) \<Rightarrow> (pyval \<Rightarrow> string) \<Rightarrow> string \<Rightarrow> string list \<Rightarrow> pyval api" where
  "find_recommendation loads py_str recommendation_id [] = Inl (Http 404 ''recommendation not found'')"
| "find_recommendation loads py_str recommendation_id (raw # raws) =
     (case loads raw of
        None \<Rightarrow> find_recommendation loads py_str recommendation_id raws
      | Some entry \<Rightarrow>
          api_bind (raising (j_get entry ''recommendation_id'' (PStr []))) (\<lambda>v.
            if shown py_str v = recommendation_id then Inr entry
            else find_recommendation loads py_str recommendation_id raws))"

definition get_recommendation :: "redis_reader option \<Rightarrow> (string \<Rightarrow> pyval option) \<Rightarrow> (pyval \<Rightarrow> string) \<Rightarrow> string \<Rightarrow> pyval api" where
  "get_recommendation client loads py_str recommendation_id =
     (case client of
        None \<Rightarrow> Inl (Http 503 ''event bus unavailable'')
      | Some rd \<Rightarrow>
          (case rr_lrange rd RECENT_KEY 0 (-1) of
             None \<Rightarrow> Inl (Http 503 ''redis error'')
           | Some raws \<Rightarrow> find_recommendation loads py_str recommendation_id raws))"


section \<open>Reads from TimescaleDB\<close>

text \<open>A statement with its parameters; \<open>sel\<close> is what the database answers, \<open>None\<close> where it raises. The second part
  is what was sent.\<close>

definition select_with :: "timescale \<Rightarrow> (string \<Rightarrow> pyval list \<Rightarrow> row list option) \<Rightarrow> string \<Rightarrow> pyval list \<Rightarrow> int \<Rightarrow>
    row list api \<times> (string \<times> pyval list) list" where
  "select_with ts sel sql params max_rows =
     (let (answer, sent) = execute_select (ts\<lparr>ts_select := \<lambda>q. sel q params\<rparr>) sql (nat max_rows)
      in (raising answer, map (\<lambda>q. (q, params)) sent))"

text \<open>\<open>r[k] = str(r[k])\<close> where the key is there and its value is not \<open>None\<close>.\<close>

definition stringify_key :: "(pyval \<Rightarrow> string) \<Rightarrow> string \<Rightarrow> row \<Rightarrow> row" where
  "stringify_key py_str k r =
     (case map_of r k of
        None \<Rightarrow> r
      | Some (Plain PNone) \<Rightarrow> r
      | Some (Plain v) \<Rightarrow> AList.update k (Plain (PStr (shown py_str v))) r
      | Some (Stamp isof txt) \<Rightarrow> AList.update k (Plain (PStr txt)) r)"

type_synonym table = "dict \<times> row list"

type_synonym sent = "(string \<times> pyval list) list"

definition usable :: "timescale option \<Rightarrow> timescale option" where
  "usable ts = (case ts of Some t \<Rightarrow> if ts_connected t then Some t else None | None \<Rightarrow> None)"

definition table_of :: "row list api \<times> sent \<Rightarrow> dict \<Rightarrow> (row \<Rightarrow> row) \<Rightarrow> table api \<times> sent" where
  "table_of answer echo f = (api_bind (fst answer) (\<lambda>rows. Inr (echo, map f rows)), snd answer)"

definition param_or :: "pyval option \<Rightarrow> string \<Rightarrow> (string \<times> pyval) list" where
  "param_or v clause = (case v of None \<Rightarrow> [] | Some x \<Rightarrow> [(clause, x)])"

definition recent_clauses :: "string \<Rightarrow> string option \<Rightarrow> string option \<Rightarrow> (string \<times> pyval) list" where
  "recent_clauses site metric device_id =
     [(''site_id = %s'', PStr site)] @ param_or (map_option PStr metric) ''metric = %s''
       @ param_or (map_option PStr device_id) ''device_id = %s''"

definition recent_sql :: "string list \<Rightarrow> string" where
  "recent_sql clauses =
     ''SELECT time, site_id, hall_id, rack_id, device_id, device_type, metric, value_num, value_str, unit, severity, metadata FROM telemetry WHERE ''
     @ join_with '' AND '' clauses @ '' ORDER BY time DESC LIMIT %s''"

definition recent_route :: "timescale option \<Rightarrow> (string \<Rightarrow> pyval list \<Rightarrow> row list option) \<Rightarrow> (pyval \<Rightarrow> string) \<Rightarrow>
    string \<Rightarrow> string option \<Rightarrow> string option \<Rightarrow> int \<Rightarrow> table api \<times> sent" where
  "recent_route client sel py_str site metric device_id limit =
     (if \<not> (1 \<le> limit \<and> limit \<le> 10000) then (Inl (Http 422 ''validation error''), [])
      else case usable client of
             None \<Rightarrow> (Inr ([(''site'', PStr site), (''limit'', PInt limit), (''status'', PStr ''degraded'')], []), [])
           | Some ts \<Rightarrow>
               let cs = recent_clauses site metric device_id
               in table_of (select_with ts sel (recent_sql (map fst cs)) (map snd cs @ [PInt limit]) limit)
                    [(''site'', PStr site), (''limit'', PInt limit)] (stringify_key py_str ''time''))"

definition range_clauses :: "string \<Rightarrow> string \<Rightarrow> int \<Rightarrow> string option \<Rightarrow> (string \<times> pyval) list" where
  "range_clauses site metric seconds device_id =
     [(''site_id = %s'', PStr site), (''metric = %s'', PStr metric),
      (''time >= NOW() - (%s || ' seconds')::interval'', PStr (str_of_int seconds))]
     @ param_or (map_option PStr device_id) ''device_id = %s''"

definition range_sql :: "string list \<Rightarrow> string" where
  "range_sql clauses =
     ''SELECT time, device_id, value_num, unit, severity FROM telemetry WHERE '' @ join_with '' AND '' clauses
     @ '' ORDER BY time ASC LIMIT %s''"

definition range_route :: "timescale option \<Rightarrow> (string \<Rightarrow> pyval list \<Rightarrow> row list option) \<Rightarrow> (pyval \<Rightarrow> string) \<Rightarrow>
    string \<Rightarrow> string \<Rightarrow> int \<Rightarrow> string option \<Rightarrow> int \<Rightarrow> table api \<times> sent" where
  "range_route client sel py_str site metric seconds device_id limit =
     (if \<not> (1 \<le> seconds \<and> seconds \<le> 86400 \<and> 1 \<le> limit \<and> limit \<le> 10000) then (Inl (Http 422 ''validation error''), [])
      else case usable client of
             None \<Rightarrow> (Inr ([(''site'', PStr site), (''metric'', PStr metric), (''status'', PStr ''degraded'')], []), [])
           | Some ts \<Rightarrow>
               let cs = range_clauses site metric seconds device_id
               in table_of (select_with ts sel (range_sql (map fst cs)) (map snd cs @ [PInt limit]) limit)
                    [(''site'', PStr site), (''metric'', PStr metric), (''seconds'', PInt seconds)] (stringify_key py_str ''time''))"

definition INCIDENT_COLUMNS :: string where
  "INCIDENT_COLUMNS =
     ''SELECT incident_id, opened_at, closed_at, site_id, severity, affected_devices, top_hypotheses, confidence, llm_cost_usd, llm_model_used, trace_id FROM incidents ''"

definition stringify_incident :: "(pyval \<Rightarrow> string) \<Rightarrow> row \<Rightarrow> row" where
  "stringify_incident py_str r =
     fold (stringify_key py_str) [''incident_id'', ''trace_id'', ''opened_at'', ''closed_at''] r"

definition list_incidents :: "timescale option \<Rightarrow> (string \<Rightarrow> pyval list \<Rightarrow> row list option) \<Rightarrow> (pyval \<Rightarrow> string) \<Rightarrow>
    string option \<Rightarrow> int \<Rightarrow> table api \<times> sent" where
  "list_incidents client sel py_str site limit =
     (if \<not> (1 \<le> limit \<and> limit \<le> 500) then (Inl (Http 422 ''validation error''), [])
      else case usable client of
             None \<Rightarrow> (Inr ([(''site'', opt_text site), (''limit'', PInt limit), (''status'', PStr ''degraded'')], []), [])
           | Some ts \<Rightarrow>
               let (sql, params) = (case site of
                     None \<Rightarrow> (INCIDENT_COLUMNS @ ''ORDER BY opened_at DESC LIMIT %s'', [PInt limit])
                   | Some s \<Rightarrow> (INCIDENT_COLUMNS @ ''WHERE site_id = %s ORDER BY opened_at DESC LIMIT %s'', [PStr s, PInt limit]))
               in table_of (select_with ts sel sql params limit)
                    [(''site'', opt_text site), (''limit'', PInt limit)] (stringify_incident py_str))"

definition lineage :: "(pyval \<Rightarrow> string) \<Rightarrow> row \<Rightarrow> cell" where
  "lineage py_str r =
     (case map_of r ''trace_id'' of
        Some (Plain v) \<Rightarrow> Plain (if truthy v then PStr (''/audit/by-trace/'' @ shown py_str v) else PNone)
      | Some (Stamp isof txt) \<Rightarrow> Plain (PStr (''/audit/by-trace/'' @ txt))
      | None \<Rightarrow> Plain PNone)"

definition get_incident :: "timescale option \<Rightarrow> (string \<Rightarrow> pyval list \<Rightarrow> row list option) \<Rightarrow> (pyval \<Rightarrow> string) \<Rightarrow>
    (uuid \<Rightarrow> string) \<Rightarrow> uuid \<Rightarrow> row api \<times> sent" where
  "get_incident client sel py_str uuid_text incident_id =
     (case usable client of
        None \<Rightarrow> (Inl (Http 503 ''timescale unavailable''), [])
      | Some ts \<Rightarrow>
          let (answer, sent) = select_with ts sel (INCIDENT_COLUMNS @ ''WHERE incident_id = %s LIMIT 1'') [PStr (uuid_text incident_id)] 1
          in (api_bind answer (\<lambda>rows. case rows of
                [] \<Rightarrow> Inl (Http 404 ''incident not found'')
              | r # rs \<Rightarrow> let row = stringify_incident py_str r
                          in Inr (AList.update ''audit_lineage_endpoint'' (lineage py_str row) row)), sent))"


section \<open>The twin\<close>

text \<open>A row of the topology query; the comprehension runs inside the \<open>try\<close>, so a row that does not fit gives no racks at all.\<close>

definition rack_entry :: "dict \<Rightarrow> dict res" where
  "rack_entry rec =
     (case (map_of rec ''rack_id'', map_of rec ''hall_id'', map_of rec ''position'', map_of rec ''device_count'') of
        (Some rid, Some hid, Some pos, Some n) \<Rightarrow>
          res_bind (py_int (j_or n (PInt 0))) (\<lambda>count.
            Inr [(''id'', rid), (''hall_id'', hid), (''position'', pos), (''device_count'', PInt count)])
      | _ \<Rightarrow> Inl (KeyError ''record''))"

fun all_entries :: "dict list \<Rightarrow> dict list res" where
  "all_entries [] = Inr []"
| "all_entries (rec # recs) = res_bind (rack_entry rec) (\<lambda>e. res_bind (all_entries recs) (\<lambda>es. Inr (e # es)))"

definition racks_for_site :: "(string \<Rightarrow> dict list option) option \<Rightarrow> string \<Rightarrow> dict list" where
  "racks_for_site kg site =
     (case Option.bind kg (\<lambda>run. run site) of
        None \<Rightarrow> []
      | Some recs \<Rightarrow> (case all_entries recs of Inl e \<Rightarrow> [] | Inr es \<Rightarrow> es))"

definition LATEST_SQL :: string where
  "LATEST_SQL =
     ''SELECT DISTINCT ON (rack_id, metric) rack_id, metric, value_num FROM telemetry WHERE site_id = %s ''
     @ ''  AND metric IN ('env.inlet.celsius', 'env.outlet.celsius')   AND time >= NOW() - INTERVAL '5 minutes' ORDER BY rack_id, metric, time DESC''"

definition latest_entry :: "row \<Rightarrow> ((string \<times> string) \<times> real) option" where
  "latest_entry r =
     (case (map_of r ''rack_id'', map_of r ''metric'', map_of r ''value_num'') of
        (Some (Plain (PStr rack)), Some (Plain (PStr metric)), Some (Plain v)) \<Rightarrow>
          map_option (\<lambda>x. ((rack, metric), x)) (num_of v)
      | _ \<Rightarrow> None)"

definition latest_map :: "row list \<Rightarrow> ((string \<times> string) \<times> real) list" where
  "latest_map rows = foldl (\<lambda>out r. case latest_entry r of None \<Rightarrow> out | Some (k, x) \<Rightarrow> AList.update k x out) [] rows"

definition latest_inlet_outlet :: "timescale \<Rightarrow> (string \<Rightarrow> pyval list \<Rightarrow> row list option) \<Rightarrow> string \<Rightarrow>
    ((string \<times> string) \<times> real) list api \<times> sent" where
  "latest_inlet_outlet ts sel site =
     (let (answer, sent) = select_with ts sel LATEST_SQL [PStr site] 2000
      in (api_bind answer (\<lambda>rows. Inr (latest_map rows)), sent))"

text \<open>\<open>latest.get((rack_id, metric))\<close>; a list or a dict as an id cannot be hashed.\<close>

definition latest_get :: "((string \<times> string) \<times> real) list \<Rightarrow> pyval \<Rightarrow> string \<Rightarrow> pyval res" where
  "latest_get latest rid metric =
     (if \<not> hashable rid then Inl (TypeError ''unhashable type'')
      else Inr (case rid of
             PStr r \<Rightarrow> (case map_of latest (r, metric) of None \<Rightarrow> PNone | Some x \<Rightarrow> PFloat x)
           | _ \<Rightarrow> PNone))"

fun join_racks :: "((string \<times> string) \<times> real) list \<Rightarrow> dict list \<Rightarrow> dict list res" where
  "join_racks latest [] = Inr []"
| "join_racks latest (rack # racks) =
     (let rid = get_def rack ''id'' PNone
      in res_bind (latest_get latest rid ''env.inlet.celsius'') (\<lambda>inlet.
         res_bind (latest_get latest rid ''env.outlet.celsius'') (\<lambda>outlet.
         res_bind (join_racks latest racks) (\<lambda>rest.
           Inr ((rack @ [(''inlet_c'', inlet), (''outlet_c'', outlet)]) # rest)))))"

text \<open>\<open>kg\<close> is the topology query of an enabled client, \<open>None\<close> without one.\<close>

definition twin_state :: "timescale option \<Rightarrow> (string \<Rightarrow> dict list option) option \<Rightarrow> (string \<Rightarrow> pyval list \<Rightarrow> row list option) \<Rightarrow>
    string \<Rightarrow> dict api \<times> sent" where
  "twin_state client kg sel site =
     (let answer = (\<lambda>racks. [(''site'', PStr site), (''racks'', PList (map PDict racks))])
      in if usable client = None \<and> kg = None then (Inr (answer [] @ [(''status'', PStr ''degraded'')]), [])
         else let racks = racks_for_site kg site
              in case usable client of
                   None \<Rightarrow> (Inr (answer racks), [])
                 | Some ts \<Rightarrow>
                     if racks = [] then (Inr (answer []), [])
                     else let (latest, sent) = latest_inlet_outlet ts sel site
                          in (api_bind latest (\<lambda>l. api_bind (raising (join_racks l racks)) (\<lambda>joined. Inr (answer joined))), sent))"

section \<open>Requests over the bus\<close>

text \<open>What a subscription yields: an event at a time, a failure, or its end; nothing more is silence.\<close>

datatype arrival = Arrived real pyval | Broke real py_error | Ended real

text \<open>The first match within the timeout; the stream's end gives an empty answer.\<close>

fun wait_for :: "(pyval \<Rightarrow> bool) \<Rightarrow> real \<Rightarrow> arrival list \<Rightarrow> dict api option" where
  "wait_for matches timeout [] = None"
| "wait_for matches timeout (Arrived t ev # rest) =
     (if timeout \<le> t then None
      else if matches ev then Some (Inr (case ev of PDict d \<Rightarrow> d | _ \<Rightarrow> [])) else wait_for matches timeout rest)"
| "wait_for matches timeout (Broke t e # rest) = (if timeout \<le> t then None else Some (Inl (Raised e)))"
| "wait_for matches timeout (Ended t # rest) = (if timeout \<le> t then None else Some (Inr []))"

definition query_matches :: "(pyval \<Rightarrow> string) \<Rightarrow> string \<Rightarrow> pyval \<Rightarrow> bool" where
  "query_matches py_str request_id event =
     (case event of PDict d \<Rightarrow> shown py_str (get_def d ''request_id'' (PStr [])) = request_id | _ \<Rightarrow> False)"

definition vision_matches :: "(pyval \<Rightarrow> string) \<Rightarrow> string \<Rightarrow> pyval \<Rightarrow> bool" where
  "vision_matches py_str request_id event =
     (case event of
        PDict d \<Rightarrow>
          (case j_or (get_def d ''metadata'' PNone) (PDict []) of
             PDict md \<Rightarrow> shown py_str (get_def md ''request_id'' (PStr [])) = request_id
           | _ \<Rightarrow> False)
      | _ \<Rightarrow> False)"

text \<open>The subscriber first, then the request, then the wait. \<open>live\<close> is when the subscription is ready and
  \<open>publish_error\<close> what publishing raises.\<close>

definition SUBSCRIBE_READY_TIMEOUT_S :: real where "SUBSCRIBE_READY_TIMEOUT_S = 5"

definition round_trip :: "(pyval \<Rightarrow> bool) \<Rightarrow> real \<Rightarrow> string \<Rightarrow> string \<Rightarrow> dict \<Rightarrow> real \<Rightarrow> py_error option \<Rightarrow> arrival list \<Rightarrow>
    dict api \<times> dict effect list" where
  "round_trip matches timeout late topic payload live publish_error arrivals =
     (if SUBSCRIBE_READY_TIMEOUT_S \<le> live then (Inl (Http 503 ''subscriber setup timeout''), [])
      else case publish_error of
             Some e \<Rightarrow> (Inl (Raised e), [Publish topic payload])
           | None \<Rightarrow>
               (case wait_for matches timeout arrivals of
                  None \<Rightarrow> (Inl (Http 504 late), [Publish topic payload])
                | Some answer \<Rightarrow> (answer, [Publish topic payload])))"

definition query_envelope :: "string \<Rightarrow> string \<Rightarrow> string option \<Rightarrow> dict" where
  "query_envelope question rid site =
     [(''question'', PStr question), (''request_id'', PStr rid), (''site'', opt_text site)]"

definition nl_query :: "(pyval \<Rightarrow> string) \<Rightarrow> real \<Rightarrow> bool \<Rightarrow> string \<Rightarrow> string \<Rightarrow> string option \<Rightarrow> real \<Rightarrow> py_error option \<Rightarrow>
    arrival list \<Rightarrow> dict api \<times> dict effect list" where
  "nl_query py_str timeout bus rid question site live publish_error arrivals =
     (if \<not> bus then (Inl (Http 503 ''event bus unavailable''), [])
      else round_trip (query_matches py_str rid) timeout
             (''operator did not respond within '' @ str_of_int (py_round timeout) @ ''s'') (''query.'' @ rid)
             (query_envelope question rid site) live publish_error arrivals)"

definition vision_envelope :: "string \<Rightarrow> string \<Rightarrow> string list \<Rightarrow> string option \<Rightarrow> dict" where
  "vision_envelope rid ctx images incident_id =
     [(''request_id'', PStr rid), (''context'', PStr ctx), (''images'', PList (map PStr images)),
      (''incident_id'', opt_text incident_id)]"

definition vision_route :: "(pyval \<Rightarrow> string) \<Rightarrow> real \<Rightarrow> bool \<Rightarrow> string \<Rightarrow> string \<Rightarrow> string list \<Rightarrow> string option \<Rightarrow> real \<Rightarrow>
    py_error option \<Rightarrow> arrival list \<Rightarrow> dict api \<times> dict effect list" where
  "vision_route py_str timeout bus rid ctx images incident_id live publish_error arrivals =
     (if ctx = [] then (Inl (Http 422 ''validation error''), [])
      else if \<not> bus then (Inl (Http 503 ''event bus unavailable''), [])
      else round_trip (vision_matches py_str rid) timeout
             (''vision did not respond within '' @ str_of_int (py_round timeout) @ ''s'') ''vision.request''
             (vision_envelope rid ctx images incident_id) live publish_error arrivals)"


section \<open>Statements\<close>

text \<open>Every statement the routes can send, and the number of parameters one asks for.\<close>

definition API_STATEMENTS :: "string list" where
  "API_STATEMENTS =
     map recent_sql
       [[''site_id = %s''], [''site_id = %s'', ''metric = %s''], [''site_id = %s'', ''device_id = %s''],
        [''site_id = %s'', ''metric = %s'', ''device_id = %s'']]
     @ map range_sql
       [[''site_id = %s'', ''metric = %s'', ''time >= NOW() - (%s || ' seconds')::interval''],
        [''site_id = %s'', ''metric = %s'', ''time >= NOW() - (%s || ' seconds')::interval'', ''device_id = %s'']]
     @ [INCIDENT_COLUMNS @ ''ORDER BY opened_at DESC LIMIT %s'',
        INCIDENT_COLUMNS @ ''WHERE site_id = %s ORDER BY opened_at DESC LIMIT %s'',
        INCIDENT_COLUMNS @ ''WHERE incident_id = %s LIMIT 1'', LATEST_SQL]"

fun placeholders :: "string \<Rightarrow> nat" where
  "placeholders [] = 0"
| "placeholders [c] = 0"
| "placeholders (c # d # s) = (if c = CHR ''%'' \<and> d = CHR ''s'' then Suc (placeholders s) else placeholders (d # s))"

definition statement_ok :: "string \<times> pyval list \<Rightarrow> bool" where
  "statement_ok q \<longleftrightarrow> fst q \<in> set API_STATEMENTS \<and> placeholders (fst q) = length (snd q)"

lemma statements_placeholders:
  "map placeholders API_STATEMENTS = [2, 3, 3, 4, 4, 5, 1, 2, 1, 1]"
  by code_simp

lemma recent_statements_guarded: "list_all guarded_sql (take 4 API_STATEMENTS)"
  by code_simp

lemma range_statements_guarded: "list_all guarded_sql (take 3 (drop 4 API_STATEMENTS))"
  by code_simp

lemma other_statements_guarded: "list_all guarded_sql (drop 7 API_STATEMENTS)"
  by code_simp

lemma statements_guarded: "sql \<in> set API_STATEMENTS \<Longrightarrow> guarded_sql sql"
proof -
  assume *: "sql \<in> set API_STATEMENTS"
  have "list_all guarded_sql (take 4 API_STATEMENTS @ take 3 (drop 4 API_STATEMENTS) @ drop 3 (drop 4 API_STATEMENTS))"
    using recent_statements_guarded range_statements_guarded other_statements_guarded
    by (simp del: append_take_drop_id)
  then have "list_all guarded_sql API_STATEMENTS"
    by (simp only: append_take_drop_id)
  with * show ?thesis
    by (simp add: list_all_iff)
qed

text \<open>A guarded statement reaches the database as it is, and at most \<open>n\<close> rows come back.\<close>

lemma select_guarded:
  assumes "guarded_sql sql" "ts_connected ts"
  obtains rows where "select_with ts sel sql params n = (Inr rows, [(sql, params)])" "length rows \<le> nat n"
proof -
  have "forbidden_in FORBIDDEN_SQL_TOKENS sql = None" "reads_only (upper (lstrip (lstrip_parens sql)))"
    using assms(1) by (simp_all add: guarded_sql_def forbidden_in_None)
  then show thesis
    using that assms(2)
    by (cases "sel sql params") (auto simp: select_with_def execute_select_def)
qed

lemma usable_connected: "usable client = Some ts \<longleftrightarrow> client = Some ts \<and> ts_connected ts"
  by (auto simp: usable_def split: option.splits if_splits)


lemma statement_counts:
  "placeholders (recent_sql [''site_id = %s'']) = 2"
  "placeholders (recent_sql [''site_id = %s'', ''metric = %s'']) = 3"
  "placeholders (recent_sql [''site_id = %s'', ''device_id = %s'']) = 3"
  "placeholders (recent_sql [''site_id = %s'', ''metric = %s'', ''device_id = %s'']) = 4"
  "placeholders (range_sql [''site_id = %s'', ''metric = %s'', ''time >= NOW() - (%s || ' seconds')::interval'']) = 4"
  "placeholders (range_sql [''site_id = %s'', ''metric = %s'', ''time >= NOW() - (%s || ' seconds')::interval'',
     ''device_id = %s'']) = 5"
  "placeholders (INCIDENT_COLUMNS @ ''ORDER BY opened_at DESC LIMIT %s'') = 1"
  "placeholders (INCIDENT_COLUMNS @ ''WHERE site_id = %s ORDER BY opened_at DESC LIMIT %s'') = 2"
  "placeholders (INCIDENT_COLUMNS @ ''WHERE incident_id = %s LIMIT 1'') = 1"
  "placeholders LATEST_SQL = 1"
  using statements_placeholders by (simp_all only: API_STATEMENTS_def list.map append.simps list.inject)

lemma recent_statement_ok:
  "statement_ok (recent_sql (map fst (recent_clauses site metric device)),
     map snd (recent_clauses site metric device) @ [PInt n])"
  by (cases metric; cases device)
     (simp_all add: statement_ok_def recent_clauses_def param_or_def statement_counts, simp_all add: API_STATEMENTS_def)

lemma range_statement_ok:
  "statement_ok (range_sql (map fst (range_clauses site metric seconds device)),
     map snd (range_clauses site metric seconds device) @ [PInt n])"
  by (cases device)
     (simp_all add: statement_ok_def range_clauses_def param_or_def statement_counts, simp_all add: API_STATEMENTS_def)

lemma incident_statement_ok:
  "statement_ok (INCIDENT_COLUMNS @ ''ORDER BY opened_at DESC LIMIT %s'', [v])"
  "statement_ok (INCIDENT_COLUMNS @ ''WHERE site_id = %s ORDER BY opened_at DESC LIMIT %s'', [v, w])"
  "statement_ok (INCIDENT_COLUMNS @ ''WHERE incident_id = %s LIMIT 1'', [v])"
  "statement_ok (LATEST_SQL, [v])"
  by (simp_all only: statement_ok_def fst_conv snd_conv statement_counts) (simp_all add: API_STATEMENTS_def)


section \<open>The reads together\<close>

text \<open>A request for one of the routes that read telemetry, with its arguments, and what the route gives back.\<close>

datatype read_request =
    ReadRecent string "string option" "string option" int
  | ReadRange string string int "string option" int
  | ReadIncidents "string option" int
  | ReadIncident uuid
  | ReadTwin string

datatype read_answer = Table dict "row list" | Single row | Twin dict

definition answered :: "('a \<Rightarrow> read_answer) \<Rightarrow> 'a api \<times> sent \<Rightarrow> read_answer api \<times> sent" where
  "answered f a = (api_bind (fst a) (\<lambda>x. Inr (f x)), snd a)"

fun serve_read :: "timescale option \<Rightarrow> (string \<Rightarrow> dict list option) option \<Rightarrow> (string \<Rightarrow> pyval list \<Rightarrow> row list option) \<Rightarrow>
    (pyval \<Rightarrow> string) \<Rightarrow> (uuid \<Rightarrow> string) \<Rightarrow> read_request \<Rightarrow> read_answer api \<times> sent" where
  "serve_read client kg sel py_str uuid_text (ReadRecent site metric device n) =
     answered (\<lambda>(e, rows). Table e rows) (recent_route client sel py_str site metric device n)"
| "serve_read client kg sel py_str uuid_text (ReadRange site metric seconds device n) =
     answered (\<lambda>(e, rows). Table e rows) (range_route client sel py_str site metric seconds device n)"
| "serve_read client kg sel py_str uuid_text (ReadIncidents site n) =
     answered (\<lambda>(e, rows). Table e rows) (list_incidents client sel py_str site n)"
| "serve_read client kg sel py_str uuid_text (ReadIncident u) =
     answered Single (get_incident client sel py_str uuid_text u)"
| "serve_read client kg sel py_str uuid_text (ReadTwin site) = answered Twin (twin_state client kg sel site)"

fun row_limit :: "read_request \<Rightarrow> int" where
  "row_limit (ReadRecent site metric device n) = n"
| "row_limit (ReadRange site metric seconds device n) = n"
| "row_limit (ReadIncidents site n) = n"
| "row_limit (ReadIncident u) = 1"
| "row_limit (ReadTwin site) = 0"

fun answer_rows :: "read_answer \<Rightarrow> nat" where
  "answer_rows (Table e rows) = length rows"
| "answer_rows (Single r) = 1"
| "answer_rows (Twin d) = 0"

text \<open>What a route gives back within a limit: never the \<open>ValueError\<close> of the guard.\<close>

fun answer_ok :: "int \<Rightarrow> read_answer api \<Rightarrow> bool" where
  "answer_ok n (Inr a) \<longleftrightarrow> int (answer_rows a) \<le> n"
| "answer_ok n (Inl (Http code detail)) \<longleftrightarrow> code \<in> {404, 422, 503}"
| "answer_ok n (Inl (Raised e)) \<longleftrightarrow> e = TypeError ''unhashable type''"

lemma join_racks_error: "join_racks l racks = Inl e \<Longrightarrow> e = TypeError ''unhashable type''"
  by (induction racks) (auto simp: Let_def latest_get_def res_bind_eq_Inl split: if_splits)

text \<open>A route that sends one statement of the table.\<close>

lemma table_sends:
  assumes "statement_ok (sql, params)" "ts_connected ts" "1 \<le> n"
  shows "\<exists>a. answered (\<lambda>(e, rows). Table e rows) (table_of (select_with ts sel sql params n) echo f) = (a, [(sql, params)]) \<and>
     guarded_sql sql \<and> answer_ok n a"
proof -
  have g: "guarded_sql sql"
    using assms(1) statements_guarded by (auto simp: statement_ok_def)
  from g assms(2) obtain rows where "select_with ts sel sql params n = (Inr rows, [(sql, params)])" "length rows \<le> nat n"
    by (rule select_guarded)
  with g assms(3) show ?thesis
    by (simp add: answered_def table_of_def)
qed

text \<open>At most one statement, a guarded one with its parameters beside it, and none without a connected client.\<close>

definition sends_guarded :: "int \<Rightarrow> bool \<Rightarrow> read_answer api \<times> sent \<Rightarrow> bool" where
  "sends_guarded n live r \<longleftrightarrow>
     (snd r = [] \<or> live \<and> (\<exists>q. snd r = [q] \<and> statement_ok q \<and> guarded_sql (fst q))) \<and> answer_ok n (fst r)"

lemma table_sends_guarded:
  assumes "statement_ok (sql, params)" "usable client = Some ts" "1 \<le> n"
  shows "sends_guarded n (usable client \<noteq> None)
    (answered (\<lambda>(e, rows). Table e rows) (table_of (select_with ts sel sql params n) echo f))"
  using table_sends [OF assms(1) _ assms(3), of ts sel echo f] assms(1,2)
  by (auto simp: sends_guarded_def usable_connected)

lemma refused_sends_guarded [simp]:
  "sends_guarded n b (answered f (Inl (Http code d), [])) \<longleftrightarrow> code \<in> {404, 422, 503}"
  "sends_guarded n b (answered (\<lambda>(e, rows). Table e rows) (Inr (echo, []), [])) \<longleftrightarrow> 0 \<le> n"
  by (auto simp: sends_guarded_def answered_def)

lemma recent_sends: "sends_guarded n (usable client \<noteq> None) (serve_read client kg sel py_str uuid_text (ReadRecent site metric device n))"
  using table_sends_guarded [OF recent_statement_ok]
  by (simp add: recent_route_def Let_def split: option.split)

lemma range_sends: "sends_guarded n (usable client \<noteq> None) (serve_read client kg sel py_str uuid_text (ReadRange site metric seconds device n))"
  using table_sends_guarded [OF range_statement_ok]
  by (simp add: range_route_def Let_def split: option.split)

lemma incidents_sends: "sends_guarded n (usable client \<noteq> None) (serve_read client kg sel py_str uuid_text (ReadIncidents site n))"
  using table_sends_guarded [OF incident_statement_ok(1)] table_sends_guarded [OF incident_statement_ok(2)]
  by (simp add: list_incidents_def Let_def split: option.split)

lemma incident_sends: "sends_guarded 1 (usable client \<noteq> None) (serve_read client kg sel py_str uuid_text (ReadIncident u))"
proof (cases "usable client")
  case None
  then show ?thesis
    by (simp add: get_incident_def)
next
  case (Some ts)
  note ok = incident_statement_ok(3) [of "PStr (uuid_text u)"]
  then have g: "guarded_sql (INCIDENT_COLUMNS @ ''WHERE incident_id = %s LIMIT 1'')"
    using statements_guarded by (auto simp: statement_ok_def)
  from Some have "ts_connected ts"
    by (simp add: usable_connected)
  with g obtain rows where "select_with ts sel (INCIDENT_COLUMNS @ ''WHERE incident_id = %s LIMIT 1'') [PStr (uuid_text u)] 1
      = (Inr rows, [(INCIDENT_COLUMNS @ ''WHERE incident_id = %s LIMIT 1'', [PStr (uuid_text u)])])"
    by (rule select_guarded)
  with Some ok g show ?thesis
    by (simp add: get_incident_def sends_guarded_def answered_def Let_def split: list.split)
qed

lemma twin_sends: "sends_guarded 0 (usable client \<noteq> None) (serve_read client kg sel py_str uuid_text (ReadTwin site))"
proof -
  note ok = incident_statement_ok(4) [of "PStr site"]
  then have g: "guarded_sql LATEST_SQL"
    using statements_guarded by (auto simp: statement_ok_def)
  show ?thesis
  proof (cases "\<exists>ts. usable client = Some ts \<and> racks_for_site kg site \<noteq> []")
    case False
    then show ?thesis
      by (auto simp: twin_state_def sends_guarded_def answered_def Let_def split: option.split)
  next
    case True
    then obtain ts where ts: "usable client = Some ts" "racks_for_site kg site \<noteq> []" by blast
    then have "ts_connected ts" by (simp add: usable_connected)
    with g obtain rows where "select_with ts sel LATEST_SQL [PStr site] 2000 = (Inr rows, [(LATEST_SQL, [PStr site])])"
      by (rule select_guarded)
    with ts ok g show ?thesis
      by (cases "join_racks (latest_map rows) (racks_for_site kg site)")
         (auto simp: twin_state_def latest_inlet_outlet_def sends_guarded_def answered_def Let_def dest: join_racks_error)
  qed
qed


lemma reads_send: "sends_guarded (row_limit req) (usable client \<noteq> None) (serve_read client kg sel py_str uuid_text req)"
  by (cases req) (simp_all only: row_limit.simps recent_sends range_sends incidents_sends incident_sends twin_sends)

text \<open>C17: whatever a caller asks of the routes that read telemetry, incidents or the twin, at most one statement goes to
  TimescaleDB, none without a connected client; it is one of ten fixed texts with one value per placeholder, so nothing of
  the request is in it, it passes the guard on statements, the route gives back no more rows than the limit asked for, and
  its only errors are a 404, a 422, a 503 and the unhashable rack id of the twin.\<close>

theorem api_reads_parametrised:
  assumes "serve_read client kg sel py_str uuid_text req = (answer, sent)"
  shows "(sent = [] \<or> usable client \<noteq> None \<and> (\<exists>q. sent = [q] \<and> statement_ok q \<and> guarded_sql (fst q))) \<and>
     answer_ok (row_limit req) answer"
  using reads_send [of req client kg sel py_str uuid_text] by (simp only: assms sends_guarded_def fst_conv snd_conv)

theorem api_reads_parametrised_witness:
  "let client = Some \<lparr>ts_connected = True, ts_recent = \<lambda>d w n. None, ts_select = \<lambda>q. None, ts_insert_ok = True\<rparr>;
       sel = (\<lambda>q ps. Some [[(''incident_id'', Plain (PStr ''i-1''))], [(''incident_id'', Plain (PStr ''i-2''))]]);
       read = serve_read client None sel (\<lambda>v. []) (\<lambda>u. ''u'') (ReadIncidents (Some ''helsinki' OR 1=1'') 1)
   in length (snd read) = 1 \<and> map snd (snd read) = [[PStr ''helsinki' OR 1=1'', PInt 1]] \<and>
      list_all statement_ok (snd read) \<and> answer_ok 1 (fst read)"
proof -
  let ?client = "Some \<lparr>ts_connected = True, ts_recent = \<lambda>d w n. None, ts_select = \<lambda>q. None, ts_insert_ok = True\<rparr>"
  let ?sel = "\<lambda>q ps. Some [[(''incident_id'', Plain (PStr ''i-1''))], [(''incident_id'', Plain (PStr ''i-2''))]]"
  let ?read = "serve_read ?client None ?sel (\<lambda>v. []) (\<lambda>u. ''u'') (ReadIncidents (Some ''helsinki' OR 1=1'') 1)"
  obtain read where read: "read = ?read"
    by simp
  have sent: "map snd (snd read) = [[PStr ''helsinki' OR 1=1'', PInt 1]]"
    unfolding read by code_simp
  have safe: "(snd read = [] \<or> usable ?client \<noteq> None \<and> (\<exists>q. snd read = [q] \<and> statement_ok q \<and> guarded_sql (fst q))) \<and>
      answer_ok (row_limit (ReadIncidents (Some ''helsinki' OR 1=1'') 1)) (fst read)"
    by (rule api_reads_parametrised [of ?client None]) (simp only: read prod.collapse)
  from sent safe have "length (snd read) = 1" "list_all statement_ok (snd read)" "answer_ok 1 (fst read)"
    by auto
  with sent show ?thesis
    by (simp only: Let_def simp_thms flip: read)
qed

section \<open>A question over the bus\<close>

lemma waits_past:
  assumes "list_all (\<lambda>a. case a of Arrived t ev \<Rightarrow> t < timeout \<and> \<not> matches ev | _ \<Rightarrow> False) others"
    and "t < timeout" "matches (PDict d)"
  shows "wait_for matches timeout (others @ Arrived t (PDict d) # rest) = Some (Inr d)"
  using assms by (induction others) (auto split: arrival.splits)

lemma extract_envelope:
  assumes "keeps_answering cfg env" "strip question \<noteq> []"
  shows "extract_request env (PDict (query_envelope question (oe_uuid_text env u) site)) nid = (Some (strip question, u), nid)"
proof -
  have "oe_uuid_text env u \<noteq> []" "oe_parse_uuid env (oe_uuid_text env u) = Some u"
    using assms(1) by (auto simp: keeps_answering_def)
  then show ?thesis
    using assms(2) by (simp add: extract_request_def query_envelope_def get_str_def shown_def)
qed

lemma result_matches:
  "query_matches py_str (oe_uuid_text env u) (PDict (query_result_json (oe_uuid_text env) iso_text r)) \<longleftrightarrow>
     oe_uuid_text env (qr_request_id r) = oe_uuid_text env u"
  by (simp add: query_matches_def query_result_json_def shown_def)



end
