(* ===== verification/Bench.thy ===== *)
theory Bench
  imports Simulator Policy Quality Retrieval
begin

text \<open>
  The benchmark (\<open>benchmarks/generate.py\<close>, \<open>runner.py\<close> and \<open>report.py\<close>): the scenarios of a sweep, the run of
  one scenario against the bus, and the report over the results.

  The hand-written scenarios are what \<open>load\<close> gives for the files of the directory. A subscription is the
  list of what it yields with the clock reading at which it does; the readings of the wall clock are parameters.
  \<open>fos\<close> is \<open>float\<close> of a text, \<open>None\<close> where it raises.
\<close>

section \<open>The scenarios of a sweep\<close>

definition BENCH_SITES :: "string list" where
  "BENCH_SITES = [''frankfurt'', ''singapore'', ''mumbai'']"

record variant =
  vr_category :: string
  vr_failure_mode :: failure_mode
  vr_device_type :: string
  vr_detection_kind :: string
  vr_root_cause :: string
  vr_actions :: "string list"

definition variant_of :: "string \<Rightarrow> failure_mode \<Rightarrow> string \<Rightarrow> string \<Rightarrow> string \<Rightarrow> string list \<Rightarrow> variant" where
  "variant_of c m d k r a =
     \<lparr>vr_category = c, vr_failure_mode = m, vr_device_type = d, vr_detection_kind = k, vr_root_cause = r, vr_actions = a\<rparr>"

definition VARIANTS :: "variant list" where
  "VARIANTS =
    [variant_of ''gpu'' GPU_ECC_RUNAWAY ''gpu'' ''gpu_ecc_runaway''
       (''GPU memory cell wear-out; correctable ECC count crossed threshold.'') [''workload_migration''],
     variant_of ''gpu'' GPU_THERMAL_THROTTLE ''gpu'' ''gpu_thermal''
       (''GPU thermal throttling; rack inlet or fan capacity exceeded.'') [''workload_migration'', ''fan_speed_adjust''],
     variant_of ''gpu'' GPU_XID_43 ''gpu'' ''gpu_fatal_xid''
       (''NVIDIA XID 43 '' @ em_dash @ '' GPU stopped responding to commands.'') [''workload_migration''],
     variant_of ''gpu'' GPU_THERMAL_THROTTLE ''gpu'' ''gpu_thermal''
       (''GPU thermal throttle following hall ambient rise.'') [''workload_migration'', ''fan_speed_adjust''],
     variant_of ''gpu'' GPU_ECC_RUNAWAY ''gpu'' ''gpu_ecc_runaway''
       (''Progressive ECC drift suggests pending uncorrectable event.'') [''workload_migration''],
     variant_of ''psu'' PSU_EFFICIENCY_DRIFT ''server'' ''psu_efficiency_drift''
       (''PSU efficiency dropped below 85% '' @ em_dash @ '' capacitor aging.'') [''workload_migration''],
     variant_of ''psu'' PSU_FAIL ''server'' ''psu_failure''
       (''PSU complete failure; rack draw should be picked up by the redundant unit.'') [''workload_migration''],
     variant_of ''thermal'' FAN_STUCK ''server'' ''thermal_cascade''
       (''Fan stuck at 0 RPM while CPU temp rises into throttle range.'') [''fan_speed_adjust'', ''workload_migration''],
     variant_of ''thermal'' GPU_THERMAL_THROTTLE ''gpu'' ''gpu_thermal''
       (''Thermal envelope exceeded; mixed CPU+GPU contributors.'') [''workload_migration''],
     variant_of ''cooling'' CRAC_FAIL ''crac'' ''crac_failure''
       (''CRAC unit failed; hall ambient will rise without compensation.'') [''workload_migration''],
     variant_of ''network'' SWITCH_PORT_FLAP ''switch'' ''switch_port_flap''
       (''ToR switch ports flapping; intermittent connectivity for rack.'') [],
     variant_of ''storage'' DISK_REALLOC_RAMP ''server'' ''disk_smart_drift''
       (''Disk reallocated sector count rising; SMART says pre-failure.'') []]"

definition device_selector :: "string \<Rightarrow> string \<Rightarrow> dict" where
  "device_selector device_type strategy =
     [(''type'', PStr device_type), (''rack'', PStr ''any''), (''pick_strategy'', PStr strategy)]"

definition device_selectors :: "string \<Rightarrow> nat \<Rightarrow> dict list" where
  "device_selectors device_type n = map (\<lambda>i. device_selector device_type (''hash_'' @ str_of_nat i)) [0..<n]"

definition step_of :: "real \<Rightarrow> dict \<Rightarrow> failure_mode \<Rightarrow> scenario_step" where
  "step_of delay selector mode =
     \<lparr>sp_delay_seconds = delay, sp_device_selector = selector, sp_failure_mode = mode, sp_duration_seconds = PNone\<rparr>"

definition detection :: "int \<Rightarrow> string \<Rightarrow> real \<Rightarrow> dict" where
  "detection seconds kind p =
     [(''agent'', PStr ''sentinel''), (''within_seconds'', PInt seconds), (''failure_kind'', PStr kind),
      (''min_probability'', PFloat p)]"

definition scenario_of :: "string \<Rightarrow> string \<Rightarrow> scenario_step list \<Rightarrow> dict \<Rightarrow> string \<Rightarrow> string list \<Rightarrow> scenario" where
  "scenario_of name description steps expected cause actions =
     \<lparr>sn_name = PStr name, sn_description = PStr description, sn_steps = steps, sn_expected_detection = PDict expected,
      sn_expected_root_cause = PStr cause, sn_expected_actions = PList (map PStr actions)\<rparr>"

definition variant_name :: "variant \<Rightarrow> string \<Rightarrow> string \<Rightarrow> string" where
  "variant_name v site sfx =
     ''gen_'' @ vr_category v @ ''_'' @ failure_mode_value (vr_failure_mode v) @ ''_'' @ site @ ''_'' @ sfx"

definition scenario_from_variant :: "variant \<Rightarrow> string \<Rightarrow> dict \<Rightarrow> string \<Rightarrow> scenario" where
  "scenario_from_variant v site pick sfx =
     scenario_of (variant_name v site sfx)
       (''Auto-generated '' @ vr_category v @ '' scenario '' @ em_dash @ '' '' @ failure_mode_value (vr_failure_mode v)
          @ '' at '' @ site @ ''.'')
       [step_of 0 pick (vr_failure_mode v)]
       (detection 90 (vr_detection_kind v) (6 / 10)) (vr_root_cause v) (vr_actions v)"

definition arrow :: string where "arrow = [CHR 0xE2, CHR 0x86, CHR 0x92]"

definition multi_at :: "string \<Rightarrow> scenario list" where
  "multi_at site =
     [scenario_of (''gen_multi_fan_psu_'' @ site)
        (''Fan stuck '' @ arrow @ '' CPU throttles '' @ arrow @ '' PSU efficiency drifts.'')
        [step_of 0 [(''type'', PStr ''server''), (''rack'', PStr ''any'')] FAN_STUCK,
         step_of 30 [(''type'', PStr ''server''), (''rack'', PStr ''same'')] PSU_EFFICIENCY_DRIFT]
        (detection 120 ''thermal_cascade'' (6 / 10))
        ''Fan failure caused thermal stress; PSU efficiency drifted under sustained load.''
        [''workload_migration'', ''fan_speed_adjust''],
      scenario_of (''gen_multi_crac_cascade_'' @ site)
        (''CRAC fail '' @ arrow @ '' multi-rack inlet rise.'')
        [step_of 0 [(''type'', PStr ''crac''), (''hall'', PStr ''any'')] CRAC_FAIL]
        (detection 180 ''gpu_thermal'' (6 / 10))
        ''CRAC unit failure; hall ambient rose, GPUs throttle.'' [''workload_migration'']]"

definition multi_signal_scenarios :: "scenario list" where
  "multi_signal_scenarios = concat (map multi_at BENCH_SITES)"

definition federated_at :: "string \<Rightarrow> scenario" where
  "federated_at origin =
     scenario_of (''gen_federated_gpu_ecc_'' @ origin)
       (''Repeated GPU ECC at '' @ origin
          @ ''; correlator should broadcast a shadow-mode candidate to the other sites.'')
       [step_of 0 [(''type'', PStr ''gpu''), (''rack'', PStr ''any'')] GPU_ECC_RUNAWAY]
       (detection 90 ''gpu_ecc_runaway'' (7 / 10) @ [(''expect_propagation'', PBool True)])
       ''GPU memory wear; cross-site candidate broadcast.'' [''workload_migration'']"

definition federated_pairs :: "(string \<times> string) list" where
  "federated_pairs =
     [(''frankfurt'', ''singapore''), (''frankfurt'', ''mumbai''), (''singapore'', ''mumbai''), (''mumbai'', ''frankfurt'')]"

definition federated_scenarios :: "scenario list" where
  "federated_scenarios = map (\<lambda>(origin, target). federated_at origin) federated_pairs"

definition grid :: "scenario list" where
  "grid = concat (map (\<lambda>v. concat (map (\<lambda>site.
     map (\<lambda>(i, pick). scenario_from_variant v site pick (str_of_nat i))
       (enumerate 0 (device_selectors (vr_device_type v) 4))) BENCH_SITES)) VARIANTS)"

text \<open>The cross product, which returns from \<open>generate\<close> as soon as the list is long enough.\<close>

fun fill :: "int \<Rightarrow> scenario list \<Rightarrow> scenario list \<Rightarrow> scenario list \<times> bool" where
  "fill target [] out = (out, False)"
| "fill target (s # ss) out =
     (let out1 = out @ [s] in if target \<le> int (length out1) then (out1, True) else fill target ss out1)"

definition three_digits :: "nat \<Rightarrow> string" where
  "three_digits n = (if n < 10 then ''00'' else if n < 100 then ''0'' else []) @ str_of_nat n"

definition random_scenario :: "'r rng \<Rightarrow> nat \<Rightarrow> 'r \<Rightarrow> scenario \<times> 'r" where
  "random_scenario g n r =
     (let (v, r1) = rg_choice g VARIANTS r; (site, r2) = rg_choice g BENCH_SITES r1; (k, r3) = rg_index g 10000 r2
      in (scenario_from_variant v site (device_selector (vr_device_type v) (''random_'' @ str_of_nat k))
            (''r'' @ three_digits n), r3))"

function pad :: "'r rng \<Rightarrow> int \<Rightarrow> scenario list \<Rightarrow> 'r \<Rightarrow> scenario list" where
  "pad g target out r =
     (if target \<le> int (length out) then out
      else let (s, r1) = random_scenario g (length out) r in pad g target (out @ [s]) r1)"
  by auto
termination by (relation "measure (\<lambda>(g, target, out, r). nat (target - int (length out)))") auto

declare pad.simps [simp del]

text \<open>\<open>r\<close> is the state of \<open>random.Random(seed)\<close>; \<open>curated\<close> loads the hand-written scenarios.\<close>

definition curated :: "(string \<Rightarrow> real option) \<Rightarrow> (string \<Rightarrow> pyval option) \<Rightarrow> string list \<Rightarrow> scenario list res" where
  "curated fos yaml_file files =
     collect (\<lambda>name. res_bind (load_scenario fos yaml_file name) (\<lambda>s. Inr [s])) (list_available files)"

definition generate :: "'r rng \<Rightarrow> 'r \<Rightarrow> scenario list res \<Rightarrow> int \<Rightarrow> scenario list res" where
  "generate g r hand_written target =
     res_bind hand_written (\<lambda>out.
       let (out1, full) = fill target grid out
       in Inr (if full then out1
               else take (nat target) (pad g target (out1 @ multi_signal_scenarios @ federated_scenarios) r)))"

text \<open>The category a name stands for.\<close>

definition CATEGORY_TOKENS :: "(string \<times> string) list" where
  "CATEGORY_TOKENS =
     [(''gpu'', ''gpu''), (''psu'', ''psu''), (''thermal'', ''thermal''), (''crac'', ''cooling''), (''switch'', ''network''),
      (''disk'', ''storage'')]"

definition categorise :: "pyval \<Rightarrow> string res" where
  "categorise nm =
     (case nm of
        PStr name \<Rightarrow>
          Inr (if prefix ''gen_'' name then split_on CHR ''_'' name ! 1
               else case find (\<lambda>(token, cat). sublist token (lower name)) CATEGORY_TOKENS of
                      Some (token, cat) \<Rightarrow> cat
                    | None \<Rightarrow> ''other'')
      | _ \<Rightarrow> Inl (AttributeError ''startswith''))"

text \<open>\<open>setdefault(k, []).append(s)\<close>.\<close>

definition append_at :: "string \<Rightarrow> 'a \<Rightarrow> (string \<times> 'a list) list \<Rightarrow> (string \<times> 'a list) list" where
  "append_at k x d = AList.update k (get_def d k [] @ [x]) d"

fun categorise_many :: "scenario list \<Rightarrow> (string \<times> scenario list) list \<Rightarrow> (string \<times> scenario list) list res" where
  "categorise_many [] out = Inr out"
| "categorise_many (s # ss) out =
     res_bind (categorise (sn_name s)) (\<lambda>cat. categorise_many ss (append_at cat s out))"

section \<open>One scenario\<close>

record scenario_result =
  rr_name :: pyval
  rr_category :: string
  rr_site_id :: string
  rr_started_at :: string
  rr_finished_at :: string
  rr_detected :: bool
  rr_detection_latency_sec :: "real option"
  rr_rca_top1_match :: bool
  rr_actions_proposed :: "pyval list"
  rr_actions_executed :: "pyval list"
  rr_expected_actions :: "pyval list"
  rr_candidate_propagated :: bool
  rr_llm_cost_usd :: real
  rr_error :: "string option"
  rr_incident_id :: pyval
  rr_rca_text :: pyval
  rr_predictions :: "dict list"

definition scenario_site :: "pyval \<Rightarrow> string res" where
  "scenario_site nm =
     (let first = (\<lambda>p. case find p BENCH_SITES of Some site \<Rightarrow> site | None \<Rightarrow> ''frankfurt'')
      in case nm of
           PStr name \<Rightarrow> Inr (first (\<lambda>site. sublist site name))
         | PList xs \<Rightarrow> Inr (first (\<lambda>site. PStr site \<in> set xs))
         | PDict d \<Rightarrow> Inr (first (\<lambda>site. site \<in> fst ` set d))
         | _ \<Rightarrow> Inl (TypeError ''argument is not iterable''))"

definition inject_payload :: "scenario \<Rightarrow> string \<Rightarrow> dict" where
  "inject_payload s site_id =
     [(''site_id'', PStr site_id), (''scenario_name'', sn_name s),
      (''steps'', PList (map (\<lambda>st. PDict
         [(''delay_seconds'', PFloat (sp_delay_seconds st)), (''device_selector'', PDict (sp_device_selector st)),
          (''failure_mode'', PStr (failure_mode_value (sp_failure_mode st))), (''duration_seconds'', sp_duration_seconds st)])
        (sn_steps s)))]"

text \<open>Words between ASCII white space, and the number of characters of a text in UTF-8.\<close>

definition words_of :: "string \<Rightarrow> string list" where
  "words_of s = filter (\<lambda>w. w \<noteq> [])
     (split_on CHR '' '' (map (\<lambda>c. if is_space c \<and> (of_char c :: nat) < 128 then CHR '' '' else c) s))"

definition char_count :: "string \<Rightarrow> nat" where
  "char_count s = length (filter (\<lambda>c. let n = of_char c :: nat in n < 128 \<or> 192 \<le> n) s)"

definition rca_tokens :: "string \<Rightarrow> string list" where
  "rca_tokens expected = map lower (filter (\<lambda>t. 4 < char_count t) (words_of expected))"

definition rca_match :: "pyval \<Rightarrow> pyval \<Rightarrow> bool res" where
  "rca_match expected observed =
     (if \<not> truthy observed then Inr False
      else case expected of
             PStr e \<Rightarrow>
               let tokens = rca_tokens e
               in if tokens = [] then Inr False
                  else (case observed of
                          PStr obs \<Rightarrow>
                            Inr (max 2 (length tokens div 3) \<le> length (filter (\<lambda>t. sublist t (lower obs)) tokens))
                        | _ \<Rightarrow> Inl (AttributeError ''lower''))
           | _ \<Rightarrow> Inl (AttributeError ''split''))"

text \<open>\<open>_collect\<close>: a site filter lets through the events of that site, those without one and those that name it as their
  target.\<close>

definition wanted :: "string option \<Rightarrow> dict \<Rightarrow> bool" where
  "wanted site_filter d =
     (case site_filter of
        None \<Rightarrow> True
      | Some site \<Rightarrow>
          site = [] \<or> get_def d ''site_id'' PNone \<in> {PStr site, PNone} \<or> map_of d ''target_site_id'' = Some (PStr site))"

definition received :: "string option \<Rightarrow> real \<times> pyval \<Rightarrow> dict option" where
  "received site_filter =
     (\<lambda>(t, event). case event of
        PDict d \<Rightarrow> if wanted site_filter d then Some (AList.update ''__received_mono'' (PFloat t) d) else None
      | _ \<Rightarrow> None)"

definition collected :: "real \<Rightarrow> string option \<Rightarrow> (real \<times> pyval) list \<Rightarrow> dict list" where
  "collected deadline site_filter feed =
     List.map_filter (received site_filter) (takeWhile (\<lambda>(t, event). t < deadline) feed)"

text \<open>\<open>since\<close> is the time from the start to a time stamp, or what reading it raises.\<close>

fun latency_of :: "(string \<Rightarrow> real res) \<Rightarrow> real \<Rightarrow> dict list \<Rightarrow> real option res" where
  "latency_of since t0 [] = Inr None"
| "latency_of since t0 (p # ps) =
     (case map_of p ''__received_mono'' of
        Some (PFloat t) \<Rightarrow> Inr (Some (t - t0))
      | _ \<Rightarrow>
          (case map_of p ''timestamp'' of
             Some (PStr ts) \<Rightarrow>
               (case since ts of
                  Inr x \<Rightarrow> Inr (Some x)
                | Inl (ValueError e) \<Rightarrow> latency_of since t0 ps
                | Inl e \<Rightarrow> Inl e)
           | _ \<Rightarrow> latency_of since t0 ps))"

text \<open>What one run meets: its subscriptions by pattern, what publishing raises, the clocks, and the order in which
  \<open>list\<close> gives the elements of a set.\<close>

record bench_env =
  be_feed :: "string \<Rightarrow> (real \<times> pyval) list"
  be_publish_error :: "string option"
  be_started :: real
  be_finished :: real
  be_mono :: real
  be_iso :: "real \<Rightarrow> string"
  be_since :: "string \<Rightarrow> real res"
  be_float :: "string \<Rightarrow> real option"
  be_set_order :: "pyval list \<Rightarrow> pyval list"

definition within_seconds :: "scenario \<Rightarrow> pyval res" where
  "within_seconds s =
     (case sn_expected_detection s of
        PDict d \<Rightarrow> Inr (get_def d ''within_seconds'' (PInt 90))
      | _ \<Rightarrow> Inl (AttributeError ''get''))"

definition window_of :: "bench_env \<Rightarrow> scenario \<Rightarrow> real option \<Rightarrow> real res" where
  "window_of env s timeout =
     (case timeout of
        Some t \<Rightarrow> if t \<noteq> 0 then Inr t else res_bind (within_seconds s) (py_float (be_float env))
      | None \<Rightarrow> res_bind (within_seconds s) (py_float (be_float env)))"

definition rca_text_of :: "dict list \<Rightarrow> pyval" where
  "rca_text_of incidents =
     (case incidents of
        [] \<Rightarrow> PNone
      | d # ds \<Rightarrow> (case j_or (get_def d ''metadata'' PNone) (PDict []) of PDict md \<Rightarrow> get_def md ''summary'' PNone | _ \<Rightarrow> PNone))"

definition incident_cost :: "bench_env \<Rightarrow> dict list \<Rightarrow> real res" where
  "incident_cost env incidents =
     (case incidents of [] \<Rightarrow> Inr 0 | d # ds \<Rightarrow> py_float (be_float env) (get_def d ''llm_cost_usd'' (PFloat 0)))"

definition proposed_kinds :: "bench_env \<Rightarrow> dict list \<Rightarrow> pyval list res" where
  "proposed_kinds env recs =
     res_bind (py_set (PList (map (\<lambda>r. get_def r ''kind'' (PStr ''?'')) recs))) (\<lambda>ks. Inr (be_set_order env (remdups ks)))"

definition publish_failed :: "bench_env \<Rightarrow> scenario \<Rightarrow> string \<Rightarrow> string \<Rightarrow> scenario_result res" where
  "publish_failed env s site_id exc =
     res_bind (categorise (sn_name s)) (\<lambda>cat. res_bind (j_iter (sn_expected_actions s)) (\<lambda>expected.
       Inr \<lparr>rr_name = sn_name s, rr_category = cat, rr_site_id = site_id, rr_started_at = be_iso env (be_started env),
            rr_finished_at = be_iso env (be_finished env), rr_detected = False, rr_detection_latency_sec = None,
            rr_rca_top1_match = False, rr_actions_proposed = [], rr_actions_executed = [], rr_expected_actions = expected,
            rr_candidate_propagated = False, rr_llm_cost_usd = 0, rr_error = Some (''publish_failed: '' @ exc),
            rr_incident_id = PNone, rr_rca_text = PNone, rr_predictions = []\<rparr>))"

definition outcome :: "bench_env \<Rightarrow> scenario \<Rightarrow> string \<Rightarrow> dict list \<Rightarrow> dict list \<Rightarrow> dict list \<Rightarrow> dict list \<Rightarrow> scenario_result res" where
  "outcome env s site_id predictions incidents recommendations candidates =
     res_bind (latency_of (be_since env) (be_mono env) predictions) (\<lambda>latency.
     res_bind (rca_match (sn_expected_root_cause s) (rca_text_of incidents)) (\<lambda>matched.
     res_bind (incident_cost env incidents) (\<lambda>cost.
     res_bind (proposed_kinds env recommendations) (\<lambda>proposed.
     res_bind (categorise (sn_name s)) (\<lambda>cat.
     res_bind (j_iter (sn_expected_actions s)) (\<lambda>expected.
       Inr \<lparr>rr_name = sn_name s, rr_category = cat, rr_site_id = site_id, rr_started_at = be_iso env (be_started env),
            rr_finished_at = be_iso env (be_finished env), rr_detected = (latency \<noteq> None),
            rr_detection_latency_sec = latency, rr_rca_top1_match = matched, rr_actions_proposed = proposed,
            rr_actions_executed = [], rr_expected_actions = expected, rr_candidate_propagated = (candidates \<noteq> []),
            rr_llm_cost_usd = cost, rr_error = None,
            rr_incident_id = (case incidents of [] \<Rightarrow> PNone | d # ds \<Rightarrow> get_def d ''incident_id'' PNone),
            rr_rca_text = rca_text_of incidents,
            rr_predictions = map (filter (\<lambda>kv. fst kv \<noteq> ''__received_mono'')) predictions\<rparr>))))))"

definition run_one :: "bench_env \<Rightarrow> scenario \<Rightarrow> real option \<Rightarrow> real \<Rightarrow> scenario_result res \<times> dict effect list" where
  "run_one env s timeout grace =
     (case scenario_site (sn_name s) of
        Inl e \<Rightarrow> (Inl e, [])
      | Inr site_id \<Rightarrow>
          (case window_of env s timeout of
             Inl e \<Rightarrow> (Inl e, [])
           | Inr window \<Rightarrow>
               let sent = [Publish ''simulator.inject'' (inject_payload s site_id)];
                   feed = (\<lambda>pattern site_filter. collected (be_mono env + (window + grace)) site_filter (be_feed env pattern))
               in case be_publish_error env of
                    Some exc \<Rightarrow> (publish_failed env s site_id exc, sent)
                  | None \<Rightarrow>
                      (outcome env s site_id (feed ''predictions.failure'' (Some site_id)) (feed ''incidents.report'' (Some site_id))
                         (feed ''recommendations.*'' (Some site_id)) (feed ''federation.rule_candidate.*'' None), sent)))"

section \<open>A sweep\<close>

text \<open>\<open>env i\<close> is what the run of the \<open>i\<close>-th scenario meets; with more than one worker the runs end in the order of
  \<open>finish\<close>, and the first one that raises ends the sweep.\<close>

definition sequential :: "(nat \<Rightarrow> bench_env) \<Rightarrow> real option \<Rightarrow> scenario list \<Rightarrow> scenario_result list res" where
  "sequential env timeout scenarios =
     collect (\<lambda>(i, s). res_bind (fst (run_one (env i) s timeout 30)) (\<lambda>r. Inr [r])) (enumerate 0 scenarios)"

fun store_results :: "(nat \<Rightarrow> scenario_result res) \<Rightarrow> nat list \<Rightarrow> scenario_result option list \<Rightarrow> scenario_result option list res" where
  "store_results run [] results = Inr results"
| "store_results run (i # is) results = res_bind (run i) (\<lambda>r. store_results run is (results[i := Some r]))"

definition concurrent :: "(nat \<Rightarrow> bench_env) \<Rightarrow> real option \<Rightarrow> nat list \<Rightarrow> scenario list \<Rightarrow> scenario_result list res" where
  "concurrent env timeout finish scenarios =
     res_bind (store_results (\<lambda>i. fst (run_one (env i) (scenarios ! i) timeout 30)) finish (replicate (length scenarios) None))
       (\<lambda>results. Inr (List.map_filter id results))"

definition run_batch :: "(nat \<Rightarrow> bench_env) \<Rightarrow> real option \<Rightarrow> int \<Rightarrow> nat list \<Rightarrow> scenario list \<Rightarrow> scenario_result list res" where
  "run_batch env timeout workers finish scenarios =
     (if workers \<le> 1 then sequential env timeout scenarios else concurrent env timeout finish scenarios)"

section \<open>The report\<close>

text \<open>\<open>asdict\<close> of a result, as it is written and read back.\<close>

definition result_row :: "scenario_result \<Rightarrow> dict" where
  "result_row r =
     [(''name'', rr_name r), (''category'', PStr (rr_category r)), (''site_id'', PStr (rr_site_id r)),
      (''started_at'', PStr (rr_started_at r)), (''finished_at'', PStr (rr_finished_at r)),
      (''detected'', PBool (rr_detected r)),
      (''detection_latency_sec'', case rr_detection_latency_sec r of None \<Rightarrow> PNone | Some x \<Rightarrow> PFloat x),
      (''rca_top1_match'', PBool (rr_rca_top1_match r)), (''actions_proposed'', PList (rr_actions_proposed r)),
      (''actions_executed'', PList (rr_actions_executed r)), (''expected_actions'', PList (rr_expected_actions r)),
      (''candidate_propagated'', PBool (rr_candidate_propagated r)), (''llm_cost_usd'', PFloat (rr_llm_cost_usd r)),
      (''error'', case rr_error r of None \<Rightarrow> PNone | Some e \<Rightarrow> PStr e), (''incident_id'', rr_incident_id r),
      (''rca_text'', rr_rca_text r), (''predictions'', PList (map PDict (rr_predictions r)))]"

definition TARGETS :: "(string \<times> string \<times> string) list" where
  "TARGETS =
     [(''predictive_precision'', ''Predictive precision @ 24h horizon'', ''> 0.80''),
      (''rca_top1'', ''RCA top-1 accuracy'', ''> 0.70''), (''mttd'', ''Mean time to detect (s)'', ''< 60''),
      (''p95_mttd'', ''p95 time to detect (s)'', ''< 120''),
      (''llm_cost_per_incident'', ''LLM cost per incident (USD)'', ''< $0.02''),
      (''action_recall'', ''Action recommendation recall'', ''> 0.70''),
      (''federation_propagation'', ''Federation propagation rate'', ''> 0.80'')]"

definition lstrip_of :: "string \<Rightarrow> string \<Rightarrow> string" where
  "lstrip_of cs s = dropWhile (\<lambda>c. c \<in> set cs) s"

definition verdict_of :: "(string \<Rightarrow> real option) \<Rightarrow> real \<Rightarrow> string \<Rightarrow> string" where
  "verdict_of fos measured target0 =
     (let target = strip target0;
          threshold = (\<lambda>c. fos (strip (lstrip_of ''$ '' (lstrip_of [c] target))));
          says = (\<lambda>b. if b then ''ok'' else ''miss'')
      in if prefix ''>'' target
         then (case threshold CHR ''>'' of None \<Rightarrow> ''pending'' | Some x \<Rightarrow> says (x < measured))
         else if prefix ''<'' target
         then (case threshold CHR ''<'' of None \<Rightarrow> ''pending'' | Some x \<Rightarrow> says (measured < x))
         else ''pending'')"

text \<open>The format \<open>.nf\<close> for positive \<open>n\<close>.\<close>

definition zero_filled :: "nat \<Rightarrow> nat \<Rightarrow> string" where
  "zero_filled n k = (let s = str_of_nat k in replicate (n - length s) CHR ''0'' @ s)"

definition fixed_n :: "nat \<Rightarrow> real \<Rightarrow> string" where
  "fixed_n n x =
     (let k = nat (py_round (10 ^ n * \<bar>x\<bar>))
      in (if x < 0 then ''-'' else []) @ str_of_nat (k div 10 ^ n) @ ''.'' @ zero_filled n (k mod 10 ^ n))"

definition fmt_of :: "nat \<Rightarrow> real option \<Rightarrow> string" where
  "fmt_of n v = (case v of None \<Rightarrow> em_dash | Some x \<Rightarrow> fixed_n n x)"

definition flag :: "dict \<Rightarrow> string \<Rightarrow> bool" where
  "flag r k = truthy (get_def r k PNone)"

text \<open>Numbers out of values; anything else makes \<open>statistics.mean\<close> raise.\<close>

definition numbers :: "pyval list \<Rightarrow> real list res" where
  "numbers vs = collect (\<lambda>v. case num_of v of None \<Rightarrow> Inl (TypeError ''can't convert type'') | Some x \<Rightarrow> Inr [x]) vs"

definition mean_of :: "real list \<Rightarrow> real" where
  "mean_of xs = sum_list xs / real (length xs)"

definition latencies_of :: "dict list \<Rightarrow> real list res" where
  "latencies_of rs =
     numbers (filter (\<lambda>v. v \<noteq> PNone) (map (\<lambda>r. get_def r ''detection_latency_sec'' PNone) (filter (\<lambda>r. flag r ''detected'') rs)))"

definition cost_of :: "(string \<Rightarrow> real option) \<Rightarrow> dict \<Rightarrow> real res" where
  "cost_of fos r = py_float fos (j_or (get_def r ''llm_cost_usd'' (PFloat 0)) (PFloat 0))"

definition costs_of :: "(string \<Rightarrow> real option) \<Rightarrow> dict list \<Rightarrow> real res" where
  "costs_of fos rs = res_bind (collect (\<lambda>r. res_bind (cost_of fos r) (\<lambda>x. Inr [x])) rs) (\<lambda>xs. Inr (sum_list xs))"

definition shared :: "pyval list \<Rightarrow> pyval list \<Rightarrow> nat" where
  "shared xs ys = length (remdups (filter (\<lambda>x. x \<in> set ys) xs))"

definition recall_of :: "dict \<Rightarrow> real res" where
  "recall_of r =
     res_bind (py_set (get_def r ''expected_actions'' (PList []))) (\<lambda>expected.
       if expected = [] then Inr 1
       else res_bind (py_set (get_def r ''actions_proposed'' (PList []))) (\<lambda>proposed.
              Inr (real (shared expected proposed) / real (length (remdups expected)))))"

definition percentile :: "real list \<Rightarrow> real \<Rightarrow> real" where
  "percentile vals p =
     (if vals = [] then 0 else sort vals ! nat (py_round (p * real (length vals - 1))))"

definition is_federated :: "dict \<Rightarrow> bool res" where
  "is_federated r =
     (case get_def r ''name'' (PStr []) of
        PStr s \<Rightarrow> Inr (prefix ''gen_federated_'' s)
      | _ \<Rightarrow> Inl (AttributeError ''startswith''))"

definition or_none :: "'a list \<Rightarrow> ('a list \<Rightarrow> real) \<Rightarrow> real option" where
  "or_none xs f = (if xs = [] then None else Some (f xs))"

definition aggregate :: "(string \<Rightarrow> real option) \<Rightarrow> dict list \<Rightarrow> (string \<times> real option) list res" where
  "aggregate fos rs =
     (let n = real (length rs); count = (\<lambda>k xs. real (length (filter (\<lambda>r. flag r k) xs)))
      in if rs = [] then Inr (map (\<lambda>(k, label, target). (k, None)) TARGETS)
         else res_bind (collect (\<lambda>r. res_bind (is_federated r) (\<lambda>b. Inr (if b then [r] else []))) rs) (\<lambda>federated.
              res_bind (collect (\<lambda>r. res_bind (recall_of r) (\<lambda>x. Inr [x])) rs) (\<lambda>recalls.
              res_bind (costs_of fos rs) (\<lambda>total.
              res_bind (latencies_of rs) (\<lambda>latencies.
                Inr [(''predictive_precision'', Some (count ''detected'' rs / n)),
                     (''rca_top1'', Some (count ''rca_top1_match'' rs / n)),
                     (''mttd'', or_none latencies mean_of),
                     (''p95_mttd'', or_none latencies (\<lambda>xs. percentile xs (95 / 100))),
                     (''llm_cost_per_incident'', Some (total / n)),
                     (''action_recall'', or_none recalls mean_of),
                     (''federation_propagation'',
                       or_none federated (\<lambda>fs. count ''candidate_propagated'' fs / real (length fs)))])))))"

section \<open>The report's page\<close>

definition html_char :: "char \<Rightarrow> string" where
  "html_char c =
     (if c = CHR ''&'' then ''&amp;'' else if c = CHR ''<'' then ''&lt;'' else if c = CHR ''>'' then ''&gt;''
      else if c = CHR 0x22 then ''&quot;'' else if c = CHR 0x27 then ''&#x27;'' else [c])"

definition html_escape :: "string \<Rightarrow> string" where
  "html_escape s = concat (map html_char s)"

definition escaped :: "pyval \<Rightarrow> string res" where
  "escaped v = (case v of PStr s \<Rightarrow> Inr (html_escape s) | _ \<Rightarrow> Inl (AttributeError ''replace''))"

definition td :: "string \<Rightarrow> string \<Rightarrow> string" where
  "td cls body = ''<td class='' @ [CHR 0x27] @ cls @ [CHR 0x27] @ ''>'' @ body @ ''</td>''"

definition headline_row :: "(string \<Rightarrow> real option) \<Rightarrow> (string \<times> real option) list \<Rightarrow> string \<times> string \<times> string \<Rightarrow> string" where
  "headline_row fos agg =
     (\<lambda>(k, label, target).
        let start = ''<tr><td>'' @ label @ ''</td><td>'' @ target @ ''</td>''
        in case get_def agg k None of
             None \<Rightarrow> start @ td ''metric'' em_dash @ td ''pending'' ''no data'' @ ''</tr>''
           | Some x \<Rightarrow>
               let v = verdict_of fos x target
               in start @ td ''metric'' (fixed_n (if k \<in> {''mttd'', ''p95_mttd''} then 1 else 3) x) @ td v (upper v) @ ''</tr>'')"

definition headline_rows :: "(string \<Rightarrow> real option) \<Rightarrow> (string \<times> real option) list \<Rightarrow> string" where
  "headline_rows fos agg = join_with newline (map (headline_row fos agg) TARGETS)"

definition category_key :: "dict \<Rightarrow> string res" where
  "category_key r =
     (case get_def r ''category'' (PStr ''other'') of PStr c \<Rightarrow> Inr c | _ \<Rightarrow> Inl (AttributeError ''replace''))"

fun by_category :: "dict list \<Rightarrow> (string \<times> dict list) list \<Rightarrow> (string \<times> dict list) list res" where
  "by_category [] out = Inr out"
| "by_category (r # rs) out = res_bind (category_key r) (\<lambda>c. by_category rs (append_at c r out))"

definition py_len :: "pyval \<Rightarrow> nat res" where
  "py_len v = res_bind (j_iter v) (\<lambda>xs. Inr (length xs))"

definition category_recall :: "dict \<Rightarrow> real res" where
  "category_recall r =
     (if \<not> flag r ''expected_actions'' then Inr 1
      else let expected = get_def r ''expected_actions'' (PList [])
           in res_bind (py_set expected) (\<lambda>xs. res_bind (py_set (get_def r ''actions_proposed'' (PList []))) (\<lambda>ys.
              res_bind (py_len expected) (\<lambda>n. Inr (real (shared xs ys) / real n)))))"

definition of_total :: "nat \<Rightarrow> nat \<Rightarrow> string" where
  "of_total k n = str_of_nat k @ ''/'' @ str_of_nat n"

text \<open>The literals of a row are joined before the conditional expressions between them are read, so each of the three
  branches is a piece of the row.\<close>

definition category_row :: "string \<Rightarrow> dict list \<Rightarrow> real list \<Rightarrow> real list \<Rightarrow> string" where
  "category_row cat rs latencies recalls =
     (let metric = ''<td class='' @ [CHR 0x27] @ ''metric'' @ [CHR 0x27] @ ''>''; count = (\<lambda>k. length (filter (\<lambda>r. flag r k) rs))
      in if latencies \<noteq> []
         then ''<tr><td>'' @ html_escape cat @ ''</td>'' @ td ''metric'' (str_of_nat (length rs))
              @ td ''metric'' (of_total (count ''detected'') (length rs))
              @ td ''metric'' (of_total (count ''rca_top1_match'') (length rs)) @ metric @ fixed_n 1 (mean_of latencies)
         else if recalls \<noteq> [] then metric @ em_dash @ ''</td>'' @ metric @ fixed2 (mean_of recalls)
         else metric @ em_dash @ ''</td></tr>'')"

definition category_rows :: "dict list \<Rightarrow> string res" where
  "category_rows results =
     res_bind (by_category results []) (\<lambda>by_cat.
     res_bind (collect (\<lambda>cat.
         let rs = get_def by_cat cat []
         in res_bind (latencies_of rs) (\<lambda>latencies.
            res_bind (collect (\<lambda>r. res_bind (category_recall r) (\<lambda>x. Inr [x])) rs) (\<lambda>recalls.
              Inr [category_row cat rs latencies recalls])))
       (sort (map fst by_cat))) (\<lambda>rows. Inr (join_with newline rows)))"

definition with_cost :: "dict list \<Rightarrow> nat" where
  "with_cost rs = length (filter (\<lambda>r. flag r ''llm_cost_usd'') rs)"

definition cost_row :: "string \<Rightarrow> nat \<Rightarrow> real \<Rightarrow> string" where
  "cost_row label n t =
     (let per = (if n \<noteq> 0 then t / real (max 1 n) else 0)
      in ''<tr><td>'' @ label @ ''</td>'' @ td ''metric'' (str_of_nat n) @ td ''metric'' (''$'' @ fixed_n 4 t)
         @ td ''metric'' (''$'' @ fixed_n 4 per) @ ''</tr>'')"

definition cost_rows :: "(string \<Rightarrow> real option) \<Rightarrow> dict list \<Rightarrow> string res" where
  "cost_rows fos results =
     res_bind (costs_of fos results) (\<lambda>total.
     res_bind (by_category results []) (\<lambda>by_cat.
     res_bind (collect (\<lambda>cat.
         let rs = get_def by_cat cat []
         in res_bind (costs_of fos rs) (\<lambda>ct. Inr [cost_row (html_escape cat) (with_cost rs) ct]))
       (sort (map fst by_cat))) (\<lambda>rows.
       Inr (join_with newline (cost_row ''All scenarios'' (with_cost results) total # rows)))))"

definition joined_text :: "string \<Rightarrow> pyval \<Rightarrow> string res" where
  "joined_text sep v =
     res_bind (j_iter v) (\<lambda>xs.
       if list_all (\<lambda>x. str_of x \<noteq> None) xs then Inr (join_with sep (List.map_filter str_of xs))
       else Inl (TypeError ''sequence item: expected str instance''))"

definition latency_text :: "dict \<Rightarrow> string" where
  "latency_text r =
     (case num_of (get_def r ''detection_latency_sec'' PNone) of None \<Rightarrow> em_dash | Some x \<Rightarrow> fixed_n 1 x)"

definition cost_text :: "dict \<Rightarrow> string res" where
  "cost_text r =
     (case get_def r ''llm_cost_usd'' (PFloat 0) of
        PStr s \<Rightarrow> Inl (ValueError ''Unknown format code'')
      | v \<Rightarrow> (case num_of v of None \<Rightarrow> Inl (TypeError ''unsupported format string'') | Some x \<Rightarrow> Inr (fixed_n 4 x)))"

definition flag_class :: "dict \<Rightarrow> string \<Rightarrow> string" where
  "flag_class r k = (if flag r k then ''ok'' else ''miss'')"

definition detail_row :: "(pyval \<Rightarrow> string) \<Rightarrow> dict \<Rightarrow> string res" where
  "detail_row py_str r =
     res_bind (joined_text '', '' (get_def r ''actions_proposed'' (PList []))) (\<lambda>joined.
     res_bind (escaped (get_def r ''name'' (PStr ''?''))) (\<lambda>nm.
     res_bind (escaped (get_def r ''site_id'' (PStr ''?''))) (\<lambda>site.
     res_bind (escaped (get_def r ''category'' (PStr ''?''))) (\<lambda>cat.
     res_bind (cost_text r) (\<lambda>cost.
       Inr (''<tr>'' @ ''<td><code>'' @ nm @ ''</code></td>'' @ ''<td>'' @ site @ ''</td>''
          @ ''<td><span class='' @ [CHR 0x27] @ ''pill'' @ [CHR 0x27] @ ''>'' @ cat @ ''</span></td>''
          @ td (flag_class r ''detected'') (shown py_str (get_def r ''detected'' PNone))
          @ td ''metric'' (latency_text r)
          @ td (flag_class r ''rca_top1_match'') (shown py_str (get_def r ''rca_top1_match'' PNone))
          @ ''<td>'' @ html_escape (if joined = [] then em_dash else joined) @ ''</td>''
          @ td ''metric'' (''$'' @ cost) @ ''</tr>''))))))"

definition detail_rows :: "(pyval \<Rightarrow> string) \<Rightarrow> dict list \<Rightarrow> string res" where
  "detail_rows py_str results =
     res_bind (collect (\<lambda>r. res_bind (detail_row py_str r) (\<lambda>x. Inr [x])) results) (\<lambda>rows. Inr (join_with newline rows))"

definition middle_dot :: string where "middle_dot = '' '' @ [CHR 0xC2, CHR 0xB7] @ '' ''"

definition summary_text :: "(string \<times> real option) list \<Rightarrow> dict list \<Rightarrow> string" where
  "summary_text agg results =
     (let count = (\<lambda>k. str_of_nat (length (filter (\<lambda>r. flag r k) results)))
      in ''Ran '' @ str_of_nat (length results) @ '' scenarios. '' @ count ''detected'' @ '' detected'' @ middle_dot
         @ count ''rca_top1_match'' @ '' RCA top-1 hits'' @ middle_dot @ ''mean detect ''
         @ fmt_of 1 (get_def agg ''mttd'' None) @ ''s'' @ middle_dot @ ''cost $''
         @ fmt_of 4 (get_def agg ''llm_cost_per_incident'' None) @ '' per scenario.'')"

definition HTML_HEAD :: string where
  \<open>HTML_HEAD = join_with newline
    [''<!doctype html>'',
     ''<html lang="en">'',
     ''<head>'',
     ''  <meta charset="utf-8" />'',
     (''  <title>DCOps Copilot '' @ em_dash @ '' Benchmark Report</title>''),
     ''  <style>'',
     ''    body { font: 14px/1.5 system-ui, -apple-system, sans-serif; max-width: 1080px; margin: 2rem auto; padding: 0 1rem; color: #0f172a; }'',
     ''    h1, h2 { font-weight: 600; }'',
     ''    h1 { margin-bottom: 0.25rem; }'',
     ''    .subtitle { color: #475569; margin-top: 0; }'',
     ''    table { border-collapse: collapse; width: 100%; margin: 1rem 0 2rem; }'',
     ''    th, td { padding: .5rem .75rem; border-bottom: 1px solid #e5e7eb; text-align: left; vertical-align: top; }'',
     ''    th { background: #f1f5f9; font-weight: 600; }'',
     ''    td.metric, th.metric { font-variant-numeric: tabular-nums; text-align: right; }'',
     ''    .ok { color: #15803d; font-weight: 600; }'',
     ''    .miss { color: #b91c1c; font-weight: 600; }'',
     ''    .pending { color: #b45309; }'',
     ''    .pill { display: inline-block; padding: 2px 8px; border-radius: 999px; font-size: 11px; font-family: ui-monospace, monospace; background: #e2e8f0; color: #334155; }'',
     ''    code { background: #f1f5f9; padding: 1px 5px; border-radius: 3px; font-family: ui-monospace, monospace; font-size: 12px; }'',
     ''  </style>'',
     ''</head>'',
     ''<body>'',
     (''  <h1>DCOps Copilot '' @ em_dash @ '' Benchmark Report</h1>''),
     ''  <p class="subtitle">'']\<close>

definition HTML_AFTER_SUMMARY :: string where
  \<open>HTML_AFTER_SUMMARY = join_with newline
    [''</p>'',
     [],
     ''  <h2>Headline metrics</h2>'',
     ''  <table>'',
     ''    <thead>'',
     ''      <tr><th>Metric</th><th>Target</th><th class="metric">Measured</th><th>Status</th></tr>'',
     ''    </thead>'',
     ''    <tbody>'']\<close>

definition HTML_AFTER_HEADLINE :: string where
  \<open>HTML_AFTER_HEADLINE = join_with newline
    [''</tbody>'',
     ''  </table>'',
     [],
     ''  <h2>Per-category breakdown</h2>'',
     ''  <table>'',
     ''    <thead>'',
     ''      <tr><th>Category</th><th class="metric">N</th><th class="metric">Detected</th><th class="metric">RCA top-1</th><th class="metric">Mean detect (s)</th><th class="metric">Action recall</th></tr>'',
     ''    </thead>'',
     ''    <tbody>'']\<close>

definition HTML_AFTER_CATEGORIES :: string where
  \<open>HTML_AFTER_CATEGORIES = join_with newline
    [''</tbody>'',
     ''  </table>'',
     [],
     ''  <h2>LLM cost analysis</h2>'',
     ''  <table>'',
     ''    <thead>'',
     ''      <tr><th>Scope</th><th class="metric">Calls (incidents)</th><th class="metric">Cost total (USD)</th><th class="metric">Cost / incident (USD)</th></tr>'',
     ''    </thead>'',
     ''    <tbody>'']\<close>

definition HTML_AFTER_COSTS :: string where
  \<open>HTML_AFTER_COSTS = join_with newline
    [''</tbody>'',
     ''  </table>'',
     [],
     ''  <h2>Per-scenario detail</h2>'',
     ''  <table>'',
     ''    <thead>'',
     ''      <tr><th>Scenario</th><th>Site</th><th>Category</th><th>Detected</th><th class="metric">Latency (s)</th><th>RCA top-1</th><th>Actions proposed</th><th class="metric">LLM cost</th></tr>'',
     ''    </thead>'',
     ''    <tbody>'']\<close>

definition HTML_TAIL :: string where
  \<open>HTML_TAIL = join_with newline
    [''</tbody>'',
     ''  </table>'',
     ''</body>'',
     ''</html>'',
     []]\<close>


definition render :: "(string \<Rightarrow> real option) \<Rightarrow> (pyval \<Rightarrow> string) \<Rightarrow> dict list \<Rightarrow> string res" where
  "render fos py_str results =
     res_bind (aggregate fos results) (\<lambda>agg.
     res_bind (category_rows results) (\<lambda>cats.
     res_bind (cost_rows fos results) (\<lambda>costs.
     res_bind (detail_rows py_str results) (\<lambda>details.
       Inr (HTML_HEAD @ summary_text agg results @ HTML_AFTER_SUMMARY @ headline_rows fos agg @ HTML_AFTER_HEADLINE @ cats
          @ HTML_AFTER_CATEGORIES @ costs @ HTML_AFTER_COSTS @ details @ HTML_TAIL)))))"

section \<open>What a sweep holds\<close>

lemma sublist_past: "sublist w (a @ c # b) \<Longrightarrow> c \<notin> set w \<Longrightarrow> sublist w a \<or> sublist w b"
proof (induction a)
  case Nil
  then show ?case by (cases w) (auto simp: sublist_Cons_right)
next
  case (Cons x a)
  from Cons.prems consider "prefix w ((x # a) @ c # b)" | "sublist w (a @ c # b)"
    by (auto simp: sublist_Cons_right)
  then show ?case
  proof cases
    case 1
    then obtain rest where r: "(x # a) @ c # b = w @ rest" by (auto simp: prefix_def)
    from Cons.prems(2) r have "length w \<le> length (x # a)"
      by (metis (no_types, lifting) append_eq_append_conv_if in_set_conv_nth not_less nth_append nth_append_length
          append_take_drop_id length_append)
    with r have "prefix w (x # a)"
      by (metis append_eq_append_conv_if prefix_def append_take_drop_id)
    then show ?thesis by (simp add: prefix_imp_sublist)
  next
    case 2
    with Cons show ?thesis by (auto simp: sublist_Cons_right)
  qed
qed

text \<open>Suffixes of generated names: digits, after an \<open>r\<close> for a random one.\<close>

definition plain_suffix :: "string \<Rightarrow> bool" where
  "plain_suffix s \<longleftrightarrow> (\<forall>c \<in> set s. is_digit c \<or> c = CHR ''r'')"

lemma plain_suffixes: "plain_suffix (str_of_nat n)" "plain_suffix (''r'' @ three_digits n)"
  by (auto simp: plain_suffix_def three_digits_def is_digit_def dest: str_of_nat_digits)

lemma site_not_in_suffix:
  assumes "plain_suffix s" "site \<in> set BENCH_SITES" shows "\<not> sublist site s"
proof
  assume "sublist site s"
  then have "set site \<subseteq> set s" by (rule set_mono_sublist)
  moreover have "CHR ''n'' \<in> set site \<or> CHR ''m'' \<in> set site" using assms(2) by (auto simp: BENCH_SITES_def)
  ultimately have "CHR ''n'' \<in> set s \<or> CHR ''m'' \<in> set s" by blast
  moreover have "\<not> is_digit CHR ''n''" "\<not> is_digit CHR ''m''" by code_simp+
  ultimately show False using assms(1) by (auto simp: plain_suffix_def)
qed

text \<open>Everything a variant's name says before its suffix.\<close>

definition stem_fits :: "variant \<Rightarrow> string \<Rightarrow> bool" where
  "stem_fits v site \<longleftrightarrow>
     (let s = ''gen_'' @ vr_category v @ ''_'' @ failure_mode_value (vr_failure_mode v) @ ''_'' @ site
      in find (\<lambda>x. sublist x s) BENCH_SITES = Some site \<and> split_on CHR ''_'' s ! 1 = vr_category v \<and>
         CHR ''_'' \<notin> set (vr_category v))"

lemma stems_fit: "list_all (\<lambda>v. list_all (stem_fits v) BENCH_SITES) VARIANTS"
  by code_simp

lemma find_same: "(\<And>x. x \<in> set xs \<Longrightarrow> P x = Q x) \<Longrightarrow> find P xs = find Q xs"
  by (induction xs) auto

lemma variant_name_fits:
  assumes "v \<in> set VARIANTS" "site \<in> set BENCH_SITES" "plain_suffix sfx"
  shows "categorise (PStr (variant_name v site sfx)) = Inr (vr_category v) \<and>
     scenario_site (PStr (variant_name v site sfx)) = Inr site"
proof -
  let ?s = "''gen_'' @ vr_category v @ ''_'' @ failure_mode_value (vr_failure_mode v) @ ''_'' @ site"
  from stems_fit assms(1,2) have f: "stem_fits v site" by (auto simp: list_all_iff)
  have name: "variant_name v site sfx = ?s @ CHR ''_'' # sfx" by (simp add: variant_name_def)
  have "sublist x (?s @ CHR ''_'' # sfx) = sublist x ?s" if "x \<in> set BENCH_SITES" for x
  proof
    have "CHR ''_'' \<notin> set x" using that by (auto simp: BENCH_SITES_def)
    moreover assume "sublist x (?s @ CHR ''_'' # sfx)"
    ultimately show "sublist x ?s"
      using sublist_past [of x ?s "CHR ''_''" sfx] site_not_in_suffix [OF assms(3) that] by blast
  qed (meson sublist_order.order_trans sublist_append_rightI)
  then have "find (\<lambda>x. sublist x (variant_name v site sfx)) BENCH_SITES = find (\<lambda>x. sublist x ?s) BENCH_SITES"
    unfolding name by (rule find_same)
  also have "\<dots> = Some site" using f by (simp add: stem_fits_def Let_def)
  finally have site: "scenario_site (PStr (variant_name v site sfx)) = Inr site" by (simp add: scenario_site_def)
  have nc: "CHR ''_'' \<notin> set (vr_category v)" using f by (simp add: stem_fits_def Let_def)
  have "variant_name v site sfx = ''gen'' @ CHR ''_'' # vr_category v @ CHR ''_'' #
      (failure_mode_value (vr_failure_mode v) @ ''_'' @ site @ ''_'' @ sfx)"
    by (simp add: variant_name_def)
  then have "split_on CHR ''_'' (variant_name v site sfx) ! 1 = vr_category v"
    using nc by (simp only: split_on_append) (simp add: split_on_append)
  with site show ?thesis
    by (simp add: categorise_def) (simp add: variant_name_def)
qed

definition sorted_out :: "scenario \<Rightarrow> bool" where
  "sorted_out s \<longleftrightarrow> (\<exists>site \<in> set BENCH_SITES. scenario_site (sn_name s) = Inr site \<and>
     ((\<exists>v \<in> set VARIANTS. \<exists>pick sfx. s = scenario_from_variant v site pick sfx \<and> categorise (sn_name s) = Inr (vr_category v)) \<or>
      s \<in> set (multi_at site) \<and> categorise (sn_name s) = Inr ''multi'' \<or>
      s = federated_at site \<and> categorise (sn_name s) = Inr ''federated''))"

lemma variant_sorted:
  assumes "v \<in> set VARIANTS" "site \<in> set BENCH_SITES" "plain_suffix sfx"
  shows "sorted_out (scenario_from_variant v site pick sfx)"
proof -
  have "sn_name (scenario_from_variant v site pick sfx) = PStr (variant_name v site sfx)"
    by (simp add: scenario_from_variant_def scenario_of_def)
  with variant_name_fits [OF assms] assms(1,2) show ?thesis
    by (auto simp: sorted_out_def intro!: bexI [of _ site] bexI [of _ v])
qed

lemma fixed_sorted: "list_all sorted_out (multi_signal_scenarios @ federated_scenarios)"
proof -
  have "list_all (\<lambda>site. list_all (\<lambda>s. scenario_site (sn_name s) = Inr site \<and> categorise (sn_name s) = Inr ''multi'') (multi_at site) \<and>
      scenario_site (sn_name (federated_at site)) = Inr site \<and> categorise (sn_name (federated_at site)) = Inr ''federated'')
      BENCH_SITES" by code_simp
  moreover have "\<forall>(o', t') \<in> set federated_pairs. o' \<in> set BENCH_SITES" by (simp add: federated_pairs_def BENCH_SITES_def)
  ultimately show ?thesis
    by (fastforce simp: list_all_iff sorted_out_def multi_signal_scenarios_def federated_scenarios_def)
qed

lemma grid_sorted: "list_all sorted_out grid"
  by (auto simp: list_all_iff grid_def enumerate_eq_zip intro!: variant_sorted plain_suffixes)

lemma fill_eq:
  "ss \<noteq> [] \<Longrightarrow> fill target ss out =
     (let k = max 1 (nat target - length out) in (out @ take k ss, k \<le> length ss))"
proof (induction ss arbitrary: out)
  case (Cons s ss)
  show ?case
  proof (cases "target \<le> int (length out) + 1")
    case True
    then have "max 1 (nat target - length out) = 1" by auto
    with True show ?thesis by (simp add: Let_def)
  next
    case False
    then have k: "max 1 (nat target - length out) = Suc (max 1 (nat target - Suc (length out)))" by auto
    with False Cons.IH [of "out @ [s]"] show ?thesis
      by (cases ss) (simp_all add: Let_def)
  qed
qed simp

lemma random_sorted: "rng_lawful g \<Longrightarrow> sorted_out (fst (random_scenario g n r))"
proof -
  assume l: "rng_lawful g"
  have nth: "fst (rg_choice g xs r0) \<in> set xs" if "xs \<noteq> []" for xs :: "'b list" and r0
    using l that by (auto simp: rg_choice_def rng_lawful_def split_beta)
  have "VARIANTS \<noteq> []" "BENCH_SITES \<noteq> []" by (simp_all add: VARIANTS_def BENCH_SITES_def)
  then show ?thesis
    unfolding random_scenario_def Let_def split_beta
    by (auto intro!: variant_sorted nth plain_suffixes(2) [simplified])
qed

lemma pad_extends:
  "\<exists>ext. pad g target out r = out @ ext \<and> length ext = nat (target - int (length out)) \<and>
     (rng_lawful g \<longrightarrow> list_all sorted_out ext)"
proof (induction g target out r rule: pad.induct)
  case (1 g target out r)
  show ?case
  proof (cases "target \<le> int (length out)")
    case True
    then show ?thesis by (simp add: pad.simps [of g target])
  next
    case False
    obtain s r1 where s: "random_scenario g (length out) r = (s, r1)" by fastforce
    from "1.IH" [OF False s [symmetric] refl] obtain ext where
      "pad g target (out @ [s]) r1 = (out @ [s]) @ ext" "length ext = nat (target - int (length (out @ [s])))"
      "rng_lawful g \<longrightarrow> list_all sorted_out ext" by blast
    moreover from random_sorted [of g "length out" r] s have "rng_lawful g \<longrightarrow> sorted_out s" by simp
    ultimately show ?thesis
      using False s by (intro exI [of _ "s # ext"]) (auto simp: pad.simps [of g target])
  qed
qed

lemma grid_not_empty: "grid \<noteq> []"
  by (simp add: grid_def VARIANTS_def BENCH_SITES_def device_selectors_def upt_rec)

text \<open>A sweep holds the hand-written scenarios, then generated ones each of which the runner takes to its own site and the
  report to its own category; it has as many as asked for, but at least one more than are hand-written.\<close>

lemma sweep_contents:
  assumes "generate g r (Inr hand) target = Inr out" "rng_lawful g"
  shows "int (length out) = max target (int (length hand) + 1) \<and> take (length hand) out = hand \<and>
     list_all sorted_out (drop (length hand) out)"
proof -
  define k where "k = max 1 (nat target - length hand)"
  let ?out1 = "hand @ take k grid" and ?rest = "multi_signal_scenarios @ federated_scenarios"
  have f: "fill target grid hand = (?out1, k \<le> length grid)"
    using fill_eq [OF grid_not_empty] by (simp add: Let_def k_def)
  have g: "list_all sorted_out (take n grid)" for n
    using grid_sorted by (auto simp: list_all_iff dest: in_set_takeD)
  show ?thesis
  proof (cases "k \<le> length grid")
    case True
    with assms(1) f have "out = ?out1" by (simp add: generate_def)
    with True g show ?thesis by (auto simp: k_def)
  next
    case False
    obtain ext where e: "pad g target (?out1 @ ?rest) r = (?out1 @ ?rest) @ ext"
      "length ext = nat (target - int (length (?out1 @ ?rest)))" "list_all sorted_out ext"
      using pad_extends assms(2) by metis
    have "1 \<le> length grid" using grid_not_empty by (simp add: Suc_le_eq)
    with False have "1 < nat target - length hand" by (simp add: k_def max_def split: if_splits)
    then have k: "nat target = length hand + k" "length hand \<le> nat target" by (auto simp: k_def)
    have "out = take (nat target) (pad g target (?out1 @ ?rest) r)"
      using assms(1) f False by (simp add: generate_def)
    moreover obtain tail where tail: "tail = take k grid @ ?rest @ ext" by simp
    ultimately have out: "out = take (nat target) (hand @ tail)"
      using e(1) by simp
    have "length (?out1 @ ?rest) + length ext = length (hand @ tail)" by (simp add: tail)
    then have "nat target \<le> length (hand @ tail)" using e(2) by linarith
    with out have "length out = nat target" by simp
    moreover have "take (length hand) out = hand" "drop (length hand) out = take k tail"
      using out k by (simp_all add: min_def)
    moreover have "list_all sorted_out tail"
      using g [of k] fixed_sorted e(3) by (auto simp: tail list_all_iff)
    then have "list_all sorted_out (take k tail)"
      by (auto simp: list_all_iff dest: in_set_takeD)
    moreover have "max target (int (length hand) + 1) = target" using \<open>1 < nat target - length hand\<close> by auto
    ultimately show ?thesis using k by auto
  qed
qed

lemma sweep_repeats_names:
  "length (filter (\<lambda>s. sn_name s = PStr ''gen_federated_gpu_ecc_frankfurt'') federated_scenarios) = 2"
  "length (filter (\<lambda>s. sn_name s = PStr ''gen_gpu_gpu_thermal_throttle_mumbai_3'') grid) = 2"
  by code_simp+

section \<open>What a run reports\<close>

fun counted :: "string option \<Rightarrow> pyval \<Rightarrow> bool" where
  "counted site_filter (PDict d) = wanted site_filter d"
| "counted site_filter _ = False"

lemma received_None: "received f (t, e) = None \<longleftrightarrow> \<not> counted f e"
  by (cases e) (auto simp: received_def)

lemma latency_of_received:
  "latency_of since t0 (List.map_filter (received f) xs) =
     Inr (map_option (\<lambda>(t, e). t - t0) (find (\<lambda>(t, e). counted f e) xs))"
proof (induction xs)
  case (Cons x xs)
  obtain t e where x: "x = (t, e)" by fastforce
  show ?case
  proof (cases "counted f e")
    case True
    then obtain d where "e = PDict d" "wanted f d" by (cases e) auto
    then show ?thesis by (simp add: x List.map_filter_simps received_def update_conv)
  next
    case False
    with Cons show ?thesis by (simp add: x List.map_filter_simps received_None [THEN iffD2])
  qed
qed (simp add: List.map_filter_simps)

lemma collected_empty:
  "collected deadline f feed = [] \<longleftrightarrow> find (\<lambda>(t, e). counted f e) (takeWhile (\<lambda>(t, e). t < deadline) feed) = None"
  using received_None by (auto simp: collected_def map_filter_def filter_empty_conv find_None_iff)

text \<open>C35: a scenario counts as detected when any prediction for its site arrives before the detection window and the grace
  period are over, whatever failure it predicts and with what probability, and its latency is the time from the start to the
  first of them; a candidate of any site counts as propagated. So what a sweep reports as detection does not depend on the
  expected detection but for the length of the window.\<close>

theorem detection_is_any_prediction:
  assumes "run_one env s timeout grace = (Inr res, sent)" "be_publish_error env = None"
    and "scenario_site (sn_name s) = Inr site" "window_of env s timeout = Inr w"
  defines "heard \<equiv> \<lambda>pattern f. find (\<lambda>(t, e). counted f e)
     (takeWhile (\<lambda>(t, e). t < be_mono env + (w + grace)) (be_feed env pattern))"
  shows "sent = [Publish ''simulator.inject'' (inject_payload s site)] \<and> rr_site_id res = site \<and>
     rr_detection_latency_sec res = map_option (\<lambda>(t, e). t - be_mono env) (heard ''predictions.failure'' (Some site)) \<and>
     rr_detected res = (heard ''predictions.failure'' (Some site) \<noteq> None) \<and>
     rr_candidate_propagated res = (heard ''federation.rule_candidate.*'' None \<noteq> None)"
proof -
  let ?c = "\<lambda>pattern f. collected (be_mono env + (w + grace)) f (be_feed env pattern)"
  have "sent = [Publish ''simulator.inject'' (inject_payload s site)]"
    and out: "outcome env s site (?c ''predictions.failure'' (Some site)) (?c ''incidents.report'' (Some site))
        (?c ''recommendations.*'' (Some site)) (?c ''federation.rule_candidate.*'' None) = Inr res"
    using assms(1-4) by (auto simp: run_one_def Let_def)
  moreover have "latency_of (be_since env) (be_mono env) (?c ''predictions.failure'' (Some site)) =
      Inr (map_option (\<lambda>(t, e). t - be_mono env) (heard ''predictions.failure'' (Some site)))"
    by (simp add: collected_def latency_of_received heard_def)
  moreover have "(?c ''federation.rule_candidate.*'' None \<noteq> []) = (heard ''federation.rule_candidate.*'' None \<noteq> None)"
    by (simp add: collected_empty heard_def)
  ultimately show ?thesis by (auto simp: outcome_def)
qed

section \<open>The order of a sweep\<close>

lemma store_results_all:
  assumes "distinct js" "\<forall>j \<in> set js. j < length results \<and> run j = Inr (f j)"
  shows "store_results run js results = Inr (map (\<lambda>k. if k \<in> set js then Some (f k) else results ! k) [0..<length results])"
  using assms
proof (induction js arbitrary: results)
  case Nil
  then show ?case by (simp add: map_nth)
next
  case (Cons j js)
  then show ?case by (auto simp: nth_list_update intro!: nth_equalityI)
qed

lemma collect_each:
  "collect (\<lambda>x. res_bind (f x) (\<lambda>r. Inr [r])) xs = Inr ys \<longleftrightarrow> length ys = length xs \<and> (\<forall>i < length xs. f (xs ! i) = Inr (ys ! i))"
proof (induction xs arbitrary: ys)
  case Nil
  then show ?case by auto
next
  case (Cons x xs)
  note IH = Cons.IH
  show ?case
  proof (cases ys)
    case Nil
    then show ?thesis by auto
  next
    case (Cons y zs)
    have "collect (\<lambda>x. res_bind (f x) (\<lambda>r. Inr [r])) (x # xs) = Inr (y # zs) \<longleftrightarrow> f x = Inr y \<and>
        collect (\<lambda>x. res_bind (f x) (\<lambda>r. Inr [r])) xs = Inr zs" by auto
    with Cons IH [of zs] show ?thesis by (auto simp: less_Suc_eq_0_disj)
  qed
qed

text \<open>However the runs of a concurrent sweep end, the results are those of the sequential one, in the order of the
  scenarios, as long as each run meets the same bus and none raises.\<close>

lemma sweep_order:
  assumes "sequential env timeout scenarios = Inr rs" "distinct finish" "set finish = {..<length scenarios}"
  shows "concurrent env timeout finish scenarios = Inr rs"
proof -
  let ?run = "\<lambda>i. fst (run_one (env i) (scenarios ! i) timeout 30)" and ?n = "length scenarios"
  have "sequential env timeout scenarios =
      collect (\<lambda>x. res_bind (fst (run_one (env (fst x)) (snd x) timeout 30)) (\<lambda>r. Inr [r])) (enumerate 0 scenarios)"
    by (simp add: sequential_def case_prod_beta')
  with assms(1) have seq: "length rs = ?n" "\<forall>i < ?n. ?run i = Inr (rs ! i)"
    by (simp_all add: collect_each nth_enumerate_eq)
  with assms(2,3) have "store_results ?run finish (replicate ?n None) =
      Inr (map (\<lambda>k. if k \<in> set finish then Some (rs ! k) else replicate ?n None ! k) [0..<?n])"
    using store_results_all [of finish "replicate ?n None" ?run "\<lambda>i. rs ! i"] by simp
  also have "map (\<lambda>k. if k \<in> set finish then Some (rs ! k) else replicate ?n None ! k) [0..<?n] = map Some rs"
    by (rule nth_equalityI) (simp_all add: assms(3) seq(1))
  finally show ?thesis by (simp add: concurrent_def List.map_filter_def comp_def)
qed

section \<open>What a report shows\<close>

text \<open>The row of a category with a latency ends before its action recall, and a category without one leaves out its name
  and its counts.\<close>

lemma category_row_cut:
  "category_row cat rs (l # ls) recalls = category_row cat rs (l # ls) recalls'"
  "category_row cat rs [] recalls = category_row cat' rs' [] recalls"
  by (simp_all add: category_row_def Let_def)

text \<open>A cause with a single long word never matches.\<close>

lemma single_token_never_matches: "length (rca_tokens e) \<le> 1 \<Longrightarrow> rca_match (PStr e) (PStr obs) = Inr False"
proof -
  assume "length (rca_tokens e) \<le> 1"
  moreover have "length (filter (\<lambda>t. sublist t (lower obs)) (rca_tokens e)) \<le> length (rca_tokens e)" by simp
  ultimately have "\<not> max 2 (length (rca_tokens e) div 3) \<le> length (filter (\<lambda>t. sublist t (lower obs)) (rca_tokens e))"
    by linarith
  then show ?thesis by (simp add: rca_match_def Let_def)
qed

lemma py_round_le: "x \<le> of_int m \<Longrightarrow> py_round x \<le> m"
proof -
  assume x: "x \<le> of_int m"
  then have f: "\<lfloor>x\<rfloor> \<le> m" by linarith
  show ?thesis
  proof (cases "\<lfloor>x\<rfloor> = m")
    case True
    with x have "x = of_int m" by linarith
    then show ?thesis by (simp add: py_round_def)
  next
    case False
    with f show ?thesis by (simp add: py_round_def Let_def)
  qed
qed

lemma percentile_in: "xs \<noteq> [] \<Longrightarrow> 0 \<le> p \<Longrightarrow> p \<le> 1 \<Longrightarrow> percentile xs p \<in> set xs"
proof -
  assume a: "xs \<noteq> []" "0 \<le> p" "p \<le> 1"
  let ?x = "p * real (length xs - 1)"
  have "?x \<le> of_int (int (length xs - 1))" using a by (simp add: mult_left_le_one_le)
  then have "py_round ?x \<le> int (length xs - 1)" by (rule py_round_le)
  then have "nat (py_round ?x) < length xs" using a(1) by (cases xs) auto
  then have "sort xs ! nat (py_round ?x) \<in> set (sort xs)" by (metis length_sort nth_mem)
  with a(1) show ?thesis by (simp only: percentile_def if_False set_sort)
qed

lemma mean_of_bounds: "\<forall>x \<in> set xs. 0 \<le> x \<and> x \<le> 1 \<Longrightarrow> 0 \<le> mean_of xs \<and> mean_of xs \<le> 1"
proof -
  assume a: "\<forall>x \<in> set xs. 0 \<le> x \<and> x \<le> 1"
  then have "0 \<le> sum_list xs" "sum_list xs \<le> real (length xs)"
    by (induction xs) auto
  then show ?thesis by (cases "xs = []") (simp_all add: mean_of_def)
qed

lemma recall_bounds: "recall_of r = Inr x \<Longrightarrow> 0 \<le> x \<and> x \<le> 1"
proof -
  have "shared xs ys \<le> length (remdups xs)" for xs ys
    unfolding shared_def by (metis length_filter_le remdups_filter)
  then show "recall_of r = Inr x \<Longrightarrow> 0 \<le> x \<and> x \<le> 1"
    by (auto simp: recall_of_def divide_le_eq_1 split: if_splits)
qed

lemma rate_bounds: "0 \<le> real (length (filter P xs)) / real (length xs) \<and> real (length (filter P xs)) / real (length xs) \<le> 1"
  by (simp add: divide_le_eq_1)

text \<open>The four rates of a report are between 0 and 1, and the 95th percentile is one of the latencies.\<close>

lemma report_rates:
  assumes "aggregate fos rs = Inr agg" "map_of agg k = Some (Some x)"
  shows "(k \<in> {''predictive_precision'', ''rca_top1'', ''action_recall'', ''federation_propagation''} \<longrightarrow> 0 \<le> x \<and> x \<le> 1) \<and>
    (k = ''p95_mttd'' \<longrightarrow> (\<exists>ls. latencies_of rs = Inr ls \<and> x \<in> set ls))"
proof -
  from assms have "rs \<noteq> []" by (auto simp: aggregate_def TARGETS_def split: if_splits)
  with assms(1) obtain federated recalls t latencies where
    "collect (\<lambda>r. res_bind (recall_of r) (\<lambda>x. Inr [x])) rs = Inr recalls" and ls: "latencies_of rs = Inr latencies"
    and agg: "agg = [(''predictive_precision'', Some (real (length (filter (\<lambda>r. flag r ''detected'') rs)) / real (length rs))),
       (''rca_top1'', Some (real (length (filter (\<lambda>r. flag r ''rca_top1_match'') rs)) / real (length rs))),
       (''mttd'', or_none latencies mean_of),
       (''p95_mttd'', or_none latencies (\<lambda>xs. percentile xs (95 / 100))),
       (''llm_cost_per_incident'', Some (t / real (length rs))),
       (''action_recall'', or_none recalls mean_of),
       (''federation_propagation'', or_none federated
          (\<lambda>fs. real (length (filter (\<lambda>r. flag r ''candidate_propagated'') fs)) / real (length fs)))]"
    by (auto simp: aggregate_def Let_def)
  then have "length recalls = length rs \<and> (\<forall>i < length rs. recall_of (rs ! i) = Inr (recalls ! i))"
    by (simp add: collect_each)
  then have "\<forall>y \<in> set recalls. 0 \<le> y \<and> y \<le> 1"
    by (metis in_set_conv_nth recall_bounds)
  note b = mean_of_bounds [OF this]
  have p: "latencies \<noteq> [] \<Longrightarrow> percentile latencies (95 / 100) \<in> set latencies"
    by (rule percentile_in) auto
  show ?thesis
    using assms(2) b p ls rate_bounds unfolding agg
    by (auto simp: or_none_def split: if_splits)
qed

definition sample_bench :: bench_env where
  "sample_bench =
     \<lparr>be_feed = (\<lambda>p. if p = ''predictions.failure''
          then [(3, PDict [(''site_id'', PStr ''mumbai'')]),
                (5, PDict [(''site_id'', PStr ''frankfurt''), (''failure_kind'', PStr ''psu_failure''), (''probability'', PFloat (1 / 10))])]
          else []),
      be_publish_error = None, be_started = 0, be_finished = 120, be_mono = 2, be_iso = (\<lambda>t. []),
      be_since = (\<lambda>t. Inl (ValueError [])), be_float = (\<lambda>s. None), be_set_order = (\<lambda>xs. xs)\<rparr>"

theorem detection_is_any_prediction_witness:
  "\<exists>res sent. run_one sample_bench (federated_at ''frankfurt'') None 30 = (Inr res, sent) \<and>
     rr_detection_latency_sec res = Some 3 \<and> rr_detected res \<and> \<not> rr_candidate_propagated res"
proof -
  have w: "window_of sample_bench (federated_at ''frankfurt'') None = Inr 90"
    by (simp add: window_of_def within_seconds_def federated_at_def scenario_of_def detection_def)
  have s: "scenario_site (sn_name (federated_at ''frankfurt'')) = Inr ''frankfurt''"
    by code_simp
  have e: "be_publish_error sample_bench = None" by (simp add: sample_bench_def)
  obtain res sent where r: "run_one sample_bench (federated_at ''frankfurt'') None 30 = (Inr res, sent)"
  proof -
    have c: "\<exists>c. categorise (sn_name (federated_at ''frankfurt'')) = Inr c"
      by (simp add: federated_at_def scenario_of_def categorise_def)
    have quiet: "collected d f (be_feed sample_bench p) = []" if "p \<noteq> ''predictions.failure''" for d f p
      using that by (simp add: collected_def sample_bench_def List.map_filter_simps)
    have "\<exists>n. latency_of since t0 (collected d f (be_feed sample_bench ''predictions.failure'')) = Inr n" for since t0 d f
      by (simp add: collected_def latency_of_received)
    moreover have "sn_expected_actions (federated_at ''frankfurt'') = PList [PStr ''workload_migration'']"
      by (simp add: federated_at_def scenario_of_def)
    ultimately have "\<exists>res. outcome sample_bench (federated_at ''frankfurt'') ''frankfurt''
        (collected d f (be_feed sample_bench ''predictions.failure'')) [] [] [] = Inr res" for d f
      using c by (simp add: outcome_def rca_match_def rca_text_of_def incident_cost_def proposed_kinds_def j_iter_def) blast
    then have "\<exists>res. fst (run_one sample_bench (federated_at ''frankfurt'') None 30) = Inr res"
      by (simp add: run_one_def s w e Let_def quiet)
    with that show ?thesis by (metis prod.collapse)
  qed
  from detection_is_any_prediction [OF r e s w] r show ?thesis
    by (auto simp: sample_bench_def wanted_def)
qed

lemma sweep_counts: "length grid = 144 \<and> length multi_signal_scenarios = 6 \<and> length federated_scenarios = 4"
  by code_simp

section \<open>The programs\<close>

text \<open>\<open>main\<close> of the runner: what is written to the output file, and the counts it logs.\<close>

definition selected :: "string list \<Rightarrow> scenario list \<Rightarrow> scenario list" where
  "selected only scenarios = (if only = [] then scenarios else filter (\<lambda>s. sn_name s \<in> PStr ` set only) scenarios)"

definition bench_main ::
  "'r rng \<Rightarrow> 'r \<Rightarrow> scenario list res \<Rightarrow> (nat \<Rightarrow> bench_env) \<Rightarrow> int \<Rightarrow> string list \<Rightarrow> int \<Rightarrow> real option \<Rightarrow> nat list \<Rightarrow>
   (dict list \<times> nat \<times> nat \<times> nat) res" where
  "bench_main g r hand_written env target only workers timeout finish =
     res_bind (generate g r hand_written target) (\<lambda>scenarios.
     res_bind (run_batch env timeout workers finish (selected only scenarios)) (\<lambda>results.
       Inr (map result_row results, length results, length (filter rr_detected results),
            length (filter rr_rca_top1_match results))))"

text \<open>The names asked for are looked up among the scenarios of the target only.\<close>

lemma only_within_target:
  assumes "generate g r hand_written target = Inr scenarios" and "\<forall>s \<in> set scenarios. sn_name s \<noteq> PStr name" and "workers \<le> 1"
  shows "bench_main g r hand_written env target [name] workers timeout finish = Inr ([], 0, 0, 0)"
proof -
  have "selected [name] scenarios = []" using assms(2) by (auto simp: selected_def filter_empty_conv)
  with assms(1,3) show ?thesis by (simp add: bench_main_def run_batch_def sequential_def)
qed

end
