(* ===== verification/Seeding.thy ===== *)
theory Seeding
  imports Bench
begin

text \<open>
  The scripts that fill the graph and the telemetry table and inject scenarios (\<open>scripts/seed_graph.py\<close>,
  \<open>seed_telemetry_sample.py\<close>, \<open>inject_failure.py\<close>): what they send.

  A statement is its Cypher text and its parameters. The halls are the ones the simulator builds, from a random
  generator whose seed is a parameter. The lemmas read off each of the eight texts which nodes it merges and which it
  matches: every statement refers to nodes merged before it, and the relations between them join devices of one rack, or a
  rack and the cooling units of its hall.
\<close>

section \<open>The statements of the knowledge graph\<close>

type_synonym cypher = "string \<times> dict"

definition SITE_CYPHER :: string where
  "SITE_CYPHER = ''MERGE (s:Site {id: $id}) SET s.region = $region, s.timezone = $tz''"

definition HALL_CYPHER :: string where
  "HALL_CYPHER =
     ''MERGE (h:Hall {id: $id}) SET h.capacity_kw = $cap WITH h MATCH (s:Site {id: $site}) MERGE (h)-[:LOCATED_IN]->(s)''"

definition RACK_CYPHER :: string where
  "RACK_CYPHER =
     ''MERGE (r:Rack {id: $id}) SET r.position = $pos WITH r MATCH (h:Hall {id: $hall}) MERGE (r)-[:LOCATED_IN]->(h)''"

definition DEVICE_CYPHER :: string where
  "DEVICE_CYPHER =
     ''MERGE (d:Device {id: $id}) SET d.type = $type, d.model = $model, d.vendor = $vendor ''
     @ ''WITH d MATCH (r:Rack {id: $rack}) MERGE (d)-[:MOUNTED_IN]->(r)''"

definition CRAC_CYPHER :: string where
  "CRAC_CYPHER =
     ''MERGE (d:Device {id: $id}) SET d.type = 'crac', d.model = $model, d.vendor = $vendor ''
     @ ''WITH d MATCH (h:Hall {id: $hall}) MERGE (d)-[:COOLS]->(h)''"

definition POWERED_BY_CYPHER :: string where
  "POWERED_BY_CYPHER = ''MATCH (s:Device {id: $server}), (p:Device {id: $pdu}) MERGE (s)-[:POWERED_BY]->(p)''"

definition DEPENDS_ON_CYPHER :: string where
  "DEPENDS_ON_CYPHER = ''MATCH (a:Device {id: $a}), (b:Device {id: $b}) MERGE (a)-[:DEPENDS_ON]->(b)''"

definition COOLED_BY_CYPHER :: string where
  "COOLED_BY_CYPHER = ''MATCH (r:Rack {id: $rack}), (c:Device {id: $crac}) MERGE (r)-[:COOLED_BY]->(c)''"

definition site_statement :: "string \<Rightarrow> string \<Rightarrow> string \<Rightarrow> cypher" where
  "site_statement site_id region tz = (SITE_CYPHER, [(''id'', PStr site_id), (''region'', PStr region), (''tz'', PStr tz)])"

definition hall_statement :: "data_hall \<Rightarrow> cypher" where
  "hall_statement h =
     (HALL_CYPHER, [(''id'', PStr (hl_id h)), (''cap'', PFloat (hl_capacity_kw h)), (''site'', PStr (hl_site_id h))])"

definition rack_statement :: "string \<Rightarrow> string \<Rightarrow> int \<times> int \<Rightarrow> cypher" where
  "rack_statement hall_id rack_id pos =
     (RACK_CYPHER, [(''id'', PStr rack_id), (''pos'', PList [PInt (fst pos), PInt (snd pos)]), (''hall'', PStr hall_id)])"

definition device_statement :: "string \<Rightarrow> device \<Rightarrow> cypher" where
  "device_statement rack_id d =
     (DEVICE_CYPHER, [(''id'', PStr (dv_id d)), (''type'', PStr (dv_type d)), (''model'', PStr (dv_model d)),
        (''vendor'', PStr (dv_vendor d)), (''rack'', PStr rack_id)])"

definition crac_statement :: "string \<Rightarrow> crac_unit \<Rightarrow> cypher" where
  "crac_statement hall_id c =
     (CRAC_CYPHER, [(''id'', PStr (dv_id c)), (''model'', PStr (dv_model c)), (''vendor'', PStr (dv_vendor c)),
        (''hall'', PStr hall_id)])"

definition powered_by :: "string \<Rightarrow> string \<Rightarrow> cypher" where
  "powered_by server pdu = (POWERED_BY_CYPHER, [(''server'', PStr server), (''pdu'', PStr pdu)])"

definition depends_on :: "string \<Rightarrow> string \<Rightarrow> cypher" where
  "depends_on downstream upstream = (DEPENDS_ON_CYPHER, [(''a'', PStr downstream), (''b'', PStr upstream)])"

definition cooled_by :: "string \<Rightarrow> string \<Rightarrow> cypher" where
  "cooled_by rack crac = (COOLED_BY_CYPHER, [(''rack'', PStr rack), (''crac'', PStr crac)])"

fun server_in :: "dev \<Rightarrow> server list" where
  "server_in (Server s) = [s]" | "server_in _ = []"

fun switch_in :: "dev \<Rightarrow> switch list" where
  "switch_in (Switch s) = [s]" | "switch_in _ = []"

fun pdu_in :: "dev \<Rightarrow> pdu list" where
  "pdu_in (Pdu p) = [p]" | "pdu_in _ = []"

fun gpu_in :: "dev \<Rightarrow> gpu list" where
  "gpu_in (Gpu g) = [g]" | "gpu_in _ = []"

text \<open>The body of the loop over the racks: nodes, then the edges from the lists gathered by type.\<close>

definition rack_plan :: "string \<Rightarrow> string list \<Rightarrow> twin_rack \<Rightarrow> cypher list" where
  "rack_plan hall_id crac_ids rack =
     (let ds = rk_devices rack;
          servers = concat (map server_in ds); switches = concat (map switch_in ds);
          pdus = concat (map pdu_in ds); gpus = concat (map gpu_in ds)
      in [rack_statement hall_id (rk_id rack) (rk_position rack)]
         @ map (\<lambda>d. device_statement (rk_id rack) (dev_base d)) ds
         @ map (cooled_by (rk_id rack)) crac_ids
         @ concat (map (\<lambda>p. map (\<lambda>s. powered_by s (dv_id p)) (pd_powered_device_ids p)) pdus)
         @ concat (map (\<lambda>sw. map (\<lambda>s. depends_on (dv_id s) (dv_id sw)) servers) switches)
         @ concat (map (\<lambda>g. if gp_parent_server_id g = [] then [] else [depends_on (dv_id g) (gp_parent_server_id g)]) gpus))"

definition hall_plan :: "data_hall \<Rightarrow> cypher list" where
  "hall_plan h =
     [hall_statement h] @ map (crac_statement (hl_id h)) (hl_crac_units h)
     @ concat (map (rack_plan (hl_id h) (map dv_id (hl_crac_units h))) (hl_racks h))"

definition plan_for_site :: "'r rng \<Rightarrow> 'r \<Rightarrow> string \<Rightarrow> string \<Rightarrow> string \<Rightarrow> cypher list res" where
  "plan_for_site g seeded site_id region tz =
     res_bind (get_site site_id) (\<lambda>spec.
       Inr (site_statement site_id region tz # concat (map hall_plan (build_halls g seeded spec))))"

definition plan_for_all_sites :: "'r rng \<Rightarrow> (site_spec \<Rightarrow> 'r) \<Rightarrow> (string \<times> cypher list) list res" where
  "plan_for_all_sites g seeded =
     collect (\<lambda>s. res_bind (plan_for_site g (seeded s) (ss_id s) (ss_region s) (ss_timezone s)) (\<lambda>p. Inr [(ss_id s, p)])) SITES"

text \<open>The pieces of the schema file that are run; the seeding of all sites and the counts it returns.\<close>

definition schema_statements :: "string \<Rightarrow> string list" where
  "schema_statements schema =
     filter (\<lambda>s. s \<noteq> [] \<and> \<not> prefix ''//'' s) (map strip (split_on CHR '';'' schema))"

definition apply_plan :: "'r rng \<Rightarrow> (site_spec \<Rightarrow> 'r) \<Rightarrow> (cypher list \<times> (string \<times> nat) list) res" where
  "apply_plan g seeded =
     res_bind (plan_for_all_sites g seeded) (\<lambda>plans.
       Inr (concat (map snd plans), foldl (\<lambda>counts (site, plan). AList.update site (length plan) counts) [] plans))"

section \<open>Sample telemetry\<close>

definition SAMPLE_METRICS :: "(string \<times> string \<times> real \<times> real) list" where
  "SAMPLE_METRICS =
     [(''cpu.temp.celsius'', ''celsius'', 45, 70), (''gpu.temp.celsius'', ''celsius'', 55, 80),
      (''power.draw.watts'', ''watts'', 200, 900), (''env.inlet.celsius'', ''celsius'', 19, 25)]"

record sample_row =
  sa_time :: real
  sa_site :: string
  sa_hall :: string
  sa_rack :: string
  sa_device :: string
  sa_device_type :: string
  sa_metric :: string
  sa_value_num :: real
  sa_value_str :: "string option"
  sa_unit :: string
  sa_severity :: string
  sa_metadata :: string

definition sample_rack :: "string \<Rightarrow> nat \<Rightarrow> string" where
  "sample_rack site i = site @ ''-h1-r'' @ two_digits (i + 1)"

definition sample_device :: "string \<Rightarrow> nat \<Rightarrow> nat \<Rightarrow> string" where
  "sample_device site i j = sample_rack site i @ ''-srv'' @ two_digits (j + 1)"

definition sample_at :: "'r rng \<Rightarrow> real \<Rightarrow> string \<times> nat \<times> nat \<times> (string \<times> string \<times> real \<times> real) \<times> nat \<Rightarrow> 'r \<Rightarrow> sample_row \<times> 'r" where
  "sample_at g now =
     (\<lambda>(site, i, j, (metric, unit, lo, hi), minute) r.
        let (v, r1) = rg_uniform g lo hi r
        in (\<lparr>sa_time = now - 60 * real minute, sa_site = site, sa_hall = site @ ''-h1'', sa_rack = sample_rack site i,
             sa_device = sample_device site i j, sa_device_type = ''server'', sa_metric = metric, sa_value_num = v,
             sa_value_str = None, sa_unit = unit, sa_severity = ''info'', sa_metadata = ''{}''\<rparr>, r1))"

definition sample_slots :: "(string \<times> nat \<times> nat \<times> (string \<times> string \<times> real \<times> real) \<times> nat) list" where
  "sample_slots =
     [(site, i, j, m, minute). site \<leftarrow> [''frankfurt'', ''singapore'', ''mumbai''], i \<leftarrow> [0..<3], j \<leftarrow> [0..<3],
        m \<leftarrow> SAMPLE_METRICS, minute \<leftarrow> [0..<60]]"

definition sample_rows :: "'r rng \<Rightarrow> real \<Rightarrow> 'r \<Rightarrow> sample_row list" where
  "sample_rows g now r = fst (thread (sample_at g now) sample_slots r)"

text \<open>The rows are inserted into an empty table only.\<close>

definition seed_telemetry :: "'r rng \<Rightarrow> real \<Rightarrow> 'r \<Rightarrow> sample_row list \<Rightarrow> sample_row list" where
  "seed_telemetry g now r table = (if 0 < length table then table else table @ sample_rows g now r)"

section \<open>Injecting a scenario\<close>

definition dispatch :: "(string \<Rightarrow> real option) \<Rightarrow> (string \<Rightarrow> pyval option) \<Rightarrow> string \<Rightarrow> string \<Rightarrow> dict effect list res" where
  "dispatch fos yaml_file site name =
     res_bind (load_scenario fos yaml_file name) (\<lambda>s. Inr [Publish ''simulator.inject'' (inject_payload s site)])"

section \<open>The plan\<close>

text \<open>The nodes a statement merges and those it matches, by label and id, as its text names its parameters.\<close>

definition node_of :: "dict \<Rightarrow> string \<times> string \<Rightarrow> string \<times> string" where
  "node_of params = (\<lambda>(label, k). (label, case map_of params k of Some (PStr s) \<Rightarrow> s | _ \<Rightarrow> []))"

definition CYPHER_MERGES :: "(string \<times> (string \<times> string) list) list" where
  "CYPHER_MERGES =
     [(SITE_CYPHER, [(''Site'', ''id'')]), (HALL_CYPHER, [(''Hall'', ''id'')]), (RACK_CYPHER, [(''Rack'', ''id'')]),
      (DEVICE_CYPHER, [(''Device'', ''id'')]), (CRAC_CYPHER, [(''Device'', ''id'')]), (POWERED_BY_CYPHER, []),
      (DEPENDS_ON_CYPHER, []), (COOLED_BY_CYPHER, [])]"

definition CYPHER_MATCHES :: "(string \<times> (string \<times> string) list) list" where
  "CYPHER_MATCHES =
     [(SITE_CYPHER, []), (HALL_CYPHER, [(''Site'', ''site'')]), (RACK_CYPHER, [(''Hall'', ''hall'')]),
      (DEVICE_CYPHER, [(''Rack'', ''rack'')]), (CRAC_CYPHER, [(''Hall'', ''hall'')]),
      (POWERED_BY_CYPHER, [(''Device'', ''server''), (''Device'', ''pdu'')]),
      (DEPENDS_ON_CYPHER, [(''Device'', ''a''), (''Device'', ''b'')]),
      (COOLED_BY_CYPHER, [(''Rack'', ''rack''), (''Device'', ''crac'')])]"

definition merged :: "cypher \<Rightarrow> (string \<times> string) list" where
  "merged st = map (node_of (snd st)) (get_def CYPHER_MERGES (fst st) [])"

definition matched :: "cypher \<Rightarrow> (string \<times> string) list" where
  "matched st = map (node_of (snd st)) (get_def CYPHER_MATCHES (fst st) [])"

lemma cyphers_distinct:
  "distinct [SITE_CYPHER, HALL_CYPHER, RACK_CYPHER, DEVICE_CYPHER, CRAC_CYPHER, POWERED_BY_CYPHER, DEPENDS_ON_CYPHER, COOLED_BY_CYPHER]"
  by code_simp

lemma merged_simps [simp]:
  "merged (site_statement i r t) = [(''Site'', i)]"
  "merged (hall_statement h) = [(''Hall'', hl_id h)]"
  "merged (rack_statement hall rk pos) = [(''Rack'', rk)]"
  "merged (device_statement rk d) = [(''Device'', dv_id d)]"
  "merged (crac_statement hall c) = [(''Device'', dv_id c)]"
  "merged (powered_by x y) = []" "merged (depends_on x y) = []" "merged (cooled_by x y) = []"
  using cyphers_distinct
  by (auto simp: merged_def CYPHER_MERGES_def node_of_def site_statement_def hall_statement_def rack_statement_def
      device_statement_def crac_statement_def powered_by_def depends_on_def cooled_by_def)

lemma matched_simps [simp]:
  "matched (site_statement i r t) = []"
  "matched (hall_statement h) = [(''Site'', hl_site_id h)]"
  "matched (rack_statement hall rk pos) = [(''Hall'', hall)]"
  "matched (device_statement rk d) = [(''Rack'', rk)]"
  "matched (crac_statement hall c) = [(''Hall'', hall)]"
  "matched (powered_by x y) = [(''Device'', x), (''Device'', y)]"
  "matched (depends_on x y) = [(''Device'', x), (''Device'', y)]"
  "matched (cooled_by x y) = [(''Rack'', x), (''Device'', y)]"
  using cyphers_distinct
  by (auto simp: matched_def CYPHER_MATCHES_def node_of_def site_statement_def hall_statement_def rack_statement_def
      device_statement_def crac_statement_def powered_by_def depends_on_def cooled_by_def)

text \<open>Every node a statement matches is there already or merged by an earlier statement.\<close>

fun refers_back :: "(string \<times> string) list \<Rightarrow> cypher list \<Rightarrow> bool" where
  "refers_back seen [] \<longleftrightarrow> True"
| "refers_back seen (s # ss) \<longleftrightarrow> set (matched s) \<subseteq> set seen \<and> refers_back (merged s @ seen) ss"

definition nodes :: "cypher list \<Rightarrow> (string \<times> string) list" where
  "nodes plan = concat (map merged plan)"

lemma nodes_simps [simp]: "nodes [] = []" "nodes (s # ss) = merged s @ nodes ss" "nodes (xs @ ys) = nodes xs @ nodes ys"
  by (simp_all add: nodes_def)

lemma refers_back_mono: "refers_back seen xs \<Longrightarrow> set seen \<subseteq> set seen' \<Longrightarrow> refers_back seen' xs"
proof (induction xs arbitrary: seen seen')
  case (Cons s ss)
  from Cons.prems have "refers_back (merged s @ seen) ss" "set (merged s @ seen) \<subseteq> set (merged s @ seen')" by auto
  from Cons.IH [OF this] Cons.prems show ?case by auto
qed simp

lemma refers_back_append: "refers_back seen xs \<Longrightarrow> refers_back (nodes xs @ seen) ys \<Longrightarrow> refers_back seen (xs @ ys)"
proof (induction xs arbitrary: seen)
  case (Cons s ss)
  then have "refers_back (merged s @ seen) ss" by simp
  moreover from Cons.prems(2) have "refers_back (nodes ss @ merged s @ seen) ys"
    by (rule refers_back_mono) auto
  ultimately have "refers_back (merged s @ seen) (ss @ ys)" by (rule Cons.IH)
  with Cons.prems(1) show ?case by simp
qed simp

lemma refers_back_all: "(\<And>s. s \<in> set xs \<Longrightarrow> set (matched s) \<subseteq> set seen) \<Longrightarrow> refers_back seen xs"
proof (induction xs arbitrary: seen)
  case (Cons s ss)
  then have "refers_back (merged s @ seen) ss" by (intro Cons.IH) auto
  with Cons.prems [of s] show ?case by simp
qed simp

lemma refers_back_concat: "(\<And>p. p \<in> set ps \<Longrightarrow> refers_back seen p) \<Longrightarrow> refers_back seen (concat ps)"
proof (induction ps arbitrary: seen)
  case (Cons p ps)
  have "refers_back (nodes p @ seen) (concat ps)"
    by (rule Cons.IH) (rule refers_back_mono [OF Cons.prems], auto)
  with Cons.prems [of p] show ?case by (simp add: refers_back_append)
qed simp

text \<open>A rack whose PDUs power and whose GPUs belong to devices of the rack.\<close>

definition rack_closed :: "twin_rack \<Rightarrow> bool" where
  "rack_closed rack \<longleftrightarrow>
     (let ids = set (map dev_id (rk_devices rack))
      in (\<forall>p. Pdu p \<in> set (rk_devices rack) \<longrightarrow> set (pd_powered_device_ids p) \<subseteq> ids) \<and>
         (\<forall>g. Gpu g \<in> set (rk_devices rack) \<longrightarrow> gp_parent_server_id g \<in> ids))"

lemma kind_in [simp]:
  "x \<in> set (server_in d) \<longleftrightarrow> d = Server x" "y \<in> set (switch_in d) \<longleftrightarrow> d = Switch y"
  "z \<in> set (pdu_in d) \<longleftrightarrow> d = Pdu z" "w \<in> set (gpu_in d) \<longleftrightarrow> d = Gpu w"
  by (cases d; auto)+

lemma in_kind:
  "x \<in> set (concat (map server_in ds)) \<longleftrightarrow> Server x \<in> set ds"
  "y \<in> set (concat (map switch_in ds)) \<longleftrightarrow> Switch y \<in> set ds"
  "z \<in> set (concat (map pdu_in ds)) \<longleftrightarrow> Pdu z \<in> set ds"
  "w \<in> set (concat (map gpu_in ds)) \<longleftrightarrow> Gpu w \<in> set ds"
  by auto

lemma nodes_map: "nodes (map f xs) = concat (map (merged \<circ> f) xs)"
  by (simp add: nodes_def)

lemma device_nodes:
  "nodes (map (\<lambda>d. device_statement rk (dev_base d)) ds) = map (\<lambda>d. (''Device'', dev_id d)) ds"
  by (induction ds) simp_all

lemma no_nodes: "(\<And>s. s \<in> set xs \<Longrightarrow> merged s = []) \<Longrightarrow> nodes xs = []"
  by (induction xs) auto

lemma nodes_rack_plan:
  "nodes (rack_plan hall cracs rack) = (''Rack'', rk_id rack) # map (\<lambda>d. (''Device'', dev_id d)) (rk_devices rack)"
proof -
  have "nodes (map (cooled_by (rk_id rack)) cracs) = []" by (rule no_nodes) auto
  moreover have "nodes (concat (map (\<lambda>p. map (\<lambda>s. powered_by s (dv_id p)) (pd_powered_device_ids p)) ps)) = []" for ps :: "pdu list"
    by (rule no_nodes) auto
  moreover have "nodes (concat (map (\<lambda>sw. map (\<lambda>s. depends_on (dv_id s) (dv_id sw)) ss) sws)) = []"
    for ss :: "server list" and sws :: "switch list" by (rule no_nodes) auto
  moreover have "nodes (concat (map (\<lambda>g. if gp_parent_server_id g = [] then [] else [depends_on (dv_id g) (gp_parent_server_id g)]) gs)) = []"
    for gs :: "gpu list" by (rule no_nodes) auto
  ultimately show ?thesis by (simp add: rack_plan_def Let_def device_nodes)
qed

lemma rack_refers_back:
  assumes "rack_closed rack" "(''Hall'', hall) \<in> set seen" "\<forall>c \<in> set cracs. (''Device'', c) \<in> set seen"
  shows "refers_back seen (rack_plan hall cracs rack)"
proof -
  let ?rack = "rack_statement hall (rk_id rack) (rk_position rack)"
  let ?ds = "rk_devices rack"
  let ?dev = "map (\<lambda>d. device_statement (rk_id rack) (dev_base d)) ?ds"
  let ?seen1 = "(''Rack'', rk_id rack) # seen" and ?seen2 = "map (\<lambda>d. (''Device'', dev_id d)) ?ds @ (''Rack'', rk_id rack) # seen"
  have ids: "(''Device'', i) \<in> set ?seen2" if "i \<in> set (map dev_id ?ds)" for i using that by auto
  have own: "dv_id s \<in> set (map dev_id ?ds)" if "Server s \<in> set ?ds" for s using that by (force simp: device.defs)
  have own2: "dv_id s \<in> set (map dev_id ?ds)" if "Switch s \<in> set ?ds" for s using that by (force simp: device.defs)
  have own3: "dv_id s \<in> set (map dev_id ?ds)" if "Pdu s \<in> set ?ds" for s using that by (force simp: device.defs)
  have own4: "dv_id s \<in> set (map dev_id ?ds)" if "Gpu s \<in> set ?ds" for s using that by (force simp: device.defs)
  let ?edges = "drop (Suc (length ?ds)) (rack_plan hall cracs rack)"
  have split: "rack_plan hall cracs rack = ?rack # ?dev @ ?edges"
    by (simp add: rack_plan_def Let_def)
  have "set (matched e) \<subseteq> set ?seen2" if "e \<in> set ?edges" for e
  proof -
    from that consider
        c where "c \<in> set cracs" "e = cooled_by (rk_id rack) c"
      | p s where "Pdu p \<in> set ?ds" "s \<in> set (pd_powered_device_ids p)" "e = powered_by s (dv_id p)"
      | sw s where "Switch sw \<in> set ?ds" "Server s \<in> set ?ds" "e = depends_on (dv_id s) (dv_id sw)"
      | g where "Gpu g \<in> set ?ds" "e = depends_on (dv_id g) (gp_parent_server_id g)"
      by (auto simp: rack_plan_def Let_def split: if_splits)
    then show ?thesis
    proof cases
      case 1 with assms(3) show ?thesis by auto
    next
      case 2 with assms(1) own3 ids show ?thesis by (fastforce simp: rack_closed_def Let_def)
    next
      case 3 with own own2 ids show ?thesis by simp
    next
      case 4 with assms(1) own4 ids show ?thesis by (simp add: rack_closed_def Let_def)
    qed
  qed
  then have "refers_back ?seen2 ?edges" by (rule refers_back_all)
  moreover have "refers_back ?seen1 ?dev" by (rule refers_back_all) auto
  ultimately have "refers_back ?seen1 (?dev @ ?edges)" by (intro refers_back_append) (simp_all add: device_nodes)
  with assms(2) show ?thesis by (subst split) simp
qed

lemma hall_refers_back:
  assumes "\<forall>rack \<in> set (hl_racks h). rack_closed rack" "(''Site'', hl_site_id h) \<in> set seen"
  shows "refers_back seen (hall_plan h)"
proof -
  let ?cracs = "map (crac_statement (hl_id h)) (hl_crac_units h)" and ?seen1 = "(''Hall'', hl_id h) # seen"
  have n: "nodes ?cracs = map (\<lambda>c. (''Device'', dv_id c)) (hl_crac_units h)"
    by (induction "hl_crac_units h") (simp_all add: nodes_map comp_def)
  have "refers_back (nodes ?cracs @ ?seen1) (concat (map (rack_plan (hl_id h) (map dv_id (hl_crac_units h))) (hl_racks h)))"
    by (rule refers_back_concat) (use assms(1) n in \<open>auto intro!: rack_refers_back\<close>)
  moreover have "refers_back ?seen1 ?cracs" by (rule refers_back_all) auto
  ultimately have "refers_back ?seen1 (?cracs @ concat (map (rack_plan (hl_id h) (map dv_id (hl_crac_units h))) (hl_racks h)))"
    by (intro refers_back_append)
  with assms(2) show ?thesis by (simp add: hall_plan_def)
qed

lemma built_rack_closed: "rack_closed (fst (build_rack g site hall i r))"
proof -
  let ?id = "rack_name hall i" and ?groups = "fst (thread (build_server g site (rack_name hall i)) [0..<10] r)"
  have heads: "map (\<lambda>ds. dev_id (hd ds)) ?groups = map (server_id ?id) [0..<10]"
  proof (rule map_thread, intro ballI allI)
    fix s r1
    obtain srv b where "fst (build_server g site ?id s r1) = Server srv # b" "dv_id srv = server_id ?id s"
      using build_server_shape [of g site ?id s r1] by (elim exE conjE)
    then show "dev_id (hd (fst (build_server g site ?id s r1))) = server_id ?id s" by (simp add: device.defs)
  qed
  have ne: "ds \<noteq> []" if "ds \<in> set ?groups" for ds
  proof -
    from in_thread [OF that] obtain i r1 where "ds = fst (build_server g site ?id i r1)" by blast
    then show ?thesis using build_server_shape [of g site ?id i r1] by auto
  qed
  have servers: "set (map (server_id ?id) [0..<10]) \<subseteq> set (map dev_id (concat ?groups))"
  proof -
    have "set (map (\<lambda>ds. dev_id (hd ds)) ?groups) \<subseteq> set (map dev_id (concat ?groups))"
      using ne by fastforce
    then show ?thesis unfolding heads .
  qed
  have gpus: "gp_parent_server_id d \<in> set (map dev_id (concat ?groups))" if gd: "Gpu d \<in> set (concat ?groups)" for d
  proof -
    from gd obtain ds where ds: "ds \<in> set ?groups" "Gpu d \<in> set ds" by auto
    from in_thread [OF ds(1)] obtain s r1 where e: "ds = fst (build_server g site ?id s r1)" by blast
    obtain srv b where sb: "ds = Server srv # b" "dv_id srv = server_id ?id s"
      and b: "b = [] \<or> (\<exists>r1 r2. b = fst (thread (build_gpu g ?id (server_id ?id s)) [0..<fst (rg_choice g [1, 2, 4, 8] r1)] r2))"
      using build_server_shape [of g site ?id s r1] e by auto
    from ds(2) sb b obtain n r2 where "Gpu d \<in> set (fst (thread (build_gpu g ?id (server_id ?id s)) [0..<n] r2))" by auto
    from in_thread [OF this] have "gp_parent_server_id d = server_id ?id s"
      by (auto simp: build_gpu_def Let_def split_beta new_device_def device.defs gpu.defs)
    moreover have "dev_id (Server srv) = server_id ?id s" using sb(2) by (simp add: device.defs)
    moreover have "Server srv \<in> set (concat ?groups)" using ds(1) sb(1) by (metis UnI1 concat.simps(2) in_set_conv_decomp list.set_intros(1) set_append UN_I set_concat)
    ultimately show ?thesis by (metis image_eqI set_map)
  qed
  have no_pdu: "Pdu p \<notin> set ds" if "ds \<in> set ?groups" for ds p
  proof -
    from in_thread [OF that] obtain s r1 where e: "ds = fst (build_server g site ?id s r1)" by blast
    have "Pdu p \<notin> set (fst (thread (build_gpu g ?id (server_id ?id s)) ns r2))" for ns r2
      using in_thread [of "Pdu p" "build_gpu g ?id (server_id ?id s)" ns r2] by (auto simp: build_gpu_def Let_def split_beta)
    then show ?thesis using build_server_shape [of g site ?id s r1] e by auto
  qed
  show ?thesis
    using servers gpus no_pdu
    by (auto simp: rack_closed_def build_rack_def Let_def split_beta build_tor_def build_pdu_def new_device_def
        device.defs switch.defs pdu.defs)
qed

lemma built_hall_closed:
  assumes "hall \<in> set (build_halls g seed site)"
  shows "\<forall>rack \<in> set (hl_racks hall). rack_closed rack"
proof
  fix rack assume r: "rack \<in> set (hl_racks hall)"
  from assms obtain h r1 where "hall = fst (build_hall g site h r1)"
    unfolding build_halls_def by (meson in_thread)
  with r have "rack \<in> set (fst (thread (build_rack g site (hall_name site h)) [0..<ss_racks_per_hall site] r1))"
    by (simp add: build_hall_def Let_def split_beta)
  then obtain i r2 where "rack = fst (build_rack g site (hall_name site h) i r2)" by (meson in_thread)
  then show "rack_closed rack" by (simp add: built_rack_closed)
qed

lemma built_hall_refers_back:
  assumes "hall \<in> set (build_halls g seed site)" and "(''Site'', ss_id site) \<in> set seen"
  shows "refers_back seen (hall_plan hall)"
proof -
  from assms(1) obtain h r where "hall = fst (build_hall g site h r)"
    unfolding build_halls_def by (meson in_thread)
  then have "hl_site_id hall = ss_id site" by (simp add: build_hall_def Let_def split_beta)
  with assms(2) built_hall_closed [OF assms(1)] show ?thesis by (intro hall_refers_back) simp_all
qed

definition plan_device_ids :: "cypher list \<Rightarrow> string list" where
  "plan_device_ids plan = map snd (filter (\<lambda>n. fst n = ''Device'') (nodes plan))"

lemma device_ids_append [simp]: "plan_device_ids (xs @ ys) = plan_device_ids xs @ plan_device_ids ys"
  by (simp add: plan_device_ids_def)

lemma device_ids_concat: "plan_device_ids (concat ps) = concat (map plan_device_ids ps)"
  by (induction ps) (simp_all add: plan_device_ids_def)

lemma device_ids_rack: "plan_device_ids (rack_plan hall cracs rack) = map dev_id (rk_devices rack)"
  by (simp add: plan_device_ids_def nodes_rack_plan filter_map comp_def)

lemma device_ids_hall: "mset (plan_device_ids (hall_plan h)) = mset (map dev_id (reported h))"
proof -
  have c: "plan_device_ids (map (crac_statement i) cs) = map dv_id cs" for i cs
    by (induction cs) (simp_all add: plan_device_ids_def)
  have "plan_device_ids (hall_statement h # xs) = plan_device_ids xs" for xs by (simp add: plan_device_ids_def)
  then show ?thesis
    by (simp add: hall_plan_def c device_ids_concat device_ids_rack reported_def rack_dev_list_def comp_def map_concat
        device.truncate_def flip: mset_map)
qed

lemma device_ids_plan:
  assumes "plan_for_site g seeded site_id region tz = Inr plan" and "get_site site_id = Inr site"
  shows "mset (plan_device_ids plan) = mset (map dev_id (concat (map reported (build_halls g seeded site))))"
proof -
  have "plan_device_ids plan = concat (map (plan_device_ids \<circ> hall_plan) (build_halls g seeded site))"
    using assms device_ids_concat [of "map hall_plan (build_halls g seeded site)"]
    by (auto simp: plan_for_site_def plan_device_ids_def)
  then show ?thesis by (simp add: mset_concat comp_def device_ids_hall map_concat)
qed

theorem seed_plan_sound:
  assumes "rng_lawful g" and "plan_for_site g seeded site_id region tz = Inr plan"
  shows "refers_back [] plan \<and> distinct (plan_device_ids plan) \<and>
    (\<exists>site. get_site site_id = Inr site \<and>
      mset (plan_device_ids plan) = mset (map dev_id (concat (map reported (build_halls g seeded site)))))"
proof -
  from assms(2) obtain site where site: "get_site site_id = Inr site"
    and plan: "plan = site_statement site_id region tz # concat (map hall_plan (build_halls g seeded site))"
    by (auto simp: plan_for_site_def)
  from get_site_Inr [OF site] have name: "ss_id site = site_id" by simp
  have "refers_back [] plan"
    unfolding plan by (auto simp: name intro!: refers_back_concat built_hall_refers_back)
  moreover have m: "mset (plan_device_ids plan) = mset (map dev_id (concat (map reported (build_halls g seeded site))))"
    by (rule device_ids_plan [OF assms(2) site])
  moreover from built_ids_unique [OF assms(1) site] m have "distinct (plan_device_ids plan)"
    by (metis mset_eq_imp_distinct_iff)
  ultimately show ?thesis using site by blast
qed

lemma seed_plan_sound_witness:
  "\<exists>plan. plan_for_site low_rng 0 ''mumbai'' ''ap-south-1'' ''Asia/Kolkata'' = Inr plan \<and> distinct (plan_device_ids plan)"
proof -
  obtain site where "get_site ''mumbai'' = Inr site" by (simp add: get_site_def SITES_def)
  then obtain plan where p: "plan_for_site low_rng 0 ''mumbai'' ''ap-south-1'' ''Asia/Kolkata'' = Inr plan"
    by (simp add: plan_for_site_def)
  from seed_plan_sound [OF low_rng_lawful p] p show ?thesis by blast
qed

lemma schema_drops_commented:
  "schema_statements ''// Unique ids\<newline>CREATE CONSTRAINT a;\<newline>CREATE CONSTRAINT b;\<newline>'' = [''CREATE CONSTRAINT b'']"
  by code_simp

lemma length_sample_rows: "length (sample_rows g now r) = 6480"
  by (simp add: sample_rows_def sample_slots_def SAMPLE_METRICS_def length_concat comp_def sum_list_triv)

lemma sample_device_simulated: "sample_device site i j = server_id (rack_name (site @ ''-h1'') i) j"
  by (simp add: sample_device_def sample_rack_def server_id_def rack_name_def)

lemma seed_telemetry_once:
  "seed_telemetry g1 now1 r1 (seed_telemetry g now r table) = seed_telemetry g now r table"
  using length_sample_rows [of g now r] by (auto simp: seed_telemetry_def)

section \<open>What the graph connects\<close>

text \<open>The relations between two nodes that are there already are the three kinds the subgraph query walks,
  \<open>DEPENDS_ON\<close>, \<open>POWERED_BY\<close> and \<open>COOLED_BY\<close>.\<close>

definition plan_edges :: "cypher list \<Rightarrow> ((string \<times> string) \<times> (string \<times> string)) set" where
  "plan_edges plan = {(a, b). \<exists>st \<in> set plan. matched st = [a, b]}"

lemma plan_edges_simps [simp]:
  "plan_edges [] = {}" "plan_edges (xs @ ys) = plan_edges xs \<union> plan_edges ys"
  "plan_edges (st # sts) = {(a, b). matched st = [a, b]} \<union> plan_edges sts"
  by (auto simp: plan_edges_def)

lemma plan_edges_concat: "plan_edges (concat ps) = (\<Union>p \<in> set ps. plan_edges p)"
  by (induction ps) simp_all

definition joined :: "cypher list \<Rightarrow> ((string \<times> string) \<times> (string \<times> string)) set" where
  "joined plan = (plan_edges plan \<union> (plan_edges plan)\<inverse>)\<^sup>*"

lemma rack_edges:
  assumes "rack_closed rack" and "(a, b) \<in> plan_edges (rack_plan hall cracs rack)"
  shows "(\<exists>i j. i \<in> set (map dev_id (rk_devices rack)) \<and> j \<in> set (map dev_id (rk_devices rack)) \<and> a = (''Device'', i) \<and> b = (''Device'', j)) \<or>
    (\<exists>c \<in> set cracs. a = (''Rack'', rk_id rack) \<and> b = (''Device'', c))"
proof -
  let ?ds = "rk_devices rack"
  have own: "dv_id s \<in> set (map dev_id ?ds)" if "Server s \<in> set ?ds" for s using that by (force simp: device.defs)
  have own2: "dv_id s \<in> set (map dev_id ?ds)" if "Switch s \<in> set ?ds" for s using that by (force simp: device.defs)
  have own3: "dv_id s \<in> set (map dev_id ?ds)" if "Pdu s \<in> set ?ds" for s using that by (force simp: device.defs)
  have own4: "dv_id s \<in> set (map dev_id ?ds)" if "Gpu s \<in> set ?ds" for s using that by (force simp: device.defs)
  from assms(2) obtain st where st: "st \<in> set (rack_plan hall cracs rack)" "matched st = [a, b]" by (auto simp: plan_edges_def)
  from st(1) consider
      "length (matched st) = 1"
    | c where "c \<in> set cracs" "st = cooled_by (rk_id rack) c"
    | p s where "Pdu p \<in> set ?ds" "s \<in> set (pd_powered_device_ids p)" "st = powered_by s (dv_id p)"
    | sw s where "Switch sw \<in> set ?ds" "Server s \<in> set ?ds" "st = depends_on (dv_id s) (dv_id sw)"
    | g where "Gpu g \<in> set ?ds" "st = depends_on (dv_id g) (gp_parent_server_id g)"
    by (auto simp: rack_plan_def Let_def split: if_splits)
  then show ?thesis
  proof cases
    case 1 with st(2) show ?thesis by simp
  next
    case 2 with st(2) show ?thesis by auto
  next
    case 3 with assms(1) own3 [OF 3(1)] st(2) show ?thesis
      by (intro disjI1 exI [of _ s] exI [of _ "dv_id p"]) (auto simp: rack_closed_def Let_def)
  next
    case 4 with own [OF 4(2)] own2 [OF 4(1)] st(2) show ?thesis
      by (intro disjI1 exI [of _ "dv_id s"] exI [of _ "dv_id sw"]) auto
  next
    case 5 with assms(1) own4 [OF 5(1)] st(2) show ?thesis
      by (intro disjI1 exI [of _ "dv_id g"] exI [of _ "gp_parent_server_id g"]) (auto simp: rack_closed_def Let_def)
  qed
qed

lemma hall_edges:
  assumes "\<forall>rack \<in> set (hl_racks h). rack_closed rack" and "(a, b) \<in> plan_edges (hall_plan h)"
  shows "(\<exists>i j. i \<in> set (map dev_id (rack_dev_list h)) \<and> j \<in> set (map dev_id (rack_dev_list h)) \<and> a = (''Device'', i) \<and> b = (''Device'', j)) \<or>
    (\<exists>r c. c \<in> set (hl_crac_units h) \<and> a = (''Rack'', r) \<and> b = (''Device'', dv_id c))"
proof -
  have "plan_edges (map (crac_statement i) cs) = {}" for i cs by (induction cs) simp_all
  with assms(2) obtain rack where "rack \<in> set (hl_racks h)"
    and "(a, b) \<in> plan_edges (rack_plan (hl_id h) (map dv_id (hl_crac_units h)) rack)"
    by (auto simp: hall_plan_def plan_edges_concat)
  with rack_edges [OF bspec [OF assms(1)] this(2)] show ?thesis
    by (fastforce simp: rack_dev_list_def)
qed


lemma joined_stays:
  assumes "\<And>a b. (a, b) \<in> plan_edges plan \<Longrightarrow> (a \<in> S \<longleftrightarrow> b \<in> S)" and "(x, y) \<in> joined plan" and "x \<in> S"
  shows "y \<in> S"
  using assms(2) unfolding joined_def by (induction rule: rtrancl_induct) (use assms(1,3) in auto)

text \<open>C36: no cooling unit is in the subgraph of a device of a rack, however many steps are taken: in the graph that the plan
  of a site builds, no walk along the relations between nodes that the plan merges (POWERED_BY, DEPENDS_ON, COOLED_BY, in either
  direction) leads from a device of a rack to a CRAC unit of the site.\<close>

theorem crac_never_in_subgraph:
  assumes "rng_lawful g" and "plan_for_site g seeded site_id region tz = Inr plan" and "get_site site_id = Inr site"
    and "h \<in> set (build_halls g seeded site)" and "d \<in> set (rack_dev_list h)"
    and "h' \<in> set (build_halls g seeded site)" and "c \<in> set (hl_crac_units h')"
  shows "((''Device'', dev_id d), (''Device'', dv_id c)) \<notin> joined plan"
proof
  assume j: "((''Device'', dev_id d), (''Device'', dv_id c)) \<in> joined plan"
  let ?halls = "build_halls g seeded site"
  let ?racked = "concat (map (map dev_id \<circ> rack_dev_list) ?halls)" and ?cracs = "concat (map (map dv_id \<circ> hl_crac_units) ?halls)"
  let ?S = "Pair ''Device'' ` set ?racked"
  have "mset (map dev_id (concat (map reported hs))) =
      mset (concat (map (map dev_id \<circ> rack_dev_list) hs) @ concat (map (map dv_id \<circ> hl_crac_units) hs))" for hs
    by (induction hs) (simp_all add: reported_def device.truncate_def image_mset.compositionality comp_def flip: mset_map)
  then have m: "mset (map dev_id (concat (map reported ?halls))) = mset (?racked @ ?cracs)" .
  from built_ids_unique [OF assms(1,3)] m have "distinct (?racked @ ?cracs)" by (metis mset_eq_imp_distinct_iff)
  then have dis: "set ?racked \<inter> set ?cracs = {}" by simp
  have plan: "plan = site_statement site_id region tz # concat (map hall_plan ?halls)"
    using assms(2,3) by (simp add: plan_for_site_def)
  have "a \<in> ?S \<longleftrightarrow> b \<in> ?S" if e: "(a, b) \<in> plan_edges plan" for a b
  proof -
    from e obtain k where k: "k \<in> set ?halls" "(a, b) \<in> plan_edges (hall_plan k)" by (auto simp: plan plan_edges_concat)
    have "\<forall>rack \<in> set (hl_racks k). rack_closed rack" using built_hall_closed [OF k(1)] .
    from hall_edges [OF this k(2)] show ?thesis
    proof (elim disjE exE conjE)
      fix i j assume "i \<in> set (map dev_id (rack_dev_list k))" "j \<in> set (map dev_id (rack_dev_list k))"
        and "a = (''Device'', i)" "b = (''Device'', j)"
      with k(1) have "a \<in> ?S" "b \<in> ?S" by auto
      then show ?thesis by blast
    next
      fix r c assume "c \<in> set (hl_crac_units k)" "a = (''Rack'', r)" "b = (''Device'', dv_id c)"
      moreover from this k(1) dis have "dv_id c \<notin> set ?racked" by auto
      ultimately show ?thesis by auto
    qed
  qed
  moreover have "(''Device'', dev_id d) \<in> ?S" using assms(4,5) by auto
  ultimately have "(''Device'', dv_id c) \<in> ?S" using joined_stays [OF _ j] by blast
  moreover have "dv_id c \<in> set ?cracs" using assms(6,7) by auto
  ultimately show False using dis by auto
qed


lemma crac_never_in_subgraph_witness:
  "\<exists>plan d c. plan_for_site low_rng 0 ''mumbai'' ''ap-south-1'' ''Asia/Kolkata'' = Inr plan \<and>
     (''Device'', d) \<in> set (nodes plan) \<and> (''Device'', c) \<in> set (nodes plan) \<and> ((''Device'', d), (''Device'', c)) \<notin> joined plan"
proof -
  obtain site where s: "get_site ''mumbai'' = Inr site" by (simp add: get_site_def SITES_def)
  then obtain plan where p: "plan_for_site low_rng 0 ''mumbai'' ''ap-south-1'' ''Asia/Kolkata'' = Inr plan"
    by (simp add: plan_for_site_def)
  let ?halls = "build_halls low_rng 0 site"
  have spec: "0 < ss_halls site" "0 < ss_racks_per_hall site" using get_site_Inr [OF s] by (auto simp: SITES_def)
  with built_ids_unique [OF low_rng_lawful s, of 0] have ne: "?halls \<noteq> []"
    and sizes: "\<forall>hall \<in> set ?halls. hl_racks hall \<noteq> [] \<and> hl_crac_units hall \<noteq> []" by force+
  let ?h = "hd ?halls"
  have h: "?h \<in> set ?halls" using ne by simp
  with sizes have r: "hd (hl_racks ?h) \<in> set (hl_racks ?h)" and c: "hd (hl_crac_units ?h) \<in> set (hl_crac_units ?h)" by auto
  from h obtain k r1 where "?h = fst (build_hall low_rng site k r1)" unfolding build_halls_def by (meson in_thread)
  with r have "hd (hl_racks ?h) \<in> set (fst (thread (build_rack low_rng site (hall_name site k)) [0..<ss_racks_per_hall site] r1))"
    by (simp add: build_hall_def Let_def split_beta)
  then obtain i r2 where "hd (hl_racks ?h) = fst (build_rack low_rng site (hall_name site k) i r2)" by (meson in_thread)
  then obtain d where d: "d \<in> set (rk_devices (hd (hl_racks ?h)))" by (auto simp: build_rack_def Let_def split_beta)
  with r have "d \<in> set (rack_dev_list ?h)" by (auto simp: rack_dev_list_def)
  note apart = crac_never_in_subgraph [OF low_rng_lawful p s h this h c]
  have "mset (plan_device_ids plan) = mset (map dev_id (concat (map reported ?halls)))"
    using device_ids_plan [OF p s] .
  then have ids: "set (plan_device_ids plan) = set (map dev_id (concat (map reported ?halls)))" by (metis set_mset_mset)
  have n: "(''Device'', x) \<in> set (nodes plan)" if "x \<in> set (plan_device_ids plan)" for x
    using that by (auto simp: plan_device_ids_def)
  have "dev_id d \<in> set (plan_device_ids plan)" unfolding ids using h \<open>d \<in> set (rack_dev_list ?h)\<close> by (auto simp: reported_def)
  moreover have "dv_id (hd (hl_crac_units ?h)) \<in> set (plan_device_ids plan)"
    unfolding ids using h c by (force simp: reported_def device.truncate_def)
  ultimately show ?thesis using p apart n by blast
qed

section \<open>The simulator names the seeded devices only\<close>

lemma evolved_ids: "hall_ids (evolved g wall hall r) \<subseteq> hall_ids hall"
proof -
  have "dev_id d \<in> hall_ids hall" if d: "d \<in> set (rack_dev_list (evolved g wall hall r))" for d
  proof -
    from physics_step_ids [OF d [unfolded evolved_def]] obtain d0
      where "d0 \<in> set (rack_dev_list (fst (modulate_hall g wall hall r)))" "dev_id d = dev_id d0" by blast
    moreover from modulate_hall_devices [OF this(1)] obtain d1 r1
      where "d1 \<in> set (rack_dev_list hall)" "d0 = fst (modulate g wall d1 r1)" by blast
    ultimately show ?thesis using modulate_keeps(1) [of g wall d1 r1] by (auto simp: hall_ids_def)
  qed
  then show ?thesis by (auto simp: hall_ids_def evolved_def)
qed

lemma tick_event_ids:
  assumes "tick_events stamp hall = Inr events" and "e \<in> set events"
  shows "te_device_id e \<in> hall_ids hall"
proof -
  from collect_Inr_in [OF assms(1) [unfolded tick_events_def] assms(2)] obtain i d es
    where d: "(i, d) \<in> set (enumerate 0 (reported hall))" and es: "emit_for_device hall (stamp i) d = Inr es" "e \<in> set es" by auto
  from collect_Inr_in [OF es(1) [unfolded emit_for_device_def] es(2)] obtain rdg
    where "mk_telemetry_event (device_event hall (stamp i) d rdg) = Inr e" by auto
  then have "te_device_id e = dev_id d"
    by (auto simp: mk_telemetry_event_Inr device_event_def split: prod.splits)
  moreover have "d \<in> set (reported hall)" using d by (auto simp: in_set_enumerate_eq)
  ultimately show ?thesis by (auto simp: reported_def hall_ids_def device.truncate_def)
qed

definition names_within :: "string set \<Rightarrow> bus_msg effect list \<Rightarrow> bool" where
  "names_within I acts \<longleftrightarrow> (\<forall>topic e. Publish topic (MTelemetry e) \<in> set acts \<longrightarrow> te_device_id e \<in> I)"

lemma sim_tick_names:
  assumes "sim_tick g wall stamp hall r = (Inr acts, hall1, r1)" and "hall_ids hall \<subseteq> I"
  shows "hall_ids hall1 \<subseteq> I \<and> names_within I acts"
proof -
  have h: "hall1 = evolved g wall hall r" using sim_tick_hall [of g wall stamp hall r] assms(1) by simp
  then have i: "hall_ids hall1 \<subseteq> I" using subset_trans [OF evolved_ids assms(2)] by simp
  have "compute_thermal_state (compute_power_draw (fst (modulate_hall g wall hall r))) = hall1"
    by (simp add: h evolved_def physics_step_def)
  with assms(1) obtain events where "tick_events stamp hall1 = Inr events"
    and "acts = map (\<lambda>e. Publish (sim_topic e) (MTelemetry e)) events"
    by (auto simp: sim_tick_def split_beta Let_def split: sum.splits)
  with i tick_event_ids show ?thesis by (auto simp: names_within_def)
qed

lemma sim_round_names:
  "sim_round g now stamp i halls r = (Inr acts, halls1, r1) \<Longrightarrow> \<forall>hall \<in> set halls. hall_ids hall \<subseteq> I \<Longrightarrow>
   (\<forall>hall \<in> set halls1. hall_ids hall \<subseteq> I) \<and> names_within I acts"
proof (induction halls arbitrary: i r acts halls1 r1)
  case (Cons hall halls)
  from Cons.prems(1) obtain acts1 hall1 r2 acts2 halls2
    where t: "sim_tick g (now i) (stamp i) hall r = (Inr acts1, hall1, r2)"
      and u: "sim_round g now stamp (Suc i) halls r2 = (Inr acts2, halls2, r1)"
      and e: "acts = acts1 @ acts2" "halls1 = hall1 # halls2"
    by (auto split: prod.splits sum.splits)
  from sim_tick_names [OF t, of I] Cons.IH [OF u] Cons.prems(2) show ?case by (auto simp: e names_within_def)
qed (simp add: names_within_def)

lemma sim_rounds_names:
  "sim_rounds g now stamp n halls r = (Inr acts, halls1, r1) \<Longrightarrow> \<forall>hall \<in> set halls. hall_ids hall \<subseteq> I \<Longrightarrow>
   (\<forall>hall \<in> set halls1. hall_ids hall \<subseteq> I) \<and> names_within I acts"
proof (induction n arbitrary: acts halls1 r1)
  case (Suc n)
  from Suc.prems(1) obtain acts1 halls2 r2 acts2
    where t: "sim_rounds g now stamp n halls r = (Inr acts1, halls2, r2)"
      and u: "sim_round g (now n) (stamp n) 0 halls2 r2 = (Inr acts2, halls1, r1)" and e: "acts = acts1 @ acts2"
    by (auto split: prod.splits sum.splits)
  from Suc.IH [OF t Suc.prems(2)] sim_round_names [OF u] show ?case by (auto simp: e names_within_def)
qed (simp add: names_within_def)

end
