(* ===== verification/Training.thy ===== *)
theory Training
  imports Features Simulator
begin

text \<open>
  The training of Sentinel's model (\<open>scripts/train_sentinel.py\<close>): the SMART files, their labels and feature
  windows, the synthetic GPU samples, the split, the weights and the scores.

  pandas, scikit-learn and XGBoost are parameters: reading and sorting a file, the split, the fit and the scores.
  A \<open>float\<close> that may be NaN is a \<open>real option\<close>. \<open>fos\<close> is \<open>float\<close> of a text: \<open>None\<close> where it raises, \<open>Some None\<close>
  where the text reads as NaN.
\<close>

section \<open>Rows\<close>

text \<open>What pandas puts in a cell: a value, or NaN where the file has none.\<close>

datatype csv_cell = Cell pyval | Missing

type_synonym csv_row = "(string \<times> csv_cell) list"

definition BB_TO_CANONICAL :: "(string \<times> canonical_metric) list" where
  "BB_TO_CANONICAL =
     [(''smart_5_raw'', DISK_REALLOCATED_SECTORS), (''smart_197_raw'', DISK_PENDING_SECTORS),
      (''smart_194_raw'', DISK_TEMP_CELSIUS)]"

section \<open>Labels\<close>

text \<open>\<open>int(r.get("failure", 0) or 0) == 1\<close>: NaN counts as true, and \<open>int\<close> of it raises.\<close>

definition failed_flag :: "csv_row \<Rightarrow> bool res" where
  "failed_flag r =
     (case map_of r ''failure'' of
        None \<Rightarrow> Inr False
      | Some Missing \<Rightarrow> Inl (ValueError ''cannot convert float NaN to integer'')
      | Some (Cell v) \<Rightarrow> if truthy v then res_bind (py_int v) (\<lambda>i. Inr (i = 1)) else Inr False)"

text \<open>The walk back from a failure at \<open>fi\<close>, \<open>k\<close> rows before it and earlier.\<close>

fun mark_back :: "real \<Rightarrow> nat \<Rightarrow> nat \<Rightarrow> int list \<Rightarrow> int list" where
  "mark_back horizon_days k j labels =
     (if real k > horizon_days then labels
      else case j of 0 \<Rightarrow> labels[0 := 1] | Suc i \<Rightarrow> mark_back horizon_days (k + 1) i (labels[j := 1]))"

definition project_failure_label :: "csv_row list \<Rightarrow> real \<Rightarrow> int list res" where
  "project_failure_label rows horizon_h =
     res_bind (collect (\<lambda>r. res_bind (failed_flag r) (\<lambda>b. Inr [b])) rows) (\<lambda>flags.
       let failure_idx = filter ((!) flags) [0..<length rows]
       in Inr (foldl (\<lambda>labels fi. mark_back (horizon_h / 24) 0 fi labels) (replicate (length rows) 0) failure_idx))"

declare mark_back.simps [simp del]

section \<open>Features of a window\<close>

text \<open>One turn of the loop over the rows: \<open>None\<close> where the cell is passed over.\<close>

definition smart_value :: "(string \<Rightarrow> real option option) \<Rightarrow> string \<Rightarrow> csv_row \<Rightarrow> real option option" where
  "smart_value fos bb_col r =
     (case map_of r bb_col of
        None \<Rightarrow> None
      | Some Missing \<Rightarrow> Some None
      | Some (Cell PNone) \<Rightarrow> None
      | Some (Cell (PStr s)) \<Rightarrow> if s \<in> {'''', ''NA''} then None else fos s
      | Some (Cell v) \<Rightarrow> map_option Some (num_of v))"

fun nan2 :: "(real \<Rightarrow> real \<Rightarrow> real) \<Rightarrow> real option \<Rightarrow> real option \<Rightarrow> real option" where
  "nan2 f (Some x) (Some y) = Some (f x y)"
| "nan2 f _ _ = None"

text \<open>\<open>max\<close> keeps the first of the values none of the later ones is greater than; nothing is greater than NaN.\<close>

fun nan_gt :: "real option \<Rightarrow> real option \<Rightarrow> bool" where
  "nan_gt (Some x) (Some y) \<longleftrightarrow> x > y"
| "nan_gt _ _ \<longleftrightarrow> False"

definition nan_max :: "real option list \<Rightarrow> real option" where
  "nan_max vs = foldl (\<lambda>m v. if nan_gt v m then v else m) (hd vs) (tl vs)"

definition smart_features :: "real option list \<Rightarrow> canonical_metric \<Rightarrow> features" where
  "smart_features vs canonical =
     (let col = (\<lambda>stat. metric_value canonical @ ''__'' @ stat); n = real (length vs)
      in [(col ''mean'', map_option (\<lambda>s. s / n) (foldl (nan2 (+)) (Some 0) vs)),
          (col ''max'', nan_max vs),
          (col ''count'', Some n),
          (col ''slope_per_min'', map_option (\<lambda>d. d / max 1 n) (nan2 (-) (last vs) (hd vs)))])"

definition rows_to_feature_dict :: "(string \<Rightarrow> real option option) \<Rightarrow> csv_row list \<Rightarrow> nat \<Rightarrow> features" where
  "rows_to_feature_dict fos rows samples_per_window =
     foldl (\<lambda>feats (bb_col, canonical).
         let vs = List.map_filter (smart_value fos bb_col) (last_n samples_per_window rows)
         in if vs = [] then feats
            else foldl (\<lambda>f (k, v). AList.update k v f) feats (smart_features vs canonical))
       (map (\<lambda>c. (c, None)) feature_columns) BB_TO_CANONICAL"

section \<open>The SMART files\<close>

text \<open>A file is its columns and rows, or \<open>None\<close> where reading it fails; \<open>sorted_rows\<close> is \<open>sort_values\<close>.\<close>

definition keep_cols :: "string list" where
  "keep_cols = [''date'', ''serial_number'', ''failure''] @ map fst BB_TO_CANONICAL"

definition read_frame :: "csv_row list \<Rightarrow> csv_row list" where
  "read_frame rows = map (filter (\<lambda>(c, v). c \<in> set keep_cols)) rows"

type_synonym loaded = "(string \<times> csv_row list) list \<times> nat"

fun take_rows :: "int \<Rightarrow> csv_row list \<Rightarrow> loaded \<Rightarrow> loaded" where
  "take_rows max_rows [] st = st"
| "take_rows max_rows (row # rows) (by_serial, seen) =
     (case map_of row ''serial_number'' of
        Some (Cell (PStr serial)) \<Rightarrow>
          let st = (AList.update serial (get_def by_serial serial [] @ [row]) by_serial, seen + 1)
          in if int (seen + 1) \<ge> max_rows then st else take_rows max_rows rows st
      | _ \<Rightarrow> take_rows max_rows rows (by_serial, seen))"

fun take_files :: "(csv_row list \<Rightarrow> csv_row list res) \<Rightarrow> int \<Rightarrow> csv_row list option list \<Rightarrow> loaded \<Rightarrow> loaded res" where
  "take_files sorted_rows max_rows [] st = Inr st"
| "take_files sorted_rows max_rows (None # csvs) st = take_files sorted_rows max_rows csvs st"
| "take_files sorted_rows max_rows (Some rows # csvs) st =
     res_bind (sorted_rows (read_frame rows)) (\<lambda>df.
       let st1 = take_rows max_rows df st
       in if int (snd st1) \<ge> max_rows then Inr st1 else take_files sorted_rows max_rows csvs st1)"

text \<open>The windows of one disk with their labels.\<close>

definition disk_windows :: "(string \<Rightarrow> real option option) \<Rightarrow> real \<Rightarrow> csv_row list \<Rightarrow> (features \<times> int) list res" where
  "disk_windows fos horizon_h rows =
     (if length rows < 5 then Inr []
      else res_bind (project_failure_label rows horizon_h) (\<lambda>labels.
        Inr (map (\<lambda>i. (rows_to_feature_dict fos (drop (i - 9) (take (i + 1) rows)) 10, labels ! i)) [4..<length rows])))"

definition load_backblaze ::
  "(string \<Rightarrow> real option option) \<Rightarrow> (csv_row list \<Rightarrow> csv_row list res) \<Rightarrow> csv_row list option list \<Rightarrow> int \<Rightarrow> real \<Rightarrow>
   (features \<times> int) list res" where
  "load_backblaze fos sorted_rows csvs max_rows horizon_h =
     (if csvs = [] then Inl (FileNotFoundError ''No CSVs under data_dir. Run scripts/download_backblaze.sh first.'')
      else res_bind (take_files sorted_rows max_rows csvs ([], 0)) (\<lambda>(by_serial, seen).
        collect (\<lambda>(serial, rows). disk_windows fos horizon_h rows) by_serial))"

section \<open>Synthetic GPUs\<close>

definition set_feats :: "features \<Rightarrow> (string \<times> real) list \<Rightarrow> features" where
  "set_feats = foldl (\<lambda>f (k, v). AList.update k (Some v) f)"

definition empty_feats :: features where
  "empty_feats = map (\<lambda>c. (c, None)) feature_columns"

definition healthy_gpu :: "'r rng \<Rightarrow> nat \<Rightarrow> 'r \<Rightarrow> features \<times> 'r" where
  "healthy_gpu g _ r =
     (let (t, r1) = rg_uniform g 60 75 r; (rise, r2) = rg_uniform g 0 4 r1; (slope, r3) = rg_uniform g (- 1 / 5) (1 / 5) r2;
          (power, r4) = rg_uniform g 300 450 r3; (util, r5) = rg_uniform g 30 90 r4; (ecc, r6) = rg_uniform g 0 5 r5
      in (set_feats empty_feats
            [(''gpu.temp.celsius__mean'', t), (''gpu.temp.celsius__max'', t + rise),
             (''gpu.temp.celsius__slope_per_min'', slope), (''gpu.temp.celsius__count'', 10),
             (''gpu.power.watts__mean'', power), (''gpu.power.watts__count'', 10), (''gpu.util.percent__mean'', util),
             (''gpu.ecc.correctable__count'', 10), (''gpu.ecc.correctable__mean'', ecc)], r6))"

definition failing_gpu :: "'r rng \<Rightarrow> nat \<Rightarrow> 'r \<Rightarrow> features \<times> 'r" where
  "failing_gpu g _ r =
     (let (t, r1) = rg_uniform g 82 95 r; (rise, r2) = rg_uniform g 2 6 r1; (slope, r3) = rg_uniform g (1 / 2) (5 / 2) r2;
          (power, r4) = rg_uniform g 350 500 r3; (util, r5) = rg_uniform g 40 100 r4; (ecc, r6) = rg_uniform g 500 5000 r5;
          (k, r7) = rg_uniform g (3 / 2) 4 r6; (unc, r8) = rg_choice g [0, 0, 1, 3] r7;
          (xid, r9) = rg_choice g [0, 43, 48, 63] r8
      in (set_feats empty_feats
            [(''gpu.temp.celsius__mean'', t), (''gpu.temp.celsius__max'', t + rise),
             (''gpu.temp.celsius__slope_per_min'', slope), (''gpu.temp.celsius__count'', 10),
             (''gpu.power.watts__mean'', power), (''gpu.power.watts__count'', 10), (''gpu.util.percent__mean'', util),
             (''gpu.ecc.correctable__mean'', ecc), (''gpu.ecc.correctable__max'', ecc * k),
             (''gpu.ecc.correctable__count'', 10), (''gpu.ecc.uncorrectable__max'', unc),
             (''gpu.ecc.uncorrectable__count'', 10), (''gpu.xid.code__max'', xid)], r9))"

definition synthesize_gpu :: "'r rng \<Rightarrow> 'r \<Rightarrow> int \<Rightarrow> (features \<times> int) list" where
  "synthesize_gpu g seeded n_per_class =
     (let (healthy, r1) = thread (healthy_gpu g) [0..<nat n_per_class] seeded;
          (failing, r2) = thread (failing_gpu g) [0..<nat n_per_class] r1
      in map (\<lambda>f. (f, 0)) healthy @ map (\<lambda>f. (f, 1)) failing)"

section \<open>Training\<close>

type_synonym matrix = "real option list list"

definition feats_to_matrix :: "features list \<Rightarrow> matrix" where
  "feats_to_matrix feats = map (\<lambda>f. map (\<lambda>c. get_def f c None) feature_columns) feats"

text \<open>The libraries: the stratified split (which raises on a class of one), the fit with its parameters and number
  of rounds, the predictions and the scores.\<close>

record 'm ml =
  ml_split :: "real \<Rightarrow> int \<Rightarrow> matrix \<Rightarrow> int list \<Rightarrow> (matrix \<times> matrix \<times> int list \<times> int list) res"
  ml_fit :: "dict \<Rightarrow> string list \<Rightarrow> nat \<Rightarrow> nat \<Rightarrow> matrix \<times> int list \<Rightarrow> matrix \<times> int list \<Rightarrow> 'm"
  ml_predict :: "'m \<Rightarrow> matrix \<Rightarrow> real list"
  ml_precision_score :: "int list \<Rightarrow> int list \<Rightarrow> real"
  ml_recall_score :: "int list \<Rightarrow> int list \<Rightarrow> real"
  ml_f1_score :: "int list \<Rightarrow> int list \<Rightarrow> real"
  ml_roc_auc_score :: "int list \<Rightarrow> real list \<Rightarrow> real res"

definition scale_pos_weight :: "int list \<Rightarrow> real" where
  "scale_pos_weight y_train =
     (let pos = max (sum_list y_train) 1; neg = int (length y_train) - pos in of_int neg / of_int pos)"

definition booster_params :: "real \<Rightarrow> dict" where
  "booster_params weight =
     [(''objective'', PStr ''binary:logistic''), (''eval_metric'', PStr ''aucpr''), (''max_depth'', PInt 6),
      (''eta'', PFloat (1 / 10)), (''subsample'', PFloat (8 / 10)), (''colsample_bytree'', PFloat (8 / 10)),
      (''scale_pos_weight'', PFloat weight), (''tree_method'', PStr ''hist''), (''nthread'', PInt 4), (''verbosity'', PInt 1)]"

definition train :: "'m ml \<Rightarrow> matrix \<Rightarrow> int list \<Rightarrow> ('m \<times> (string \<times> real) list) res" where
  "train ml X y =
     res_bind (ml_split ml (2 / 10) 42 X y) (\<lambda>(X_train, X_val, y_train, y_val).
       let booster = ml_fit ml (booster_params (scale_pos_weight y_train)) feature_columns 200 20 (X_train, y_train) (X_val, y_val);
           val_pred = ml_predict ml booster X_val;
           val_label = map (\<lambda>p. if p \<ge> 1 / 2 then 1 else 0) val_pred
       in res_bind (ml_roc_auc_score ml y_val val_pred) (\<lambda>auc.
            Inr (booster,
              [(''precision'', ml_precision_score ml y_val val_label), (''recall'', ml_recall_score ml y_val val_label),
               (''f1'', ml_f1_score ml y_val val_label), (''auc_pr'', auc),
               (''pos_rate_val'', of_int (sum_list y_val) / real (length y_val)),
               (''n_train'', real (length y_train)), (''n_val'', real (length y_val))])))"

record train_args =
  ta_model_out :: string
  ta_max_rows :: int
  ta_horizon_h :: real
  ta_synthetic_gpu_n :: int
  ta_skip_backblaze :: bool

definition train_defaults :: train_args where
  "train_defaults =
     \<lparr>ta_model_out = ''data/models/sentinel.xgb'', ta_max_rows = 500000, ta_horizon_h = 24, ta_synthetic_gpu_n = 20000,
      ta_skip_backblaze = False\<rparr>"

text \<open>How the program ends: with a status, or with a model saved, its scores, and whether it warned.\<close>

datatype 'm train_end = Exited int | Saved string 'm "(string \<times> real) list" bool

definition training_set ::
  "(string \<Rightarrow> real option option) \<Rightarrow> (csv_row list \<Rightarrow> csv_row list res) \<Rightarrow> 'r rng \<Rightarrow> 'r \<Rightarrow> csv_row list option list \<Rightarrow>
   train_args \<Rightarrow> (features \<times> int) list res" where
  "training_set fos sorted_rows g seeded csvs args =
     res_bind (if ta_skip_backblaze args then Inr []
               else load_backblaze fos sorted_rows csvs (ta_max_rows args) (ta_horizon_h args)) (\<lambda>bb.
       Inr (bb @ synthesize_gpu g seeded (ta_synthetic_gpu_n args)))"

definition train_main ::
  "'m ml \<Rightarrow> (string \<Rightarrow> real option option) \<Rightarrow> (csv_row list \<Rightarrow> csv_row list res) \<Rightarrow> 'r rng \<Rightarrow> 'r \<Rightarrow>
   csv_row list option list \<Rightarrow> train_args \<Rightarrow> 'm train_end res" where
  "train_main ml fos sorted_rows g seeded csvs args =
     (case training_set fos sorted_rows g seeded csvs args of
        Inl (FileNotFoundError msg) \<Rightarrow> Inr (Exited 2)
      | Inl e \<Rightarrow> Inl e
      | Inr [] \<Rightarrow> Inr (Exited 1)
      | Inr samples \<Rightarrow>
          res_bind (train ml (feats_to_matrix (map fst samples)) (map snd samples)) (\<lambda>(booster, metrics).
            Inr (Saved (ta_model_out args) booster metrics (get_def metrics ''precision'' 0 < 7 / 10))))"

section \<open>The labels\<close>

lemma length_mark_back [simp]: "length (mark_back h k j labels) = length labels"
  by (induction h k j labels rule: mark_back.induct) (subst mark_back.simps, simp split: nat.split)

lemma nth_mark_back:
  "j < length labels \<Longrightarrow> i < length labels \<Longrightarrow>
   mark_back h k j labels ! i = (if i \<le> j \<and> real (k + (j - i)) \<le> h then 1 else labels ! i)"
proof (induction j arbitrary: k labels)
  case 0
  then show ?case by (auto simp: nth_list_update mark_back.simps [of h k 0])
next
  case (Suc j)
  show ?case
  proof (cases "real k > h")
    case True
    then have "\<not> real (k + (Suc j - i)) \<le> h" by simp
    with True show ?thesis by (simp add: mark_back.simps)
  next
    case False
    let ?l = "labels[Suc j := 1]"
    have "mark_back h k (Suc j) labels ! i = mark_back h (k + 1) j ?l ! i"
      using False by (simp add: mark_back.simps [of h k "Suc j"])
    also have "\<dots> = (if i \<le> j \<and> real (k + 1 + (j - i)) \<le> h then 1 else ?l ! i)"
      using Suc.prems by (intro Suc.IH) simp_all
    also have "\<dots> = (if i \<le> Suc j \<and> real (k + (Suc j - i)) \<le> h then 1 else labels ! i)"
      using False Suc.prems by (cases "i \<le> j") (auto simp: nth_list_update Suc_diff_le)
    finally show ?thesis .
  qed
qed

lemma nth_marks:
  "\<forall>fi \<in> set fis. fi < length labels \<Longrightarrow> i < length labels \<Longrightarrow>
   foldl (\<lambda>labels fi. mark_back h 0 fi labels) labels fis ! i =
     (if \<exists>fi \<in> set fis. i \<le> fi \<and> real (fi - i) \<le> h then 1 else labels ! i)"
  by (induction fis arbitrary: labels) (auto simp: nth_mark_back)

lemma length_marks [simp]: "length (foldl (\<lambda>labels fi. mark_back h k fi labels) labels fis) = length labels"
  by (induction fis arbitrary: labels) simp_all

lemma collect_single:
  "collect (\<lambda>x. res_bind (f x) (\<lambda>y. Inr [y])) xs = Inr ys \<longleftrightarrow> list_all2 (\<lambda>x y. f x = Inr y) xs ys"
  by (induction xs arbitrary: ys) (auto simp: list_all2_Cons1)

text \<open>C37: a row of a disk is labelled 1 exactly when the disk has a failing row at it or later and no more than the horizon's
  number of days, one per row, after it; every other row is labelled 0.\<close>

theorem labels_are_horizon:
  assumes "project_failure_label rows horizon_h = Inr labels"
  shows "length labels = length rows \<and>
    (\<forall>j < length rows. labels ! j =
       (if \<exists>fi. j \<le> fi \<and> fi < length rows \<and> failed_flag (rows ! fi) = Inr True \<and> real (fi - j) \<le> horizon_h / 24
        then 1 else 0))"
proof -
  from assms obtain flags where f: "list_all2 (\<lambda>r b. failed_flag r = Inr b) rows flags"
    and l: "labels = foldl (\<lambda>labels fi. mark_back (horizon_h / 24) 0 fi labels) (replicate (length rows) 0)
      (filter ((!) flags) [0..<length rows])"
    by (auto simp: project_failure_label_def collect_single Let_def)
  have n: "flags ! i \<longleftrightarrow> failed_flag (rows ! i) = Inr True" if "i < length rows" for i
    using list_all2_nthD [OF f that] by simp
  show ?thesis by (auto simp: l nth_marks n)
qed

lemma labels_are_horizon_witness:
  "\<exists>labels. project_failure_label [[], [], [(''failure'', Cell (PInt 1))], []] 24 = Inr labels \<and> length labels = 4"
proof -
  have p: "project_failure_label [[], [], [(''failure'', Cell (PInt 1))], []] 24 = Inr [0, 1, 1, 0]"
    by (simp add: project_failure_label_def upt_rec failed_flag_def mark_back.simps)
  from labels_are_horizon [OF p] p show ?thesis by simp
qed

text \<open>A row whose \<open>failure\<close> cell is empty stops the training.\<close>

lemma missing_flag_raises:
  assumes "map_of row ''failure'' = Some Missing"
  shows "\<exists>e. project_failure_label (row # rows) horizon_h = Inl e"
  using assms by (simp add: project_failure_label_def failed_flag_def)

section \<open>The rows kept\<close>

definition loaded_ok :: "int \<Rightarrow> loaded \<Rightarrow> bool" where
  "loaded_ok max_rows = (\<lambda>(by_serial, seen).
     distinct (map fst by_serial) \<and> seen = sum_list (map (length \<circ> snd) by_serial) \<and> int seen \<le> max 1 max_rows \<and>
     (\<forall>(serial, rows) \<in> set by_serial. rows \<noteq> [] \<and> (\<forall>row \<in> set rows. map_of row ''serial_number'' = Some (Cell (PStr serial)))))"

lemma sum_list_update:
  fixes f :: "'v \<Rightarrow> nat"
  shows "distinct (map fst d) \<Longrightarrow>
    sum_list (map (f \<circ> snd) (AList.update k v d)) + (case map_of d k of None \<Rightarrow> 0 | Some w \<Rightarrow> f w) = sum_list (map (f \<circ> snd) d) + f v"
  by (induction d) (auto simp: map_of_eq_None_iff split: option.splits)

lemma set_update: "distinct (map fst d) \<Longrightarrow> set (AList.update k v d) \<subseteq> insert (k, v) (set d)"
  by (induction d) auto

lemma take_rows_ok:
  "loaded_ok max_rows st \<Longrightarrow> int (snd st) < max 1 max_rows \<Longrightarrow> loaded_ok max_rows (take_rows max_rows rows st)"
proof (induction max_rows rows st rule: take_rows.induct)
  case (2 max_rows row rows by_serial seen)
  show ?case
  proof (cases "\<exists>serial. map_of row ''serial_number'' = Some (Cell (PStr serial))")
    case True
    then obtain serial where s: "map_of row ''serial_number'' = Some (Cell (PStr serial))" by blast
    let ?old = "get_def by_serial serial []"
    let ?st = "(AList.update serial (?old @ [row]) by_serial, seen + 1)"
    have d: "distinct (map fst by_serial)" and t: "seen = sum_list (map (length \<circ> snd) by_serial)"
      using "2.prems" by (simp_all add: loaded_ok_def)
    have "sum_list (map (length \<circ> snd) (fst ?st)) = seen + 1"
      using sum_list_update [OF d, of length serial "?old @ [row]"] t by (simp add: get_def_def split: option.splits)
    moreover have "\<forall>r \<in> set ?old. map_of r ''serial_number'' = Some (Cell (PStr serial))"
      using "2.prems"(1) by (auto simp: loaded_ok_def get_def_def split: option.splits dest: map_of_SomeD)
    ultimately have ok: "loaded_ok max_rows ?st"
      using "2.prems" s set_update [OF d, of serial "?old @ [row]"]
      by (auto simp: loaded_ok_def distinct_update dest!: subsetD)
    show ?thesis
    proof (cases "int (seen + 1) \<ge> max_rows")
      case True then show ?thesis using ok by (simp add: s)
    next
      case False
      then have "loaded_ok max_rows (take_rows max_rows rows ?st)" using "2.IH" s ok by simp
      with False show ?thesis by (simp add: s)
    qed
  next
    case False
    then show ?thesis using "2.IH" "2.prems" by (auto split: option.splits csv_cell.splits pyval.splits)
  qed
qed simp

lemma take_files_ok:
  "take_files sorted_rows max_rows csvs st = Inr out \<Longrightarrow> loaded_ok max_rows st \<Longrightarrow> int (snd st) < max 1 max_rows \<Longrightarrow>
   loaded_ok max_rows out"
proof (induction sorted_rows max_rows csvs st rule: take_files.induct)
  case (3 sorted_rows max_rows rows csvs st)
  from "3.prems"(1) obtain df where df: "sorted_rows (read_frame rows) = Inr df" by auto
  have ok: "loaded_ok max_rows (take_rows max_rows df st)" using "3.prems" by (intro take_rows_ok)
  show ?case
  proof (cases "int (snd (take_rows max_rows df st)) \<ge> max_rows")
    case True then show ?thesis using "3.prems"(1) df ok by (simp add: Let_def)
  next
    case False then show ?thesis using "3.IH" [OF refl] "3.prems"(1) df ok by (simp add: Let_def)
  qed
qed simp_all


lemma collect_length:
  "collect f xs = Inr ys \<Longrightarrow> (\<And>x zs. x \<in> set xs \<Longrightarrow> f x = Inr zs \<Longrightarrow> length zs \<le> n x) \<Longrightarrow> length ys \<le> sum_list (map n xs)"
  by (induction xs arbitrary: ys) (auto intro!: add_mono)

definition sample_ok :: "(string \<Rightarrow> real option option) \<Rightarrow> real \<Rightarrow> features \<times> int \<Rightarrow> bool" where
  "sample_ok fos horizon_h = (\<lambda>(f, label). \<exists>serial window earlier later labels.
     f = rows_to_feature_dict fos window 10 \<and> 5 \<le> length window \<and> length window \<le> 10 \<and>
     (\<forall>row \<in> set window. map_of row ''serial_number'' = Some (Cell (PStr serial))) \<and>
     project_failure_label (earlier @ window @ later) horizon_h = Inr labels \<and>
     label = labels ! (length earlier + length window - 1))"

lemma window_splits: "take (i - 9) rows @ drop (i - 9) (take (i + 1) rows) @ drop (i + 1) rows = rows"
proof -
  have "take (i - 9) (take (i + 1) rows) @ drop (i - 9) (take (i + 1) rows) = take (i + 1) rows"
    by (rule append_take_drop_id)
  moreover have "take (i - 9) (take (i + 1) rows) = take (i - 9) rows" by (simp add: min_def)
  ultimately have "take (i - 9) rows @ drop (i - 9) (take (i + 1) rows) = take (i + 1) rows" by simp
  then show ?thesis by (metis append.assoc append_take_drop_id)
qed

lemma disk_samples_ok:
  assumes "disk_windows fos horizon_h rows = Inr zs" and "s \<in> set zs"
    and "\<forall>row \<in> set rows. map_of row ''serial_number'' = Some (Cell (PStr serial))"
  shows "sample_ok fos horizon_h s"
proof -
  from assms(1,2) obtain labels where l: "project_failure_label rows horizon_h = Inr labels"
    and z: "s \<in> (\<lambda>i. (rows_to_feature_dict fos (drop (i - 9) (take (i + 1) rows)) 10, labels ! i)) ` {4..<length rows}"
    by (auto simp: disk_windows_def split: if_splits)
  from z obtain i where i: "4 \<le> i" "i < length rows"
    and s: "s = (rows_to_feature_dict fos (drop (i - 9) (take (i + 1) rows)) 10, labels ! i)" by auto
  let ?w = "drop (i - 9) (take (i + 1) rows)"
  have "length (take (i - 9) rows) + length ?w - 1 = i" "5 \<le> length ?w" "length ?w \<le> 10" using i by auto
  moreover have "\<forall>row \<in> set ?w. map_of row ''serial_number'' = Some (Cell (PStr serial))"
    using assms(3) by (meson in_set_dropD in_set_takeD)
  moreover have "project_failure_label (take (i - 9) rows @ ?w @ drop (i + 1) rows) horizon_h = Inr labels"
    unfolding window_splits by (rule l)
  ultimately show ?thesis unfolding sample_ok_def s prod.case by metis
qed

theorem training_windows:
  assumes "load_backblaze fos sorted_rows csvs max_rows horizon_h = Inr samples"
  shows "int (length samples) \<le> max 1 max_rows \<and> (\<forall>s \<in> set samples. sample_ok fos horizon_h s)"
proof -
  from assms obtain by_serial seen where t: "take_files sorted_rows max_rows csvs ([], 0) = Inr (by_serial, seen)"
    and c: "collect (\<lambda>(serial, rows). disk_windows fos horizon_h rows) by_serial = Inr samples"
    by (auto simp: load_backblaze_def split: if_splits)
  have ok: "loaded_ok max_rows (by_serial, seen)"
    by (rule take_files_ok [OF t]) (simp_all add: loaded_ok_def)
  have "length samples \<le> sum_list (map (length \<circ> snd) by_serial)"
    by (rule collect_length [OF c]) (auto simp: disk_windows_def split: if_splits)
  then have "int (length samples) \<le> max 1 max_rows" using ok by (simp add: loaded_ok_def)
  moreover have "sample_ok fos horizon_h s" if s: "s \<in> set samples" for s
  proof -
    from collect_Inr_in [OF c s] obtain serial rows zs where r: "(serial, rows) \<in> set by_serial"
      and d: "disk_windows fos horizon_h rows = Inr zs" "s \<in> set zs" by auto
    have "\<forall>row \<in> set rows. map_of row ''serial_number'' = Some (Cell (PStr serial))"
      using ok r by (auto simp: loaded_ok_def)
    with d show ?thesis by (rule disk_samples_ok)
  qed
  ultimately show ?thesis by blast
qed

lemma training_windows_witness:
  "\<exists>samples. load_backblaze (\<lambda>s. None) Inr [Some [[(''serial_number'', Cell (PStr ''d1''))]]] 100 24 = Inr samples \<and>
    int (length samples) \<le> 100"
proof -
  have l: "load_backblaze (\<lambda>s. None) Inr [Some [[(''serial_number'', Cell (PStr ''d1''))]]] 100 24 = Inr []"
    by (simp add: load_backblaze_def read_frame_def keep_cols_def disk_windows_def)
  from training_windows [OF l, THEN conjunct1] l show ?thesis by simp
qed

section \<open>Training features and those of the agent\<close>

lemma sum_some: "foldl (nan2 (+)) (Some a) (map Some xs) = Some (a + sum_list xs)"
  by (induction xs arbitrary: a) (simp_all add: algebra_simps)

lemma max_some:
  "foldl (\<lambda>m v. if nan_gt v m then v else m) (Some a) (map Some xs) = Some (Max (insert a (set xs)))"
proof (induction xs arbitrary: a)
  case (Cons x xs)
  have "foldl (\<lambda>m v. if nan_gt v m then v else m) (Some a) (map Some (x # xs)) =
      foldl (\<lambda>m v. if nan_gt v m then v else m) (Some (max a x)) (map Some xs)" by (simp add: max_def)
  also have "\<dots> = Some (Max (insert (max a x) (set xs)))" by (rule Cons.IH)
  also have "Max (insert (max a x) (set xs)) = Max (insert a (set (x # xs)))"
    by (cases "xs = []") (simp_all add: max.assoc)
  finally show ?case .
qed simp

lemma nan_max_some: "xs \<noteq> [] \<Longrightarrow> nan_max (map Some xs) = Some (Max (set xs))"
  by (cases xs) (simp_all add: nan_max_def max_some)

lemma smart_matches_metric:
  assumes "map snd (numeric_values fromiso None (filter (\<lambda>e. map_of e ''metric'' = Some (PStr (metric_value m))) es)) = xs"
    and "xs \<noteq> []" and "stat \<in> {''mean'', ''max'', ''count''}"
  shows "map_of (smart_features (map Some xs) m) (metric_value m @ ''__'' @ stat) =
    map_of (metric_features fromiso es m) (metric_value m @ ''__'' @ stat)"
proof -
  let ?pairs = "numeric_values fromiso None (filter (\<lambda>e. map_of e ''metric'' = Some (PStr (metric_value m))) es)"
  have ne: "?pairs \<noteq> []" and l: "length ?pairs = length xs" using assms(1,2) by auto
  have s: "set xs = snd ` set ?pairs" using assms(1) by (metis set_map)
  from assms(3) show ?thesis
    using assms(1,2) ne
    by (auto simp: smart_features_def metric_features_def Let_def sum_some nan_max_some l mean_def)
qed

lemma map_of_updates:
  "map_of (foldl (\<lambda>f (k, v). AList.update k v f) d kvs) c = (map_of d ++ map_of (rev kvs)) c"
  by (induction kvs arbitrary: d) (auto simp: update_conv' map_add_def split: option.splits)

lemma smart_keys: "map fst (smart_features vs m) = map (\<lambda>stat. metric_value m @ ''__'' @ stat) [''mean'', ''max'', ''count'', ''slope_per_min'']"
  by (simp add: smart_features_def Let_def)

lemma smart_rev: "map_of (rev (smart_features vs m)) = map_of (smart_features vs m)"
proof -
  have "distinct (map fst (smart_features vs m))" by (simp add: smart_keys)
  then show ?thesis by (intro map_of_inject_set [THEN iffD2]) (simp_all flip: rev_map)
qed

lemma extracted:
  assumes "m \<in> set FEATURE_METRICS" and "stat \<in> set STATS"
  shows "map_of (extract_features fromiso es) (metric_value m @ ''__'' @ stat) =
    map_of (metric_features fromiso es m) (metric_value m @ ''__'' @ stat)"
proof -
  let ?k = "metric_value m @ ''__'' @ stat"
  have "?k \<in> set (map fst (metric_features fromiso es m))" using assms(2) by (simp only: keys_metric_features set_map) blast
  then obtain v where v: "map_of (metric_features fromiso es m) ?k = Some v" by (cases "map_of (metric_features fromiso es m) ?k") (auto simp: map_of_eq_None_iff)
  then have "(?k, v) \<in> set (extract_features fromiso es)"
    using assms(1) map_of_SomeD by (fastforce simp: extract_features_concat)
  moreover have "distinct (map fst (extract_features fromiso es))" by (simp only: keys_extract_features distinct_feature_columns)
  ultimately show ?thesis using v by (simp add: map_of_is_SomeI)
qed

lemma trained:
  assumes "(bb, m) \<in> set BB_TO_CANONICAL" and "List.map_filter (smart_value fos bb) (last_n n rows) = vs" and "vs \<noteq> []"
    and "stat \<in> set STATS"
  shows "map_of (rows_to_feature_dict fos rows n) (metric_value m @ ''__'' @ stat) = map_of (smart_features vs m) (metric_value m @ ''__'' @ stat)"
proof -
  have other: "map_of (smart_features ws m') (metric_value m @ ''__'' @ stat) = None"
    if "m' \<noteq> m" "m' \<in> snd ` set BB_TO_CANONICAL" for ws m'
  proof -
    have "metric_value m @ ''__'' @ stat \<notin> set (map fst (smart_features ws m'))"
      using that assms(1,4) by (auto simp: smart_features_def Let_def BB_TO_CANONICAL_def STATS_def)
    then show ?thesis by (simp add: map_of_eq_None_iff)
  qed
  have own: "\<exists>v. map_of (smart_features vs m) (metric_value m @ ''__'' @ stat) = Some v"
    using assms(4) by (auto simp: smart_features_def Let_def STATS_def)
  from assms(1) consider "bb = ''smart_5_raw''" "m = DISK_REALLOCATED_SECTORS" | "bb = ''smart_197_raw''" "m = DISK_PENDING_SECTORS"
    | "bb = ''smart_194_raw''" "m = DISK_TEMP_CELSIUS" by (auto simp: BB_TO_CANONICAL_def)
  then show ?thesis
    using assms(2,3) own other
    by cases (auto simp: rows_to_feature_dict_def BB_TO_CANONICAL_def Let_def map_of_updates smart_rev map_add_def split: option.splits)
qed

text \<open>C38: the columns the training computes for a disk are those the agent computes: where the cells of a SMART column in the
  last rows read as the numbers that the events of its metric carry, in the same order and at least one, the columns mean, max
  and count of that metric are the same in the training row and in the agent's.\<close>

theorem training_matches_serving:
  assumes "(bb_col, m) \<in> set BB_TO_CANONICAL" and "m \<in> set FEATURE_METRICS"
    and "List.map_filter (smart_value fos bb_col) (last_n n rows) = map Some xs" and "xs \<noteq> []"
    and "map snd (numeric_values fromiso None (filter (\<lambda>e. map_of e ''metric'' = Some (PStr (metric_value m))) es)) = xs"
    and "stat \<in> {''mean'', ''max'', ''count''}"
  shows "map_of (rows_to_feature_dict fos rows n) (metric_value m @ ''__'' @ stat) =
    map_of (extract_features fromiso es) (metric_value m @ ''__'' @ stat)"
proof -
  have stats: "stat \<in> set STATS" using assms(6) by (auto simp: STATS_def)
  have "map_of (rows_to_feature_dict fos rows n) (metric_value m @ ''__'' @ stat) =
      map_of (smart_features (map Some xs) m) (metric_value m @ ''__'' @ stat)"
    by (rule trained [OF assms(1,3) _ stats]) (simp add: assms(4))
  also have "\<dots> = map_of (metric_features fromiso es m) (metric_value m @ ''__'' @ stat)"
    by (rule smart_matches_metric [OF assms(5,4,6)])
  also have "\<dots> = map_of (extract_features fromiso es) (metric_value m @ ''__'' @ stat)"
    by (rule extracted [OF assms(2) stats, symmetric])
  finally show ?thesis .
qed

lemma training_matches_serving_witness:
  "map_of (rows_to_feature_dict (\<lambda>s. None) [[(''smart_197_raw'', Cell (PFloat 7))]] 10) ''disk.pending.sectors__mean'' =
    map_of (extract_features sample_iso
      [[(''metric'', PStr ''disk.pending.sectors''), (''timestamp'', PStr ''a''), (''value'', PInt 7)]]) ''disk.pending.sectors__mean''"
  using training_matches_serving [of "''smart_197_raw''" DISK_PENDING_SECTORS "\<lambda>s. None" 10 "[[(''smart_197_raw'', Cell (PFloat 7))]]" "[7]"
      sample_iso "[[(''metric'', PStr ''disk.pending.sectors''), (''timestamp'', PStr ''a''), (''value'', PInt 7)]]" "''mean''"]
  by (simp add: get_num_def sample_iso_def replace_Z_def BB_TO_CANONICAL_def FEATURE_METRICS_def smart_value_def
      List.map_filter_def last_n_def)

text \<open>The slopes differ: on daily readings that grow by one a day the agent's is a day's growth per minute, the training's
  is the growth per row less one row.\<close>

lemma training_slope_differs:
  "map_of (smart_features (map Some [10, 11, 12]) DISK_PENDING_SECTORS) ''disk.pending.sectors__slope_per_min'' = Some (Some (2 / 3)) \<and>
   slope_per_min [(0, 10), (86400, 11), (172800, 12)] = Some (1 / 1440)"
  by (simp add: smart_features_def slope_per_min_def Features.mean_def Let_def power2_eq_square)

text \<open>A cell the file leaves empty counts, and makes the mean NaN.\<close>

lemma missing_cell_counts:
  "map_of (rows_to_feature_dict fos [[(''smart_5_raw'', Cell (PFloat 3))], [(''smart_5_raw'', Missing)]] 10)
     ''disk.reallocated.sectors__count'' = Some (Some 2) \<and>
   map_of (rows_to_feature_dict fos [[(''smart_5_raw'', Cell (PFloat 3))], [(''smart_5_raw'', Missing)]] 10)
     ''disk.reallocated.sectors__mean'' = Some None"
  by (simp add: rows_to_feature_dict_def BB_TO_CANONICAL_def List.map_filter_def smart_value_def last_n_def
      smart_features_def Let_def update_conv')

text \<open>A metric without readings has a count of zero for the agent, of NaN in training.\<close>

lemma absent_count_differs:
  "map_of (rows_to_feature_dict fos [] 10) ''disk.pending.sectors__count'' = Some None \<and>
   map_of (metric_features fromiso [] DISK_PENDING_SECTORS) ''disk.pending.sectors__count'' = Some (Some 0)"
  by (simp add: rows_to_feature_dict_def BB_TO_CANONICAL_def List.map_filter_def last_n_def metric_features_def Let_def
      feature_columns_def FEATURE_METRICS_def STATS_def)

section \<open>Columns\<close>

lemma get_def_update: "get_def (AList.update k v d) c w = (if c = k then v else get_def d c w)"
  by (simp add: get_def_def update_conv')

lemma get_def_updates:
  "c \<notin> fst ` set kvs \<Longrightarrow> get_def (foldl (\<lambda>f (k, v). AList.update k v f) d kvs) c w = get_def d c w"
  by (induction kvs arbitrary: d) (auto simp: get_def_update)

lemma disk_temp_no_column: "fst ` set (smart_features vs DISK_TEMP_CELSIUS) \<inter> set feature_columns = {}"
  by (simp add: smart_features_def Let_def feature_columns_def FEATURE_METRICS_def STATS_def)

text \<open>The temperature of a disk reaches no column of the matrix.\<close>

lemma disk_temperature_unused:
  "feats_to_matrix [rows_to_feature_dict fos rows n] =
   feats_to_matrix [foldl (\<lambda>feats (bb_col, canonical).
         let vs = List.map_filter (smart_value fos bb_col) (last_n n rows)
         in if vs = [] then feats
            else foldl (\<lambda>f (k, v). AList.update k v f) feats (smart_features vs canonical))
       (map (\<lambda>c. (c, None)) feature_columns)
       [(''smart_5_raw'', DISK_REALLOCATED_SECTORS), (''smart_197_raw'', DISK_PENDING_SECTORS)]]"
proof -
  have "get_def (foldl (\<lambda>f (k, v). AList.update k v f) d (smart_features vs DISK_TEMP_CELSIUS)) c None = get_def d c None"
    if "c \<in> set feature_columns" for d c vs
    using disk_temp_no_column that by (intro get_def_updates) blast
  then show ?thesis by (simp add: feats_to_matrix_def rows_to_feature_dict_def BB_TO_CANONICAL_def Let_def)
qed

text \<open>A row of the training matrix is laid out as the vector the agent hands to the model.\<close>

lemma matrix_rows: "feats_to_matrix fs = map feature_vector fs"
  by (induction fs) (simp_all add: feats_to_matrix_def feature_vector_def)

lemma matrix_shape: "length (feats_to_matrix fs) = length fs \<and> (\<forall>row \<in> set (feats_to_matrix fs). length row = 52)"
  using feature_row_shape by (simp add: feats_to_matrix_def)

section \<open>The synthetic classes\<close>

lemma get_def_set_feats:
  "distinct (map fst kvs) \<Longrightarrow> (k, v) \<in> set kvs \<Longrightarrow> get_def (set_feats d kvs) k w = Some v"
proof (induction kvs arbitrary: d)
  case (Cons kv kvs)
  obtain k' v' where kv: "kv = (k', v')" by (cases kv)
  have s: "get_def (set_feats d kvs) k w = get_def d k w" if "k \<notin> fst ` set kvs" for d
    using that by (induction kvs arbitrary: d) (auto simp: set_feats_def get_def_update)
  show ?case
  proof (cases "(k, v) \<in> set kvs")
    case True
    then show ?thesis using Cons by (simp add: set_feats_def kv)
  next
    case False
    then have "k' = k" "v' = v" "k \<notin> fst ` set kvs" using Cons.prems by (auto simp: kv)
    then show ?thesis using s by (simp add: set_feats_def kv get_def_update)
  qed
qed simp

lemma healthy_gpu_cool:
  assumes "rng_lawful g"
  shows "\<exists>t. get_def (fst (healthy_gpu g i r)) ''gpu.temp.celsius__mean'' None = Some t \<and> 60 \<le> t \<and> t \<le> 75 \<and>
    (\<exists>m \<ge> t. get_def (fst (healthy_gpu g i r)) ''gpu.temp.celsius__max'' None = Some m)"
proof -
  have u: "a \<le> fst (rg_uniform g a b r)" "fst (rg_uniform g a b r) \<le> b" if "a \<le> b" for a b r
    using assms that unfolding rng_lawful_def by blast+
  show ?thesis
    using u [of 60 75] u [of 0 4] by (simp add: healthy_gpu_def split_beta Let_def get_def_set_feats)
qed

lemma failing_gpu_hot:
  assumes "rng_lawful g"
  shows "\<exists>t. get_def (fst (failing_gpu g i r)) ''gpu.temp.celsius__mean'' None = Some t \<and> 82 \<le> t \<and> t \<le> 95 \<and>
    (\<exists>m \<ge> t + 2. get_def (fst (failing_gpu g i r)) ''gpu.temp.celsius__max'' None = Some m)"
proof -
  have u: "a \<le> fst (rg_uniform g a b r)" "fst (rg_uniform g a b r) \<le> b" if "a \<le> b" for a b r
    using assms that unfolding rng_lawful_def by blast+
  show ?thesis
    using u [of 82 95] u [of 2 6] by (simp add: failing_gpu_def split_beta Let_def get_def_set_feats)
qed

lemma synthetic_classes_separated:
  assumes "rng_lawful g"
  shows "length (synthesize_gpu g seeded n) = 2 * nat n \<and>
    (\<forall>(f, label) \<in> set (synthesize_gpu g seeded n). \<exists>t. get_def f ''gpu.temp.celsius__mean'' None = Some t \<and>
       label = (if t > 80 then 1 else 0))"
proof -
  have "\<exists>t. get_def f ''gpu.temp.celsius__mean'' None = Some t \<and> label = (if t > 80 then 1 else 0)"
    if fl: "(f, label) \<in> set (synthesize_gpu g seeded n)" for f label
  proof -
    from fl obtain r where "f \<in> set (fst (thread (healthy_gpu g) [0..<nat n] r)) \<and> label = 0 \<or>
        f \<in> set (fst (thread (failing_gpu g) [0..<nat n] r)) \<and> label = 1"
      by (auto simp: synthesize_gpu_def split_beta Let_def)
    then show ?thesis
    proof (elim disjE conjE)
      assume "f \<in> set (fst (thread (healthy_gpu g) [0..<nat n] r))" "label = 0"
      from in_thread [OF this(1)] obtain i r1 where "f = fst (healthy_gpu g i r1)" by blast
      with healthy_gpu_cool [OF assms, of i r1] obtain t
        where "get_def f ''gpu.temp.celsius__mean'' None = Some t" "t \<le> 75" by blast
      with \<open>label = 0\<close> show ?thesis by (intro exI [of _ t]) simp
    next
      assume "f \<in> set (fst (thread (failing_gpu g) [0..<nat n] r))" "label = 1"
      from in_thread [OF this(1)] obtain i r1 where "f = fst (failing_gpu g i r1)" by blast
      with failing_gpu_hot [OF assms, of i r1] obtain t
        where "get_def f ''gpu.temp.celsius__mean'' None = Some t" "82 \<le> t" by blast
      with \<open>label = 1\<close> show ?thesis by (intro exI [of _ t]) simp
    qed
  qed
  then show ?thesis by (auto simp: synthesize_gpu_def split_beta Let_def)
qed

section \<open>The weight and the program\<close>

text \<open>With 0/1 labels of which one is positive, the weight makes both classes weigh the same.\<close>

lemma weight_balances:
  assumes "set y \<subseteq> {0, 1}" and "1 \<in> set y"
  shows "of_int (sum_list y) * scale_pos_weight y = real (length (filter ((=) 0) y))"
proof -
  have c: "int (length (filter ((=) 0) y)) + sum_list y = int (length y)" using assms(1) by (induction y) auto
  have "0 \<le> sum_list y" if "set y \<subseteq> {0, 1}" for y :: "int list" using that by (induction y) auto
  then have "1 \<le> sum_list y" using assms by (induction y) force+
  then have "of_int (sum_list y) * scale_pos_weight y = real_of_int (int (length y) - sum_list y)"
    by (simp add: scale_pos_weight_def Let_def max_def)
  also have "\<dots> = real (length (filter ((=) 0) y))" using c by (metis add_diff_cancel_right' of_int_of_nat_eq)
  finally show ?thesis .
qed

text \<open>The program trains on as many labels as rows, each row of the agent's 52 columns; it exits with 2 where no file is
  found, with 1 where there is nothing to train on.\<close>

lemma train_main_ends:
  "train_main ml fos sorted_rows g seeded [] (train_defaults\<lparr>ta_synthetic_gpu_n := n\<rparr>) = Inr (Exited 2)"
  "n \<le> 0 \<Longrightarrow> train_main ml fos sorted_rows g seeded csvs (train_defaults\<lparr>ta_skip_backblaze := True, ta_synthetic_gpu_n := n\<rparr>) = Inr (Exited 1)"
  by (simp_all add: train_main_def training_set_def train_defaults_def load_backblaze_def synthesize_gpu_def)

lemma trained_on_every_sample:
  assumes "train_main ml fos sorted_rows g seeded csvs args = Inr (Saved out booster metrics warned)"
  shows "\<exists>samples. training_set fos sorted_rows g seeded csvs args = Inr samples \<and> samples \<noteq> [] \<and>
    train ml (feats_to_matrix (map fst samples)) (map snd samples) = Inr (booster, metrics) \<and> out = ta_model_out args"
proof (cases "training_set fos sorted_rows g seeded csvs args")
  case (Inl e)
  then show ?thesis using assms by (cases e) (simp_all add: train_main_def)
next
  case (Inr samples)
  then show ?thesis using assms by (cases samples) (auto simp: train_main_def)
qed

text \<open>What is called \<open>auc_pr\<close> is the area under the ROC curve.\<close>

lemma auc_pr_is_roc:
  assumes "train ml X y = Inr (booster, metrics)"
  shows "\<exists>X_train X_val y_train y_val auc. ml_split ml (2 / 10) 42 X y = Inr (X_train, X_val, y_train, y_val) \<and>
    ml_roc_auc_score ml y_val (ml_predict ml booster X_val) = Inr auc \<and> map_of metrics ''auc_pr'' = Some auc"
  using assms by (auto simp: train_def Let_def)

end
