(* ===== verification/Corpora.thy ===== *)
theory Corpora
  imports Operator
begin

text \<open>
  The two corpora that are put into Chroma, past incidents (\<open>scripts/_incidents_corpus.py\<close>) and runbooks
  (\<open>scripts/_runbooks_corpus.py\<close>), in groups as their files have them, and the scripts that put them there
  (\<open>seed_incidents.py\<close>, \<open>seed_runbooks.py\<close>).

  Characters outside ASCII are spelled by their UTF-8 bytes. The Chroma client is a parameter.
\<close>

section \<open>Past incidents\<close>

record past_incident =
  pn_id :: string
  pn_symptoms :: string
  pn_root_cause :: string
  pn_resolution :: string
  pn_severity :: string
  pn_kind :: string

definition GPU_INCIDENTS :: "past_incident list" where
  "GPU_INCIDENTS =
     [
      \<lparr>pn_id = ''inc-gpu-ecc-001'',
       pn_symptoms = ''GPU correctable ECC errors climbed from baseline 30/min to >5000/min over 15 minutes.''
            @ '' GPU temperature held at 78C; utilization steady.'',
       pn_root_cause = ''HBM stack on the GPU showed early-life failure pattern; correctable ECC storm preceded''
            @ '' uncorrectable errors by ~6 hours.'',
       pn_resolution = ''Drained workloads from the affected GPU and submitted RMA. Pre-emptive replacement''
            @ '' avoided uncorrectable failure and node fault.'',
       pn_severity = ''error'',
       pn_kind = ''gpu_ecc_drift''\<rparr>,
      \<lparr>pn_id = ''inc-gpu-xid-43'',
       pn_symptoms = ''XID 43 reported in dmesg; GPU page-retirement table grew. Workload became unresponsive''
            @ '' on the affected device.'',
       pn_root_cause = ''Double-bit memory error retired a page; GPU continued in degraded mode but with''
            @ '' reduced effective memory.'',
       pn_resolution = ''Replaced GPU within the 24h SLA window; no further XID since.'',
       pn_severity = ''critical'',
       pn_kind = ''gpu_fatal_xid''\<rparr>,
      \<lparr>pn_id = ''inc-gpu-xid-48'',
       pn_symptoms = ''XID 48 (double-bit ECC) in dmesg; CUDA jobs crash on launch.'',
       pn_root_cause = ''Catastrophic HBM failure '' @ [CHR 0xE2, CHR 0x80, CHR 0x94]
            @ '' uncorrectable double-bit error.'',
       pn_resolution = ''GPU removed from service; replaced same day. RMA to NVIDIA.'',
       pn_severity = ''critical'',
       pn_kind = ''gpu_fatal_xid''\<rparr>,
      \<lparr>pn_id = ''inc-gpu-thermal-001'',
       pn_symptoms = ''GPU temperature reached 93C; clock throttled to base clock. Two adjacent GPUs in''
            @ '' the same chassis showed 88-90C.'',
       pn_root_cause = ''Inlet air temperature drifted to 28C following a CRAC fault in the same hall; chassis''
            @ '' thermal envelope exceeded.'',
       pn_resolution = ''Restored CRAC capacity, migrated half the rack's GPU workload, thermals recovered''
            @ '' within 20 minutes.'',
       pn_severity = ''error'',
       pn_kind = ''gpu_thermal''\<rparr>]"

definition POWER_INCIDENTS :: "past_incident list" where
  "POWER_INCIDENTS =
     [
      \<lparr>pn_id = ''inc-psu-eff-001'',
       pn_symptoms = ''PSU efficiency drifted from baseline 94% to 82% over 6 hours. No load change; ambient''
            @ '' inlet stable at 22C.'',
       pn_root_cause = ''PSU degradation '' @ [CHR 0xE2, CHR 0x80, CHR 0x94]
            @ '' likely capacitor aging; failure imminent.'',
       pn_resolution = ''Scheduled PSU swap during next maintenance window. Drift continued until replacement;''
            @ '' no outage.'',
       pn_severity = ''warn'',
       pn_kind = ''psu_efficiency_drift''\<rparr>,
      \<lparr>pn_id = ''inc-psu-fail-001'',
       pn_symptoms = ''Server lost PSU1 voltage; system continued on PSU2 with redundant power but lost''
            @ '' N+1 redundancy. Power draw dropped to 0W on PSU1.'',
       pn_root_cause = ''Total PSU failure '' @ [CHR 0xE2, CHR 0x80, CHR 0x94] @ '' internal short.'',
       pn_resolution = ''Hot-swap PSU within 4 hours; restored N+1.'',
       pn_severity = ''critical'',
       pn_kind = ''psu_fail''\<rparr>]"

definition COOLING_INCIDENTS :: "past_incident list" where
  "COOLING_INCIDENTS =
     [
      \<lparr>pn_id = ''inc-crac-fail-001'',
       pn_symptoms = ''Single CRAC unit fan_percent dropped to 0%. Hall return temperature rose 8C in''
            @ '' 12 minutes; rack inlet temps started climbing.'',
       pn_root_cause = ''CRAC compressor failed; backup CRAC scaled up but lagged.'',
       pn_resolution = ''Failed unit serviced; load redistributed across remaining CRACs. Brief workload''
            @ '' migration from highest-density racks.'',
       pn_severity = ''critical'',
       pn_kind = ''crac_fail''\<rparr>,
      \<lparr>pn_id = ''inc-fan-stuck-001'',
       pn_symptoms = ''Server fan_rpm dropped from 4200 to 0; CPU temperature rose to 84C within 5 minutes;''
            @ '' thermal throttling kicked in.'',
       pn_root_cause = ''Bearing failure on chassis fan #1; lockup with no rotation.'',
       pn_resolution = ''Workload migrated off the affected server; fan module replaced during maintenance''
            @ '' window.'',
       pn_severity = ''error'',
       pn_kind = ''thermal_cascade''\<rparr>,
      \<lparr>pn_id = ''inc-thermal-cascade-001'',
       pn_symptoms = ''Multiple racks in one hall showed inlet temperatures climbing simultaneously; GPU''
            @ '' temps tracked the inlet rise.'',
       pn_root_cause = ''Hot-aisle/cold-aisle containment failure '' @ [CHR 0xE2, CHR 0x80, CHR 0x94]
            @ '' a ceiling tile shifted and disrupted airflow.'',
       pn_resolution = ''Facilities resealed the tile; thermals stabilized.'',
       pn_severity = ''error'',
       pn_kind = ''thermal_cascade''\<rparr>]"

definition STORAGE_INCIDENTS :: "past_incident list" where
  "STORAGE_INCIDENTS =
     [
      \<lparr>pn_id = ''inc-disk-smart-001'',
       pn_symptoms = ''SMART reallocated_sector_count rose from 8 to 142 over 36 hours. No I/O errors''
            @ '' yet but pattern matches imminent failure.'',
       pn_root_cause = ''Disk media degradation '' @ [CHR 0xE2, CHR 0x80, CHR 0x94]
            @ '' track pre-empted failure pattern.'',
       pn_resolution = ''Drive evacuated and replaced before any read errors surfaced; Backblaze-trained''
            @ '' model flagged at delta=50.'',
       pn_severity = ''warn'',
       pn_kind = ''disk_smart_drift''\<rparr>,
      \<lparr>pn_id = ''inc-disk-realloc-burst'',
       pn_symptoms = ''Reallocated sector count jumped 200+ in 4 hours; pending sector count also rising.''
            @ '' SMART status still 'PASSED' but trend bad.'',
       pn_root_cause = ''Cascading media failure; impending uncorrectable read.'',
       pn_resolution = ''Removed drive from RAID; replaced. Caught before data loss because of monitoring.'',
       pn_severity = ''error'',
       pn_kind = ''disk_smart_drift''\<rparr>]"

definition NETWORK_INCIDENTS :: "past_incident list" where
  "NETWORK_INCIDENTS =
     [
      \<lparr>pn_id = ''inc-switch-flap'',
       pn_symptoms = ''ToR switch reported port_up count dropping by 4-8 ports intermittently every 10-15''
            @ '' minutes. ifInErrors elevated.'',
       pn_root_cause = ''Faulty optical transceiver caused recurring link flaps; affected ports were all''
            @ '' on the same line card.'',
       pn_resolution = ''Replaced transceiver; ifInErrors returned to baseline. Affected servers had transient''
            @ '' packet loss during the flapping period.'',
       pn_severity = ''warn'',
       pn_kind = ''switch_port_flap''\<rparr>,
      \<lparr>pn_id = ''inc-nic-drops'',
       pn_symptoms = ''Single server reported 5% packet drop on its primary NIC; all other NICs in the''
            @ '' rack healthy.'',
       pn_root_cause = ''NIC firmware bug triggered by specific traffic pattern.'',
       pn_resolution = ''Updated NIC firmware; drops returned to <0.01%.'',
       pn_severity = ''warn'',
       pn_kind = ''nic_packet_loss''\<rparr>]"

definition PDU_INCIDENTS :: "past_incident list" where
  "PDU_INCIDENTS =
     [
      \<lparr>pn_id = ''inc-pdu-overload'',
       pn_symptoms = ''PDU load_percent climbed to 95% (cap 80%). New deployments to the rack were rejected''
            @ '' by the placement system.'',
       pn_root_cause = ''Workload growth pushed rack power consumption above PDU capacity limit; capacity''
            @ '' planning lagged actual deployment.'',
       pn_resolution = ''Migrated three GPU servers to a cooler rack with PDU headroom. Updated capacity-planning''
            @ '' thresholds.'',
       pn_severity = ''error'',
       pn_kind = ''pdu_overload''\<rparr>]"

definition MIXED_INCIDENTS :: "past_incident list" where
  "MIXED_INCIDENTS =
     [
      \<lparr>pn_id = ''inc-multi-gpu-degraded'',
       pn_symptoms = ''Two GPUs on the same server reported ECC drift simultaneously; third GPU healthy.''
            @ '' Server PSU efficiency also dropping.'',
       pn_root_cause = ''PCIe slot riser issue caused intermittent signal integrity errors on two of three''
            @ '' GPU slots.'',
       pn_resolution = ''Reseated riser; ECC counts returned to baseline. Server pulled for further diagnosis''
            @ '' during off-hours.'',
       pn_severity = ''error'',
       pn_kind = ''gpu_ecc_drift''\<rparr>,
      \<lparr>pn_id = ''inc-rack-cascade'',
       pn_symptoms = ''Whole rack saw CPU temps climb 6-8C over 30 minutes; GPU temps climbed less but''
            @ '' tracked the same trend. PDU load steady.'',
       pn_root_cause = ''Adjacent rack hot-aisle containment was opened by a technician during a maintenance''
            @ '' task; warm air recirculated.'',
       pn_resolution = ''Containment closed; thermals recovered within 15 minutes. No workload migration''
            @ '' required.'',
       pn_severity = ''warn'',
       pn_kind = ''thermal_cascade''\<rparr>]"

definition FEDERATION_INCIDENTS :: "past_incident list" where
  "FEDERATION_INCIDENTS =
     [
      \<lparr>pn_id = ''inc-federation-001'',
       pn_symptoms = ''Frankfurt site's Sentinel learned a new GPU ECC pattern; control plane propagated''
            @ '' it to Singapore and Mumbai. Singapore flagged a matching pattern in shadow mode''
            @ '' within 48 hours.'',
       pn_root_cause = ''Same GPU revision in Singapore exhibited the same HBM degradation pattern Frankfurt's''
            @ '' detector caught.'',
       pn_resolution = ''Singapore enabled the rule in active mode after 48h shadow; pre-emptive RMA of''
            @ '' three GPUs.'',
       pn_severity = ''warn'',
       pn_kind = ''gpu_ecc_drift''\<rparr>]"

definition OPERATOR_INCIDENTS :: "past_incident list" where
  "OPERATOR_INCIDENTS =
     [
      \<lparr>pn_id = ''inc-operator-001'',
       pn_symptoms = ''Operator was asked 'which racks ran hottest last 24h?'.'',
       pn_root_cause = ''N/A '' @ [CHR 0xE2, CHR 0x80, CHR 0x94] @ '' informational query.'',
       pn_resolution = ''Operator generated a SELECT over telemetry filtered by metric=env.outlet.celsius,''
            @ '' grouped by rack_id, ordered by max(value_num) DESC.'',
       pn_severity = ''info'',
       pn_kind = ''operator_query''\<rparr>]"

definition INCIDENT_CORPUS :: "past_incident list" where
  "INCIDENT_CORPUS =
     GPU_INCIDENTS @ POWER_INCIDENTS @ COOLING_INCIDENTS @ STORAGE_INCIDENTS @ NETWORK_INCIDENTS @ PDU_INCIDENTS
     @ MIXED_INCIDENTS @ FEDERATION_INCIDENTS @ OPERATOR_INCIDENTS"

text \<open>\<open>setdefault(k, []).append(p)\<close> over a corpus.\<close>

definition grouped_by :: "('a \<Rightarrow> string) \<Rightarrow> 'a list \<Rightarrow> (string \<times> 'a list) list" where
  "grouped_by key corpus = foldl (\<lambda>out p. AList.update (key p) (get_def out (key p) [] @ [p]) out) [] corpus"

definition incidents_by_kind :: "(string \<times> past_incident list) list" where
  "incidents_by_kind = grouped_by pn_kind INCIDENT_CORPUS"

section \<open>Runbooks\<close>

record runbook =
  ru_id :: string
  ru_question :: string
  ru_sql_template :: string
  ru_metrics :: "string list"
  ru_category :: string
  ru_notes :: string

definition THERMAL_RUNBOOKS :: "runbook list" where
  "THERMAL_RUNBOOKS =
     [
      \<lparr>ru_id = ''rb-thermal-001'',
       ru_question = ''Which racks ran the hottest in the last 24 hours?'',
       ru_sql_template = ''SELECT rack_id, MAX(value_num) AS peak_c FROM telemetry WHERE site_id = $SITE AND''
            @ '' metric = 'env.outlet.celsius'   AND time >= NOW() - INTERVAL '24 hours' GROUP''
            @ '' BY rack_id ORDER BY peak_c DESC LIMIT 10'',
       ru_metrics = [''env.outlet.celsius''],
       ru_category = ''thermal'',
       ru_notes = ''Aggregate peak outlet temp per rack; useful for spotting hotspots.''\<rparr>,
      \<lparr>ru_id = ''rb-thermal-002'',
       ru_question = ''Show me inlet temperature trend for hall fra-h1 over the past hour.'',
       ru_sql_template = ''SELECT time, AVG(value_num) AS inlet_c FROM telemetry WHERE site_id = $SITE AND''
            @ '' hall_id = $HALL   AND metric = 'env.inlet.celsius'   AND time >= NOW() - INTERVAL '1''
            @ '' hour' GROUP BY time ORDER BY time'',
       ru_metrics = [''env.inlet.celsius''],
       ru_category = ''thermal'',
       ru_notes = ''Time-series mean across the hall '' @ [CHR 0xE2, CHR 0x80, CHR 0x94]
            @ '' good as a Plotly line.''\<rparr>,
      \<lparr>ru_id = ''rb-thermal-003'',
       ru_question = ''Are any CPU temps above 85 degrees right now?'',
       ru_sql_template = ''SELECT device_id, value_num AS cpu_temp_c, time FROM telemetry WHERE site_id =''
            @ '' $SITE AND metric = 'cpu.temp.celsius'   AND value_num > 85   AND time >= NOW()''
            @ '' - INTERVAL '5 minutes' ORDER BY value_num DESC LIMIT 20'',
       ru_metrics = [''cpu.temp.celsius''],
       ru_category = ''thermal'',
       ru_notes = ''Hot-CPU outliers; supports drill-down by device.''\<rparr>]"

definition POWER_RUNBOOKS :: "runbook list" where
  "POWER_RUNBOOKS =
     [
      \<lparr>ru_id = ''rb-power-001'',
       ru_question = ''What is the total power draw for site frankfurt over the last hour?'',
       ru_sql_template = ''SELECT time, SUM(value_num) AS site_watts FROM telemetry WHERE site_id = $SITE''
            @ '' AND metric = 'power.draw.watts'   AND time >= NOW() - INTERVAL '1 hour' GROUP''
            @ '' BY time ORDER BY time'',
       ru_metrics = [''power.draw.watts''],
       ru_category = ''power'',
       ru_notes = ''Site-level draw timeseries.''\<rparr>,
      \<lparr>ru_id = ''rb-power-002'',
       ru_question = ''Which PDUs are above 80% load capacity?'',
       ru_sql_template = ''SELECT DISTINCT ON (device_id) device_id, value_num AS load_pct, time FROM telemetry''
            @ '' WHERE site_id = $SITE AND metric = 'pdu.load.percent'   AND time >= NOW() - INTERVAL '5''
            @ '' minutes' ORDER BY device_id, time DESC'',
       ru_metrics = [''pdu.load.percent''],
       ru_category = ''power'',
       ru_notes = ''Filter > 80 in the post-query application or add WHERE value_num > 80.''\<rparr>,
      \<lparr>ru_id = ''rb-power-003'',
       ru_question = ''Show me PSU efficiency drift across the fleet over the past 6 hours.'',
       ru_sql_template = ''SELECT time, AVG(value_num) AS avg_eff FROM telemetry WHERE site_id = $SITE AND''
            @ '' metric = 'psu.efficiency.percent'   AND time >= NOW() - INTERVAL '6 hours' GROUP''
            @ '' BY time ORDER BY time'',
       ru_metrics = [''psu.efficiency.percent''],
       ru_category = ''power'',
       ru_notes = ''Falling trend usually precedes PSU failure.''\<rparr>]"

definition GPU_RUNBOOKS :: "runbook list" where
  "GPU_RUNBOOKS =
     [
      \<lparr>ru_id = ''rb-gpu-001'',
       ru_question = ''What's the GPU utilization across all GPUs in the last 10 minutes?'',
       ru_sql_template = ''SELECT device_id, AVG(value_num) AS util_pct FROM telemetry WHERE site_id = $SITE''
            @ '' AND metric = 'gpu.util.percent'   AND time >= NOW() - INTERVAL '10 minutes' GROUP''
            @ '' BY device_id ORDER BY util_pct DESC LIMIT 50'',
       ru_metrics = [''gpu.util.percent''],
       ru_category = ''gpu'',
       ru_notes = ''Per-GPU average util '' @ [CHR 0xE2, CHR 0x80, CHR 0x94]
            @ '' useful for finding stranded capacity.''\<rparr>,
      \<lparr>ru_id = ''rb-gpu-002'',
       ru_question = ''Did any GPUs report XID errors in the last 24 hours?'',
       ru_sql_template = ''SELECT device_id, MAX(value_num) AS xid_code, MAX(time) AS last_seen FROM telemetry''
            @ '' WHERE site_id = $SITE AND metric = 'gpu.xid.code'   AND value_num > 0   AND time''
            @ '' >= NOW() - INTERVAL '24 hours' GROUP BY device_id'',
       ru_metrics = [''gpu.xid.code''],
       ru_category = ''gpu'',
       ru_notes = ''Any non-zero XID is noteworthy; fatal codes (43,48,63,'' @ [CHR 0xE2, CHR 0x80, CHR 0xA6]
            @ '') need immediate action.''\<rparr>,
      \<lparr>ru_id = ''rb-gpu-003'',
       ru_question = ''Which GPUs had the highest correctable ECC counts today?'',
       ru_sql_template = ''SELECT device_id, SUM(value_num) AS ecc_total FROM telemetry WHERE site_id = $SITE''
            @ '' AND metric = 'gpu.ecc.correctable'   AND time >= NOW() - INTERVAL '1 day' GROUP''
            @ '' BY device_id ORDER BY ecc_total DESC LIMIT 20'',
       ru_metrics = [''gpu.ecc.correctable''],
       ru_category = ''gpu'',
       ru_notes = ''Sustained correctable ECC often precedes uncorrectable failure.''\<rparr>]"

definition STORAGE_RUNBOOKS :: "runbook list" where
  "STORAGE_RUNBOOKS =
     [
      \<lparr>ru_id = ''rb-storage-001'',
       ru_question = ''List drives with growing reallocated sector counts.'',
       ru_sql_template = ''SELECT device_id, MAX(value_num) - MIN(value_num) AS delta, MAX(value_num) AS latest''
            @ '' FROM telemetry WHERE site_id = $SITE AND metric = 'disk.reallocated.sectors' ''
            @ ''  AND time >= NOW() - INTERVAL '7 days' GROUP BY device_id HAVING MAX(value_num)''
            @ '' - MIN(value_num) > 0 ORDER BY delta DESC LIMIT 20'',
       ru_metrics = [''disk.reallocated.sectors''],
       ru_category = ''storage'',
       ru_notes = ''Backblaze pattern '' @ [CHR 0xE2, CHR 0x80, CHR 0x94]
            @ '' increasing reallocations = imminent failure.''\<rparr>,
      \<lparr>ru_id = ''rb-storage-002'',
       ru_question = ''Are any drives running hot?'',
       ru_sql_template = ''SELECT DISTINCT ON (device_id) device_id, value_num AS disk_temp_c, time FROM telemetry''
            @ '' WHERE site_id = $SITE AND metric = 'disk.temp.celsius'   AND time >= NOW() - INTERVAL '15''
            @ '' minutes'   AND value_num > 50 ORDER BY device_id, time DESC'',
       ru_metrics = [''disk.temp.celsius''],
       ru_category = ''storage'',
       ru_notes = ''Disk temps > 50'' @ [CHR 0xC2, CHR 0xB0] @ ''C correlate with shorter lifespan.''\<rparr>]"

definition NETWORK_RUNBOOKS :: "runbook list" where
  "NETWORK_RUNBOOKS =
     [
      \<lparr>ru_id = ''rb-network-001'',
       ru_question = ''Which switches have ports down right now?'',
       ru_sql_template = ''SELECT DISTINCT ON (device_id) device_id, value_num AS port_up_count, time FROM''
            @ '' telemetry WHERE site_id = $SITE AND metric = 'net.port.up'   AND time >= NOW()''
            @ '' - INTERVAL '5 minutes'   AND value_num = 0 ORDER BY device_id, time DESC'',
       ru_metrics = [''net.port.up''],
       ru_category = ''network'',
       ru_notes = ''Port down for > 5 minutes is an actionable alert.''\<rparr>,
      \<lparr>ru_id = ''rb-network-002'',
       ru_question = ''What is the input bandwidth trend for switch fra-h1-r07-tor?'',
       ru_sql_template = ''SELECT time, value_num AS bps_in FROM telemetry WHERE site_id = $SITE AND device_id''
            @ '' = $DEVICE   AND metric = 'net.bps.in'   AND time >= NOW() - INTERVAL '1 hour' ORDER''
            @ '' BY time'',
       ru_metrics = [''net.bps.in''],
       ru_category = ''network'',
       ru_notes = ''Time-series for one device; Plotly line.''\<rparr>]"

definition FLEET_RUNBOOKS :: "runbook list" where
  "FLEET_RUNBOOKS =
     [
      \<lparr>ru_id = ''rb-fleet-001'',
       ru_question = ''How many devices have critical-severity events in the last hour?'',
       ru_sql_template = ''SELECT COUNT(DISTINCT device_id) AS critical_devices FROM telemetry WHERE site_id''
            @ '' = $SITE AND severity = 'critical'   AND time >= NOW() - INTERVAL '1 hour'' @ [CHR 0x27],
       ru_metrics = [''*''],
       ru_category = ''fleet'',
       ru_notes = ''Fleet-wide critical count; scalar answer.''\<rparr>,
      \<lparr>ru_id = ''rb-fleet-002'',
       ru_question = ''Compare power draw between Frankfurt and Singapore over the last 12 hours.'',
       ru_sql_template = ''SELECT time, site_id, SUM(value_num) AS site_watts FROM telemetry WHERE site_id''
            @ '' IN ('frankfurt', 'singapore')   AND metric = 'power.draw.watts'   AND time >=''
            @ '' NOW() - INTERVAL '12 hours' GROUP BY time, site_id ORDER BY time'',
       ru_metrics = [''power.draw.watts''],
       ru_category = ''fleet'',
       ru_notes = ''Multi-site comparison '' @ [CHR 0xE2, CHR 0x80, CHR 0x94] @ '' Plotly multi-line.''\<rparr>,
      \<lparr>ru_id = ''rb-fleet-003'',
       ru_question = ''Show me everything currently anomalous for site mumbai.'',
       ru_sql_template = ''SELECT device_id, metric, value_num, severity, time FROM telemetry WHERE site_id''
            @ '' = 'mumbai'   AND severity IN ('error', 'critical')   AND time >= NOW() - INTERVAL '10''
            @ '' minutes' ORDER BY severity DESC, time DESC LIMIT 100'',
       ru_metrics = [''*''],
       ru_category = ''fleet'',
       ru_notes = ''Recent error/critical events for a site.''\<rparr>]"

definition COOLING_RUNBOOKS :: "runbook list" where
  "COOLING_RUNBOOKS =
     [
      \<lparr>ru_id = ''rb-cooling-001'',
       ru_question = ''What is the supply temperature for each CRAC unit right now?'',
       ru_sql_template = ''SELECT DISTINCT ON (device_id) device_id, value_num AS supply_c, time FROM telemetry''
            @ '' WHERE site_id = $SITE AND metric = 'crac.supply.celsius'   AND time >= NOW() -''
            @ '' INTERVAL '5 minutes' ORDER BY device_id, time DESC'',
       ru_metrics = [''crac.supply.celsius''],
       ru_category = ''thermal'',
       ru_notes = ''Latest supply temp per CRAC; baseline for thermal incidents.''\<rparr>,
      \<lparr>ru_id = ''rb-cooling-002'',
       ru_question = ''Show the delta between supply and return temperatures for CRACs in fra-h1.'',
       ru_sql_template = ''SELECT time,   MAX(CASE WHEN metric = 'crac.return.celsius' THEN value_num END)''
            @ ''   - MAX(CASE WHEN metric = 'crac.supply.celsius' THEN value_num END) AS delta_c''
            @ '' FROM telemetry WHERE site_id = $SITE AND hall_id = $HALL   AND metric IN ('crac.return.celsius', 'crac.supply.celsius')''
            @ ''   AND time >= NOW() - INTERVAL '1 hour' GROUP BY time ORDER BY time'',
       ru_metrics = [''crac.supply.celsius'', ''crac.return.celsius''],
       ru_category = ''thermal'',
       ru_notes = ''Return - supply '' @ [CHR 0xE2, CHR 0x89, CHR 0x88]
            @ '' heat removed; a falling delta = cooling capacity loss.''\<rparr>]"

definition RUNBOOK_CORPUS :: "runbook list" where
  "RUNBOOK_CORPUS =
     THERMAL_RUNBOOKS @ POWER_RUNBOOKS @ GPU_RUNBOOKS @ STORAGE_RUNBOOKS @ NETWORK_RUNBOOKS @ FLEET_RUNBOOKS
     @ COOLING_RUNBOOKS"

definition runbooks_by_category :: "(string \<times> runbook list) list" where
  "runbooks_by_category = grouped_by ru_category RUNBOOK_CORPUS"

section \<open>Seeding\<close>

record chroma_payload =
  cp_ids :: "string list"
  cp_documents :: "string list"
  cp_metadatas :: "dict list"

definition incident_metadata :: "past_incident \<Rightarrow> dict" where
  "incident_metadata p =
     [(''root_cause'', PStr (pn_root_cause p)), (''resolution'', PStr (pn_resolution p)),
      (''severity'', PStr (pn_severity p)), (''kind'', PStr (pn_kind p))]"

definition incidents_payload :: "past_incident list \<Rightarrow> chroma_payload" where
  "incidents_payload corpus =
     \<lparr>cp_ids = map pn_id corpus, cp_documents = map pn_symptoms corpus, cp_metadatas = map incident_metadata corpus\<rparr>"

definition runbook_metadata :: "runbook \<Rightarrow> dict" where
  "runbook_metadata r =
     [(''sql_template'', PStr (ru_sql_template r)), (''metrics'', PStr (join_with '','' (ru_metrics r))),
      (''category'', PStr (ru_category r)), (''notes'', PStr (ru_notes r))]"

definition runbooks_payload :: "runbook list \<Rightarrow> chroma_payload" where
  "runbooks_payload corpus =
     \<lparr>cp_ids = map ru_id corpus, cp_documents = map ru_question corpus, cp_metadatas = map runbook_metadata corpus\<rparr>"

text \<open>The client: \<open>get_or_create_collection\<close>, then \<open>upsert\<close> on the collection of that name; both may raise.\<close>

record 'c chroma_admin =
  ca_open :: "string \<Rightarrow> 'c \<Rightarrow> 'c res"
  ca_upsert :: "string \<Rightarrow> chroma_payload \<Rightarrow> 'c \<Rightarrow> 'c res"

definition seed_payload :: "'c chroma_admin \<Rightarrow> string \<Rightarrow> chroma_payload \<Rightarrow> 'c \<Rightarrow> (nat \<times> 'c) res" where
  "seed_payload adm name payload c =
     res_bind (ca_open adm name c) (\<lambda>c1. res_bind (ca_upsert adm name payload c1) (\<lambda>c2. Inr (length (cp_ids payload), c2)))"

definition seed_incidents :: "'c chroma_admin \<Rightarrow> string option \<Rightarrow> 'c \<Rightarrow> (nat \<times> 'c) res" where
  "seed_incidents adm env_name =
     seed_payload adm (case env_name of None \<Rightarrow> ''dcops_incidents'' | Some n \<Rightarrow> n) (incidents_payload INCIDENT_CORPUS)"

definition seed_runbooks :: "'c chroma_admin \<Rightarrow> string option \<Rightarrow> 'c \<Rightarrow> (nat \<times> 'c) res" where
  "seed_runbooks adm env_name =
     seed_payload adm (case env_name of None \<Rightarrow> ''dcops_runbooks'' | Some n \<Rightarrow> n) (runbooks_payload RUNBOOK_CORPUS)"

section \<open>The templates pass the guards\<close>

text \<open>A quick test: no word that ends as a forbidden one is followed by a blank.\<close>

definition WORD_ENDS :: "string list" where
  "WORD_ENDS = [''ERT'', ''ATE'', ''ETE'', ''ROP'', ''TER'', ''ANT'', ''OKE'', ''NTO'', ''OPY'']"

fun no_word_end :: "string \<Rightarrow> bool" where
  "no_word_end (a # b # c # d # s) \<longleftrightarrow>
     (if d = CHR '' '' then upper [a, b, c] \<notin> set WORD_ENDS else True) \<and> no_word_end (b # c # d # s)"
| "no_word_end s \<longleftrightarrow> True"

lemma no_word_end_at: "no_word_end (s1 @ [a, b, c, CHR '' ''] @ s2) \<Longrightarrow> upper [a, b, c] \<notin> set WORD_ENDS"
proof (induction s1)
  case (Cons x s1)
  obtain y z w s where "s1 @ [a, b, c, CHR '' ''] @ s2 = y # z # w # s"
    by (cases s1; cases "tl s1"; cases "tl (tl s1)") auto
  with Cons show ?case by (cases s) auto
qed simp

lemma upper_char_space: "upper_char c = CHR '' '' \<longleftrightarrow> c = CHR '' ''"
  by (cases c) (auto simp: upper_char_bits)

lemma no_word_end_sublist:
  assumes "no_word_end s" and "[x, y, z] \<in> set WORD_ENDS"
  shows "\<not> sublist (pre @ [x, y, z, CHR '' '']) (upper s)"
proof
  assume "sublist (pre @ [x, y, z, CHR '' '']) (upper s)"
  then obtain xs ys where "upper s = xs @ (pre @ [x, y, z, CHR '' '']) @ ys" by (auto simp: sublist_def)
  then have m: "map upper_char s = (xs @ pre) @ ([x, y, z, CHR '' ''] @ ys)" by (simp add: upper_def)
  let ?s1 = "take (length (xs @ pre)) s" and ?t = "drop (length (xs @ pre)) s"
  have "map upper_char ?t = [x, y, z, CHR '' ''] @ ys" by (simp only: drop_map [symmetric] m) simp
  then obtain a b c d s2 where t: "?t = a # b # c # d # s2" "map upper_char [a, b, c, d] = [x, y, z, CHR '' '']"
    by (auto simp only: append_Cons append_Nil map_eq_Cons_conv list.map)
  have s: "s = ?s1 @ [a, b, c, d] @ s2" using t(1) by (metis append_take_drop_id append_Cons append_Nil)
  from t(2) have "map upper_char [a, b, c, d] = [x, y, z, CHR '' '']" .
  then have "d = CHR '' ''" "upper [a, b, c] = [x, y, z]" by (simp_all add: upper_char_space upper_def)
  then have "no_word_end (?s1 @ [a, b, c, CHR '' ''] @ s2)" using s assms(1) by metis
  from no_word_end_at [OF this] \<open>upper [a, b, c] = [x, y, z]\<close> assms(2) show False by simp
qed

lemma forbidden_none:
  assumes "no_word_end ('' '' @ sql @ '' '')" and "tok \<in> set FORBIDDEN_SQL_TOKENS"
  shows "\<not> sublist tok ('' '' @ upper sql @ '' '')"
proof -
  have u: "upper ('' '' @ sql @ '' '') = '' '' @ upper sql @ '' ''" by (simp add: upper_def upper_char_def)
  have e: "\<exists>pre x y z. tok = pre @ [x, y, z, CHR '' ''] \<and> [x, y, z] \<in> set WORD_ENDS"
  proof -
    have "drop (length tok - 4) tok = take 3 (drop (length tok - 4) tok) @ '' ''" "take 3 (drop (length tok - 4) tok) \<in> set WORD_ENDS"
      using assms(2) by (auto simp: FORBIDDEN_SQL_TOKENS_def WORD_ENDS_def)
    moreover obtain x y z where "take 3 (drop (length tok - 4) tok) = [x, y, z]"
      using assms(2) by (auto simp: FORBIDDEN_SQL_TOKENS_def)
    ultimately show ?thesis by (metis append_take_drop_id append_Cons append_Nil)
  qed
  then show ?thesis using no_word_end_sublist [OF assms(1)] unfolding u by blast
qed

lemma rstrip_keeps: "\<not> is_space c \<Longrightarrow> prefix (xs @ [c]) (rstrip (xs @ [c] @ ys))"
proof -
  assume "\<not> is_space c"
  then have "dropWhile is_space (rev ys @ [c] @ rev xs) = dropWhile is_space (rev ys) @ [c] @ rev xs"
    by (induction "rev ys" rule: rev_induct) (auto simp: dropWhile_append)
  then show ?thesis by (simp add: rstrip_def)
qed

definition template_ok :: "string \<Rightarrow> bool" where
  "template_ok sql \<longleftrightarrow> prefix ''SELECT'' sql \<and> no_word_end ('' '' @ sql @ '' '')"


lemma select_reads: "prefix ''SELECT'' sql \<Longrightarrow> reads_only (upper (lstrip (lstrip_parens sql)))"
  by (auto simp: prefix_def reads_only_def lstrip_parens_def lstrip_def is_space_def upper_char_bits upper_def)

lemma select_strip: "prefix ''SELECT'' sql \<Longrightarrow> prefix ''SELECT'' (strip sql)"
proof -
  assume "prefix ''SELECT'' sql"
  then obtain t where t: "sql = ''SELEC'' @ [CHR ''T''] @ t" by (auto simp: prefix_def)
  then have "lstrip sql = sql" by (simp add: lstrip_def is_space_def)
  with rstrip_keeps [of "CHR ''T''" "''SELEC''" t] t show ?thesis by (simp add: strip_def is_space_def)
qed

lemma template_guarded:
  assumes "template_ok sql"
  shows "guarded_sql sql \<and> must_be_select sql = Inr sql"
proof -
  have p: "prefix ''SELECT'' sql" and w: "no_word_end ('' '' @ sql @ '' '')" using assms by (simp_all add: template_ok_def)
  have f: "list_all (\<lambda>tok. \<not> sublist tok ('' '' @ upper sql @ '' '')) FORBIDDEN_SQL_TOKENS"
    using forbidden_none [OF w] by (auto simp: list_all_iff)
  moreover have "set SCHEMA_FORBIDDEN \<subseteq> set FORBIDDEN_SQL_TOKENS"
    by (auto simp: SCHEMA_FORBIDDEN_def FORBIDDEN_SQL_TOKENS_def)
  ultimately have "forbidden_in SCHEMA_FORBIDDEN sql = None"
    unfolding forbidden_in_None by (auto simp: list_all_iff)
  then show ?thesis using f select_reads [OF p] select_reads [OF select_strip [OF p]]
    by (simp add: guarded_sql_def must_be_select_def)
qed


definition runbook_ok :: "runbook \<Rightarrow> bool" where
  "runbook_ok r \<longleftrightarrow> template_ok (ru_sql_template r) \<and>
     list_all (\<lambda>m. m = ''*'' \<or> m \<in> metric_value ` set all_metrics \<and> sublist ([CHR 0x27] @ m @ [CHR 0x27]) (ru_sql_template r)) (ru_metrics r)"

lemma runbooks_ok: "list_all runbook_ok RUNBOOK_CORPUS"
proof -
  have "list_all runbook_ok THERMAL_RUNBOOKS" by code_simp
  moreover have "list_all runbook_ok POWER_RUNBOOKS" by code_simp
  moreover have "list_all runbook_ok GPU_RUNBOOKS" by code_simp
  moreover have "list_all runbook_ok STORAGE_RUNBOOKS" by code_simp
  moreover have "list_all runbook_ok NETWORK_RUNBOOKS" by code_simp
  moreover have "list_all runbook_ok FLEET_RUNBOOKS" by code_simp
  moreover have "list_all runbook_ok COOLING_RUNBOOKS" by code_simp
  ultimately show ?thesis by (simp only: RUNBOOK_CORPUS_def list_all_append)
qed



section \<open>What seeding leaves in the collection\<close>

lemma incident_ids: "distinct (map pn_id INCIDENT_CORPUS) \<and> length INCIDENT_CORPUS = 18" by code_simp
lemma runbook_ids: "distinct (map ru_id RUNBOOK_CORPUS) \<and> length RUNBOOK_CORPUS = 18" by code_simp

text \<open>What Chroma documents: opening a collection changes no entry, an upsert sets those of its ids.\<close>

definition entries :: "chroma_payload \<Rightarrow> (string \<times> string \<times> dict) list" where
  "entries p = zip (cp_ids p) (zip (cp_documents p) (cp_metadatas p))"

definition chroma_lawful :: "'c chroma_admin \<Rightarrow> ('c \<Rightarrow> string \<Rightarrow> string \<rightharpoonup> string \<times> dict) \<Rightarrow> bool" where
  "chroma_lawful adm view \<longleftrightarrow>
     (\<forall>name c c1. ca_open adm name c = Inr c1 \<longrightarrow> view c1 = view c) \<and>
     (\<forall>name p c c1. ca_upsert adm name p c = Inr c1 \<longrightarrow> view c1 name = view c name ++ map_of (rev (entries p)))"

lemma seed_payload_view:
  assumes "chroma_lawful adm view" and "seed_payload adm name p c = Inr (n, c1)"
  shows "n = length (cp_ids p) \<and> view c1 name = view c name ++ map_of (rev (entries p))"
proof -
  from assms(2) obtain c0 where "ca_open adm name c = Inr c0" "ca_upsert adm name p c0 = Inr c1" "n = length (cp_ids p)"
    by (auto simp: seed_payload_def)
  with assms(1) show ?thesis unfolding chroma_lawful_def by metis
qed

lemma entries_zip: "entries \<lparr>cp_ids = map f xs, cp_documents = map g xs, cp_metadatas = map h xs\<rparr> = map (\<lambda>x. (f x, g x, h x)) xs"
  by (induction xs) (simp_all add: entries_def)

lemma seeded_view:
  assumes "chroma_lawful adm view" and "distinct (map f xs)"
    and "seed_payload adm name \<lparr>cp_ids = map f xs, cp_documents = map g xs, cp_metadatas = map h xs\<rparr> c = Inr (n, c1)"
  shows "n = length xs \<and> (\<forall>x \<in> set xs. view c1 name (f x) = Some (g x, h x)) \<and>
    (\<forall>i. i \<notin> f ` set xs \<longrightarrow> view c1 name i = view c name i)"
proof -
  let ?es = "rev (map (\<lambda>x. (f x, g x, h x)) xs)"
  have d: "distinct (map fst ?es)" using assms(2) by (simp add: comp_def rev_map [symmetric])
  have v: "view c1 name = view c name ++ map_of ?es" "n = length xs"
    using seed_payload_view [OF assms(1,3)] by (simp_all add: entries_zip)
  moreover have "map_of ?es (f x) = Some (g x, h x)" if "x \<in> set xs" for x
    using d that by (intro map_of_is_SomeI) auto
  moreover have "map_of ?es i = None" if "i \<notin> f ` set xs" for i using that by (auto simp: map_of_eq_None_iff)
  ultimately show ?thesis by (auto simp: map_add_def)
qed

theorem seeded_incidents_found:
  assumes "chroma_lawful adm view" and "seed_incidents adm env_name c = Inr (n, c1)"
  defines "name \<equiv> (case env_name of None \<Rightarrow> ''dcops_incidents'' | Some n \<Rightarrow> n)"
  shows "n = 18 \<and> (\<forall>p \<in> set INCIDENT_CORPUS. \<exists>meta. view c1 name (pn_id p) = Some (pn_symptoms p, meta) \<and>
    example_lines py_str (i, \<lparr>sh_document = pn_symptoms p, sh_metadata = meta, sh_distance = d\<rparr>) =
      [''Example '' @ str_of_nat i @ '':'', ''  Symptoms: '' @ pn_symptoms p, ''  Root cause: '' @ pn_root_cause p,
       ''  Resolution: '' @ pn_resolution p, []])"
proof -
  have "n = length INCIDENT_CORPUS \<and> (\<forall>p \<in> set INCIDENT_CORPUS. view c1 name (pn_id p) = Some (pn_symptoms p, incident_metadata p))"
    using seeded_view [OF assms(1) incident_ids [THEN conjunct1]] assms(2)
    unfolding seed_incidents_def incidents_payload_def name_def by blast
  moreover have "length INCIDENT_CORPUS = 18" using incident_ids by blast
  ultimately show ?thesis by (auto simp: incident_metadata_def example_lines_def shown_def)
qed

text \<open>Seeding again changes nothing.\<close>

lemma seeding_twice:
  assumes "chroma_lawful adm view" and "seed_payload adm name p c = Inr (n, c1)" and "seed_payload adm name p c1 = Inr (n2, c2)"
  shows "view c2 name = view c1 name"
proof -
  have "view c1 name = view c name ++ map_of (rev (entries p))" and "view c2 name = view c1 name ++ map_of (rev (entries p))"
    using assms seed_payload_view by metis+
  then show ?thesis by (auto simp: map_add_def split: option.splits)
qed

lemma seeded_runbooks_found:
  assumes "chroma_lawful adm view" and "seed_runbooks adm env_name c = Inr (n, c1)"
  defines "name \<equiv> (case env_name of None \<Rightarrow> ''dcops_runbooks'' | Some n \<Rightarrow> n)"
  shows "n = 18 \<and> (\<forall>r \<in> set RUNBOOK_CORPUS. \<exists>meta. view c1 name (ru_id r) = Some (ru_question r, meta) \<and>
    runbook_sources [ru_id r] [ru_question r] [Some meta] [(0, score)] =
      Inr [\<lparr>rs_id = Some (ru_id r), rs_question = ru_question r, rs_sql_template = PStr (ru_sql_template r),
            rs_metrics = PStr (join_with '','' (ru_metrics r)), rs_category = PStr (ru_category r), rs_notes = PStr (ru_notes r),
            rs_score = score\<rparr>])"
proof -
  have "n = length RUNBOOK_CORPUS \<and> (\<forall>r \<in> set RUNBOOK_CORPUS. view c1 name (ru_id r) = Some (ru_question r, runbook_metadata r))"
    using seeded_view [OF assms(1) runbook_ids [THEN conjunct1]] assms(2)
    unfolding seed_runbooks_def runbooks_payload_def name_def by blast
  moreover have "length RUNBOOK_CORPUS = 18" using runbook_ids by blast
  ultimately show ?thesis by (auto simp: runbook_metadata_def)
qed

definition plain_chroma :: "(string \<Rightarrow> string \<rightharpoonup> string \<times> dict) chroma_admin" where
  "plain_chroma = \<lparr>ca_open = (\<lambda>name c. Inr c), ca_upsert = (\<lambda>name p c. Inr (c(name := c name ++ map_of (rev (entries p)))))\<rparr>"

lemma plain_chroma_lawful: "chroma_lawful plain_chroma id"
  by (simp add: chroma_lawful_def plain_chroma_def)

lemma seeded_incidents_found_witness:
  "\<exists>n c1. seed_incidents plain_chroma None (\<lambda>name id. None) = Inr (n, c1) \<and> n = 18"
proof -
  obtain n c1 where s: "seed_incidents plain_chroma None (\<lambda>name id. None) = Inr (n, c1)"
    by (simp add: seed_incidents_def seed_payload_def plain_chroma_def)
  from seeded_incidents_found [OF plain_chroma_lawful s, THEN conjunct1] s show ?thesis by blast
qed

section \<open>The groups\<close>

lemma grouped_by_filter: "get_def (grouped_by key xs) k [] = filter (\<lambda>p. key p = k) xs"
proof (induction xs rule: rev_induct)
  case (snoc x xs)
  let ?g = "grouped_by key xs"
  have "grouped_by key (xs @ [x]) = AList.update (key x) (get_def ?g (key x) [] @ [x]) ?g" by (simp add: grouped_by_def)
  then show ?case using snoc by (auto simp: get_def_def update_conv')
qed (simp add: grouped_by_def)

end
