(* ===== verification/Clients.thy ===== *)
theory Clients
  imports Grounding Router
begin

text \<open>
  The clients around vendors and stores: the two LLM back ends (\<open>apps/agents/shared/llm_backends/ollama.py\<close>,
  \<open>anthropic.py\<close>, \<open>__init__.py\<close>), the life cycle of the vector store, the time series store and the knowledge graph
  (\<open>vector_client.py\<close>, \<open>ts_client.py\<close>, \<open>kg_client.py\<close>), and the processors of the log (\<open>logging.py\<close>).

  The vendors' packages are parameters: what an HTTP post answers, what the SDK answers, whether a package can be
  imported, what opening a connection yields. \<open>Inl\<close> is an exception.
\<close>

section \<open>What the clients share\<close>

text \<open>\<open>enabled\<close> reads the connection, \<open>connect\<close> tries to make one under circumstances \<open>'e\<close> and answers whether
  there is one, \<open>close\<close> drops it.\<close>

datatype 'e lifecycle_op = Connect 'e | Close

locale guarded_client =
  fixes enabled :: "'s \<Rightarrow> bool"
    and connect :: "'e \<Rightarrow> 's \<Rightarrow> bool \<times> 's"
    and close :: "'s \<Rightarrow> 's"
  assumes connect_answers: "fst (connect e s) = enabled (snd (connect e s))"
    and connect_idempotent: "enabled s \<Longrightarrow> connect e s = (True, s)"
    and connect_fails: "\<not> enabled (snd (connect e s)) \<Longrightarrow> snd (connect e s) = s"
    and close_disables: "\<not> enabled (close s)"
    and close_idle: "\<not> enabled s \<Longrightarrow> close s = s"
begin

fun life :: "'e lifecycle_op list \<Rightarrow> 's \<Rightarrow> 's" where
  "life [] s = s"
| "life (Connect e # ops) s = life ops (snd (connect e s))"
| "life (Close # ops) s = life ops (close s)"

lemma life_append: "life (xs @ ys) s = life ys (life xs s)"
  by (induction xs s rule: life.induct) simp_all

lemma connected_stays: "enabled s \<Longrightarrow> life (map Connect es) s = s"
  by (induction es) (simp_all add: connect_idempotent)

lemma closed_unless_connected:
  "enabled (life ops s) \<Longrightarrow> \<not> enabled s \<Longrightarrow>
   \<exists>xs e ys. ops = xs @ Connect e # map Connect ys \<and> fst (connect e (life xs s)) \<and> \<not> enabled (life xs s)"
proof (induction ops rule: rev_induct)
  case (snoc op ops)
  show ?case
  proof (cases op)
    case Close
    then show ?thesis using snoc.prems close_disables by (simp add: life_append)
  next
    case (Connect e)
    show ?thesis
    proof (cases "enabled (life ops s)")
      case True
      from snoc.IH [OF this snoc.prems(2)] obtain xs d ys where "ops = xs @ Connect d # map Connect ys"
        and d: "fst (connect d (life xs s))" "\<not> enabled (life xs s)" by blast
      then have "ops @ [op] = xs @ Connect d # map Connect (ys @ [e])" using Connect by simp
      with d show ?thesis by blast
    next
      case False
      with snoc.prems Connect have "fst (connect e (life ops s))" by (simp add: life_append connect_answers)
      with False Connect show ?thesis by (intro exI [of _ ops] exI [of _ e] exI [of _ "[]"]) simp
    qed
  qed
qed simp

end

text \<open>Opening a connection: the package may be missing, opening or the first contact may raise.\<close>

record 'h contact =
  op_importable :: bool
  op_open :: "'h res"
  op_contact :: "unit res"

definition opened :: "'h contact \<Rightarrow> 'h option" where
  "opened o1 =
     (if \<not> op_importable o1 then None
      else case (op_open o1, op_contact o1) of (Inr h, Inr _) \<Rightarrow> Some h | _ \<Rightarrow> None)"

definition connect_once :: "'h contact \<Rightarrow> 'h option \<Rightarrow> bool \<times> 'h option" where
  "connect_once o1 handle =
     (case handle of Some h \<Rightarrow> (True, handle) | None \<Rightarrow> (opened o1 \<noteq> None, opened o1))"

section \<open>The vector store\<close>

record 'h vector_store =
  vx_host :: string
  vx_port :: int
  vx_client :: "'h option"

definition env_int :: "(string \<Rightarrow> string option) \<Rightarrow> string \<Rightarrow> string \<Rightarrow> int res" where
  "env_int getenv name fallback = py_int (PStr (getenv_or getenv name fallback))"

definition vx_from_env :: "(string \<Rightarrow> string option) \<Rightarrow> 'h vector_store res" where
  "vx_from_env getenv =
     res_bind (env_int getenv ''CHROMA_PORT'' ''8000'') (\<lambda>port.
       Inr \<lparr>vx_host = getenv_or getenv ''CHROMA_HOST'' ''chromadb'', vx_port = port, vx_client = None\<rparr>)"

definition vx_connect :: "(string \<Rightarrow> int \<Rightarrow> 'h contact) \<Rightarrow> 'h vector_store \<Rightarrow> bool \<times> 'h vector_store" where
  "vx_connect chromadb v =
     (let (b, h) = connect_once (chromadb (vx_host v) (vx_port v)) (vx_client v) in (b, v\<lparr>vx_client := h\<rparr>))"

definition vx_close :: "'h vector_store \<Rightarrow> 'h vector_store" where
  "vx_close v = v\<lparr>vx_client := None\<rparr>"

definition vx_enabled :: "'h vector_store \<Rightarrow> bool" where
  "vx_enabled v \<longleftrightarrow> vx_client v \<noteq> None"

definition vx_get_or_create_collection :: "('h \<Rightarrow> string \<Rightarrow> 'k res) \<Rightarrow> 'h vector_store \<Rightarrow> string \<Rightarrow> 'k option" where
  "vx_get_or_create_collection open_collection v name =
     (case vx_client v of
        None \<Rightarrow> None
      | Some h \<Rightarrow> (case open_collection h name of Inl e \<Rightarrow> None | Inr k \<Rightarrow> Some k))"

interpretation vector: guarded_client vx_enabled vx_connect vx_close
  by unfold_locales
    (auto simp: vx_enabled_def vx_connect_def vx_close_def connect_once_def split_beta Let_def split: option.splits)

section \<open>The time series store\<close>

record 'h ts_store =
  tt_host :: string
  tt_port :: int
  tt_database :: string
  tt_user :: string
  tt_password :: string
  tt_min_size :: nat
  tt_max_size :: nat
  tt_pool :: "'h option"

definition tt_from_env :: "(string \<Rightarrow> string option) \<Rightarrow> 'h ts_store res" where
  "tt_from_env getenv =
     res_bind (env_int getenv ''TIMESCALE_PORT'' ''5432'') (\<lambda>port.
       Inr \<lparr>tt_host = getenv_or getenv ''TIMESCALE_HOST'' ''timescaledb'', tt_port = port,
            tt_database = getenv_or getenv ''TIMESCALE_DB'' ''dcops'', tt_user = getenv_or getenv ''TIMESCALE_USER'' ''dcops'',
            tt_password = getenv_or getenv ''TIMESCALE_PASSWORD'' ''dcops'', tt_min_size = 1, tt_max_size = 5, tt_pool = None\<rparr>)"

definition tt_dsn :: "'h ts_store \<Rightarrow> string" where
  "tt_dsn s =
     ''host='' @ tt_host s @ '' port='' @ str_of_int (tt_port s) @ '' dbname='' @ tt_database s @ '' user='' @ tt_user s
     @ '' password='' @ tt_password s"

definition tt_connect :: "(string \<Rightarrow> nat \<Rightarrow> nat \<Rightarrow> 'h contact) \<Rightarrow> 'h ts_store \<Rightarrow> bool \<times> 'h ts_store" where
  "tt_connect psycopg_pool s =
     (let (b, h) = connect_once (psycopg_pool (tt_dsn s) (tt_min_size s) (tt_max_size s)) (tt_pool s) in (b, s\<lparr>tt_pool := h\<rparr>))"

definition tt_close :: "'h ts_store \<Rightarrow> 'h ts_store" where
  "tt_close s = (if tt_pool s \<noteq> None then s\<lparr>tt_pool := None\<rparr> else s)"

definition tt_enabled :: "'h ts_store \<Rightarrow> bool" where
  "tt_enabled s \<longleftrightarrow> tt_pool s \<noteq> None"

interpretation timescale: guarded_client tt_enabled tt_connect tt_close
  by unfold_locales
    (auto simp: tt_enabled_def tt_connect_def tt_close_def connect_once_def split_beta Let_def split: option.splits)

section \<open>The knowledge graph\<close>

record 'h graph_store =
  gs_uri :: string
  gs_user :: string
  gs_password :: string
  gs_database :: "string option"
  gs_driver :: "'h option"

definition gs_from_env :: "(string \<Rightarrow> string option) \<Rightarrow> 'h graph_store" where
  "gs_from_env getenv =
     \<lparr>gs_uri = getenv_or getenv ''NEO4J_URI'' ''bolt://neo4j:7687'', gs_user = getenv_or getenv ''NEO4J_USER'' ''neo4j'',
      gs_password = getenv_or getenv ''NEO4J_PASSWORD'' ''neo4j'',
      gs_database = (case getenv ''NEO4J_DATABASE'' of Some (c # cs) \<Rightarrow> Some (c # cs) | _ \<Rightarrow> None), gs_driver = None\<rparr>"

definition gs_connect :: "(string \<Rightarrow> string \<Rightarrow> string \<Rightarrow> 'h contact) \<Rightarrow> 'h graph_store \<Rightarrow> bool \<times> 'h graph_store" where
  "gs_connect neo4j s =
     (let (b, h) = connect_once (neo4j (gs_uri s) (gs_user s) (gs_password s)) (gs_driver s) in (b, s\<lparr>gs_driver := h\<rparr>))"

definition gs_close :: "'h graph_store \<Rightarrow> 'h graph_store" where
  "gs_close s = (if gs_driver s \<noteq> None then s\<lparr>gs_driver := None\<rparr> else s)"

definition gs_enabled :: "'h graph_store \<Rightarrow> bool" where
  "gs_enabled s \<longleftrightarrow> gs_driver s \<noteq> None"

text \<open>A session on the configured database, on the server's own where none is configured.\<close>

definition gs_session :: "('h \<Rightarrow> string option \<Rightarrow> 'w) \<Rightarrow> 'h graph_store \<Rightarrow> 'w option" where
  "gs_session open_session s = map_option (\<lambda>h. open_session h (gs_database s)) (gs_driver s)"

definition REGISTER_INCIDENT :: string where
  "REGISTER_INCIDENT =
     ''MERGE (i:Incident {id: $incident_id}) SET i.opened_at = datetime($opened_at),     i.severity = $severity ''
     @ ''WITH i UNWIND $devices AS dev_id MATCH (d:Device {id: dev_id}) MERGE (i)-[:AFFECTED]->(d)''"

text \<open>The statement sent and the answer; \<open>run\<close> is \<open>Inl\<close> where the session raises.\<close>

definition gs_register_incident ::
  "('h \<Rightarrow> string option \<Rightarrow> string \<Rightarrow> dict \<Rightarrow> unit res) \<Rightarrow> 'h graph_store \<Rightarrow> string \<Rightarrow> string \<Rightarrow> string \<Rightarrow> string list \<Rightarrow>
   bool \<times> (string \<times> dict) list" where
  "gs_register_incident run s incident_id opened_at severity devices =
     (case gs_driver s of
        None \<Rightarrow> (False, [])
      | Some h \<Rightarrow>
          let params = [(''incident_id'', PStr incident_id), (''opened_at'', PStr opened_at), (''severity'', PStr severity),
                        (''devices'', PList (map PStr devices))]
          in (case run h (gs_database s) REGISTER_INCIDENT params of Inl e \<Rightarrow> False | Inr _ \<Rightarrow> True,
              [(REGISTER_INCIDENT, params)]))"

interpretation graph: guarded_client gs_enabled gs_connect gs_close
  by unfold_locales
    (auto simp: gs_enabled_def gs_connect_def gs_close_def connect_once_def split_beta Let_def split: option.splits)

section \<open>Ollama\<close>

text \<open>What a completion comes back as, before the router reads it; nothing checks that the text is one.\<close>

record 'w backend_invocation =
  bi_text :: pyval
  bi_model_id :: string
  bi_tokens_in :: int
  bi_tokens_out :: int
  bi_latency_ms :: real
  bi_raw :: 'w

record ollama =
  ol_host :: string
  ol_timeout_s :: real
  ol_keep_alive :: string

definition new_ollama :: "(string \<Rightarrow> string option) \<Rightarrow> (string \<Rightarrow> real option) \<Rightarrow> string option \<Rightarrow> real option \<Rightarrow> ollama res" where
  "new_ollama getenv fos host timeout_s =
     (let given = (case host of Some (c # cs) \<Rightarrow> c # cs | _ \<Rightarrow> getenv_or getenv ''OLLAMA_HOST'' ''http://ollama:11434'');
          timeout = (case timeout_s of
             Some t \<Rightarrow> if t \<noteq> 0 then Inr t else py_float fos (case getenv ''OLLAMA_TIMEOUT_S'' of None \<Rightarrow> PFloat 300 | Some s \<Rightarrow> PStr s)
           | None \<Rightarrow> py_float fos (case getenv ''OLLAMA_TIMEOUT_S'' of None \<Rightarrow> PFloat 300 | Some s \<Rightarrow> PStr s))
      in res_bind timeout (\<lambda>t.
           Inr \<lparr>ol_host = rev (dropWhile (\<lambda>c. c = CHR ''/'') (rev given)), ol_timeout_s = t,
                ol_keep_alive = getenv_or getenv ''OLLAMA_KEEP_ALIVE'' ''5m''\<rparr>))"

definition ollama_payload :: "ollama \<Rightarrow> string \<Rightarrow> llm_request \<Rightarrow> dict" where
  "ollama_payload be model_id rq =
     (let options = [(''num_predict'', PInt (rq_max_tokens rq))]
            @ (case rq_temperature rq of None \<Rightarrow> [] | Some t \<Rightarrow> [(''temperature'', PFloat t)])
      in [(''model'', PStr model_id),
          (''messages'', PList (PDict [(''role'', PStr ''system''), (''content'', PStr (rq_system rq))] # rq_messages rq)),
          (''stream'', PBool False), (''keep_alive'', PStr (ol_keep_alive be)), (''options'', PDict options)]
         @ (case rq_response_format rq of None \<Rightarrow> [] | Some f \<Rightarrow> [(''format'', f)]))"

text \<open>An HTTP reply: its status and its body, \<open>None\<close> where the body is no JSON.\<close>

type_synonym http_reply = "nat \<times> pyval option"

definition ollama_invocation :: "string \<Rightarrow> real \<Rightarrow> pyval \<Rightarrow> pyval backend_invocation res" where
  "ollama_invocation model_id latency_ms body =
     (case body of
        PDict data \<Rightarrow>
          let text = (case get_def data ''message'' (PDict []) of PDict m \<Rightarrow> get_def m ''content'' (PStr []) | _ \<Rightarrow> PStr [])
          in res_bind (py_int (get_def data ''prompt_eval_count'' (PInt 0))) (\<lambda>tokens_in.
             res_bind (py_int (get_def data ''eval_count'' (PInt 0))) (\<lambda>tokens_out.
               Inr \<lparr>bi_text = text, bi_model_id = model_id, bi_tokens_in = tokens_in, bi_tokens_out = tokens_out,
                    bi_latency_ms = latency_ms, bi_raw = body\<rparr>))
      | _ \<Rightarrow> Inl (AttributeError ''get''))"

text \<open>\<open>post\<close> raises where the service cannot be reached; \<open>t0\<close> and \<open>t1\<close> are the clock before and after.\<close>

definition ollama_invoke ::
  "(string \<Rightarrow> string \<Rightarrow> dict \<Rightarrow> http_reply res) \<Rightarrow> real \<Rightarrow> real \<Rightarrow> ollama \<Rightarrow> string \<Rightarrow> llm_request \<Rightarrow> pyval backend_invocation res" where
  "ollama_invoke post t0 t1 be model_id rq =
     res_bind (post (ol_host be) ''/api/chat'' (ollama_payload be model_id rq)) (\<lambda>(status, body).
       if \<not> (200 \<le> status \<and> status < 300) then Inl (RuntimeError ''HTTPStatusError'')
       else case body of
              None \<Rightarrow> Inl (ValueError ''JSONDecodeError'')
            | Some b \<Rightarrow> ollama_invocation model_id ((t1 - t0) * 1000) b)"

section \<open>Anthropic\<close>

text \<open>A block of the answer: its type and its text, where it has them.\<close>

record anthropic_answer =
  an_content :: "(string option \<times> string option) list"
  an_input_tokens :: int
  an_output_tokens :: int

definition anthropic_kwargs :: "string \<Rightarrow> llm_request \<Rightarrow> dict" where
  "anthropic_kwargs model_id rq =
     [(''model'', PStr model_id), (''system'', PStr (rq_system rq)), (''messages'', PList (rq_messages rq)),
      (''max_tokens'', PInt (rq_max_tokens rq))]
     @ (case rq_temperature rq of None \<Rightarrow> [] | Some t \<Rightarrow> [(''temperature'', PFloat t)])"

fun text_blocks :: "(string option \<times> string option) list \<Rightarrow> string res" where
  "text_blocks [] = Inr []"
| "text_blocks ((ty, txt) # blocks) =
     (if ty = Some ''text''
      then case txt of
             None \<Rightarrow> Inl (AttributeError ''text'')
           | Some t \<Rightarrow> res_bind (text_blocks blocks) (\<lambda>rest. Inr (t @ rest))
      else text_blocks blocks)"

definition anthropic_invoke ::
  "(dict \<Rightarrow> anthropic_answer res) \<Rightarrow> real \<Rightarrow> real \<Rightarrow> string \<Rightarrow> llm_request \<Rightarrow> anthropic_answer backend_invocation res" where
  "anthropic_invoke create t0 t1 model_id rq =
     res_bind (create (anthropic_kwargs model_id rq)) (\<lambda>response.
     res_bind (text_blocks (an_content response)) (\<lambda>text.
       Inr \<lparr>bi_text = PStr text, bi_model_id = model_id, bi_tokens_in = an_input_tokens response,
            bi_tokens_out = an_output_tokens response, bi_latency_ms = (t1 - t0) * 1000, bi_raw = response\<rparr>))"

section \<open>The choice of a back end\<close>

datatype backend = OllamaBackend ollama | AnthropicBackend string

fun backend_name :: "backend \<Rightarrow> string" where
  "backend_name (OllamaBackend be) = ''ollama''"
| "backend_name (AnthropicBackend key) = ''anthropic''"

definition get_backend ::
  "(string \<Rightarrow> string option) \<Rightarrow> (string \<Rightarrow> real option) \<Rightarrow> bool \<Rightarrow> string option \<Rightarrow> backend res" where
  "get_backend getenv fos installed name =
     (let chosen = lower (case name of Some (c # cs) \<Rightarrow> c # cs | _ \<Rightarrow> getenv_or getenv ''LLM_BACKEND'' ''ollama'')
      in if chosen = ''ollama'' then res_bind (new_ollama getenv fos None None) (\<lambda>be. Inr (OllamaBackend be))
         else if chosen = ''anthropic''
         then if installed then Inr (AnthropicBackend (getenv_or getenv ''ANTHROPIC_API_KEY'' []))
              else Inl (RuntimeError ''LLM_BACKEND=anthropic requires the 'anthropic' extra. Install with: uv sync --extra anthropic'')
         else Inl (ValueError (''Unknown LLM_BACKEND='' @ chosen)))"

text \<open>A back end as the router sees it. A text the vendor does not send as one has no place there.\<close>

definition completion :: "('w \<Rightarrow> pyval) \<Rightarrow> 'w backend_invocation res \<Rightarrow> string + invocation" where
  "completion raw r =
     (case r of
        Inl e \<Rightarrow> Inl ''backend''
      | Inr i \<Rightarrow>
          (case bi_text i of
             PStr t \<Rightarrow> Inr \<lparr>in_text = t, in_model_id = bi_model_id i, in_tokens_in = bi_tokens_in i,
                        in_tokens_out = bi_tokens_out i, in_latency_ms = bi_latency_ms i, in_raw = raw (bi_raw i)\<rparr>
           | _ \<Rightarrow> Inl ''text''))"

section \<open>Logging\<close>

definition add_site_id :: "(string \<Rightarrow> string option) \<Rightarrow> dict \<Rightarrow> dict" where
  "add_site_id getenv event_dict =
     (case getenv ''SITE_ID'' of
        Some (c # cs) \<Rightarrow> if map_of event_dict ''site_id'' = None then event_dict @ [(''site_id'', PStr (c # cs))] else event_dict
      | _ \<Rightarrow> event_dict)"

text \<open>\<open>name\<close> is the logger's name where it has one.\<close>

definition add_logger_name_safe :: "string option \<Rightarrow> dict \<Rightarrow> dict" where
  "add_logger_name_safe name event_dict =
     (case name of
        Some (c # cs) \<Rightarrow> if map_of event_dict ''logger'' = None then event_dict @ [(''logger'', PStr (c # cs))] else event_dict
      | _ \<Rightarrow> event_dict)"

text \<open>The level and whether JSON is printed; the level must be an attribute of the module \<open>logging\<close>.\<close>

definition configure_logging ::
  "(string \<Rightarrow> string option) \<Rightarrow> (string \<Rightarrow> 'l option) \<Rightarrow> bool \<Rightarrow> string option \<Rightarrow> bool option \<Rightarrow> ('l \<times> bool) res" where
  "configure_logging getenv logging_attr isatty level json_output =
     (let log_level = upper (case level of
            Some (c # cs) \<Rightarrow> c # cs
          | _ \<Rightarrow> (case getenv ''LOG_LEVEL'' of Some (c # cs) \<Rightarrow> c # cs | _ \<Rightarrow> ''INFO''));
          use_json = (case json_output of Some b \<Rightarrow> b | None \<Rightarrow> \<not> isatty)
      in case logging_attr log_level of
           None \<Rightarrow> Inl (AttributeError log_level)
         | Some l \<Rightarrow> Inr (l, use_json))"

section \<open>Properties of the clients\<close>

lemma ollama_invocation_Inr:
  "ollama_invocation m l body = Inr i \<longleftrightarrow>
   (\<exists>data. body = PDict data \<and> bi_model_id i = m \<and> bi_raw i = PDict data \<and> bi_latency_ms i = l \<and>
      py_int (get_def data ''prompt_eval_count'' (PInt 0)) = Inr (bi_tokens_in i) \<and>
      py_int (get_def data ''eval_count'' (PInt 0)) = Inr (bi_tokens_out i) \<and>
      bi_text i = (case get_def data ''message'' (PDict []) of PDict msg \<Rightarrow> get_def msg ''content'' (PStr []) | _ \<Rightarrow> PStr []))"
  unfolding ollama_invocation_def by (cases body) (simp_all add: Let_def, cases i, auto)

text \<open>What an answer of Ollama takes: an answered post, a status of success, a JSON object, and counts \<open>int\<close> takes.\<close>

lemma ollama_invoke_Inr:
  "ollama_invoke post t0 t1 be m rq = Inr i \<longleftrightarrow>
   (\<exists>status data. post (ol_host be) ''/api/chat'' (ollama_payload be m rq) = Inr (status, Some (PDict data)) \<and>
      200 \<le> status \<and> status < 300 \<and> bi_model_id i = m \<and> bi_raw i = PDict data \<and> bi_latency_ms i = (t1 - t0) * 1000 \<and>
      py_int (get_def data ''prompt_eval_count'' (PInt 0)) = Inr (bi_tokens_in i) \<and>
      py_int (get_def data ''eval_count'' (PInt 0)) = Inr (bi_tokens_out i) \<and>
      bi_text i = (case get_def data ''message'' (PDict []) of PDict msg \<Rightarrow> get_def msg ''content'' (PStr []) | _ \<Rightarrow> PStr []))"
proof (cases "post (ol_host be) ''/api/chat'' (ollama_payload be m rq)")
  case (Inl e)
  then show ?thesis by (simp add: ollama_invoke_def)
next
  case (Inr reply)
  obtain status body where "reply = (status, body)" by (cases reply)
  with Inr show ?thesis by (cases body) (auto simp: ollama_invoke_def ollama_invocation_Inr)
qed

lemma completion_Inr:
  "completion raw r = Inr c \<longleftrightarrow>
   (\<exists>i. r = Inr i \<and> bi_text i = PStr (in_text c) \<and> in_model_id c = bi_model_id i \<and> in_tokens_in c = bi_tokens_in i \<and>
      in_tokens_out c = bi_tokens_out i \<and> in_latency_ms c = bi_latency_ms i \<and> in_raw c = raw (bi_raw i))"
  by (cases c) (auto simp: completion_def split: sum.splits pyval.splits)

theorem ollama_call_is_free:
  assumes "re_backend_name env = ''ollama''"
    and "re_invoke env = (\<lambda>m rq. completion (\<lambda>raw. raw) (ollama_invoke post t0 t1 be m rq))"
    and "router_call env now rq rt = (Inr r, out, rt')"
  shows "lr_usd_cost r = 0 \<and> \<not> lr_downgraded r \<and> rt_spent_today_usd rt' = rt_spent_today_usd (reset_if_new_day (re_today env now) rt) \<and>
    (\<exists>status data msg. post (ol_host be) ''/api/chat'' (ollama_payload be (lr_model_used r) rq) = Inr (status, Some (PDict data)) \<and>
       200 \<le> status \<and> status < 300 \<and>
       (case get_def data ''message'' (PDict []) of PDict msg \<Rightarrow> get_def msg ''content'' (PStr []) | _ \<Rightarrow> PStr []) = PStr (lr_text r))"
proof -
  let ?tier = "case rq_force_tier rq of None \<Rightarrow> DEFAULT_TIER (rq_task_class rq) | Some t \<Rightarrow> t"
  let ?m = "resolve_model_id (re_getenv env) (re_backend_name env) ?tier (rq_task_class rq)"
  from assms(1,3) obtain i where i: "re_invoke env ?m rq = Inr i"
    and r: "lr_text r = in_text i" "lr_model_used r = in_model_id i" "\<not> lr_downgraded r"
      "lr_usd_cost r = compute_cost ''ollama'' ?tier (in_tokens_in i) (in_tokens_out i)"
    and rt: "rt_spent_today_usd rt' = rt_spent_today_usd (reset_if_new_day (re_today env now) rt) + lr_usd_cost r"
    by (auto simp: router_call_def apply_budget_policy_def invoke_def record_and_audit_def Let_def
        split: sum.splits option.splits)
  have "lr_usd_cost r = 0" using r(4) by (simp add: compute_cost_def)
  then show ?thesis using i r rt by (auto simp: assms(2) completion_Inr ollama_invoke_Inr)
qed

lemma text_blocks_Inr:
  "text_blocks bs = Inr t \<Longrightarrow> t = concat (map (\<lambda>(ty, txt). case txt of Some x \<Rightarrow> x | None \<Rightarrow> []) (filter (\<lambda>(ty, txt). ty = Some ''text'') bs))"
  by (induction bs arbitrary: t rule: text_blocks.induct) (auto split: option.splits if_splits)

lemma get_backend_named:
  assumes "get_backend getenv fos installed name = Inr be"
  shows "backend_name be = lower (case name of Some (c # cs) \<Rightarrow> c # cs | _ \<Rightarrow> getenv_or getenv ''LLM_BACKEND'' ''ollama'')"
  using assms by (auto simp: get_backend_def Let_def split: if_splits)

lemma ollama_host_no_slash:
  assumes "new_ollama getenv fos host timeout = Inr be"
  shows "\<not> suffix ''/'' (ol_host be)"
proof -
  have "\<not> suffix ''/'' (rev (dropWhile (\<lambda>c. c = CHR ''/'') ys))" for ys
  proof
    assume "suffix ''/'' (rev (dropWhile (\<lambda>c. c = CHR ''/'') ys))"
    then obtain zs where "rev (dropWhile (\<lambda>c. c = CHR ''/'') ys) = zs @ ''/''" by (auto simp: suffix_def)
    then have "dropWhile (\<lambda>c. c = CHR ''/'') ys = CHR ''/'' # rev zs" by (metis rev_rev_ident rev.simps rev_append append_Cons append_Nil)
    then show False using hd_dropWhile [of "\<lambda>c. c = CHR ''/''" ys] by simp
  qed
  moreover from assms obtain ys where "ol_host be = rev (dropWhile (\<lambda>c. c = CHR ''/'') ys)"
    unfolding new_ollama_def Let_def by (auto simp only: res_bind_eq_Inr sum.inject ollama.simps)
  ultimately show ?thesis by simp
qed

text \<open>A log line is tagged once, and a tag it has is kept.\<close>

lemma add_site_id_idempotent: "add_site_id getenv (add_site_id getenv d) = add_site_id getenv d"
  by (auto simp: add_site_id_def map_of_eq_None_iff split: option.splits list.splits)

lemma add_site_id_keeps: "map_of d k = Some v \<Longrightarrow> map_of (add_site_id getenv d) k = Some v"
  by (auto simp: add_site_id_def split: option.splits list.splits)

text \<open>A store that is open after any calls was opened by one that answered so, with nothing but further \<open>connect\<close>s since.\<close>

lemma vector_open_since:
  assumes "vx_enabled (vector.life ops v)" and "\<not> vx_enabled v"
  shows "\<exists>xs e ys. ops = xs @ Connect e # map Connect ys \<and> fst (vx_connect e (vector.life xs v)) \<and> \<not> vx_enabled (vector.life xs v)"
  using assms by (rule vector.closed_unless_connected)

lemma no_collection_when_closed: "vx_get_or_create_collection f (vx_close v) name = None"
  by (simp add: vx_get_or_create_collection_def vx_close_def)

lemma no_session_when_closed: "gs_session f (gs_close s) = None \<and> gs_register_incident run (gs_close s) i t sev ds = (False, [])"
  by (simp add: gs_session_def gs_register_incident_def gs_close_def)

section \<open>The API application\<close>

text \<open>What the routes read from \<open>app.state\<close>.\<close>

record ('t, 'g, 'b) app_state =
  as_ts :: "'t ts_store"
  as_kg :: "'g graph_store"
  as_bus :: 'b

text \<open>Start: both stores are built and tried, whatever comes of it; the bus is only built.\<close>

definition lifespan_start ::
  "(string \<Rightarrow> string option) \<Rightarrow> (string \<Rightarrow> nat \<Rightarrow> nat \<Rightarrow> 't contact) \<Rightarrow> (string \<Rightarrow> string \<Rightarrow> string \<Rightarrow> 'g contact) \<Rightarrow> 'b res \<Rightarrow>
   ('t, 'g, 'b) app_state res" where
  "lifespan_start getenv psycopg_pool neo4j bus_from_env =
     res_bind (tt_from_env getenv) (\<lambda>ts.
     res_bind bus_from_env (\<lambda>bus.
       Inr \<lparr>as_ts = snd (tt_connect psycopg_pool ts), as_kg = snd (gs_connect neo4j (gs_from_env getenv)), as_bus = bus\<rparr>))"

definition lifespan_stop :: "('b \<Rightarrow> 'b) \<Rightarrow> ('t, 'g, 'b) app_state \<Rightarrow> ('t, 'g, 'b) app_state" where
  "lifespan_stop bus_close app = app\<lparr>as_ts := tt_close (as_ts app), as_kg := gs_close (as_kg app), as_bus := bus_close (as_bus app)\<rparr>"

definition cors_origins :: "(string \<Rightarrow> string option) \<Rightarrow> string list" where
  "cors_origins getenv = map strip (split_on CHR '','' (getenv_or getenv ''API_CORS_ORIGINS'' ''http://localhost:3000''))"

definition API_HEALTH :: dict where
  "API_HEALTH = [(''status'', PStr ''ok'')]"

definition API_PREFIXES :: "(string \<times> string) list" where
  "API_PREFIXES =
     [(''/telemetry'', ''telemetry''), (''/incidents'', ''incidents''), (''/agents'', ''agents''), (''/twin'', ''twin''),
      (''/query'', ''query''), (''/recommendations'', ''recommendations''), (''/forecasts'', ''forecasts''),
      (''/vision'', ''vision''), (''/fleet'', ''fleet''), (''/federation'', ''federation'')]"

text \<open>The router a path belongs to: no prefix is a prefix of another, so the order does not matter.\<close>

definition router_of :: "string \<Rightarrow> string option" where
  "router_of path = map_option snd (find (\<lambda>(p, r). prefix p path) API_PREFIXES)"

lemma api_prefixes_apart:
  "(p, r) \<in> set API_PREFIXES \<Longrightarrow> (p', r') \<in> set API_PREFIXES \<Longrightarrow> prefix p path \<Longrightarrow> prefix p' path \<Longrightarrow> p = p' \<and> r = r'"
proof -
  assume a: "(p, r) \<in> set API_PREFIXES" "(p', r') \<in> set API_PREFIXES" "prefix p path" "prefix p' path"
  then have "prefix p p' \<or> prefix p' p" by (metis prefix_same_cases)
  moreover have c: "list_all (\<lambda>x. list_all (\<lambda>y. prefix (fst x) (fst y) \<longrightarrow> x = y) API_PREFIXES) API_PREFIXES" by code_simp
  have "prefix (fst x) (fst y) \<longrightarrow> x = y" if "x \<in> set API_PREFIXES" "y \<in> set API_PREFIXES" for x y
    by (rule bspec [OF bspec [OF c [unfolded list_all_iff] that(1)] that(2)])
  from this [OF a(1,2)] this [OF a(2,1)] calculation show ?thesis by auto
qed

text \<open>The application starts with its stores down, and serves what the routes answer then.\<close>

lemma starts_without_stores:
  assumes "getenv ''TIMESCALE_PORT'' = None" and "\<And>d a b. opened (pool d a b) = None" and "\<And>u v w. opened (neo u v w) = None"
  shows "\<exists>app. lifespan_start getenv pool neo (Inr bus) = Inr app \<and> \<not> tt_enabled (as_ts app) \<and> \<not> gs_enabled (as_kg app)"
proof -
  have "env_int getenv ''TIMESCALE_PORT'' ''5432'' = Inr 5432"
    using assms(1) by (simp add: env_int_def getenv_or_def, code_simp)
  then show ?thesis using assms(2,3)
    by (simp add: lifespan_start_def tt_from_env_def gs_from_env_def tt_connect_def gs_connect_def connect_once_def
        tt_enabled_def gs_enabled_def split_beta)
qed

section \<open>The HTTP helper of the normalizers\<close>

text \<open>\<open>get\<close> is the request: an exception, or a status with the body's text and, where it has one, its JSON.\<close>

record http_answer =
  ha_status :: nat
  ha_text :: string
  ha_json :: "pyval option"

definition raise_for_status :: "http_answer \<Rightarrow> unit res" where
  "raise_for_status resp =
     (if 200 \<le> ha_status resp \<and> ha_status resp < 300 then Inr () else Inl (RuntimeError ''HTTPStatusError''))"

definition get_json :: "(string \<Rightarrow> real \<Rightarrow> http_answer res) \<Rightarrow> string \<Rightarrow> real \<Rightarrow> pyval option" where
  "get_json get url timeout_s =
     (case res_bind (get url timeout_s) (\<lambda>resp. res_bind (raise_for_status resp) (\<lambda>_.
             case ha_json resp of None \<Rightarrow> Inl (ValueError ''JSONDecodeError'') | Some j \<Rightarrow> Inr j)) of
        Inl e \<Rightarrow> None | Inr j \<Rightarrow> Some j)"

definition get_text :: "(string \<Rightarrow> real \<Rightarrow> http_answer res) \<Rightarrow> string \<Rightarrow> real \<Rightarrow> string option" where
  "get_text get url timeout_s =
     (case res_bind (get url timeout_s) (\<lambda>resp. res_bind (raise_for_status resp) (\<lambda>_. Inr (ha_text resp))) of
        Inl e \<Rightarrow> None | Inr t \<Rightarrow> Some t)"

lemma get_json_Some:
  "get_json get url t = Some j \<longleftrightarrow>
   (\<exists>resp. get url t = Inr resp \<and> 200 \<le> ha_status resp \<and> ha_status resp < 300 \<and> ha_json resp = Some j)"
  by (cases "get url t") (auto simp: get_json_def raise_for_status_def split: option.splits sum.splits)

section \<open>The rest of the grounding\<close>

text \<open>The adapter around a graph that may be missing or may lack the site check, \<open>None\<close>; a check that raises is \<open>Inl\<close>.\<close>

record validator_graph =
  vg_enabled :: "bool option"
  vg_site_check :: "(string list \<Rightarrow> string list res) option"

definition validator_enabled :: "validator_graph option \<Rightarrow> bool" where
  "validator_enabled kg = (case kg of None \<Rightarrow> False | Some g \<Rightarrow> (case vg_enabled g of None \<Rightarrow> True | Some b \<Rightarrow> b))"

definition validator_site_ids :: "validator_graph option \<Rightarrow> string list \<Rightarrow> string list" where
  "validator_site_ids kg site_ids =
     (case kg of
        None \<Rightarrow> []
      | Some g \<Rightarrow>
          if site_ids = [] then []
          else case vg_site_check g of
                 None \<Rightarrow> []
               | Some check \<Rightarrow> (case check site_ids of Inl e \<Rightarrow> [] | Inr missing \<Rightarrow> missing))"

end
