(* ===== verification/Lifecycle.thy ===== *)
theory Lifecycle
  imports Clients Planner AuditSink Simulator
begin

text \<open>
  Starting and stopping: the clients each agent opens and closes (\<open>on_start\<close> and \<open>on_stop\<close> of the agents under
  \<open>apps/agents\<close>), the Planner's own \<open>serve\<close>, the construction of the object store (\<open>blob_client.py\<close>) and of the bus
  (\<open>event_bus.py\<close>).

  What an agent is started in is a \<open>world\<close>: the environment and what opening each store yields.
\<close>

section \<open>The object store and the bus\<close>

record blob_store =
  bl_endpoint :: string
  bl_access_key :: string
  bl_secret_key :: string
  bl_secure :: bool
  bl_client :: bool

definition bl_from_env :: "(string \<Rightarrow> string option) \<Rightarrow> blob_store" where
  "bl_from_env getenv =
     \<lparr>bl_endpoint = getenv_or getenv ''MINIO_ENDPOINT'' ''minio:9000'',
      bl_access_key = getenv_or getenv ''MINIO_ACCESS_KEY'' ''dcops_minio'',
      bl_secret_key = getenv_or getenv ''MINIO_SECRET_KEY'' ''changeme_minio'',
      bl_secure = (lower (getenv_or getenv ''MINIO_SECURE'' ''false'') \<in> {''1'', ''true'', ''yes''}), bl_client = False\<rparr>"

definition bl_connect :: "bool \<times> bool \<Rightarrow> blob_store \<Rightarrow> bool \<times> blob_store" where
  "bl_connect = (\<lambda>(importable, server_ok) b.
     let (ok, c) = blob_connect importable server_ok (bl_client b) in (ok, b\<lparr>bl_client := c\<rparr>))"

definition bl_close :: "blob_store \<Rightarrow> blob_store" where
  "bl_close b = b\<lparr>bl_client := blob_close (bl_client b)\<rparr>"

interpretation blob: guarded_client bl_client bl_connect bl_close
  by unfold_locales (auto simp: bl_connect_def bl_close_def blob_connect_def blob_close_def split: if_splits)

definition bus_url :: "(string \<Rightarrow> string option) \<Rightarrow> string" where
  "bus_url getenv = getenv_or getenv ''REDIS_URL'' ''redis://localhost:6379/0''"

text \<open>\<open>publish\<close> answers how many subscribers Redis says it reached.\<close>

definition bus_publish :: "(string \<Rightarrow> string \<Rightarrow> int res) \<Rightarrow> ('m \<Rightarrow> string) \<Rightarrow> string \<Rightarrow> 'm \<Rightarrow> int res" where
  "bus_publish send json topic event = send topic (json event)"

section \<open>Starting an agent\<close>

record ('t, 'g, 'v) world =
  wd_getenv :: "string \<Rightarrow> string option"
  wd_pool :: "string \<Rightarrow> nat \<Rightarrow> nat \<Rightarrow> 't contact"
  wd_neo4j :: "string \<Rightarrow> string \<Rightarrow> string \<Rightarrow> 'g contact"
  wd_chroma :: "string \<Rightarrow> int \<Rightarrow> 'v contact"

text \<open>The clients an agent has as attributes; \<open>None\<close> before they are set.\<close>

record ('t, 'g, 'v) agent_clients =
  ag_ts :: "'t ts_store option"
  ag_kg :: "'g graph_store option"
  ag_vec :: "'v vector_store option"

definition no_clients :: "('t, 'g, 'v) agent_clients" where
  "no_clients = \<lparr>ag_ts = None, ag_kg = None, ag_vec = None\<rparr>"

type_synonym ('t, 'g, 'v) started = "('t, 'g, 'v) agent_clients \<times> py_error option"

definition agent_site_id :: "(string \<Rightarrow> string option) \<Rightarrow> string" where
  "agent_site_id getenv = getenv_or getenv ''SITE_ID'' ''unknown''"

definition ts_opened :: "('t, 'g, 'v) world \<Rightarrow> 't ts_store \<Rightarrow> 't ts_store" where
  "ts_opened w ts = snd (tt_connect (wd_pool w) ts)"

definition kg_opened :: "('t, 'g, 'v) world \<Rightarrow> 'g graph_store" where
  "kg_opened w = snd (gs_connect (wd_neo4j w) (gs_from_env (wd_getenv w)))"

definition vec_opened :: "('t, 'g, 'v) world \<Rightarrow> 'v vector_store \<Rightarrow> 'v vector_store" where
  "vec_opened w vec = snd (vx_connect (wd_chroma w) vec)"

text \<open>Planner and Rollback open the time series store.\<close>

definition planner_start :: "('t, 'g, 'v) world \<Rightarrow> ('t, 'g, 'v) started" where
  "planner_start w =
     (case tt_from_env (wd_getenv w) of
        Inl e \<Rightarrow> (no_clients, Some e)
      | Inr ts \<Rightarrow> (no_clients\<lparr>ag_ts := Some (ts_opened w ts)\<rparr>, None))"

definition rollback_clients :: "('t, 'g, 'v) world \<Rightarrow> ('t, 'g, 'v) started" where
  "rollback_clients w =
     (case tt_from_env (wd_getenv w) of
        Inl e \<Rightarrow> (no_clients, Some e)
      | Inr ts \<Rightarrow> (no_clients\<lparr>ag_ts := Some (ts_opened w ts)\<rparr>, None))"

text \<open>The Executor then loads its policies, which may raise.\<close>

definition executor_start :: "('t, 'g, 'v) world \<Rightarrow> 'p res \<Rightarrow> ('t, 'g, 'v) started" where
  "executor_start w policies =
     (case tt_from_env (wd_getenv w) of
        Inl e \<Rightarrow> (no_clients, Some e)
      | Inr ts \<Rightarrow>
          (no_clients\<lparr>ag_ts := Some (ts_opened w ts)\<rparr>, case policies of Inl e \<Rightarrow> Some e | Inr p \<Rightarrow> None))"

definition optimizer_start :: "('t, 'g, 'v) world \<Rightarrow> ('t, 'g, 'v) started" where
  "optimizer_start w =
     (case tt_from_env (wd_getenv w) of
        Inl e \<Rightarrow> (no_clients, Some e)
      | Inr ts \<Rightarrow> (no_clients\<lparr>ag_ts := Some (ts_opened w ts), ag_kg := Some (kg_opened w)\<rparr>, None))"

definition vision_start :: "('t, 'g, 'v) world \<Rightarrow> ('t, 'g, 'v) started" where
  "vision_start w =
     (case vx_from_env (wd_getenv w) of
        Inl e \<Rightarrow> (no_clients\<lparr>ag_kg := Some (gs_from_env (wd_getenv w))\<rparr>, Some e)
      | Inr vec \<Rightarrow> (no_clients\<lparr>ag_kg := Some (kg_opened w), ag_vec := Some (vec_opened w vec)\<rparr>, None))"

definition operator_start :: "('t, 'g, 'v) world \<Rightarrow> ('v \<Rightarrow> string \<Rightarrow> 'k res) \<Rightarrow> string \<Rightarrow> ('t, 'g, 'v) started \<times> 'k option" where
  "operator_start w open_collection runbooks =
     (case tt_from_env (wd_getenv w) of
        Inl e \<Rightarrow> ((no_clients, Some e), None)
      | Inr ts \<Rightarrow>
          (case vx_from_env (wd_getenv w) of
             Inl e \<Rightarrow> ((no_clients\<lparr>ag_ts := Some ts\<rparr>, Some e), None)
           | Inr vec \<Rightarrow>
               ((no_clients\<lparr>ag_ts := Some (ts_opened w ts), ag_vec := Some (vec_opened w vec)\<rparr>, None),
                vx_get_or_create_collection open_collection (vec_opened w vec) runbooks)))"

definition forensic_start :: "('t, 'g, 'v) world \<Rightarrow> ('t, 'g, 'v) started" where
  "forensic_start w =
     (let kg = gs_from_env (wd_getenv w)
      in case tt_from_env (wd_getenv w) of
           Inl e \<Rightarrow> (no_clients\<lparr>ag_kg := Some kg\<rparr>, Some e)
         | Inr ts \<Rightarrow>
             (case vx_from_env (wd_getenv w) of
                Inl e \<Rightarrow> (no_clients\<lparr>ag_kg := Some kg, ag_ts := Some ts\<rparr>, Some e)
              | Inr vec \<Rightarrow>
                  (no_clients\<lparr>ag_kg := Some (kg_opened w), ag_ts := Some (ts_opened w ts), ag_vec := Some (vec_opened w vec)\<rparr>,
                   None)))"

text \<open>\<open>on_stop\<close> closes the clients the agent has.\<close>

definition agent_stop :: "('t, 'g, 'v) agent_clients \<Rightarrow> ('t, 'g, 'v) agent_clients" where
  "agent_stop c =
     \<lparr>ag_ts = map_option tt_close (ag_ts c), ag_kg = map_option gs_close (ag_kg c), ag_vec = map_option vx_close (ag_vec c)\<rparr>"

text \<open>\<open>serve\<close>: the start is outside the \<open>try\<close>, so a start that raises closes nothing.\<close>

definition agent_session :: "('t, 'g, 'v) started \<Rightarrow> ('t, 'g, 'v) started" where
  "agent_session st = (case st of (c, Some e) \<Rightarrow> (c, Some e) | (c, None) \<Rightarrow> (agent_stop c, None))"

section \<open>The Planner's loop\<close>

text \<open>The first tick is made at once; then each wait ends with the stop, \<open>None\<close>, or by its timeout at an instant.\<close>

fun planner_waits :: "planner_env \<Rightarrow> planner_config \<Rightarrow> real option list \<Rightarrow> uuid \<Rightarrow> bus_msg effect list \<times> uuid" where
  "planner_waits env cfg [] i = ([], i)"
| "planner_waits env cfg (None # ws) i = ([], i)"
| "planner_waits env cfg (Some now # ws) i =
     (let (out, i1) = run_tick env cfg now i; (outs, i2) = planner_waits env cfg ws i1 in (out @ outs, i2))"

definition planner_serve :: "planner_env \<Rightarrow> planner_config \<Rightarrow> real \<Rightarrow> real option list \<Rightarrow> uuid \<Rightarrow> bus_msg effect list \<times> uuid" where
  "planner_serve env cfg now waits i =
     (let (out, i1) = run_tick env cfg now i; (outs, i2) = planner_waits env cfg waits i1 in (out @ outs, i2))"

section \<open>Properties\<close>

definition all_closed :: "('t, 'g, 'v) agent_clients \<Rightarrow> bool" where
  "all_closed c \<longleftrightarrow> (\<forall>ts. ag_ts c = Some ts \<longrightarrow> \<not> tt_enabled ts) \<and> (\<forall>kg. ag_kg c = Some kg \<longrightarrow> \<not> gs_enabled kg) \<and>
     (\<forall>vec. ag_vec c = Some vec \<longrightarrow> \<not> vx_enabled vec)"

lemma agent_stop_closes: "all_closed (agent_stop c)"
  using timescale.close_disables graph.close_disables vector.close_disables by (auto simp: all_closed_def agent_stop_def)

text \<open>With ports that are numbers no agent fails to start, whatever stores can be reached.\<close>

lemma starts_anyway:
  assumes "env_int (wd_getenv w) ''TIMESCALE_PORT'' ''5432'' = Inr p" and "env_int (wd_getenv w) ''CHROMA_PORT'' ''8000'' = Inr q"
  shows "snd (planner_start w) = None" "snd (rollback_clients w) = None" "snd (optimizer_start w) = None"
    "snd (vision_start w) = None" "snd (fst (operator_start w f k)) = None" "snd (forensic_start w) = None"
  using assms by (simp_all add: planner_start_def rollback_clients_def optimizer_start_def vision_start_def operator_start_def
      forensic_start_def tt_from_env_def vx_from_env_def Let_def)

lemma from_env_closed:
  "tt_from_env getenv = Inr ts \<Longrightarrow> \<not> tt_enabled ts" "vx_from_env getenv = Inr vec \<Longrightarrow> \<not> vx_enabled vec"
  "\<not> gs_enabled (gs_from_env getenv)"
  by (auto simp: tt_from_env_def vx_from_env_def gs_from_env_def tt_enabled_def vx_enabled_def gs_enabled_def)

text \<open>A start that fails leaves no connection open, the Executor's alone: its policies are loaded after the store is opened.\<close>

lemma failed_start_closed:
  "snd (planner_start w) \<noteq> None \<Longrightarrow> all_closed (fst (planner_start w))"
  "snd (rollback_clients w) \<noteq> None \<Longrightarrow> all_closed (fst (rollback_clients w))"
  "snd (optimizer_start w) \<noteq> None \<Longrightarrow> all_closed (fst (optimizer_start w))"
  "snd (vision_start w) \<noteq> None \<Longrightarrow> all_closed (fst (vision_start w))"
  "snd (fst (operator_start w f k)) \<noteq> None \<Longrightarrow> all_closed (fst (fst (operator_start w f k)))"
  "snd (forensic_start w) \<noteq> None \<Longrightarrow> all_closed (fst (forensic_start w))"
  by (auto simp: planner_start_def rollback_clients_def optimizer_start_def vision_start_def operator_start_def
      forensic_start_def all_closed_def no_clients_def Let_def from_env_closed split: sum.splits)

lemma executor_start_leaks:
  fixes w :: "('t, 'g, 'v) world" and ts :: "'t ts_store"
  assumes "tt_from_env (wd_getenv w) = Inr ts" and "opened (wd_pool w (tt_dsn ts) (tt_min_size ts) (tt_max_size ts)) \<noteq> None"
  shows "\<not> all_closed (fst (agent_session (executor_start w (Inl e))))"
proof -
  have "tt_pool ts = None" using from_env_closed(1) [OF assms(1)] by (simp add: tt_enabled_def)
  then have "tt_enabled (ts_opened w ts)"
    using assms(2) by (simp add: ts_opened_def tt_connect_def connect_once_def tt_enabled_def split_beta)
  then show ?thesis using assms(1) by (simp add: executor_start_def agent_session_def all_closed_def no_clients_def)
qed

text \<open>The Planner ticks once and then at every timeout before the stop.\<close>

lemma planner_waits_until_stop:
  "planner_waits env cfg (map Some nows @ None # ws) i = planner_waits env cfg (map Some nows) i"
  by (induction nows arbitrary: i) (auto split: prod.splits)

lemma planner_serve_ticks:
  "planner_serve env cfg now (map Some nows @ None # ws) i = planner_waits env cfg (map Some (now # nows)) i"
  by (simp add: planner_serve_def planner_waits_until_stop)

section \<open>Services\<close>

text \<open>The fleet view and the ingestion open the time series store they are given, or one of their own.\<close>

definition service_store :: "('t, 'g, 'v) world \<Rightarrow> 't ts_store option \<Rightarrow> 't ts_store res" where
  "service_store w given =
     res_bind (case given of Some ts \<Rightarrow> Inr ts | None \<Rightarrow> tt_from_env (wd_getenv w)) (\<lambda>ts. Inr (ts_opened w ts))"

definition service_session :: "('t, 'g, 'v) world \<Rightarrow> 't ts_store option \<Rightarrow> 't ts_store res" where
  "service_session w given = res_bind (service_store w given) (\<lambda>ts. Inr (tt_close ts))"

lemma service_closes: "service_session w given = Inr ts \<Longrightarrow> \<not> tt_enabled ts"
  using timescale.close_disables by (auto simp: service_session_def)

text \<open>The site and the seed of the simulator's generator; \<open>hash\<close> is the salted hash of a text.\<close>

definition simulator_setup :: "(string \<Rightarrow> string option) \<Rightarrow> (string \<Rightarrow> int) \<Rightarrow> string option \<Rightarrow> (site_spec \<times> int) res" where
  "simulator_setup getenv hash site_arg =
     (let name = (case site_arg of Some s \<Rightarrow> s | None \<Rightarrow> getenv_or getenv ''SITE_ID'' ''frankfurt'')
      in res_bind (get_site name) (\<lambda>site.
         res_bind (env_int getenv ''DEMO_RANDOM_SEED'' ''42'') (\<lambda>seed. Inr (site, seed + hash (ss_id site) mod 10000))))"

text \<open>Two runs under the same seed of the environment draw alike only if the salted hashes agree.\<close>

lemma seed_depends_on_salt:
  assumes "simulator_setup getenv hash s = Inr (site, a)" and "simulator_setup getenv hash' s = Inr (site', b)"
  shows "a = b \<longleftrightarrow> hash (ss_id site) mod 10000 = hash' (ss_id site) mod 10000"
  using assms by (auto simp: simulator_setup_def Let_def)

end
