(* ===== verification/Spec2Isabelle.thy ===== *)
theory Spec2Isabelle
  imports Sentinel Correlator Rollback Optimizer Planner Operator Forensic FleetView Bus AuditSink Ingestion Mocks Simulator Vision Api Bench Seeding Training Corpora Clients Lifecycle
begin

text \<open>
  DCOps Copilot: a model of the operations platform of a multi-site data centre.

  \<^bold>\<open>The program.\<close> Simulated or polled devices publish telemetry on a Redis bus; the ingestion writer stores it.
  Sentinel keeps a window per device and predicts failures from rules and a model. Forensic turns a
  prediction into an incident report with the help of a language model; Optimizer turns a report into
  a migration recommendation by constraint solving; Executor asks the policy engine and makes an HTTP
  call; Rollback compares KPIs before and after and undoes what made them worse. Planner forecasts,
  Operator and Vision answer questions, the control plane watches the fleet and spreads rules between
  sites, the audit sink archives every language model call, and the HTTP API reads all of it back.

  \<^bold>\<open>Theories and sources\<close> (paths under \<open>src/apps\<close>, where they do not start with \<open>scripts\<close> or \<open>benchmarks\<close>, which are under \<open>src\<close>).
  \<^item> \<open>Prelude\<close>: Python values, errors, dictionaries, deques, strings and numbers. \<open>Interfaces\<close>: effects
    and the locales for cooldown gates, capped logs and Redis lists.
  \<^item> \<open>Schema\<close>: \<open>ingestion/schema.py\<close>, \<open>agents/shared/events.py\<close>. \<open>Bus\<close>: \<open>agents/shared/event_bus.py\<close>,
    \<open>agents/shared/base.py\<close> and the subscriptions of all agents.
  \<^item> \<open>Window\<close>, \<open>Rules\<close>, \<open>Features\<close>, \<open>Sentinel\<close>: \<open>agents/sentinel\<close>.
  \<^item> \<open>Router\<close>, \<open>Quality\<close>, \<open>Grounding\<close>, \<open>Retrieval\<close>: \<open>agents/shared/llm_router.py\<close>, \<open>agents/shared/quality\<close>,
    \<open>ts_client.py\<close>, \<open>kg_client.py\<close>. \<open>Forensic\<close>, \<open>Operator\<close>, \<open>Vision\<close>: the agents of these names.
  \<^item> \<open>Solver\<close>, \<open>Optimizer\<close>, \<open>Planner\<close>, \<open>Executor\<close>, \<open>Rollback\<close>: the agents of these names.
  \<^item> \<open>Policy\<close>, \<open>Correlator\<close>, \<open>FleetView\<close>: \<open>control_plane\<close>. \<open>AuditSink\<close>: \<open>audit/sink.py\<close>, \<open>blob_client.py\<close>.
  \<^item> \<open>Normalizers\<close>, \<open>Ingestion\<close>: \<open>ingestion\<close>. \<open>Mocks\<close>: \<open>mocks\<close>. \<open>Physics\<close>, \<open>Simulator\<close>: \<open>physics\<close>, \<open>simulator\<close>.
  \<^item> \<open>Api\<close>: \<open>api/routes\<close>. \<open>Clients\<close>: the LLM back ends (\<open>agents/shared/llm_backends\<close>), the life cycle of the clients
    (\<open>vector_client.py\<close>, \<open>ts_client.py\<close>, \<open>kg_client.py\<close>, under one locale), \<open>logging.py\<close>, the HTTP helper of the
    normalizers and \<open>api/main.py\<close>. \<open>Lifecycle\<close>: \<open>on_start\<close>, \<open>on_stop\<close> and the Planner's \<open>serve\<close>.
  \<^item> \<open>Bench\<close>: \<open>benchmarks\<close>. \<open>Training\<close>: \<open>scripts/train_sentinel.py\<close>. \<open>Seeding\<close>: \<open>scripts/seed_graph.py\<close>,
    \<open>seed_telemetry_sample.py\<close>, \<open>inject_failure.py\<close>. \<open>Corpora\<close>: the two corpora of \<open>scripts\<close> and what seeds them.

  \<^bold>\<open>Conventions.\<close> Classes are records (subclasses extend them), enumerations datatypes with the sources'
  names, dictionaries association lists in insertion order. A handler maps its configuration, its
  environment, the clock reading, the event and its state to the effects it asks for, the new state
  and the exception that escapes, if one does; an effect is a bus message, a Redis command or an HTTP
  call, and where the code catches the failure of a group of effects, the group ends there. Integers
  are \<open>int\<close>, as Python's do not wrap. Floating point numbers are reals without rounding, and a NaN is
  an absent value. Identifiers the code draws at random are taken from a counter. Text is a list of
  bytes, characters outside ASCII by their UTF-8 encoding.

  \<^bold>\<open>Parameters.\<close> What is not in the repository is an argument: the answers of language models, databases,
  Redis, Chroma, Prophet, pandas, scikit-learn, XGBoost and HTTP services, the constraint solver, JSON and YAML parsing of
  whole documents, printing and parsing of times, the evaluator of custom policy rules, SHA-256, the
  salted string hash and the random generator. What a property needs of them is a named hypothesis
  or a locale (\<open>redis_lists\<close>, \<open>redis_patterns\<close>, \<open>consumer_group\<close>, \<open>llm_client\<close>, \<open>guarded_client\<close>), which is interpreted
  on the model's own definitions or on a concrete store.

  \<^bold>\<open>What the lemmas show.\<close> Each theory first states how its operations behave on every branch, then the
  properties that rest on them: approvals and roll-backs are justified, plans keep within the racks'
  headroom, predictions and propagations are spaced, budgets bound what models cost, guards bound what
  SQL reaches the database, acknowledged audit records are stored, normalizers and the simulator send valid
  events only, the training labels and features are those the agent's windows call for, what is seeded passes the guards of
  its readers. The properties across agents are below.

  \<^bold>\<open>Recursion.\<close> Loops over lists are structural. Retry loops count down the attempts the code allows.
  The endless loops of agents, writer, sink, simulator and control plane are iterated over a list of
  events or a number of rounds, so that a property holds after any number; the sink and the roll-back
  tasks are also step relations, for the interleavings. The scanners of texts terminate because each
  step consumes a character.

  \<^bold>\<open>Not modelled.\<close> The output of the log, signal handlers and command lines; the two entry points that only
  start the control plane's and the audit sink's tasks; the prompt texts, which nothing imports; the security example.
  The manifest lists each.
\<close>

section \<open>Across components\<close>

lemma default_policies_allow:
  assumes "policy_evaluate py_eval default_policies rec now = Inr (APPROVED, None, applied)"
  shows "length (rec_target_device_ids rec) \<le> 8 \<and>
    (rec_kind rec = ''workload_migration'' \<longrightarrow> 6 \<le> utc_hour now \<and> utc_hour now < 22) \<and>
    \<not> rec_requires_human_approval rec"
proof -
  from approved_allows [OF assms] have
    a: "list_all (allows now rec) (filter (\<lambda>p. applies p rec) default_policies)"
    and h: "\<not> rec_requires_human_approval rec" by auto
  have "filter (\<lambda>p. applies p rec) default_policies = default_policies"
    by (simp add: default_policies_def applies_def)
  with a have 1: "allows now rec (default_policies ! 0)" and 2: "allows now rec (default_policies ! 1)"
    by (simp_all add: default_policies_def)
  from 1 have n: "length (rec_target_device_ids rec) \<le> 8"
    by (auto simp: allows_def default_policies_def)
  have "0 \<le> utc_hour now" "utc_hour now < 24" by (simp_all add: utc_hour_def)
  with 2 have "rec_kind rec = ''workload_migration'' \<longrightarrow> 6 \<le> utc_hour now \<and> utc_hour now < 22"
    by (auto simp: allows_def default_policies_def eval_blackout_window_def in_window_def Let_def split: if_splits)
  with n h show ?thesis by blast
qed

lemma published_recommendation:
  "Publish topic (MRecommendation rec) \<in> set (publish_and_persist env cfg r) \<Longrightarrow> rec = r"
  using set_attempt [of "op_ok env" "[LPush RECOMMENDATIONS_REDIS_LIST (MRecommendation r),
    LTrim RECOMMENDATIONS_REDIS_LIST 0 (oc_keep cfg - 1)]"]
  by (auto simp: publish_and_persist_def)

lemma optimizer_publishes:
  assumes "optimizer_handle env cfg now event s = (out, s1, r)" and "Publish topic (MRecommendation rec) \<in> set out"
  shows "\<exists>rack_id ctx. rack_for (hd (ir_affected_device_ids event)) = Some rack_id \<and> ir_affected_device_ids event \<noteq> [] \<and>
    gather_context env cfg (ev_site_id event) rack_id = Inr (Some ctx) \<and> si_incident_rack_id ctx = rack_id \<and>
    so_moves (solve (op_ortools env) (op_cp_solve env) ctx) \<noteq> [] \<and>
    rec = build_recommendation now (optimizer_state.os_next_id s) event (solve (op_ortools env) (op_cp_solve env) ctx)"
proof -
  from assms(2) have "out \<noteq> []" by auto
  with assms(1) show ?thesis
  proof (rule optimizer_out)
    fix device rest rack_id ctx
    let ?o = "solve (op_ortools env) (op_cp_solve env) ctx"
    assume a: "ir_affected_device_ids event = device # rest" "rack_for device = Some rack_id"
      "gather_context env cfg (ev_site_id event) rack_id = Inr (Some ctx)" "so_moves ?o \<noteq> []"
      "out = publish_and_persist env cfg (build_recommendation now (optimizer_state.os_next_id s) event ?o)"
    from published_recommendation assms(2) a(5) have
      "rec = build_recommendation now (optimizer_state.os_next_id s) event ?o" by metis
    with a gather_incident [OF a(3)] show ?thesis by auto
  qed
qed

text \<open>C21: what an agent may spend per event: whatever the models answer, one prediction costs the Forensic
  agent at most eight calls of its router (three attempts, a critic's round, two attempts to fix device
  names), one request the Vision agent at most eight, and one question the Operator at most five.\<close>

theorem agents_llm_calls_bounded:
  "extends_by 8 (metered_charges (fs_llm fst0))
     (metered_charges (fs_llm (fst (snd (forensic_handle fcfg (fenv\<lparr>fe_call := metered_call renv clock\<rparr>) now pf fst0))))) \<and>
   extends_by 8 (metered_charges (vs_llm vst))
     (metered_charges (vs_llm (fst (snd (vision_handle vcfg (venv\<lparr>ve_call := metered_call renv clock\<rparr>) now vev vst))))) \<and>
   extends_by 5 (metered_charges (or_llm ost))
     (metered_charges (or_llm (fst (snd (operator_handle ocfg (oenv\<lparr>oe_call := metered_call renv clock\<rparr>) now ev ost)))))"
proof (intro conjI)
  let ?v = "vision_handle vcfg (venv\<lparr>ve_call := metered_call renv clock\<rparr>) now vev vst"
  have call: "ve_call (venv\<lparr>ve_call := metered_call renv clock\<rparr>) = metered_call renv clock" by simp
  have "?v = (fst ?v, fst (snd ?v), snd (snd ?v))" by simp
  from metered.vision_calls [OF call this] show "extends_by 8 (metered_charges (vs_llm vst))
      (metered_charges (vs_llm (fst (snd ?v))))" by simp
next
  let ?f = "forensic_handle fcfg (fenv\<lparr>fe_call := metered_call renv clock\<rparr>) now pf fst0"
  have call: "fe_call (fenv\<lparr>fe_call := metered_call renv clock\<rparr>) = metered_call renv clock" by simp
  have "?f = (fst ?f, fst (snd ?f), snd (snd ?f))" by simp
  from metered.forensic_calls [OF call this] show "extends_by 8 (metered_charges (fs_llm fst0))
      (metered_charges (fs_llm (fst (snd ?f))))" by simp
next
  let ?o = "operator_handle ocfg (oenv\<lparr>oe_call := metered_call renv clock\<rparr>) now ev ost"
  have call: "oe_call (oenv\<lparr>oe_call := metered_call renv clock\<rparr>) = metered_call renv clock" by simp
  have "?o = (fst ?o, fst (snd ?o), snd (snd ?o))" by simp
  from metered.operator_calls [OF call this] show "extends_by 5 (metered_charges (or_llm ost))
      (metered_charges (or_llm (fst (snd ?o))))" by simp
qed

text \<open>C19: the remediation loop is gated: when an incident report of the Forensic agent leads the Optimizer to
  a recommendation and the Executor, under the default policies, makes an HTTP call for it, then it
  makes exactly one, the plan had at most three moves off the rack of the report's first device,
  the hour is outside the nightly freeze, and the chain of parents leads back to the prediction.\<close>

theorem remediation_loop_gated:
  assumes "forensic_handle fcfg fenv t0 pf fst0 = (facts, fst1, ferr)"
    and "Report (Publish ft (MIncident rep)) \<in> set facts"
    and "optimizer_handle oenv ocfg t1 rep os = (oacts, os1, oerr)"
    and "Publish ot (MRecommendation rec) \<in> set oacts"
    and "executor_handle xenv xcfg t2 (Parsed rec) xs = (xacts, xs1, xerr)"
    and "xc_policies xcfg = default_policies" and "HttpPost url payload \<in> set xacts"
  shows "length (filter is_post xacts) = 1 \<and> 6 \<le> utc_hour t2 \<and> utc_hour t2 < 22 \<and>
    (\<exists>rack_id ctx. rack_for (hd (ir_affected_device_ids rep)) = Some rack_id \<and> si_incident_rack_id ctx = rack_id \<and>
       1 \<le> length (so_moves (solve (op_ortools oenv) (op_cp_solve oenv) ctx)) \<and>
       length (so_moves (solve (op_ortools oenv) (op_cp_solve oenv) ctx)) \<le> 3 \<and>
       set (rec_target_device_ids rec) = (\<lambda>m. remove_prefix ''wl-'' (mv_workload_id m)) `
         set (so_moves (solve (op_ortools oenv) (op_cp_solve oenv) ctx))) \<and>
    ev_parent_event_id rec = Some (ev_id rep) \<and> ev_parent_event_id rep = Some (ev_id pf)"
proof -
  from forensic_report_fields [OF assms(1,2)] have rep: "ev_parent_event_id rep = Some (ev_id pf)" by blast
  from optimizer_publishes [OF assms(3,4)] obtain rack_id ctx where
    o: "rack_for (hd (ir_affected_device_ids rep)) = Some rack_id" "si_incident_rack_id ctx = rack_id"
       "so_moves (solve (op_ortools oenv) (op_cp_solve oenv) ctx) \<noteq> []"
    and rec: "rec = build_recommendation t1 (optimizer_state.os_next_id os) rep (solve (op_ortools oenv) (op_cp_solve oenv) ctx)"
    by blast
  from assms(7) have ne: "filter is_post xacts \<noteq> []" by (metis filter_empty_conv is_post.simps(1))
  note posts = handle_posts [OF assms(5)]
  with ne assms(6) obtain applied where
    "policy_evaluate (xe_eval xenv) default_policies rec t2 = Inr (APPROVED, None, applied)" by auto
  note allowed = default_policies_allow [OF this]
  from posts ne have "length (filter is_post xacts) = 1" by (cases "filter is_post xacts") auto
  moreover have "rec_kind rec = ''workload_migration''" by (simp add: rec)
  moreover have "length (so_moves (solve (op_ortools oenv) (op_cp_solve oenv) ctx)) \<le> 3"
    using allowed by (simp add: rec)
  ultimately show ?thesis
    using allowed rep o by (auto simp: rec Suc_le_eq)
qed

text \<open>A run of the whole loop: a prediction about a server of rack r07, handled at noon.\<close>

lemma sample_policies_approve:
  assumes "rec_kind rec = ''workload_migration''" and "length (rec_target_device_ids rec) \<le> 8"
    and "\<not> rec_requires_human_approval rec"
  shows "\<exists>applied. policy_evaluate (\<lambda>c e. None) default_policies rec 43200 = Inr (APPROVED, None, applied)"
proof -
  have "utc_hour 43200 = 12" by (simp add: utc_hour_def)
  moreover from assms(2) have "int (length (rec_target_device_ids rec)) \<le> 8" by simp
  moreover have "eval_custom (\<lambda>c e. None) p rec = (APPROVED, None)" for p
    by (simp add: eval_custom_def split: option.splits)
  ultimately show ?thesis
    using assms by (simp add: policy_eval_defs default_policies_def eval_blackout_window_def in_window_def Let_def)
qed

definition sample_executor_config :: executor_config where
  "sample_executor_config = \<lparr>xc_base_url = Some ''http://mocks'', xc_keep = 500, xc_policies = default_policies\<rparr>"

lemma sample_execution:
  assumes "rec_kind rec = ''workload_migration''" and "length (rec_target_device_ids rec) \<le> 8"
    and "\<not> rec_requires_human_approval rec"
  shows "\<exists>out s1 r url payload. executor_handle sample_env sample_executor_config 43200 (Parsed rec) \<lparr>ex_next_id = 0\<rparr> =
    (out, s1, r) \<and> HttpPost url payload \<in> set out"
proof -
  from sample_policies_approve [OF assms] obtain applied where
    "policy_evaluate (xe_eval sample_env) (xc_policies sample_executor_config) rec 43200 = Inr (APPROVED, None, applied)"
    by (auto simp: sample_env_def sample_executor_config_def)
  then have "executor_handle sample_env sample_executor_config 43200 (Parsed rec) \<lparr>ex_next_id = 0\<rparr> =
      execute sample_env sample_executor_config 43200 rec \<lparr>ex_next_id = 0\<rparr>"
    by (simp add: executor_handle_def)
  moreover have "\<exists>url payload. HttpPost url payload \<in> set (fst (execute sample_env sample_executor_config 43200 rec \<lparr>ex_next_id = 0\<rparr>))"
    using assms(1)
    by (simp add: execute_def resolve_def HANDLERS_def handle_workload_migration_def post_action_def sample_env_def
        sample_executor_config_def Let_def) blast
  ultimately show ?thesis by (metis prod.collapse)
qed

theorem remediation_loop_gated_witness:
  "\<exists>(rep :: incident_report) (rec :: recommendation). ev_parent_event_id rec = Some (ev_id rep) \<and> ev_parent_event_id rep = Some (ev_id sample_prediction) \<and>
     rack_for (hd (ir_affected_device_ids rep)) = Some ''fra-h1-r07'' \<and> 6 \<le> utc_hour 43200"
proof -
  from sample_forensic_run [of 0 sample_prediction "''{}''"] obtain acts st' rep where
    f: "forensic_handle sample_forensic_config sample_forensic_env 0 sample_prediction
        \<lparr>fs_llm = [''{}''], fs_cache = (), fs_next_id = 0\<rparr> = (acts, st', None)"
       "Report (Publish (topic_value INCIDENTS_REPORT) (MIncident rep)) \<in> set acts"
    and devs: "ir_affected_device_ids rep = ''fra-h1-r07-srv01'' # [''fra-h1-r07-srv02'']" by blast
  let ?plan = "solve None (op_cp_solve sample_optimizer_env) sample_context"
  define rec where "rec = build_recommendation 1 0 rep ?plan"
  from sample_optimizer_run [OF devs, of 1] obtain s1 where
    o: "optimizer_handle sample_optimizer_env optimizer_defaults 1 rep \<lparr>optimizer_state.os_next_id = 0\<rparr> =
        (publish_and_persist sample_optimizer_env optimizer_defaults rec, s1, None)"
    unfolding rec_def by blast
  have pub: "Publish (''recommendations.'' @ rec_kind rec) (MRecommendation rec)
      \<in> set (publish_and_persist sample_optimizer_env optimizer_defaults rec)"
    by (simp add: publish_and_persist_def)
  have "length (rec_target_device_ids rec) \<le> length (so_moves ?plan)"
    using length_remdups_leq by (simp add: rec_def sorted_set_def) (metis length_map length_remdups_leq)
  then have "length (rec_target_device_ids rec) \<le> 8" "\<not> rec_requires_human_approval rec"
    "rec_kind rec = ''workload_migration''" using sample_plan(2) by (simp_all add: rec_def)
  from sample_execution [OF this(3,1,2)] obtain xacts xs1 xerr url payload where
    x: "executor_handle sample_env sample_executor_config 43200 (Parsed rec) \<lparr>ex_next_id = 0\<rparr> = (xacts, xs1, xerr)"
       "HttpPost url payload \<in> set xacts" by blast
  have "xc_policies sample_executor_config = default_policies" by (simp add: sample_executor_config_def)
  from remediation_loop_gated [OF f o pub x(1) this x(2)] have
    "ev_parent_event_id rec = Some (ev_id rep)" "ev_parent_event_id rep = Some (ev_id sample_prediction)"
    "6 \<le> utc_hour 43200" by blast+
  moreover have "rack_for (hd (ir_affected_device_ids rep)) = Some ''fra-h1-r07''"
    by (simp add: devs rack_for_def)
  ultimately show ?thesis by (intro exI [of _ rep] exI [of _ rec] conjI)
qed

section \<open>Who can set off whom\<close>

text \<open>The topics published on, and the agents a list of effects can reach.\<close>

fun topic_of :: "'m effect \<Rightarrow> string option" where
  "topic_of (Publish topic m) = Some topic"
| "topic_of _ = None"

definition reaches_only :: "(string \<Rightarrow> string \<Rightarrow> bool) \<Rightarrow> 'm effect list \<Rightarrow> string list \<Rightarrow> bool" where
  "reaches_only glob out agents \<longleftrightarrow>
     list_all (\<lambda>e. case topic_of e of None \<Rightarrow> True | Some topic \<Rightarrow> set (receivers glob topic) \<subseteq> set agents) out"

text \<open>The agents one agent's publications are served by, and those at the end of a chain of \<open>n\<close> such steps.\<close>

definition downstream :: "string \<Rightarrow> string list" where
  "downstream agent = get_def
     [(''sentinel'', [''forensic'', ''correlator'']), (''forensic'', [''optimizer'']), (''optimizer'', [''executor'']),
      (''executor'', [''rollback'']), (''operator'', [''operator''])] agent []"

fun chain_ends :: "nat \<Rightarrow> string \<Rightarrow> string list" where
  "chain_ends 0 agent = [agent]"
| "chain_ends (Suc n) agent = concat (map (chain_ends n) (downstream agent))"

fun report_of :: "forensic_action \<Rightarrow> bus_msg effect list" where
  "report_of (Report e) = [e]"
| "report_of _ = []"

fun send_of :: "operator_action \<Rightarrow> bus_msg effect list" where
  "send_of (Send e) = [e]"
| "send_of _ = []"

lemma topic_of_Some: "topic_of e = Some t \<longleftrightarrow> (\<exists>m. e = Publish t m)"
  by (cases e) auto

lemma reaches_onlyI:
  assumes "\<And>t m. Publish t m \<in> set out \<Longrightarrow> set (receivers glob t) \<subseteq> set agents"
  shows "reaches_only glob out agents"
  unfolding reaches_only_def list_all_iff
  using assms by (auto simp: topic_of_Some split: option.splits)

lemma attempt_topic: "Publish t m \<in> set (attempt ok es) \<Longrightarrow> Publish t m \<in> set es"
  using set_attempt by fast

lemma sentinel_topics:
  assumes "(now, Publish t m) \<in> set (fst (sentinel_step cfg fromiso x s))"
  shows "t = ''predictions.failure''"
proof -
  have d: "infer_device cfg fromiso now tick d s = (out, s1, r) \<Longrightarrow> Publish t m \<in> set out \<Longrightarrow> t = ''predictions.failure''"
    for now tick d s out s1 r
    by (auto simp: infer_device_def Let_def split_beta split: option.splits sum.splits if_splits)
  from assms show ?thesis
    by (cases x) (auto split: list.splits prod.splits option.splits dest: d)
qed

lemma correlator_topics:
  assumes "Publish t m \<in> set (fst (correlator_handle cfg ok now v co))"
  shows "prefix ''federation.rule_candidate.'' t"
proof -
  have f: "Publish t m \<in> set (fst (fan_out cfg ok now o' k c n ds ts eid)) \<Longrightarrow> prefix ''federation.rule_candidate.'' t"
    for o' k c n ds ts eid
    by (induction ts arbitrary: eid)
      (auto simp: Let_def split_beta persist_candidate_def split: if_splits dest!: attempt_topic)
  show ?thesis
  proof (cases v)
    case (PDict event)
    obtain found co1 where "record_prediction cfg now event co = (found, co1)" by fastforce
    with assms PDict show ?thesis
      by (cases found) (auto simp: correlator_handle.simps Let_def split_beta intro: f)
  qed (use assms in auto)
qed

lemma forensic_topics:
  "Publish t m \<in> set (concat (map report_of (fst (forensic_handle cfg env now event st)))) \<Longrightarrow> t = ''incidents.report''"
  by (auto simp: forensic_handle_def persist_and_publish_def Let_def split: sum.splits py_error.splits prod.splits if_splits)

lemma optimizer_topics:
  assumes "Publish t m \<in> set (fst (optimizer_handle env cfg now event s))"
  shows "t = ''recommendations.workload_migration''"
  using assms
  by (auto simp: optimizer_handle_def publish_and_persist_def Let_def split: list.splits option.splits sum.splits if_splits
      dest!: attempt_topic)

lemma post_topic: "filter is_post out = out \<Longrightarrow> Publish t m \<notin> set out"
  by (auto simp: filter_id_conv)

lemma executor_topics:
  assumes "Publish t m \<in> set (fst (executor_handle env cfg now event s))"
  shows "t \<in> {''actions.executed'', ''actions.needs_human''}"
proof -
  have e: "t = ''actions.executed''" if "Publish t m \<in> set (fst (execute env cfg now rec s))" for rec
  proof -
    obtain out s1 r where x: "execute env cfg now rec s = (out, s1, r)" by (metis prod.exhaust)
    from x show ?thesis
      using that by (cases rule: execute_out) (auto simp: persist_action_def x post_topic dest!: attempt_topic)
  qed
  show ?thesis
    using assms
    by (auto simp: executor_handle_def record_denied_def persist_action_def publish_needs_human_def
        split: option.splits sum.splits prod.splits if_splits dest!: attempt_topic dest: e)
qed

lemma rollback_topics:
  assumes "Publish t m \<in> set (fst (rollback_step env base x s))"
  shows "t = ''actions.rolled_back''"
proof -
  have p: "Publish t m \<notin> set (fst (post_action env base path body))" for path body
    using post_action_out [of env base path body] by (cases "post_action env base path body") auto
  from assms show ?thesis
    by (cases x) (auto simp: verify_later_def verify_def trigger_revert_def revert_def Let_def split_beta p split: if_splits)
qed

lemma planner_topics:
  assumes "Publish t m \<in> set (fst (run_tick env cfg now eid))"
  shows "prefix ''forecasts.'' t"
proof -
  have h: "Publish t m \<in> set (fst (horizon_loop env cfg now site met hist hs eid)) \<Longrightarrow> prefix ''forecasts.'' t"
    for site met hist hs eid
    by (induction hs arbitrary: eid) (auto simp: Let_def split_beta publish_and_cache_def)
  have "Publish t m \<in> set (fst (tick_loop env cfg now sets eid)) \<Longrightarrow> prefix ''forecasts.'' t" for sets eid
    by (induction sets arbitrary: eid) (auto simp: Let_def split_beta forecast_one_def dest: h)
  with assms show ?thesis by (auto simp: run_tick_def)
qed

lemma operator_topics:
  assumes "Publish t m \<in> set (concat (map send_of (fst (operator_handle cfg env now event st))))"
  shows "t = ''query.result''"
proof -
  have run: "execute_sql ts sql = (rows, run) \<Longrightarrow> x \<in> set run \<Longrightarrow> send_of x = []" for ts sql rows run x
    by (auto simp: execute_sql_def split: if_splits prod.splits sum.splits)
  from assms show ?thesis
    by (auto simp: operator_handle_def Let_def split: option.splits sum.splits py_error.splits prod.splits if_splits dest: run)
qed

lemma vision_topics:
  "Publish t m \<in> set (fst (vision_handle cfg env now event st)) \<Longrightarrow> t = VISION_TOPIC_OUT"
  by (auto simp: vision_handle_def split: option.splits sum.splits py_error.splits prod.splits)

lemma chains_end: "agent \<noteq> ''operator'' \<Longrightarrow> chain_ends 5 agent = []"
proof (cases "agent \<in> {''sentinel'', ''forensic'', ''optimizer'', ''executor''}")
  case True
  moreover have "chain_ends 5 ''sentinel'' = []" "chain_ends 5 ''forensic'' = []" "chain_ends 5 ''optimizer'' = []"
    "chain_ends 5 ''executor'' = []" by code_simp+
  ultimately show ?thesis by blast
next
  case False
  moreover assume "agent \<noteq> ''operator''"
  ultimately have "downstream agent = []" by (simp add: downstream_def get_def_def)
  then show ?thesis by (simp add: eval_nat_numeral)
qed

lemma received:
  assumes "redis_patterns glob"
  shows "receivers glob ''predictions.failure'' = [''forensic'', ''correlator'']"
    "receivers glob ''incidents.report'' = [''optimizer'']"
    "receivers glob ''recommendations.workload_migration'' = [''executor'']"
    "receivers glob ''actions.executed'' = [''rollback'']" "receivers glob ''actions.needs_human'' = []"
    "receivers glob ''actions.rolled_back'' = []" "receivers glob ''query.result'' = [''operator'']"
    "receivers glob VISION_TOPIC_OUT = []" "receivers glob BUDGET_TOPIC = []"
    "prefix ''federation.rule_candidate.'' t \<Longrightarrow> receivers glob t = []" "prefix ''forecasts.'' t \<Longrightarrow> receivers glob t = []"
  using receivers_plain_topics [OF assms] by (auto simp: VISION_TOPIC_OUT_def BUDGET_TOPIC_def prefix_def)

text \<open>C20: the agents set each other off in one direction only: what an agent publishes reaches no agent but those after it
  in the remediation pipeline (Sentinel, then Forensic and the correlator, the Optimizer, the Executor, the Rollback agent),
  so whatever a batch of telemetry sets off has ended after five steps; the agents beside the pipeline reach nobody. The
  Operator alone is its own audience. A budget alert of the router reaches nobody either.\<close>

theorem pipeline_is_one_way:
  assumes "redis_patterns glob"
  shows "reaches_only glob (map snd (fst (sentinel_step scfg fromiso x se))) (downstream ''sentinel'') \<and>
    reaches_only glob (fst (correlator_handle ccfg ok now v co)) (downstream ''correlator'') \<and>
    reaches_only glob (concat (map report_of (fst (forensic_handle fcfg fenv now pf fs)))) (downstream ''forensic'') \<and>
    reaches_only glob (fst (optimizer_handle oenv ocfg now report os)) (downstream ''optimizer'') \<and>
    reaches_only glob (fst (executor_handle xenv xcfg now event xs)) (downstream ''executor'') \<and>
    reaches_only glob (fst (rollback_step xenv base y rs)) (downstream ''rollback'') \<and>
    reaches_only glob (fst (run_tick penv pcfg now eid)) (downstream ''planner'') \<and>
    reaches_only glob (fst (vision_handle vcfg venv now v vs)) (downstream ''vision'') \<and>
    reaches_only glob (concat (map send_of (fst (operator_handle qcfg qenv now v qs)))) (downstream ''operator'') \<and>
    receivers glob BUDGET_TOPIC = [] \<and> (agent = ''operator'' \<or> chain_ends 5 agent = [])"
proof (intro conjI)
  note r = received [OF assms]
  show "reaches_only glob (map snd (fst (sentinel_step scfg fromiso x se))) (downstream ''sentinel'')"
    by (rule reaches_onlyI) (auto simp: r downstream_def get_def_def dest!: sentinel_topics)
  show "reaches_only glob (fst (correlator_handle ccfg ok now v co)) (downstream ''correlator'')"
    by (rule reaches_onlyI) (drule correlator_topics, simp add: r)
  show "reaches_only glob (concat (map report_of (fst (forensic_handle fcfg fenv now pf fs)))) (downstream ''forensic'')"
    by (rule reaches_onlyI) (drule forensic_topics, simp add: r downstream_def get_def_def)
  show "reaches_only glob (fst (optimizer_handle oenv ocfg now report os)) (downstream ''optimizer'')"
    by (rule reaches_onlyI) (drule optimizer_topics, simp add: r downstream_def get_def_def)
  show "reaches_only glob (fst (executor_handle xenv xcfg now event xs)) (downstream ''executor'')"
    by (rule reaches_onlyI) (drule executor_topics, auto simp: r downstream_def get_def_def)
  show "reaches_only glob (fst (rollback_step xenv base y rs)) (downstream ''rollback'')"
    by (rule reaches_onlyI) (drule rollback_topics, simp add: r)
  show "reaches_only glob (fst (run_tick penv pcfg now eid)) (downstream ''planner'')"
    by (rule reaches_onlyI) (drule planner_topics, simp add: r)
  show "reaches_only glob (fst (vision_handle vcfg venv now v vs)) (downstream ''vision'')"
    by (rule reaches_onlyI) (drule vision_topics, simp add: r)
  show "reaches_only glob (concat (map send_of (fst (operator_handle qcfg qenv now v qs)))) (downstream ''operator'')"
    by (rule reaches_onlyI) (drule operator_topics, simp add: r downstream_def get_def_def)
  show "receivers glob BUDGET_TOPIC = []" by (rule r)
  show "agent = ''operator'' \<or> chain_ends 5 agent = []" using chains_end by blast
qed

theorem pipeline_is_one_way_witness:
  "\<exists>rep out s1. optimizer_handle sample_optimizer_env optimizer_defaults 1 rep \<lparr>optimizer_state.os_next_id = 0\<rparr> = (out, s1, None) \<and>
     (\<exists>m. Publish ''recommendations.workload_migration'' m \<in> set out) \<and> reaches_only star_match out [''executor''] \<and>
     receivers star_match ''recommendations.workload_migration'' = [''executor''] \<and> chain_ends 3 ''optimizer'' = []"
proof -
  from sample_forensic_run [of 0 sample_prediction "''{}''"] obtain rep :: incident_report where
    "ir_affected_device_ids rep = ''fra-h1-r07-srv01'' # [''fra-h1-r07-srv02'']" by blast
  from sample_optimizer_run [OF this, of 1] obtain out s1 where
    o: "optimizer_handle sample_optimizer_env optimizer_defaults 1 rep \<lparr>optimizer_state.os_next_id = 0\<rparr> = (out, s1, None)"
    and out: "out = publish_and_persist sample_optimizer_env optimizer_defaults
      (build_recommendation 1 0 rep (solve None (op_cp_solve sample_optimizer_env) sample_context))" by blast
  have "reaches_only star_match (fst (optimizer_handle sample_optimizer_env optimizer_defaults 1 rep
      \<lparr>optimizer_state.os_next_id = 0\<rparr>)) (downstream ''optimizer'')"
    by (rule pipeline_is_one_way [THEN conjunct2, THEN conjunct2, THEN conjunct2, THEN conjunct1])
      (rule star.redis_patterns_axioms)
  then have "reaches_only star_match out [''executor'']"
    by (simp add: o downstream_def get_def_def)
  moreover have "\<exists>m. Publish ''recommendations.workload_migration'' m \<in> set out"
    by (simp add: out publish_and_persist_def)
  moreover have "receivers star_match ''recommendations.workload_migration'' = [''executor'']" by code_simp
  moreover have "chain_ends 3 ''optimizer'' = []" by code_simp
  ultimately show ?thesis using o by blast
qed

text \<open>C40: every device the simulator reports is known to the graph: from the halls that the seeding of the site planned its
  statements from, whatever the number of rounds, the clocks and the generator of the load, the check of device ids finds
  nothing missing among ids taken from published telemetry, where the graph holds the nodes of the plan and the query answers
  the ids without a node, as the statement of the check asks.\<close>

theorem simulated_devices_grounded:
  assumes "plan_for_site g seeded site_id region tz = Inr plan" and "get_site site_id = Inr site"
    and "sim_rounds g' now stamp n (build_halls g seeded site) r = (Inr acts, halls, r1)"
    and "\<forall>id \<in> set ids. \<exists>topic e. Publish topic (MTelemetry e) \<in> set acts \<and> te_device_id e = id"
    and "kg_missing_devices kg = (\<lambda>ids. Some (filter (\<lambda>id. (''Device'', id) \<notin> set (nodes plan)) ids))"
  shows "kg_validate_device_ids kg ids = []"
proof -
  let ?I = "set (plan_device_ids plan)"
  have "set (map dev_id (concat (map reported (build_halls g seeded site)))) = ?I"
    using device_ids_plan [OF assms(1,2)] by (metis set_mset_mset)
  then have "\<forall>hall \<in> set (build_halls g seeded site). hall_ids hall \<subseteq> ?I"
    by (force simp: hall_ids_def reported_def device.truncate_def)
  with sim_rounds_names [OF assms(3)] have "names_within ?I acts" by blast
  with assms(4) have "\<forall>id \<in> set ids. (''Device'', id) \<in> set (nodes plan)"
    unfolding names_within_def plan_device_ids_def by fastforce
  then show ?thesis by (simp add: kg_validate_device_ids_def assms(5))
qed

theorem simulated_devices_grounded_witness:
  "\<exists>plan acts. plan_for_site low_rng 0 ''mumbai'' ''ap-south-1'' ''Asia/Kolkata'' = Inr plan \<and>
    (\<exists>site. get_site ''mumbai'' = Inr site \<and>
       fst (sim_rounds low_rng (\<lambda>i j. 0) (\<lambda>i j k. 0) 3 (build_halls low_rng 0 site) 0) = Inr acts) \<and>
    kg_validate_device_ids
      \<lparr>kg_connected = True, kg_missing_devices = (\<lambda>ids. Some (filter (\<lambda>id. (''Device'', id) \<notin> set (nodes plan)) ids)),
       kg_missing_sites = (\<lambda>ids. None), kg_neighbours = (\<lambda>d h. None), kg_register_ok = True\<rparr>
      (concat (map (\<lambda>a. case a of Publish t (MTelemetry e) \<Rightarrow> [te_device_id e] | _ \<Rightarrow> []) acts)) = []"
proof -
  obtain site where s: "get_site ''mumbai'' = Inr site" by (simp add: get_site_def SITES_def)
  then obtain plan where p: "plan_for_site low_rng 0 ''mumbai'' ''ap-south-1'' ''Asia/Kolkata'' = Inr plan"
    by (simp add: plan_for_site_def)
  from get_site_Inr [OF s] have "\<forall>hall \<in> set (build_halls low_rng 0 site). hall_fine ''mumbai'' hall"
    using build_halls_fine [OF low_rng_lawful, of site _ 0] by auto
  from sim_rounds_fine [OF this, of low_rng "\<lambda>i j. 0" "\<lambda>i j k. 0" 3 0] obtain acts halls r1
    where r: "sim_rounds low_rng (\<lambda>i j. 0) (\<lambda>i j k. 0) 3 (build_halls low_rng 0 site) 0 = (Inr acts, halls, r1)" by blast
  let ?kg = "\<lparr>kg_connected = True, kg_missing_devices = (\<lambda>ids. Some (filter (\<lambda>id. (''Device'', id) \<notin> set (nodes plan)) ids)),
       kg_missing_sites = (\<lambda>ids. None), kg_neighbours = (\<lambda>d h. None), kg_register_ok = True\<rparr>"
  let ?ids = "concat (map (\<lambda>a. case a of Publish t (MTelemetry e) \<Rightarrow> [te_device_id e] | _ \<Rightarrow> []) acts)"
  have "\<forall>id \<in> set ?ids. \<exists>topic e. Publish topic (MTelemetry e) \<in> set acts \<and> te_device_id e = id"
    by (auto split: effect.splits bus_msg.splits)
  from simulated_devices_grounded [OF p s r this, of ?kg] p s r show ?thesis by auto
qed

end
